(* ===== verification/Prelude.thy ===== *)
theory Prelude
  imports Main "HOL-Library.Word"
begin

text \<open>
  The material every component of the development shares: the names of the C integer
  types, the C \<open>for\<close> loop whose body may leave it by a \<open>goto\<close>, the interface of a
  loop that makes progress together with its termination and invariant rules, the
  lockstep rule for two loops, and a few facts about lists updated by index.
\<close>

unbundle bit_operations_syntax

named_theorems layout_simps
  \<open>sizes, capacities and permission masks of the C headers\<close>

named_theorems cap_simps
  \<open>what the capability intrinsics return on well-behaved arguments\<close>

type_synonym u8 = "8 word"
type_synonym s16 = "16 word"
type_synonym u32 = "32 word"
type_synonym u64 = "64 word"

subsection \<open>A C loop left by goto\<close>

text \<open>
  \<open>c_loop guard body s\<close> is \<open>for (; guard; ) body\<close> on the state \<open>s\<close>. The body
  returns \<open>Inr s'\<close> to go on with the next iteration and \<open>Inl s'\<close> to leave the loop
  (\<open>goto finish\<close>, \<open>return\<close>, \<open>break\<close>). A loop that never leaves has the value
  \<^term>\<open>None\<close>: returning is something to prove.
\<close>

partial_function (option) c_loop ::
    "('s \<Rightarrow> bool) \<Rightarrow> ('s \<Rightarrow> 's + 's) \<Rightarrow> 's \<Rightarrow> 's option" where
  "c_loop guard body s =
     (if guard s
      then (case body s of Inl t \<Rightarrow> Some t | Inr t \<Rightarrow> c_loop guard body t)
      else Some s)"

declare c_loop.simps [code]

lemma c_loop_stop: "\<not> guard s \<Longrightarrow> c_loop guard body s = Some s"
  by (simp add: c_loop.simps)

lemma c_loop_leave: "guard s \<Longrightarrow> body s = Inl t \<Longrightarrow> c_loop guard body s = Some t"
  by (simp add: c_loop.simps)

lemma c_loop_next:
  "guard s \<Longrightarrow> body s = Inr t \<Longrightarrow> c_loop guard body s = c_loop guard body t"
  by (simp add: c_loop.simps)

text \<open>
  The interface of a loop that stops: an invariant its iterations keep and a natural
  number they decrease.
\<close>

locale bounded_loop =
  fixes guard :: "'s \<Rightarrow> bool"
    and body :: "'s \<Rightarrow> 's + 's"
    and inv :: "'s \<Rightarrow> bool"
    and meas :: "'s \<Rightarrow> nat"
  assumes next_inv: "inv s \<Longrightarrow> guard s \<Longrightarrow> body s = Inr t \<Longrightarrow> inv t"
    and next_meas: "inv s \<Longrightarrow> guard s \<Longrightarrow> body s = Inr t \<Longrightarrow> meas t < meas s"
begin

lemma loop_rule:
  assumes "inv s"
    and leave: "\<And>s t. inv s \<Longrightarrow> guard s \<Longrightarrow> body s = Inl t \<Longrightarrow> Q t"
    and stop: "\<And>s. inv s \<Longrightarrow> \<not> guard s \<Longrightarrow> Q s"
  shows "\<exists>t. c_loop guard body s = Some t \<and> Q t"
  using assms(1)
proof (induction "meas s" arbitrary: s rule: less_induct)
  case less
  show ?case
  proof (cases "guard s")
    case False
    then show ?thesis using stop less.prems by (simp add: c_loop_stop)
  next
    case True
    show ?thesis
    proof (cases "body s")
      case (Inl t)
      then show ?thesis using True leave less.prems by (simp add: c_loop_leave)
    next
      case (Inr t)
      then have "\<exists>u. c_loop guard body t = Some u \<and> Q u"
        using True less next_inv next_meas by blast
      then show ?thesis using True Inr by (simp add: c_loop_next)
    qed
  qed
qed

lemma loop_returns: "inv s \<Longrightarrow> \<exists>t. c_loop guard body s = Some t"
  using loop_rule [of s "\<lambda>_. True"] by auto

text \<open>
  A second loop that runs in lockstep ends in a related state, or leaves early with a
  state that \<open>A\<close> relates to a state of the first loop in which it was about to run on.
\<close>

lemma lockstep:
  assumes "inv s" and "R s t"
    and guards: "\<And>s t. inv s \<Longrightarrow> R s t \<Longrightarrow> guard2 t \<longleftrightarrow> guard s"
    and leave: "\<And>s t v. inv s \<Longrightarrow> R s t \<Longrightarrow> guard s \<Longrightarrow> body2 t = Inl v \<Longrightarrow>
      A s v \<or> (\<exists>u. body s = Inl u \<and> R u v)"
    and next_it: "\<And>s t v. inv s \<Longrightarrow> R s t \<Longrightarrow> guard s \<Longrightarrow> body2 t = Inr v \<Longrightarrow>
      \<exists>u. body s = Inr u \<and> R u v"
  shows "\<exists>v. c_loop guard2 body2 t = Some v \<and>
    ((\<exists>u. c_loop guard body s = Some u \<and> R u v) \<or> (\<exists>u. inv u \<and> guard u \<and> A u v))"
  using assms(1,2)
proof (induction "meas s" arbitrary: s t rule: less_induct)
  case less
  show ?case
  proof (cases "guard s")
    case False
    then show ?thesis using guards less.prems by (metis c_loop_stop)
  next
    case True
    then have g2: "guard2 t" using guards less.prems by blast
    show ?thesis
    proof (cases "body2 t")
      case (Inl v)
      then have "A s v \<or> (\<exists>u. body s = Inl u \<and> R u v)"
        using leave less.prems True by blast
      then show ?thesis
        using True less.prems(1) c_loop_leave [of guard2 t body2 v, OF g2 Inl] c_loop_leave [of guard s body]
        by blast
    next
      case (Inr v)
      then obtain u where u: "body s = Inr u" "R u v"
        using next_it less.prems True by blast
      have "inv u" "meas u < meas s"
        using next_inv next_meas less.prems(1) True u(1) by blast+
      then have "\<exists>v'. c_loop guard2 body2 v = Some v' \<and>
          ((\<exists>u'. c_loop guard body u = Some u' \<and> R u' v') \<or> (\<exists>u. inv u \<and> guard u \<and> A u v'))"
        using less.hyps u(2) by blast
      then show ?thesis
        using c_loop_next [of guard2 t body2 v, OF g2 Inr] c_loop_next [of guard s body u, OF True u(1)] by simp
    qed
  qed
qed

end

subsection \<open>Lists updated by index\<close>

lemma sum_list_update_nat:
  fixes xs :: "nat list"
  assumes "i < length xs"
  shows "sum_list (xs[i := xs ! i + 1]) = sum_list xs + 1"
  using assms by (simp add: sum_list_update elem_le_sum_list)

lemma take_list_update_Suc:
  "n < length xs \<Longrightarrow> take (Suc n) (xs[n := x]) = take n xs @ [x]"
  by (simp add: take_Suc_conv_app_nth)

lemma split_at_two:
  assumes "i < j" and "j < length xs"
  shows "\<exists>as bs cs. xs = as @ xs ! i # bs @ xs ! j # cs"
proof -
  have "xs = take i xs @ xs ! i # drop (Suc i) xs"
    using assms by (intro id_take_nth_drop) simp
  moreover have "drop (Suc i) xs =
      take (j - Suc i) (drop (Suc i) xs) @ xs ! j # drop (Suc (j - Suc i)) (drop (Suc i) xs)"
    using assms id_take_nth_drop [of "j - Suc i" "drop (Suc i) xs"] by simp
  ultimately show ?thesis by metis
qed

lemma sint_nonneg_uint:
  fixes w :: "64 word"
  assumes "0 \<le> sint w"
  shows "sint w = uint w"
proof -
  have s: "sint w = (uint w + 2 ^ 63) mod 2 ^ 64 - 2 ^ 63"
    by (simp add: sint_uint signed_take_bit_eq_take_bit_shift take_bit_eq_mod)
  have r: "0 \<le> uint w" "uint w < 2 ^ 64" using uint_lt2p [of w] by simp_all
  show ?thesis
  proof (cases "uint w < 2 ^ 63")
    case True
    then have "(uint w + 2 ^ 63) mod 2 ^ 64 = uint w + 2 ^ 63"
      using r by (intro mod_pos_pos_trivial) simp_all
    then show ?thesis using s by simp
  next
    case False
    then have "(uint w + 2 ^ 63 - 2 ^ 64) mod 2 ^ 64 = uint w + 2 ^ 63 - 2 ^ 64"
      using r by (intro mod_pos_pos_trivial) simp_all
    then have "(uint w + 2 ^ 63) mod 2 ^ 64 = uint w + 2 ^ 63 - 2 ^ 64"
      by (metis minus_mod_self2)
    then show ?thesis using s assms r by simp
  qed
qed

lemma unat_lt_small:
  fixes w :: "32 word"
  shows "w < 4 \<Longrightarrow> unat w < 4" and "w < 2 \<Longrightarrow> unat w < 2"
  by (simp_all add: word_less_nat_alt)

end
