(* ===== verification/Ownership.thy ===== *)
theory Ownership
  imports Prelude
begin

text \<open>
  The ownership protocol every gate of the program implements, as
  \<open>theory/ownership.md\<close> describes it: one object with a baseline reference, a bounded
  number of acquisitions with fresh identities \<open>1, 2, ...\<close>, each of which is consumed
  at most once, either by an explicit release or by the terminal cleanup. The theory
  holds the protocol's state and steps, its invariant, what a complete cleanup reaches,
  and the interface \<open>acquisition_store\<close> through which the components provide it.
\<close>

subsection \<open>State and steps\<close>

record own =
  issued :: nat
  live_ids :: "nat set"
  explicit :: "nat \<Rightarrow> nat"
  swept :: "nat \<Rightarrow> nat"
  rc :: int

definition own_init :: own where
  "own_init = \<lparr>issued = 0, live_ids = {}, explicit = (\<lambda>_. 0), swept = (\<lambda>_. 0), rc = 1\<rparr>"

datatype own_act = Acquire | Use nat | Consume nat | Sweep nat

fun own_next :: "nat \<Rightarrow> own \<Rightarrow> own_act \<Rightarrow> own option" where
  "own_next K s Acquire =
     (if issued s < K
      then Some (s\<lparr>issued := issued s + 1, live_ids := insert (issued s + 1) (live_ids s),
                   rc := rc s + 1\<rparr>)
      else None)"
| "own_next K s (Use i) = (if i \<in> live_ids s then Some s else None)"
| "own_next K s (Consume i) =
     (if i \<in> live_ids s
      then Some (s\<lparr>live_ids := live_ids s - {i},
                   explicit := (explicit s)(i := explicit s i + 1), rc := rc s - 1\<rparr>)
      else None)"
| "own_next K s (Sweep i) =
     (if i \<in> live_ids s
      then Some (s\<lparr>live_ids := live_ids s - {i},
                   swept := (swept s)(i := swept s i + 1), rc := rc s - 1\<rparr>)
      else None)"

text \<open>The same protocol as a step relation, and the states it reaches.\<close>

inductive own_step :: "nat \<Rightarrow> own \<Rightarrow> own_act \<Rightarrow> own \<Rightarrow> bool" for K where
  "own_next K s a = Some t \<Longrightarrow> own_step K s a t"

inductive_simps own_step_iff: "own_step K s a t"

inductive own_reach :: "nat \<Rightarrow> own \<Rightarrow> bool" for K where
  start: "own_reach K own_init"
| step: "own_reach K s \<Longrightarrow> own_step K s a t \<Longrightarrow> own_reach K t"

fun own_run :: "nat \<Rightarrow> own \<Rightarrow> own_act list \<Rightarrow> own option" where
  "own_run K s [] = Some s"
| "own_run K s (a # as) =
     (case own_next K s a of None \<Rightarrow> None | Some t \<Rightarrow> own_run K t as)"

lemma own_run_append:
  "own_run K s (as @ bs) =
     (case own_run K s as of None \<Rightarrow> None | Some t \<Rightarrow> own_run K t bs)"
  by (induction as arbitrary: s) (auto split: option.splits)

lemma own_run_reach: "own_reach K s \<Longrightarrow> own_run K s as = Some t \<Longrightarrow> own_reach K t"
proof (induction as arbitrary: s)
  case (Cons a as)
  then show ?case
    by (auto split: option.splits intro: own_reach.step own_step.intros)
qed simp

subsection \<open>The invariant\<close>

text \<open>
  Consumption (an identity is live exactly while it has no release effect), freshness
  (only issued identities are live or have effects) and the reference count.
\<close>

definition own_inv :: "nat \<Rightarrow> own \<Rightarrow> bool" where
  "own_inv K s \<longleftrightarrow>
     issued s \<le> K \<and> live_ids s \<subseteq> {1..issued s} \<and>
     (\<forall>i \<in> {1..issued s}. explicit s i + swept s i = (if i \<in> live_ids s then 0 else 1)) \<and>
     (\<forall>i. i \<notin> {1..issued s} \<longrightarrow> explicit s i = 0 \<and> swept s i = 0) \<and>
     rc s = 1 + int (card (live_ids s))"

lemma own_inv_init: "own_inv K own_init"
  by (simp add: own_inv_def own_init_def)

lemma own_inv_finite: "own_inv K s \<Longrightarrow> finite (live_ids s)"
  by (auto simp: own_inv_def intro: finite_subset)

lemma own_inv_live: "own_inv K s \<Longrightarrow> i \<in> live_ids s \<Longrightarrow> 1 \<le> i \<and> i \<le> issued s"
  by (auto simp: own_inv_def)

lemma own_next_inv:
  assumes "own_inv K s" and "own_next K s a = Some t"
  shows "own_inv K t"
proof -
  have fin: "finite (live_ids s)" using assms(1) by (rule own_inv_finite)
  have rc_rm: "rc s - 1 = 1 + int (card (live_ids s - {i}))" if "i \<in> live_ids s" for i
    using card.remove [OF fin that] assms(1) unfolding own_inv_def by linarith
  show ?thesis
  proof (cases a)
    case Acquire
    have "Suc (issued s) \<notin> live_ids s" using assms(1) by (auto simp: own_inv_def)
    moreover have "{1..Suc (issued s)} = insert (Suc (issued s)) {1..issued s}" by auto
    ultimately show ?thesis using assms Acquire fin
      by (auto simp: own_inv_def split: if_splits)
  next
    case (Use i)
    then show ?thesis using assms by (auto split: if_splits)
  next
    case (Consume i)
    then have "i \<in> live_ids s"
      and "t = s\<lparr>live_ids := live_ids s - {i},
                explicit := (explicit s)(i := explicit s i + 1), rc := rc s - 1\<rparr>"
      using assms(2) by (auto split: if_splits)
    then show ?thesis using assms(1) rc_rm [of i]
      by (auto simp: own_inv_def simp del: card_Diff_insert)
  next
    case (Sweep i)
    then have "i \<in> live_ids s"
      and "t = s\<lparr>live_ids := live_ids s - {i},
                swept := (swept s)(i := swept s i + 1), rc := rc s - 1\<rparr>"
      using assms(2) by (auto split: if_splits)
    then show ?thesis using assms(1) rc_rm [of i]
      by (auto simp: own_inv_def simp del: card_Diff_insert)
  qed
qed

lemma own_run_inv: "own_inv K s \<Longrightarrow> own_run K s as = Some t \<Longrightarrow> own_inv K t"
  by (induction as arbitrary: s) (auto split: option.splits dest: own_next_inv)

lemma own_reach_inv: "own_reach K s \<Longrightarrow> own_inv K s"
  by (induction rule: own_reach.induct) (auto simp: own_inv_init own_step_iff dest: own_next_inv)

lemma own_inv_accounting:
  assumes "own_inv K s"
  shows "rc s = 1 + int (issued s)
                - int (\<Sum>i=1..issued s. explicit s i) - int (\<Sum>i=1..issued s. swept s i)"
proof -
  let ?I = "{1..issued s}"
  have L: "live_ids s \<subseteq> ?I" and fin: "finite (live_ids s)"
    using assms by (auto simp: own_inv_def intro: own_inv_finite [OF assms])
  have "(\<Sum>i\<in>?I. explicit s i + swept s i) = (\<Sum>i\<in>?I. if i \<in> live_ids s then 0 else 1)"
    using assms by (intro sum.cong) (auto simp: own_inv_def)
  also have "\<dots> = card (?I - live_ids s)"
    by (simp add: sum.If_cases Diff_eq)
  also have "\<dots> = issued s - card (live_ids s)"
    using L fin by (simp add: card_Diff_subset)
  finally have "(\<Sum>i\<in>?I. explicit s i) + (\<Sum>i\<in>?I. swept s i) = issued s - card (live_ids s)"
    by (simp add: sum.distrib)
  moreover have "card (live_ids s) \<le> issued s"
    using card_mono [OF _ L] by simp
  moreover have "rc s = 1 + int (card (live_ids s))"
    using assms by (simp add: own_inv_def)
  ultimately show ?thesis by linarith
qed

text \<open>With nothing live, every acquisition has exactly one effect and the count is back.\<close>

lemma own_inv_settled:
  assumes "own_inv K s" and "live_ids s = {}"
  shows "rc s = 1" and "i \<in> {1..issued s} \<Longrightarrow> explicit s i + swept s i = 1"
  using assms by (auto simp: own_inv_def)

subsection \<open>The interface of a component that keeps acquisitions\<close>

text \<open>
  A component's state is abstracted by \<open>abs\<close>; \<open>sweep1 k\<close> is the body of its cleanup
  loop for the cell \<open>k\<close>, which holds identity \<open>k + 1\<close>, a no-op on a consumed cell. The
  interface says that sweeping a live cell is the protocol's step.
\<close>

locale acquisition_store =
  fixes ok :: "'s \<Rightarrow> bool"
    and abs :: "'s \<Rightarrow> own"
    and capacity :: nat
    and sweep1 :: "nat \<Rightarrow> 's \<Rightarrow> 's"
  assumes abs_inv: "ok s \<Longrightarrow> own_inv capacity (abs s)"
    and sweep_ok: "ok s \<Longrightarrow> k < issued (abs s) \<Longrightarrow> ok (sweep1 k s)"
    and sweep_live: "ok s \<Longrightarrow> Suc k \<in> live_ids (abs s) \<Longrightarrow>
          own_next capacity (abs s) (Sweep (Suc k)) = Some (abs (sweep1 k s))"
    and sweep_dead: "ok s \<Longrightarrow> k < issued (abs s) \<Longrightarrow> Suc k \<notin> live_ids (abs s) \<Longrightarrow>
          abs (sweep1 k s) = abs s"
begin

lemma sweep_abs:
  assumes "ok s" and "k < issued (abs s)"
  shows "live_ids (abs (sweep1 k s)) = live_ids (abs s) - {Suc k}"
    and "issued (abs (sweep1 k s)) = issued (abs s)"
    and "explicit (abs (sweep1 k s)) = explicit (abs s)"
proof -
  have "live_ids (abs (sweep1 k s)) = live_ids (abs s) - {Suc k} \<and>
        issued (abs (sweep1 k s)) = issued (abs s) \<and>
        explicit (abs (sweep1 k s)) = explicit (abs s)"
  proof (cases "Suc k \<in> live_ids (abs s)")
    case True
    have "Some (abs (sweep1 k s)) = own_next capacity (abs s) (Sweep (Suc k))"
      using sweep_live [OF assms(1) True] by simp
    with True show ?thesis by simp
  next
    case False
    then show ?thesis using sweep_dead [OF assms] by auto
  qed
  then show "live_ids (abs (sweep1 k s)) = live_ids (abs s) - {Suc k}"
    and "issued (abs (sweep1 k s)) = issued (abs s)"
    and "explicit (abs (sweep1 k s)) = explicit (abs s)" by auto
qed

text \<open>The cleanup loop over a list of cells.\<close>

lemma sweep_list:
  assumes "ok s" and "set ks \<subseteq> {..<issued (abs s)}"
  shows "ok (fold sweep1 ks s) \<and>
    live_ids (abs (fold sweep1 ks s)) = live_ids (abs s) - Suc ` set ks \<and>
    issued (abs (fold sweep1 ks s)) = issued (abs s) \<and>
    explicit (abs (fold sweep1 ks s)) = explicit (abs s)"
  using assms
proof (induction ks arbitrary: s)
  case (Cons k ks)
  have k: "k < issued (abs s)" using Cons.prems by simp
  have "ok (sweep1 k s)" using Cons.prems k sweep_ok by blast
  moreover have "set ks \<subseteq> {..<issued (abs (sweep1 k s))}"
    using Cons.prems k by (simp add: sweep_abs)
  ultimately show ?case
    using Cons.IH [of "sweep1 k s"] sweep_abs [OF Cons.prems(1) k] by auto
qed simp

lemma sweep_all:
  assumes "ok s"
  defines "t \<equiv> fold sweep1 [0..<issued (abs s)] s"
  shows "ok t \<and> live_ids (abs t) = {} \<and> issued (abs t) = issued (abs s) \<and>
    explicit (abs t) = explicit (abs s)"
proof -
  have "live_ids (abs s) \<subseteq> {1..issued (abs s)}"
    using abs_inv [OF assms(1)] by (simp add: own_inv_def)
  moreover have "Suc ` {0..<issued (abs s)} = {1..issued (abs s)}"
    by (simp add: atLeastLessThanSuc_atLeastAtMost)
  ultimately have "live_ids (abs s) - Suc ` {0..<issued (abs s)} = {}" by simp
  then show ?thesis
    using sweep_list [OF assms(1), of "[0..<issued (abs s)]"]
    by (simp add: t_def lessThan_atLeast0)
qed

text \<open>After the cleanup the baseline is restored and every identity has one effect.\<close>

lemma sweep_all_settled:
  assumes "ok s"
  defines "t \<equiv> fold sweep1 [0..<issued (abs s)] s"
  shows "rc (abs t) = 1"
    and "i \<in> {1..issued (abs s)} \<Longrightarrow> explicit (abs t) i + swept (abs t) i = 1"
  using sweep_all [OF assms(1)] own_inv_settled [OF abs_inv, of t] by (auto simp: t_def)

end

subsection \<open>The interface of an observer\<close>

definition consumed :: "own \<Rightarrow> nat \<Rightarrow> bool" where
  "consumed s k \<longleftrightarrow> k \<le> issued s \<and> k \<notin> live_ids s"

lemma own_next_consumed:
  "own_next K s a = Some t \<Longrightarrow> consumed s i \<Longrightarrow> consumed t i"
  by (cases a) (auto simp: consumed_def split: if_splits)

text \<open>Replaying a list of reports, each of which is accepted with the next state or refused.\<close>

fun observe :: "('s \<Rightarrow> 'e \<Rightarrow> 's option) \<Rightarrow> 's \<Rightarrow> 'e list \<Rightarrow> 's option" where
  "observe step s [] = Some s"
| "observe step s (e # es) =
     (case step s e of None \<Rightarrow> None | Some t \<Rightarrow> observe step t es)"

lemma observe_append:
  "observe step s (xs @ ys) =
     (case observe step s xs of None \<Rightarrow> None | Some t \<Rightarrow> observe step t ys)"
  by (induction xs arbitrary: s) (auto split: option.splits)

text \<open>
  A component's reports observed against the protocol: which reports use an identity and
  which consume it. Consumed identities stay consumed, and only live ones are used.
\<close>

locale observer =
  fixes observed :: "own \<Rightarrow> 'e \<Rightarrow> own option"
    and uses :: "nat \<Rightarrow> 'e \<Rightarrow> bool"
    and consumes :: "nat \<Rightarrow> 'e \<Rightarrow> bool"
    and bound :: nat
  assumes observed_inv: "observed s e = Some t \<Longrightarrow> own_inv bound s \<Longrightarrow> own_inv bound t"
    and observed_consumed: "observed s e = Some t \<Longrightarrow> consumed s i \<Longrightarrow> consumed t i"
    and consumes_consumed: "observed s e = Some t \<Longrightarrow> own_inv bound s \<Longrightarrow> consumes i e \<Longrightarrow>
          consumed t i"
    and uses_live: "observed s e = Some t \<Longrightarrow> uses i e \<Longrightarrow> \<not> consumed s i"
begin

lemma observe_inv: "observe observed s es = Some u \<Longrightarrow> own_inv bound s \<Longrightarrow> own_inv bound u"
  by (induction es arbitrary: s) (auto split: option.splits dest: observed_inv)

lemma observe_consumed: "observe observed s es = Some u \<Longrightarrow> consumed s i \<Longrightarrow> consumed u i"
  by (induction es arbitrary: s) (auto split: option.splits dest: observed_consumed)

lemma no_use_after_consume:
  assumes obs: "observe observed s es = Some u" and inv: "own_inv bound s"
    and ij: "i < j" "j < length es" and c: "consumes k (es ! i)"
  shows "\<not> uses k (es ! j)"
proof -
  obtain as bs cs where es: "es = as @ es ! i # bs @ es ! j # cs"
    using split_at_two [OF ij] by blast
  obtain s1 s2 s3 s4 where
    1: "observe observed s as = Some s1" and 2: "observed s1 (es ! i) = Some s2" and
    3: "observe observed s2 bs = Some s3" and 4: "observed s3 (es ! j) = Some s4"
    using obs by (subst (asm) es) (auto simp: observe_append split: option.splits)
  have "consumed s2 k" using consumes_consumed [OF 2 observe_inv [OF 1 inv] c] .
  then have "consumed s3 k" by (rule observe_consumed [OF 3])
  then show ?thesis using uses_live [OF 4] by blast
qed

end

text \<open>
  An observer that also knows which report issues an identity, and reports every consumption.
  Over a list of reports that ends with nothing live, each issued identity is consumed by
  exactly one report, and that report comes later.
\<close>

locale acquisition_observer = observer observed uses consumes bound
  for observed :: "own \<Rightarrow> 'e \<Rightarrow> own option"
    and uses :: "nat \<Rightarrow> 'e \<Rightarrow> bool"
    and consumes :: "nat \<Rightarrow> 'e \<Rightarrow> bool"
    and bound :: nat +
  fixes issues :: "nat \<Rightarrow> 'e \<Rightarrow> bool"
  assumes issued_live: "observed s e = Some t \<Longrightarrow> issues i e \<Longrightarrow> i \<in> live_ids t"
    and taken_consumes: "observed s e = Some t \<Longrightarrow> i \<in> live_ids s \<Longrightarrow> i \<notin> live_ids t \<Longrightarrow> consumes i e"
    and consumes_uses: "consumes i e \<Longrightarrow> uses i e"
begin

lemma eventually_consumed:
  "observe observed s es = Some u \<Longrightarrow> i \<in> live_ids s \<Longrightarrow> i \<notin> live_ids u \<Longrightarrow>
   \<exists>j < length es. consumes i (es ! j)"
proof (induction es arbitrary: s)
  case (Cons e es)
  then obtain t where t: "observed s e = Some t" "observe observed t es = Some u"
    by (auto split: option.splits)
  show ?case
  proof (cases "i \<in> live_ids t")
    case True
    then show ?thesis using Cons.IH [OF t(2)] Cons.prems(3) by force
  next
    case False
    then show ?thesis using taken_consumes [OF t(1) Cons.prems(2)] by force
  qed
qed simp

lemma consumed_once:
  assumes "observe observed s es = Some u" "own_inv bound s"
    and "i < length es" "j < length es" "consumes k (es ! i)" "consumes k (es ! j)"
  shows "i = j"
  using no_use_after_consume [OF assms(1,2), of i j k] no_use_after_consume [OF assms(1,2), of j i k]
    assms(3-6) consumes_uses by (meson linorder_neqE_nat)

lemma issued_consumed_later:
  assumes obs: "observe observed s es = Some u" and inv: "own_inv bound s" and settled: "live_ids u = {}"
    and i: "i < length es" "issues k (es ! i)"
  shows "\<exists>j > i. j < length es \<and> consumes k (es ! j) \<and>
    (\<forall>j' < length es. consumes k (es ! j') \<longrightarrow> j' = j)"
proof -
  have es: "es = take i es @ es ! i # drop (Suc i) es" using id_take_nth_drop [OF i(1)] .
  obtain s1 s2 where "observe observed s (take i es) = Some s1"
    and 2: "observed s1 (es ! i) = Some s2" and 3: "observe observed s2 (drop (Suc i) es) = Some u"
    using obs by (subst (asm) es) (auto simp: observe_append split: option.splits)
  obtain j where j: "j < length (drop (Suc i) es)" "consumes k (drop (Suc i) es ! j)"
    using eventually_consumed [OF 3 issued_live [OF 2 i(2)]] settled by auto
  then have "Suc i + j < length es" "consumes k (es ! (Suc i + j))" using i(1) by simp_all
  then show ?thesis using consumed_once [OF obs inv] by (intro exI [of _ "Suc i + j"]) auto
qed

end

end
