(* ===== verification/Capability.thy ===== *)
theory Capability
  imports Prelude
begin

text \<open>
  The capability intrinsics of \<open>cheriintrin.h\<close> and \<open>linux/cheri.h\<close>. Their code is not in
  the repository: a \<open>cheri\<close> record is a parameter of every definition that calls them,
  over a type \<open>'c\<close> of capability values, and \<open>cheri_laws\<close> states the documented
  behaviour the components rely on. \<open>sample_cheri\<close> is a small software capability
  machine that satisfies it; it serves the witnesses only.
\<close>

record 'c cheri =
  cheri_tag_get :: "'c \<Rightarrow> bool"
  cheri_is_sealed :: "'c \<Rightarrow> bool"
  cheri_address_get :: "'c \<Rightarrow> u64"
  cheri_base_get :: "'c \<Rightarrow> u64"
  cheri_length_get :: "'c \<Rightarrow> u64"
  cheri_perms_get :: "'c \<Rightarrow> u64"
  cheri_address_set :: "'c \<Rightarrow> u64 \<Rightarrow> 'c"
  cheri_bounds_set_exact :: "'c \<Rightarrow> u64 \<Rightarrow> 'c"
  cheri_perms_and :: "'c \<Rightarrow> u64 \<Rightarrow> 'c"
  cheri_perms_clear :: "'c \<Rightarrow> u64 \<Rightarrow> 'c"
  cheri_tag_clear :: "'c \<Rightarrow> 'c"
  cheri_sentry_create :: "'c \<Rightarrow> 'c"
  cheri_is_equal_exact :: "'c \<Rightarrow> 'c \<Rightarrow> bool"
  cheri_null :: 'c
  cheri_ddc_get :: 'c
  cheri_pcc_get :: 'c
  cheri_from_u64 :: "u64 \<Rightarrow> 'c"
  CHERI_PERM_LOAD :: u64
  CHERI_PERM_STORE :: u64
  CHERI_PERM_LOAD_CAP :: u64
  CHERI_PERM_STORE_CAP :: u64
  CHERI_PERM_STORE_LOCAL_CAP :: u64
  CHERI_PERM_EXECUTE :: u64
  CHERI_PERM_GLOBAL :: u64
  CHERI_PERM_EXECUTIVE :: u64
  CHERI_PERMS_WRITE :: u64

text \<open>
  \<open>cheri_from_u64 v\<close> is the untagged capability of a plain integer, as in the C
  conversion \<open>(uintcap_t)v\<close>. Exact equality compares tag, bounds, permissions and cursor,
  which is all a capability value is; clearing the tag keeps everything else, and so does
  sealing as an entry.
\<close>

definition cheri_laws :: "'c cheri \<Rightarrow> bool" where
  "cheri_laws C \<longleftrightarrow>
     (\<forall>a b. cheri_is_equal_exact C a b \<longleftrightarrow> a = b) \<and>
     (\<forall>c. \<not> cheri_tag_get C (cheri_tag_clear C c)) \<and>
     (\<forall>c. cheri_address_get C (cheri_tag_clear C c) = cheri_address_get C c) \<and>
     (\<forall>c. cheri_address_get C (cheri_sentry_create C c) = cheri_address_get C c \<and>
          cheri_base_get C (cheri_sentry_create C c) = cheri_base_get C c \<and>
          cheri_length_get C (cheri_sentry_create C c) = cheri_length_get C c \<and>
          cheri_perms_get C (cheri_sentry_create C c) = cheri_perms_get C c) \<and>
     (\<forall>v. \<not> cheri_tag_get C (cheri_from_u64 C v) \<and> cheri_address_get C (cheri_from_u64 C v) = v) \<and>
     cheri_null C = cheri_from_u64 C 0"

lemma cheri_lawsD [cap_simps]:
  assumes "cheri_laws C"
  shows "cheri_is_equal_exact C a b \<longleftrightarrow> a = b"
    and "\<not> cheri_tag_get C (cheri_tag_clear C c)"
    and "cheri_address_get C (cheri_tag_clear C c) = cheri_address_get C c"
    and "\<not> cheri_tag_get C (cheri_from_u64 C v)"
    and "cheri_address_get C (cheri_from_u64 C v) = v"
    and "\<not> cheri_tag_get C (cheri_null C)"
    and "cheri_address_get C (cheri_sentry_create C c) = cheri_address_get C c"
    and "cheri_base_get C (cheri_sentry_create C c) = cheri_base_get C c"
    and "cheri_length_get C (cheri_sentry_create C c) = cheri_length_get C c"
    and "cheri_perms_get C (cheri_sentry_create C c) = cheri_perms_get C c"
    and "cheri_address_get C (cheri_null C) = 0"
  using assms by (simp_all add: cheri_laws_def)

subsection \<open>Derivation and access\<close>

text \<open>
  What deriving a capability keeps: exact bounds begin at the address and are given only to
  a tagged, unsealed capability; clearing permissions changes nothing else of an unsealed one.
\<close>

definition cheri_derives :: "'c cheri \<Rightarrow> bool" where
  "cheri_derives C \<longleftrightarrow>
     (\<forall>c n. cheri_address_get C (cheri_bounds_set_exact C c n) = cheri_address_get C c \<and>
        (cheri_tag_get C (cheri_bounds_set_exact C c n) \<longrightarrow>
           \<not> cheri_is_sealed C (cheri_bounds_set_exact C c n) \<and>
           cheri_base_get C (cheri_bounds_set_exact C c n) = cheri_address_get C c \<and>
           cheri_length_get C (cheri_bounds_set_exact C c n) = n \<and>
           cheri_perms_get C (cheri_bounds_set_exact C c n) = cheri_perms_get C c)) \<and>
     (\<forall>c p. \<not> cheri_is_sealed C c \<longrightarrow>
        cheri_tag_get C (cheri_perms_clear C c p) = cheri_tag_get C c \<and>
        \<not> cheri_is_sealed C (cheri_perms_clear C c p) \<and>
        cheri_address_get C (cheri_perms_clear C c p) = cheri_address_get C c \<and>
        cheri_base_get C (cheri_perms_clear C c p) = cheri_base_get C c \<and>
        cheri_length_get C (cheri_perms_clear C c p) = cheri_length_get C c \<and>
        cheri_perms_get C (cheri_perms_clear C c p) = cheri_perms_get C c AND NOT p)"

lemma cheri_derivesD:
  assumes "cheri_derives C"
  shows "cheri_address_get C (cheri_bounds_set_exact C c n) = cheri_address_get C c"
    and "cheri_tag_get C (cheri_bounds_set_exact C c n) \<Longrightarrow>
      \<not> cheri_is_sealed C (cheri_bounds_set_exact C c n) \<and>
      cheri_base_get C (cheri_bounds_set_exact C c n) = cheri_address_get C c \<and>
      cheri_length_get C (cheri_bounds_set_exact C c n) = n \<and>
      cheri_perms_get C (cheri_bounds_set_exact C c n) = cheri_perms_get C c"
    and "\<not> cheri_is_sealed C c \<Longrightarrow>
      cheri_tag_get C (cheri_perms_clear C c p) = cheri_tag_get C c \<and>
      \<not> cheri_is_sealed C (cheri_perms_clear C c p) \<and>
      cheri_address_get C (cheri_perms_clear C c p) = cheri_address_get C c \<and>
      cheri_base_get C (cheri_perms_clear C c p) = cheri_base_get C c \<and>
      cheri_length_get C (cheri_perms_clear C c p) = cheri_length_get C c \<and>
      cheri_perms_get C (cheri_perms_clear C c p) = cheri_perms_get C c AND NOT p"
  using assms unfolding cheri_derives_def by blast+

text \<open>The architecture's test of an access to \<open>w\<close> bytes at the address \<open>x\<close>.\<close>

definition access_permitted :: "'c cheri \<Rightarrow> 'c \<Rightarrow> u64 \<Rightarrow> int \<Rightarrow> int \<Rightarrow> bool" where
  "access_permitted C c perm x w \<longleftrightarrow>
     cheri_tag_get C c \<and> \<not> cheri_is_sealed C c \<and> cheri_perms_get C c AND perm = perm \<and>
     uint (cheri_base_get C c) \<le> x \<and> x + w \<le> uint (cheri_base_get C c) + uint (cheri_length_get C c)"

text \<open>The fault of a load of \<open>w\<close> bytes at the capability's address that is not permitted.\<close>

datatype cap_fault = Tag_Fault | Sealed_Fault | Permission_Fault | Bounds_Fault

definition load_fault :: "'c cheri \<Rightarrow> 'c \<Rightarrow> int \<Rightarrow> cap_fault option" where
  "load_fault C c w =
     (if access_permitted C c (CHERI_PERM_LOAD C) (uint (cheri_address_get C c)) w then None
      else if \<not> cheri_tag_get C c then Some Tag_Fault
      else if cheri_is_sealed C c then Some Sealed_Fault
      else if cheri_perms_get C c AND CHERI_PERM_LOAD C \<noteq> CHERI_PERM_LOAD C then Some Permission_Fault
      else Some Bounds_Fault)"

text \<open>
  What a capability load gives of the capability that is stored there: without the
  permission to load capabilities the tag is lost.
\<close>

definition loaded_cap :: "'c cheri \<Rightarrow> 'c \<Rightarrow> 'c \<Rightarrow> 'c" where
  "loaded_cap C through stored =
     (if cheri_perms_get C through AND CHERI_PERM_LOAD_CAP C = CHERI_PERM_LOAD_CAP C then stored
      else cheri_tag_clear C stored)"

lemma load_untagged: "\<not> cheri_tag_get C c \<Longrightarrow> load_fault C c w = Some Tag_Fault"
  by (simp add: load_fault_def access_permitted_def)

lemma load_whole:
  assumes "cheri_tag_get C c" "\<not> cheri_is_sealed C c" "cheri_base_get C c = cheri_address_get C c"
    and "w \<le> uint (cheri_length_get C c)" "cheri_perms_get C c AND CHERI_PERM_LOAD C = CHERI_PERM_LOAD C"
  shows "load_fault C c w = None"
  using assms by (simp add: load_fault_def access_permitted_def)

lemma cleared_perms:
  fixes p l m :: u64
  assumes "p AND l = l" "l AND m = 0"
  shows "(p AND NOT m) AND l = l"
proof -
  have "(p AND NOT m) AND l = (p AND l) AND NOT (l AND m)" by (rule bit_eqI) (auto simp: bit_simps)
  then show ?thesis using assms by simp
qed

subsection \<open>A software capability machine\<close>

record swcap =
  sw_tag :: bool
  sw_sealed :: bool
  sw_address :: u64
  sw_base :: u64
  sw_length :: u64
  sw_perms :: u64

definition sw_int :: "u64 \<Rightarrow> swcap" where
  "sw_int v = \<lparr>sw_tag = False, sw_sealed = False, sw_address = v, sw_base = 0,
              sw_length = 0, sw_perms = 0\<rparr>"

definition sw_root :: "u64 \<Rightarrow> swcap" where
  "sw_root p = \<lparr>sw_tag = True, sw_sealed = False, sw_address = 0, sw_base = 0,
               sw_length = 2 ^ 63, sw_perms = p\<rparr>"

text \<open>Narrowing clears the tag when the new bounds leave the old ones or the cap is sealed.\<close>

definition sw_bounds :: "swcap \<Rightarrow> u64 \<Rightarrow> swcap" where
  "sw_bounds c n =
     c\<lparr>sw_tag := sw_tag c \<and> \<not> sw_sealed c \<and> sw_base c \<le> sw_address c \<and>
                 uint (sw_address c) + uint n \<le> uint (sw_base c) + uint (sw_length c),
       sw_base := sw_address c, sw_length := n\<rparr>"

definition sample_cheri :: "swcap cheri" where
  "sample_cheri =
     \<lparr>cheri_tag_get = sw_tag, cheri_is_sealed = sw_sealed, cheri_address_get = sw_address,
      cheri_base_get = sw_base, cheri_length_get = sw_length, cheri_perms_get = sw_perms,
      cheri_address_set = (\<lambda>c a. c\<lparr>sw_address := a\<rparr>),
      cheri_bounds_set_exact = sw_bounds,
      cheri_perms_and = (\<lambda>c p. c\<lparr>sw_perms := sw_perms c AND p\<rparr>),
      cheri_perms_clear = (\<lambda>c p. c\<lparr>sw_perms := sw_perms c AND NOT p\<rparr>),
      cheri_tag_clear = (\<lambda>c. c\<lparr>sw_tag := False\<rparr>),
      cheri_sentry_create = (\<lambda>c. c\<lparr>sw_sealed := True\<rparr>),
      cheri_is_equal_exact = (\<lambda>a b. a = b),
      cheri_null = sw_int 0,
      cheri_ddc_get = sw_root 0xff,
      cheri_pcc_get = sw_root 0xff,
      cheri_from_u64 = sw_int,
      CHERI_PERM_LOAD = 1, CHERI_PERM_STORE = 2, CHERI_PERM_LOAD_CAP = 4,
      CHERI_PERM_STORE_CAP = 8, CHERI_PERM_STORE_LOCAL_CAP = 128, CHERI_PERM_EXECUTE = 16, CHERI_PERM_GLOBAL = 32,
      CHERI_PERM_EXECUTIVE = 64, CHERI_PERMS_WRITE = 10\<rparr>"

lemma sample_cheri_laws: "cheri_laws sample_cheri"
  by (simp add: cheri_laws_def sample_cheri_def sw_int_def)

lemma sample_cheri_derives: "cheri_derives sample_cheri"
  by (simp add: cheri_derives_def sample_cheri_def sw_bounds_def)

end
