(* ===== verification/KernelGate.thy ===== *)
theory KernelGate
  imports Ownership Capability
begin

text \<open>
  The kernel's acquisition gates, \<open>src/linux/ownership/cbpf_runtime.c\<close>: the gate behind
  \<open>cbpf_gateway\<close>, the invocation that runs a program, the restricted entry, and the checks
  that run once at boot.

  The capability intrinsics are a parameter, a \<open>cheri\<close> record. The addresses of the
  provider object, of the invocation's cells and of the gateway are parameters too; a
  program's native code is not in the repository's C and is a tree of the calls it makes,
  each continuation depending on what the call returned (\<open>native\<close>).
\<close>

subsection \<open>Constants and data\<close>

definition EINVAL :: int where "EINVAL = 22"
definition ERANGE :: int where "ERANGE = 34"

text \<open>\<open>BUILD_BUG_ON(sizeof(struct cbpf_cell) != 16)\<close>; the invocation has two cells.\<close>

definition sizeof_cbpf_cell :: u64 where [layout_simps]: "sizeof_cbpf_cell = 16"
definition ARRAY_SIZE_cells :: nat where [layout_simps]: "ARRAY_SIZE_cells = 2"
definition U64_MAX :: u64 where "U64_MAX = - 1"

record 'v kplatform =
  kp_cheri :: "'v cheri"
  kp_cell :: "nat \<Rightarrow> u64"
  kp_object :: u64
  kp_sizeof_object :: u64
  kp_gateway :: u64

definition CBPF_PUBLIC_PERMS :: "'v cheri \<Rightarrow> u64" where
  "CBPF_PUBLIC_PERMS C = CHERI_PERM_LOAD C OR CHERI_PERM_GLOBAL C"

definition CBPF_FAILURE :: "'v cheri \<Rightarrow> 'v" where
  "CBPF_FAILURE C = cheri_from_u64 C U64_MAX"

record cbpf_object =
  ko_value :: int
  ko_refs :: int

text \<open>One \<open>CBPF_GATE\<close> line of the log.\<close>

record gate_line =
  l_seq :: u32
  l_event :: string
  l_pc :: u64
  l_id :: nat
  l_acquired :: nat
  l_released :: nat
  l_reads :: u32
  l_cleanup :: nat
  l_refs :: int
  l_tagA :: bool
  l_tagB :: bool

text \<open>
  An invocation, with the lines printed for it. \<open>acquired\<close>, \<open>released\<close> and \<open>cleanup\<close> are
  at most 2 (proved below); \<open>reads\<close> and \<open>sequence\<close> may wrap and are 32-bit words.
\<close>

record 'v cbpf_invocation =
  iv_prog :: u64
  iv_cells :: "'v list"
  iv_views :: "'v list"
  iv_acquired :: nat
  iv_released :: nat
  iv_reads :: u32
  iv_cleanup :: nat
  iv_sequence :: u32
  iv_entered :: bool
  iv_failed :: bool
  iv_log :: "gate_line list"

text \<open>
  The static object, the per-CPU \<open>cbpf_active\<close> (NULL or the invocation it points to), and
  the two capability registers an invocation saves and restores.
\<close>

record 'v kernel =
  k_object :: cbpf_object
  k_active :: "'v cbpf_invocation option"
  k_rddc :: 'v
  k_rcsp :: 'v

definition active :: "'v kernel \<Rightarrow> 'v cbpf_invocation" where
  "active k = the (k_active k)"

definition set_active :: "'v cbpf_invocation \<Rightarrow> 'v kernel \<Rightarrow> 'v kernel" where
  "set_active s k = k\<lparr>k_active := Some s\<rparr>"

definition new_invocation :: "'v cheri \<Rightarrow> u64 \<Rightarrow> bool \<Rightarrow> 'v cbpf_invocation" where
  "new_invocation C prog entered =
     \<lparr>iv_prog = prog, iv_cells = replicate ARRAY_SIZE_cells (cheri_null C),
      iv_views = replicate ARRAY_SIZE_cells (cheri_null C), iv_acquired = 0, iv_released = 0,
      iv_reads = 0, iv_cleanup = 0, iv_sequence = 0, iv_entered = entered, iv_failed = False,
      iv_log = []\<rparr>"

subsection \<open>The gate\<close>

definition cbpf_exact :: "'v cheri \<Rightarrow> u64 \<Rightarrow> u64 \<Rightarrow> u64 \<Rightarrow> 'v" where
  "cbpf_exact C address bytes perms =
     (let cap = cheri_address_set C (cheri_ddc_get C) address;
          cap = cheri_bounds_set_exact C cap bytes;
          cap = cheri_perms_and C cap perms
      in if \<not> cheri_tag_get C cap \<or> cheri_is_sealed C cap \<or>
            cheri_address_get C cap \<noteq> address \<or> cheri_base_get C cap \<noteq> address \<or>
            cheri_length_get C cap \<noteq> bytes \<or> cheri_perms_get C cap \<noteq> perms
         then cheri_null C
         else cap)"

definition cbpf_trace :: "'v cheri \<Rightarrow> string \<Rightarrow> u64 \<Rightarrow> nat \<Rightarrow> 'v kernel \<Rightarrow> 'v kernel" where
  "cbpf_trace C event pc ident k =
     (let s = active k;
          seq = iv_sequence s + 1;
          line = \<lparr>l_seq = seq, l_event = event, l_pc = pc, l_id = ident,
                  l_acquired = iv_acquired s, l_released = iv_released s, l_reads = iv_reads s,
                  l_cleanup = iv_cleanup s, l_refs = ko_refs (k_object k),
                  l_tagA = cheri_tag_get C (iv_cells s ! 0),
                  l_tagB = cheri_tag_get C (iv_cells s ! 1)\<rparr>
      in set_active (s\<lparr>iv_sequence := seq, iv_log := iv_log s @ [line]\<rparr>) k)"

definition cbpf_fail :: "'v cheri \<Rightarrow> u64 \<Rightarrow> 'v kernel \<Rightarrow> 'v \<times> 'v kernel" where
  "cbpf_fail C pc k =
     (CBPF_FAILURE C,
      case k_active k of
        None \<Rightarrow> k
      | Some s \<Rightarrow> cbpf_trace C ''reject'' pc 0 (set_active (s\<lparr>iv_failed := True\<rparr>) k))"

definition kernel_consume :: "'v cheri \<Rightarrow> nat \<Rightarrow> u64 \<Rightarrow> bool \<Rightarrow> 'v kernel \<Rightarrow> 'v kernel" where
  "kernel_consume C index pc cleanup k0 =
     (let s = active k0;
          object = iv_cells s ! index;
          k = set_active (s\<lparr>iv_cells := (iv_cells s)[index := cheri_tag_clear C object]\<rparr>) k0;
          k = cbpf_trace C ''clear'' pc (index + 1) k;
          k = k\<lparr>k_object := (k_object k)\<lparr>ko_refs := ko_refs (k_object k) - 1\<rparr>\<rparr>;
          s = active k;
          k = set_active (s\<lparr>iv_released := iv_released s + 1,
                            iv_cleanup := (if cleanup then iv_cleanup s + 1 else iv_cleanup s)\<rparr>) k
      in cbpf_trace C (if cleanup then ''cleanup'' else ''release'') pc (index + 1) k)"

text \<open>The loop that looks for the view: the index it breaks at, or \<open>acquired\<close>.\<close>

function find_view :: "'v cheri \<Rightarrow> 'v \<Rightarrow> 'v list \<Rightarrow> nat \<Rightarrow> nat \<Rightarrow> nat" where
  "find_view C view views index acquired =
     (if index < acquired
      then (if cheri_is_equal_exact C view (views ! index) then index
            else find_view C view views (index + 1) acquired)
      else index)"
  by pat_completeness auto
termination by (relation "measure (\<lambda>(C, v, vs, i, n). n - i)") auto

declare find_view.simps [simp del]

definition gate_acquire_op :: "'v kplatform \<Rightarrow> 'v \<Rightarrow> u64 \<Rightarrow> 'v kernel \<Rightarrow> 'v \<times> 'v kernel" where
  "gate_acquire_op K argument pc k =
     (let C = kp_cheri K;
          s = active k;
          index = iv_acquired s
      in if cheri_tag_get C argument \<or> cheri_address_get C argument > 1 then cbpf_fail C pc k
         else if cheri_address_get C argument \<noteq> 0
         then (cheri_from_u64 C 0, cbpf_trace C ''null'' pc 0 k)
         else if iv_acquired s = ARRAY_SIZE_cells then cbpf_fail C pc k
         else
           let view = cbpf_exact C (kp_cell K index) sizeof_cbpf_cell (CBPF_PUBLIC_PERMS C);
               object = cbpf_exact C (kp_object K) (kp_sizeof_object K) (CBPF_PUBLIC_PERMS C)
           in if \<not> cheri_tag_get C view \<or> \<not> cheri_tag_get C object then cbpf_fail C pc k
              else
                let k = k\<lparr>k_object := (k_object k)\<lparr>ko_refs := ko_refs (k_object k) + 1\<rparr>\<rparr>;
                    k = set_active (s\<lparr>iv_cells := (iv_cells s)[index := object],
                                      iv_views := (iv_views s)[index := view],
                                      iv_acquired := iv_acquired s + 1\<rparr>) k
                in (view, cbpf_trace C ''acquire'' pc (index + 1) k))"

definition cbpf_gate_impl :: "'v kplatform \<Rightarrow> 'v \<Rightarrow> u64 \<Rightarrow> u64 \<Rightarrow> 'v kernel \<Rightarrow> 'v \<times> 'v kernel" where
  "cbpf_gate_impl K argument operation pc k =
     (let C = kp_cheri K; s = active k
      in if k_active k = None \<or> \<not> iv_entered s \<or> iv_failed s then cbpf_fail C pc k
         else if operation = 1 then gate_acquire_op K argument pc k
         else if operation \<noteq> 2 \<and> operation \<noteq> 3 then cbpf_fail C pc k
         else
           let index = find_view C argument (iv_views s) 0 (iv_acquired s)
           in if index = iv_acquired s \<or> \<not> cheri_tag_get C (iv_cells s ! index)
              then cbpf_fail C pc k
              else if operation = 2
              then (let value = ko_value (k_object k);
                        k = set_active (s\<lparr>iv_reads := iv_reads s + 1\<rparr>) k
                    in (cheri_from_u64 C (word_of_int value), cbpf_trace C ''read'' pc (index + 1) k))
              else (cheri_from_u64 C 0, kernel_consume C index pc False k))"

text \<open>
  \<open>cbpf_gateway\<close>: the result of the gate in \<open>x0\<close>, or, when it is all ones, the fixed
  epilogue with a zero result instead of the program's continuation (\<^term>\<open>None\<close>).
\<close>

definition cbpf_gateway :: "'v kplatform \<Rightarrow> 'v \<Rightarrow> u64 \<Rightarrow> u64 \<Rightarrow> 'v kernel \<Rightarrow> 'v option \<times> 'v kernel" where
  "cbpf_gateway K argument operation pc k =
     (case cbpf_gate_impl K argument operation pc k of
        (r, k') \<Rightarrow> (if cheri_address_get (kp_cheri K) r = - 1 then None else Some r, k'))"

subsection \<open>Restricted entry\<close>

text \<open>
  The arguments of \<open>cbpf_enter\<close>, with the address \<open>__builtin_return_address(0)\<close> of its
  caller; pointers are passed as their addresses.
\<close>

record enter_args =
  ea_stack_base :: u64
  ea_stack_size :: u32
  ea_ret_addr :: u64
  ea_executive_return_size :: u32
  ea_outer_return_addr :: u64
  ea_prog_cookie :: u64
  ea_caller_lr :: u64

text \<open>What the restricted program starts with: its registers and the caller slot it leaves.\<close>

record 'v entry =
  en_code :: 'v
  en_exit :: 'v
  en_gate :: 'v
  en_caller :: 'v
  en_caller_slot :: u64

definition IS_ALIGNED :: "u64 \<Rightarrow> u64 \<Rightarrow> bool" where
  "IS_ALIGNED x a \<longleftrightarrow> x AND (a - 1) = 0"

definition enter_args_ok :: "'v kplatform \<Rightarrow> enter_args \<Rightarrow> 'v kernel \<Rightarrow> bool" where
  "enter_args_ok K a k =
     (let C = kp_cheri K;
          s = active k;
          pcc = cheri_pcc_get C;
          pcc_base = cheri_base_get C pcc;
          pcc_length = cheri_length_get C pcc
      in \<not> (k_active k = None \<or> iv_entered s \<or> iv_failed s \<or> iv_prog s \<noteq> ea_prog_cookie a \<or>
            ea_stack_size a \<noteq> 16 \<or> \<not> IS_ALIGNED (ea_stack_base a) 16 \<or>
            ea_stack_base a > U64_MAX - ucast (ea_stack_size a) \<or>
            \<not> IS_ALIGNED (ea_outer_return_addr a) 4 \<or> ea_outer_return_addr a < pcc_base \<or>
            ea_outer_return_addr a - pcc_base > pcc_length \<or>
            pcc_length - (ea_outer_return_addr a - pcc_base) < 4 \<or>
            ea_ret_addr a \<le> ea_caller_lr a \<or> ea_executive_return_size a = 0))"

text \<open>
  \<open>Inl\<close> is the error the function returns, with nothing changed. Otherwise it does not
  return: it enters the restricted code.
\<close>

definition cbpf_enter :: "'v kplatform \<Rightarrow> enter_args \<Rightarrow> 'v kernel \<Rightarrow> int + 'v entry \<times> 'v kernel" where
  "cbpf_enter K a k =
     (let C = kp_cheri K; pcc = cheri_pcc_get C
      in if \<not> enter_args_ok K a k then Inl (- EINVAL)
         else
           let caller = cheri_address_set C pcc (ea_outer_return_addr a)
           in if \<not> cheri_tag_get C caller \<or>
                 cheri_address_get C caller \<noteq> ea_outer_return_addr a \<or>
                 cheri_perms_get C caller AND CHERI_PERM_EXECUTE C = 0 \<or>
                 cheri_perms_get C caller AND CHERI_PERM_EXECUTIVE C = 0
              then Inl (- ERANGE)
              else
                let caller = cheri_sentry_create C caller;
                    code_size = ea_ret_addr a - ea_caller_lr a;
                    code = cbpf_exact C (ea_caller_lr a) code_size
                      (CHERI_PERM_EXECUTE C OR CHERI_PERM_LOAD C OR CHERI_PERM_GLOBAL C);
                    exit = cbpf_exact C (ea_ret_addr a) (ucast (ea_executive_return_size a))
                      (CHERI_PERM_EXECUTE C OR CHERI_PERM_LOAD C OR CHERI_PERM_GLOBAL C OR
                       CHERI_PERM_EXECUTIVE C);
                    rcsp = cbpf_exact C (ea_stack_base a) (ucast (ea_stack_size a))
                      (CHERI_PERM_LOAD C OR CHERI_PERM_STORE C OR CHERI_PERM_LOAD_CAP C OR
                       CHERI_PERM_STORE_CAP C OR CHERI_PERM_GLOBAL C)
                in if \<not> cheri_tag_get C code \<or> \<not> cheri_tag_get C exit \<or> \<not> cheri_tag_get C rcsp
                   then Inl (- ERANGE)
                   else
                     let code = cheri_sentry_create C code;
                         exit = cheri_sentry_create C exit;
                         gate = cheri_address_set C pcc (kp_gateway K);
                         gate = cheri_perms_clear C gate (CHERI_PERMS_WRITE C);
                         gate = cheri_sentry_create C gate
                     in if \<not> cheri_tag_get C caller \<or> \<not> cheri_is_sealed C caller \<or>
                           \<not> cheri_tag_get C code \<or> \<not> cheri_is_sealed C code \<or>
                           \<not> cheri_tag_get C exit \<or> \<not> cheri_is_sealed C exit \<or>
                           \<not> cheri_tag_get C gate \<or> \<not> cheri_is_sealed C gate \<or>
                           cheri_address_get C gate \<noteq> kp_gateway K
                        then Inl (- ERANGE)
                        else Inr (\<lparr>en_code = code, en_exit = exit, en_gate = gate, en_caller = caller,
                                   en_caller_slot = ea_stack_base a + ucast (ea_stack_size a)\<rparr>,
                                  (set_active ((active k)\<lparr>iv_entered := True\<rparr>) k)
                                    \<lparr>k_rcsp := rcsp, k_rddc := cheri_null C\<rparr>))"

subsection \<open>An invocation\<close>

text \<open>
  The native code of a program as the calls it makes. After a successful \<open>Native_Enter\<close> it
  runs with the entry's registers; a failed gate call ends it.
\<close>

datatype 'v native =
  Native_Return u32
| Native_Enter enter_args "int \<Rightarrow> 'v native" "'v entry \<Rightarrow> 'v native"
| Native_Gate 'v u64 u64 "'v \<Rightarrow> 'v native"

primrec bpf_prog_run :: "'v kplatform \<Rightarrow> 'v native \<Rightarrow> 'v kernel \<Rightarrow> u32 \<times> 'v kernel" where
  "bpf_prog_run K (Native_Return v) k = (v, k)"
| "bpf_prog_run K (Native_Enter a err ok) k =
     (case cbpf_enter K a k of
        Inl e \<Rightarrow> bpf_prog_run K (err e) k
      | Inr (en, k') \<Rightarrow> bpf_prog_run K (ok en) k')"
| "bpf_prog_run K (Native_Gate argument operation pc cont) k =
     (case cbpf_gateway K argument operation pc k of
        (None, k') \<Rightarrow> (0, k')
      | (Some r, k') \<Rightarrow> bpf_prog_run K (cont r) k')"

definition kernel_sweep1 :: "'v cheri \<Rightarrow> nat \<Rightarrow> 'v kernel \<Rightarrow> 'v kernel" where
  "kernel_sweep1 C index k =
     (if cheri_tag_get C (iv_cells (active k) ! index) then kernel_consume C index U64_MAX True k
      else k)"

text \<open>The value returned, the lines printed and the kernel afterwards.\<close>

definition cbpf_test_invoke ::
    "'v kplatform \<Rightarrow> u64 \<Rightarrow> bool \<Rightarrow> 'v native \<Rightarrow> 'v kernel \<Rightarrow> u32 \<times> gate_line list \<times> 'v kernel" where
  "cbpf_test_invoke K prog cbpf_gate code k =
     (let C = kp_cheri K
      in if k_active k \<noteq> None \<or> \<not> cbpf_gate then (0, [], k)
         else
           let saved_rddc = k_rddc k;
               saved_rcsp = k_rcsp k;
               k = set_active (new_invocation C prog False) k
           in case bpf_prog_run K code k of
                (result, k) \<Rightarrow>
                  let k = fold (kernel_sweep1 C) [0..<iv_acquired (active k)] k;
                      s = active k;
                      k = (if \<not> iv_entered s \<or> iv_acquired s \<noteq> iv_released s
                           then set_active (s\<lparr>iv_failed := True\<rparr>) k else k);
                      failed = iv_failed (active k);
                      k = cbpf_trace C (if failed then ''failed'' else ''exit'') U64_MAX 0 k
                  in (if failed then 0 else result, iv_log (active k),
                      k\<lparr>k_active := None, k_rddc := saved_rddc, k_rcsp := saved_rcsp\<rparr>))"

end
