(* ===== verification/Jit.thy ===== *)
theory Jit
  imports KernelGate
begin

text \<open>
  The admission pass of the kernel's compiler, \<open>src/linux/ownership/cbpf_jit.c\<close>: the
  recognition of the gate calls and the forward dataflow pass \<open>admit\<close>, which decides
  which verified programs may be compiled at all.

  \<open>bpf_jit_get_func_addr\<close> and the addresses of the three kfuncs are parameters, the fields
  of \<open>jit_env\<close>, together with what the code generator needs (theory \<open>JitCode\<close>).
\<close>

subsection \<open>Instructions\<close>

text \<open>\<open>struct bpf_insn\<close>: two 4-bit register numbers, a signed 16-bit offset and 32-bit immediate.\<close>

record bpf_insn =
  i_code :: u8
  i_dst :: "4 word"
  i_src :: "4 word"
  i_off :: s16
  i_imm :: u32

definition BPF_ALU64_MOV_X :: u8 where "BPF_ALU64_MOV_X = 0x07 OR 0xb0 OR 0x08"
definition BPF_ALU64_MOV_K :: u8 where "BPF_ALU64_MOV_K = 0x07 OR 0xb0 OR 0x00"
definition BPF_STX_MEM_DW :: u8 where "BPF_STX_MEM_DW = 0x03 OR 0x60 OR 0x18"
definition BPF_LDX_MEM_DW :: u8 where "BPF_LDX_MEM_DW = 0x01 OR 0x60 OR 0x18"
definition BPF_JMP_JEQ_K :: u8 where "BPF_JMP_JEQ_K = 0x05 OR 0x10 OR 0x00"
definition BPF_JMP_CALL :: u8 where "BPF_JMP_CALL = 0x05 OR 0x80"
definition BPF_JMP_EXIT :: u8 where "BPF_JMP_EXIT = 0x05 OR 0x90"
definition BPF_PSEUDO_KFUNC_CALL :: "4 word" where "BPF_PSEUDO_KFUNC_CALL = 2"
definition BPF_REG_10 :: "4 word" where "BPF_REG_10 = 10"

definition EOPNOTSUPP :: int where "EOPNOTSUPP = 95"
definition ENOMEM :: int where "ENOMEM = 12"

lemmas bpf_codes =
  BPF_ALU64_MOV_X_def BPF_ALU64_MOV_K_def BPF_STX_MEM_DW_def BPF_LDX_MEM_DW_def
  BPF_JMP_JEQ_K_def BPF_JMP_CALL_def BPF_JMP_EXIT_def

text \<open>The codes are distinct, as the cases of the C \<open>switch\<close> must be.\<close>

lemma bpf_codes_distinct [simp]:
  "BPF_ALU64_MOV_X \<noteq> BPF_ALU64_MOV_K" "BPF_ALU64_MOV_X \<noteq> BPF_STX_MEM_DW"
  "BPF_ALU64_MOV_X \<noteq> BPF_LDX_MEM_DW" "BPF_ALU64_MOV_X \<noteq> BPF_JMP_JEQ_K"
  "BPF_ALU64_MOV_X \<noteq> BPF_JMP_CALL" "BPF_ALU64_MOV_X \<noteq> BPF_JMP_EXIT"
  "BPF_ALU64_MOV_K \<noteq> BPF_ALU64_MOV_X" "BPF_ALU64_MOV_K \<noteq> BPF_STX_MEM_DW"
  "BPF_ALU64_MOV_K \<noteq> BPF_LDX_MEM_DW" "BPF_ALU64_MOV_K \<noteq> BPF_JMP_JEQ_K"
  "BPF_ALU64_MOV_K \<noteq> BPF_JMP_CALL" "BPF_ALU64_MOV_K \<noteq> BPF_JMP_EXIT"
  "BPF_STX_MEM_DW \<noteq> BPF_ALU64_MOV_X" "BPF_STX_MEM_DW \<noteq> BPF_ALU64_MOV_K"
  "BPF_STX_MEM_DW \<noteq> BPF_LDX_MEM_DW" "BPF_STX_MEM_DW \<noteq> BPF_JMP_JEQ_K"
  "BPF_STX_MEM_DW \<noteq> BPF_JMP_CALL" "BPF_STX_MEM_DW \<noteq> BPF_JMP_EXIT"
  "BPF_LDX_MEM_DW \<noteq> BPF_ALU64_MOV_X" "BPF_LDX_MEM_DW \<noteq> BPF_ALU64_MOV_K"
  "BPF_LDX_MEM_DW \<noteq> BPF_STX_MEM_DW" "BPF_LDX_MEM_DW \<noteq> BPF_JMP_JEQ_K"
  "BPF_LDX_MEM_DW \<noteq> BPF_JMP_CALL" "BPF_LDX_MEM_DW \<noteq> BPF_JMP_EXIT"
  "BPF_JMP_JEQ_K \<noteq> BPF_ALU64_MOV_X" "BPF_JMP_JEQ_K \<noteq> BPF_ALU64_MOV_K"
  "BPF_JMP_JEQ_K \<noteq> BPF_STX_MEM_DW" "BPF_JMP_JEQ_K \<noteq> BPF_LDX_MEM_DW"
  "BPF_JMP_JEQ_K \<noteq> BPF_JMP_CALL" "BPF_JMP_JEQ_K \<noteq> BPF_JMP_EXIT"
  "BPF_JMP_CALL \<noteq> BPF_ALU64_MOV_X" "BPF_JMP_CALL \<noteq> BPF_ALU64_MOV_K"
  "BPF_JMP_CALL \<noteq> BPF_STX_MEM_DW" "BPF_JMP_CALL \<noteq> BPF_LDX_MEM_DW"
  "BPF_JMP_CALL \<noteq> BPF_JMP_JEQ_K" "BPF_JMP_CALL \<noteq> BPF_JMP_EXIT"
  "BPF_JMP_EXIT \<noteq> BPF_ALU64_MOV_X" "BPF_JMP_EXIT \<noteq> BPF_ALU64_MOV_K"
  "BPF_JMP_EXIT \<noteq> BPF_STX_MEM_DW" "BPF_JMP_EXIT \<noteq> BPF_LDX_MEM_DW"
  "BPF_JMP_EXIT \<noteq> BPF_JMP_JEQ_K" "BPF_JMP_EXIT \<noteq> BPF_JMP_CALL"
  by (simp_all add: bpf_codes)

definition JIT_MAX_INSNS :: nat where [layout_simps]: "JIT_MAX_INSNS = 64"
definition CBPF_MAX_WORDS :: nat where [layout_simps]: "CBPF_MAX_WORDS = 1024"

record jit_env =
  je_func_addr :: "bpf_insn \<Rightarrow> (u64 \<times> bool) option"
  je_acquire :: u64
  je_read :: u64
  je_release :: u64

definition CBPF_OP_ACQUIRE :: u8 where "CBPF_OP_ACQUIRE = 1"
definition CBPF_OP_READ :: u8 where "CBPF_OP_READ = 2"
definition CBPF_OP_RELEASE :: u8 where "CBPF_OP_RELEASE = 3"

text \<open>\<open>je_func_addr\<close> is \<^term>\<open>None\<close> where the kernel function returns an error.\<close>

definition call_operation :: "'z jit_env_scheme \<Rightarrow> bpf_insn \<Rightarrow> u8" where
  "call_operation E i =
     (if i_code i \<noteq> BPF_JMP_CALL \<or> i_src i \<noteq> BPF_PSEUDO_KFUNC_CALL \<or> i_dst i \<noteq> 0 then 0
      else case je_func_addr E i of
             None \<Rightarrow> 0
           | Some (address, fixed) \<Rightarrow>
               if \<not> fixed then 0
               else if address = je_acquire E then CBPF_OP_ACQUIRE
               else if address = je_read E then CBPF_OP_READ
               else if address = je_release E then CBPF_OP_RELEASE
               else 0)"

text \<open>\<open>cbpf_jit_match\<close>: the value returned and the new value of \<open>prog->aux->cbpf_gate\<close>.\<close>

definition cbpf_jit_match :: "'z jit_env_scheme \<Rightarrow> bpf_insn list \<Rightarrow> bool \<Rightarrow> bool \<times> bool" where
  "cbpf_jit_match E insnsi cbpf_gate =
     (if list_ex (\<lambda>i. call_operation E i \<noteq> 0) insnsi then (True, True)
      else (cbpf_gate, cbpf_gate))"

subsection \<open>Kinds\<close>

definition UNINIT :: u8 where "UNINIT = 1"
definition ZERO :: u8 where "ZERO = 2"
definition SCALAR :: u8 where "SCALAR = 4"
definition HANDLE :: u8 where "HANDLE = 8"

definition scalar :: "u8 \<Rightarrow> bool" where
  "scalar kind \<longleftrightarrow> kind \<noteq> 0 \<and> kind AND NOT (ZERO OR SCALAR) = 0"

definition defined :: "u8 \<Rightarrow> bool" where
  "defined kind \<longleftrightarrow> kind \<noteq> 0 \<and> kind AND UNINIT = 0"

record cbpf_flow =
  f_reg :: "u8 list"
  f_spill :: u8
  f_reached :: bool

definition zero_flow :: cbpf_flow where
  "zero_flow = \<lparr>f_reg = replicate 10 0, f_spill = 0, f_reached = False\<rparr>"

definition join :: "cbpf_flow \<Rightarrow> cbpf_flow \<Rightarrow> cbpf_flow" where
  "join destination source =
     (if \<not> f_reached destination then source
      else destination\<lparr>f_reg := map2 (OR) (f_reg destination) (f_reg source),
                       f_spill := f_spill destination OR f_spill source\<rparr>)"

subsection \<open>The pass\<close>

text \<open>
  What the \<open>switch\<close> makes of one instruction: the state after it, whether it falls
  through, the branch it may take with its state, the operation recorded for a call, the
  acquisitions counted so far and whether it is an exit.
\<close>

record transfer =
  t_state :: cbpf_flow
  t_falls_through :: bool
  t_taken :: "(nat \<times> cbpf_flow) option"
  t_operation :: u8
  t_acquisitions :: nat
  t_exit :: bool

definition goes_on :: "cbpf_flow \<Rightarrow> nat \<Rightarrow> transfer" where
  "goes_on state acquisitions =
     \<lparr>t_state = state, t_falls_through = True, t_taken = None, t_operation = 0,
      t_acquisitions = acquisitions, t_exit = False\<rparr>"

definition set_reg :: "cbpf_flow \<Rightarrow> nat \<Rightarrow> u8 \<Rightarrow> cbpf_flow" where
  "set_reg state r kind = state\<lparr>f_reg := (f_reg state)[r := kind]\<rparr>"

definition clobber :: "cbpf_flow \<Rightarrow> cbpf_flow" where
  "clobber state = fold (\<lambda>reg s. set_reg s reg UNINIT) [1..<6] state"

definition admit_call :: "'z jit_env_scheme \<Rightarrow> bpf_insn \<Rightarrow> cbpf_flow \<Rightarrow> nat \<Rightarrow> int + transfer" where
  "admit_call E i state acquisitions =
     (let op = call_operation E i
      in if op = CBPF_OP_ACQUIRE then
           (if \<not> scalar (f_reg state ! 1) \<or> acquisitions + 1 > 2 then Inl (- EINVAL)
            else Inr ((goes_on (clobber (set_reg state 0 (HANDLE OR ZERO))) (acquisitions + 1))
                        \<lparr>t_operation := op\<rparr>))
         else if op = CBPF_OP_READ \<or> op = CBPF_OP_RELEASE then
           (if f_reg state ! 1 \<noteq> HANDLE then Inl (- EINVAL)
            else Inr ((goes_on (clobber (set_reg state 0 (if op = CBPF_OP_READ then SCALAR else ZERO)))
                        acquisitions)\<lparr>t_operation := op\<rparr>))
         else Inl (- EINVAL))"

definition admit_insn ::
    "'z jit_env_scheme \<Rightarrow> nat \<Rightarrow> nat \<Rightarrow> bpf_insn \<Rightarrow> cbpf_flow \<Rightarrow> nat \<Rightarrow> int + transfer" where
  "admit_insn E len pc i state acquisitions =
     (let dst = unat (i_dst i);
          src = unat (i_src i);
          reg = f_reg state
      in if i_code i = BPF_ALU64_MOV_X then
           (if dst > 9 \<or> src > 9 \<or> i_off i \<noteq> 0 \<or> i_imm i \<noteq> 0 \<or> \<not> defined (reg ! src)
            then Inl (- EINVAL)
            else Inr (goes_on (set_reg state dst (reg ! src)) acquisitions))
         else if i_code i = BPF_ALU64_MOV_K then
           (if dst > 9 \<or> src \<noteq> 0 \<or> i_off i \<noteq> 0 then Inl (- EINVAL)
            else Inr (goes_on (set_reg state dst (if i_imm i \<noteq> 0 then SCALAR else ZERO)) acquisitions))
         else if i_code i = BPF_STX_MEM_DW then
           (if i_dst i \<noteq> BPF_REG_10 \<or> src > 9 \<or> sint (i_off i) \<noteq> - 8 \<or> i_imm i \<noteq> 0 \<or>
               \<not> defined (reg ! src)
            then Inl (- EINVAL)
            else Inr (goes_on (state\<lparr>f_spill := reg ! src\<rparr>) acquisitions))
         else if i_code i = BPF_LDX_MEM_DW then
           (if dst > 9 \<or> i_src i \<noteq> BPF_REG_10 \<or> sint (i_off i) \<noteq> - 8 \<or> i_imm i \<noteq> 0 \<or>
               \<not> defined (f_spill state)
            then Inl (- EINVAL)
            else Inr (goes_on (set_reg state dst (f_spill state)) acquisitions))
         else if i_code i = BPF_JMP_JEQ_K then
           (if dst > 9 \<or> src \<noteq> 0 \<or> i_imm i \<noteq> 0 \<or> sint (i_off i) \<le> 0 \<or>
               pc + 1 + nat (sint (i_off i)) \<ge> len \<or> \<not> defined (reg ! dst) \<or>
               reg ! dst AND NOT (ZERO OR HANDLE) \<noteq> 0
            then Inl (- EINVAL)
            else let kind = reg ! dst AND NOT ZERO
                 in Inr ((goes_on (set_reg state dst kind) acquisitions)
                      \<lparr>t_taken := (if reg ! dst AND ZERO \<noteq> 0
                          then Some (pc + 1 + nat (sint (i_off i)), set_reg state dst ZERO)
                          else None),
                       t_falls_through := kind \<noteq> 0\<rparr>))
         else if i_code i = BPF_JMP_CALL then admit_call E i state acquisitions
         else if i_code i = BPF_JMP_EXIT then
           (if dst \<noteq> 0 \<or> src \<noteq> 0 \<or> i_off i \<noteq> 0 \<or> i_imm i \<noteq> 0 \<or> \<not> scalar (reg ! 0)
            then Inl (- EINVAL)
            else Inr ((goes_on state acquisitions)\<lparr>t_falls_through := False, t_exit := True\<rparr>))
         else Inl (- EOPNOTSUPP))"

text \<open>The state of the pass: the parts of the compiler's context it fills, and its locals.\<close>

record admission =
  a_flow :: "cbpf_flow list"
  a_operation :: "u8 list"
  a_acquisitions :: nat
  a_has_exit :: bool

definition join_at :: "nat \<Rightarrow> cbpf_flow \<Rightarrow> cbpf_flow list \<Rightarrow> cbpf_flow list" where
  "join_at n source flow = flow[n := join (flow ! n) source]"

text \<open>One iteration of the loop over the instructions.\<close>

definition admit_step ::
    "'z jit_env_scheme \<Rightarrow> bpf_insn list \<Rightarrow> nat \<Rightarrow> admission \<Rightarrow> int + admission" where
  "admit_step E insnsi pc a =
     (let state = a_flow a ! pc
      in if \<not> f_reached state then Inl (- EINVAL)
         else case admit_insn E (length insnsi) pc (insnsi ! pc) state (a_acquisitions a) of
                Inl e \<Rightarrow> Inl e
              | Inr t \<Rightarrow>
                  let flow = (case t_taken t of
                                None \<Rightarrow> a_flow a
                              | Some (target, taken) \<Rightarrow> join_at target taken (a_flow a));
                      flow = (if t_falls_through t then join_at (pc + 1) (t_state t) flow else flow)
                  in Inr (a\<lparr>a_flow := flow,
                            a_operation := (a_operation a)[pc := t_operation t],
                            a_acquisitions := t_acquisitions t,
                            a_has_exit := a_has_exit a \<or> t_exit t\<rparr>))"

function admit_from ::
    "'z jit_env_scheme \<Rightarrow> bpf_insn list \<Rightarrow> nat \<Rightarrow> admission \<Rightarrow> int + admission" where
  "admit_from E insnsi pc a =
     (if pc < length insnsi
      then (case admit_step E insnsi pc a of
              Inl e \<Rightarrow> Inl e
            | Inr b \<Rightarrow> admit_from E insnsi (pc + 1) b)
      else Inr a)"
  by pat_completeness auto
termination by (relation "measure (\<lambda>(E, is, pc, a). length is - pc)") auto

declare admit_from.simps [simp del]

text \<open>The zeroed context, with the first state uninitialized and reached.\<close>

definition admit_start :: admission where
  "admit_start =
     \<lparr>a_flow = (replicate (JIT_MAX_INSNS + 1) zero_flow)
        [0 := \<lparr>f_reg = replicate 10 UNINIT, f_spill = UNINIT, f_reached = True\<rparr>],
      a_operation = replicate JIT_MAX_INSNS 0, a_acquisitions = 0, a_has_exit = False\<rparr>"

definition admit :: "'z jit_env_scheme \<Rightarrow> bpf_insn list \<Rightarrow> int + admission" where
  "admit E insnsi =
     (case admit_from E insnsi 0 admit_start of
        Inl e \<Rightarrow> Inl e
      | Inr a \<Rightarrow>
          if a_has_exit a \<and> a_acquisitions a \<noteq> 0 \<and> \<not> f_reached (a_flow a ! length insnsi)
          then Inr a else Inl (- EINVAL))"

end
