(* ===== verification/JitAdmit.thy ===== *)
theory JitAdmit
  imports Jit
begin

text \<open>
  Soundness of the admission pass against the contract of the verified instruction set:
  a small-step meaning of the admitted BPF instructions over values that are
  uninitialized, numbers or handles, in which a use the contract forbids is stuck. The
  pass's one increasing sweep computes a fixed point, and no execution of an admitted
  program is ever stuck.
\<close>

subsection \<open>The meaning of the instructions\<close>

datatype 'h bval = Uninit | Num u64 | Cap 'h

record 'h bstate =
  b_reg :: "'h bval list"
  b_stack :: "int \<Rightarrow> 'h bval"
  b_pc :: nat

text \<open>\<open>Call\<close> is a gate call: its operation, its argument and the state its result leads to.\<close>

datatype 'h beffect =
  Stuck | Step "'h bstate" | Call u8 "'h bval" "'h bval \<Rightarrow> 'h bstate" | Exit u64

definition put :: "'h bstate \<Rightarrow> nat \<Rightarrow> 'h bval \<Rightarrow> 'h bstate" where
  "put s r v = s\<lparr>b_reg := (b_reg s)[r := v], b_pc := b_pc s + 1\<rparr>"

definition after_call :: "'h bstate \<Rightarrow> 'h bval \<Rightarrow> 'h bstate" where
  "after_call s v =
     s\<lparr>b_reg := fold (\<lambda>r rs. rs[r := Uninit]) [1..<6] ((b_reg s)[0 := v]), b_pc := b_pc s + 1\<rparr>"

definition bpf_call :: "'z jit_env_scheme \<Rightarrow> bpf_insn \<Rightarrow> 'h bstate \<Rightarrow> 'h beffect" where
  "bpf_call E i s =
     (let op = call_operation E i; arg = b_reg s ! 1
      in if op = CBPF_OP_ACQUIRE then (case arg of Num n \<Rightarrow> Call op arg (after_call s) | _ \<Rightarrow> Stuck)
         else if op = CBPF_OP_READ \<or> op = CBPF_OP_RELEASE then
           (case arg of Cap h \<Rightarrow> Call op arg (after_call s) | _ \<Rightarrow> Stuck)
         else Stuck)"

text \<open>
  The program counter, the registers and the aligned slots of the 512-byte stack are the
  state: anything outside them is stuck, and so is the use of a register or slot that was
  never written.
\<close>

definition stack_slot :: "int \<Rightarrow> bool" where
  "stack_slot off \<longleftrightarrow> - 512 \<le> off \<and> off \<le> - 8 \<and> off mod 8 = 0"

definition bpf_effect :: "'z jit_env_scheme \<Rightarrow> bpf_insn list \<Rightarrow> 'h bstate \<Rightarrow> 'h beffect" where
  "bpf_effect E insnsi s =
     (let i = insnsi ! b_pc s;
          dst = unat (i_dst i);
          src = unat (i_src i)
      in if length insnsi \<le> b_pc s then Stuck
         else if i_code i = BPF_ALU64_MOV_X then
           (if dst > 9 \<or> src > 9 \<or> b_reg s ! src = Uninit then Stuck
            else Step (put s dst (b_reg s ! src)))
         else if i_code i = BPF_ALU64_MOV_K then
           (if dst > 9 then Stuck else Step (put s dst (Num (scast (i_imm i)))))
         else if i_code i = BPF_STX_MEM_DW then
           (if i_dst i \<noteq> BPF_REG_10 \<or> \<not> stack_slot (sint (i_off i)) \<or> src > 9 \<or> b_reg s ! src = Uninit
            then Stuck
            else Step (s\<lparr>b_stack := (b_stack s)(sint (i_off i) := b_reg s ! src), b_pc := b_pc s + 1\<rparr>))
         else if i_code i = BPF_LDX_MEM_DW then
           (if i_src i \<noteq> BPF_REG_10 \<or> \<not> stack_slot (sint (i_off i)) \<or> dst > 9 \<or>
               b_stack s (sint (i_off i)) = Uninit
            then Stuck else Step (put s dst (b_stack s (sint (i_off i)))))
         else if i_code i = BPF_JMP_JEQ_K then
           (if dst > 9 then Stuck
            else case b_reg s ! dst of
              Uninit \<Rightarrow> Stuck
            | Num n \<Rightarrow> Step (s\<lparr>b_pc := (if n = 0 then b_pc s + 1 + nat (sint (i_off i)) else b_pc s + 1)\<rparr>)
            | Cap h \<Rightarrow> Step (s\<lparr>b_pc := b_pc s + 1\<rparr>))
         else if i_code i = BPF_JMP_CALL then bpf_call E i s
         else if i_code i = BPF_JMP_EXIT then
           (case b_reg s ! 0 of Num n \<Rightarrow> Exit n | _ \<Rightarrow> Stuck)
         else Stuck)"

definition bpf_start :: "'h bstate" where
  "bpf_start = \<lparr>b_reg = replicate 10 Uninit, b_stack = (\<lambda>_. Uninit), b_pc = 0\<rparr>"

text \<open>What the three gates return when they do not end the program.\<close>

definition result_ok :: "u8 \<Rightarrow> 'h bval \<Rightarrow> bool" where
  "result_ok op v \<longleftrightarrow>
     (if op = CBPF_OP_ACQUIRE then v = Num 0 \<or> (\<exists>h. v = Cap h)
      else if op = CBPF_OP_READ then (\<exists>n. v = Num n)
      else v = Num 0)"

inductive bpf_reach :: "'z jit_env_scheme \<Rightarrow> bpf_insn list \<Rightarrow> 'h bstate \<Rightarrow> bool" for E insnsi where
  start: "bpf_reach E insnsi bpf_start"
| step: "bpf_reach E insnsi s \<Longrightarrow> bpf_effect E insnsi s = Step s' \<Longrightarrow> bpf_reach E insnsi s'"
| call: "bpf_reach E insnsi s \<Longrightarrow> bpf_effect E insnsi s = Call op arg k \<Longrightarrow> result_ok op v \<Longrightarrow>
    bpf_reach E insnsi (k v)"

subsection \<open>What a kind covers\<close>

fun covers :: "u8 \<Rightarrow> 'h bval \<Rightarrow> bool" where
  "covers kind Uninit = bit kind 0"
| "covers kind (Num n) = (bit kind 2 \<or> n = 0 \<and> bit kind 1)"
| "covers kind (Cap h) = bit kind 3"

lemma kind_bits [simp]:
  "bit UNINIT n \<longleftrightarrow> n = 0" "bit ZERO n \<longleftrightarrow> n = 1" "bit SCALAR n \<longleftrightarrow> n = 2" "bit HANDLE n \<longleftrightarrow> n = 3"
proof -
  have p: "UNINIT = 2 ^ 0" "ZERO = 2 ^ 1" "SCALAR = 2 ^ 2" "HANDLE = 2 ^ 3"
    by (simp_all add: UNINIT_def ZERO_def SCALAR_def HANDLE_def)
  show "bit UNINIT n \<longleftrightarrow> n = 0" "bit ZERO n \<longleftrightarrow> n = 1" "bit SCALAR n \<longleftrightarrow> n = 2" "bit HANDLE n \<longleftrightarrow> n = 3"
    unfolding p by (auto simp only: bit_exp_iff) (auto simp: possible_bit_def)
qed

lemma masked_bits:
  fixes k :: u8
  shows "k AND m = 0 \<Longrightarrow> bit m n \<Longrightarrow> \<not> bit k n"
  by (metis bit_and_iff bit_0_eq bot_apply bot_bool_def)

lemma mask_bits:
  "n < 8 \<Longrightarrow> bit (NOT (ZERO OR SCALAR)) n \<longleftrightarrow> n \<noteq> 1 \<and> n \<noteq> 2"
  "n < 8 \<Longrightarrow> bit (NOT (ZERO OR HANDLE)) n \<longleftrightarrow> n \<noteq> 1 \<and> n \<noteq> 3"
  "n < 8 \<Longrightarrow> bit (NOT ZERO) n \<longleftrightarrow> n \<noteq> 1"
  by (simp_all only: bit_not_iff bit_or_iff kind_bits) (simp_all add: possible_bit_def)

lemma excluded_bits:
  "k AND NOT (ZERO OR SCALAR) = 0 \<Longrightarrow> \<not> bit k 0 \<and> \<not> bit k 3"
  "k AND NOT (ZERO OR HANDLE) = 0 \<Longrightarrow> \<not> bit k 0 \<and> \<not> bit k 2"
proof -
  have m: "bit (NOT (ZERO OR SCALAR)) 0" "bit (NOT (ZERO OR SCALAR)) 3"
    "bit (NOT (ZERO OR HANDLE)) 0" "bit (NOT (ZERO OR HANDLE)) 2"
    by (simp_all only: mask_bits) simp_all
  show "k AND NOT (ZERO OR SCALAR) = 0 \<Longrightarrow> \<not> bit k 0 \<and> \<not> bit k 3"
    using masked_bits m(1,2) by blast
  show "k AND NOT (ZERO OR HANDLE) = 0 \<Longrightarrow> \<not> bit k 0 \<and> \<not> bit k 2"
    using masked_bits m(3,4) by blast
qed

lemma covers_or: "covers k v \<Longrightarrow> covers (k OR l) v" "covers l v \<Longrightarrow> covers (k OR l) v"
  by (cases v; auto simp: bit_or_iff)+

lemma covers_kinds [simp]:
  "covers UNINIT Uninit" "covers ZERO (Num 0)" "covers SCALAR (Num n)" "covers HANDLE (Cap h)"
  by (simp_all add: kind_bits)

lemma covers_defined: "covers k v \<Longrightarrow> defined k \<Longrightarrow> v \<noteq> Uninit"
  using masked_bits [of k UNINIT 0] by (auto simp: defined_def kind_bits)

lemma covers_scalar: "covers k v \<Longrightarrow> scalar k \<Longrightarrow> \<exists>n. v = Num n"
  using excluded_bits(1) [of k] by (cases v) (auto simp: scalar_def)

lemma covers_handle: "covers HANDLE v \<Longrightarrow> \<exists>h. v = Cap h"
  by (cases v) (auto simp: kind_bits)

lemma covers_immediate: "covers (if imm \<noteq> 0 then SCALAR else ZERO) (Num (scast (imm :: u32)))"
  by (simp add: kind_bits)

text \<open>The refinement of a NULL test.\<close>

lemma covers_null_test:
  assumes "covers k v" and "k AND NOT (ZERO OR HANDLE) = 0"
  shows "v = Num 0 \<and> k AND ZERO \<noteq> 0 \<or> (\<exists>h. v = Cap h) \<and> covers (k AND NOT ZERO) v \<and> k AND NOT ZERO \<noteq> 0"
proof -
  have b: "\<not> bit k 0" "\<not> bit k 2"
    using excluded_bits(2) [OF assms(2)] by simp_all
  show ?thesis
  proof (cases v)
    case (Num n)
    then have n: "n = 0" "bit k 1" using assms(1) b by simp_all
    then have "bit (k AND ZERO) 1" by (simp add: bit_and_iff kind_bits)
    then have "k AND ZERO \<noteq> 0" by auto
    then show ?thesis using Num n by simp
  next
    case (Cap h)
    then have "bit k 3" using assms(1) by simp
    then have b3: "bit (k AND NOT ZERO) 3" by (simp only: bit_and_iff mask_bits) simp
    then have "k AND NOT ZERO \<noteq> 0" by auto
    then show ?thesis using Cap b3 by simp
  qed (use assms b in simp)
qed

subsection \<open>Flow states\<close>

definition flow_covers :: "cbpf_flow \<Rightarrow> 'h bstate \<Rightarrow> bool" where
  "flow_covers f s \<longleftrightarrow>
     f_reached f \<and> length (f_reg f) = 10 \<and> length (b_reg s) = 10 \<and>
     (\<forall>r < 10. covers (f_reg f ! r) (b_reg s ! r)) \<and> covers (f_spill f) (b_stack s (- 8))"

definition flow_wf :: "cbpf_flow \<Rightarrow> bool" where
  "flow_wf f \<longleftrightarrow> length (f_reg f) = 10"

lemma join_wf: "flow_wf d \<Longrightarrow> flow_wf f \<Longrightarrow> flow_wf (join d f)"
  by (simp add: flow_wf_def join_def)

lemma join_covers:
  assumes "flow_wf d" and "flow_wf f"
  shows "flow_covers d s \<Longrightarrow> flow_covers (join d f) s"
    and "f_reached f \<Longrightarrow> flow_covers f s \<Longrightarrow> flow_covers (join d f) s"
  using assms by (auto simp: flow_covers_def flow_wf_def join_def covers_or)

lemma join_reached: "f_reached f \<Longrightarrow> f_reached (join d f)"
  by (simp add: join_def)

lemma set_reg_covers:
  "flow_covers f s \<Longrightarrow> covers k v \<Longrightarrow> flow_covers (set_reg f r k) (put s r v)"
proof -
  assume f: "flow_covers f s" and k: "covers k v"
  have "covers ((f_reg f)[r := k] ! q) ((b_reg s)[r := v] ! q)" if "q < 10" for q
    using f k that by (cases "q = r") (simp_all add: flow_covers_def)
  then show ?thesis using f by (simp add: flow_covers_def set_reg_def put_def)
qed

lemma flow_covers_pc [simp]: "flow_covers f (s\<lparr>b_pc := n\<rparr>) = flow_covers f s"
  by (simp add: flow_covers_def)

lemma clobber_covers:
  assumes "flow_covers f s" and "covers k v"
  shows "flow_covers (clobber (set_reg f 0 k)) (after_call s v)"
proof -
  have "[1..<6] = [1, 2, 3, 4, 5::nat]" by (simp add: upt_rec)
  then show ?thesis
    using assms
    by (auto simp: flow_covers_def clobber_def set_reg_def after_call_def nth_list_update)
qed

lemma after_call_pc: "b_pc (after_call s v) = b_pc s + 1"
  by (simp add: after_call_def)

lemma flow_coversD:
  assumes "flow_covers f s"
  shows "r < 10 \<Longrightarrow> covers (f_reg f ! r) (b_reg s ! r)" and "covers (f_spill f) (b_stack s (- 8))"
  using assms by (simp_all add: flow_covers_def)

subsection \<open>One instruction\<close>

text \<open>What an admitted instruction guarantees of every state its flow covers.\<close>

definition effect_ok :: "nat \<Rightarrow> nat \<Rightarrow> transfer \<Rightarrow> 'h beffect \<Rightarrow> bool" where
  "effect_ok len pc t e \<longleftrightarrow>
     (case e of
        Stuck \<Rightarrow> False
      | Step s' \<Rightarrow>
          t_falls_through t \<and> b_pc s' = pc + 1 \<and> flow_covers (t_state t) s' \<or>
          (\<exists>n f. t_taken t = Some (n, f) \<and> pc < n \<and> n < len \<and> b_pc s' = n \<and> flow_covers f s')
      | Call op arg k \<Rightarrow>
          op = t_operation t \<and> op \<noteq> 0 \<and>
          (\<forall>v. result_ok op v \<longrightarrow>
             t_falls_through t \<and> b_pc (k v) = pc + 1 \<and> flow_covers (t_state t) (k v))
      | Exit n \<Rightarrow> t_exit t)"

lemma admit_call_sound:
  assumes t: "admit_call E i f acq = Inr t" and cov: "flow_covers f s"
  shows "effect_ok len (b_pc s) t (bpf_call E i s)"
proof -
  let ?op = "call_operation E i"
  have r1: "covers (f_reg f ! 1) (b_reg s ! 1)" using flow_coversD(1) [OF cov, of 1] by simp
  have nz: "CBPF_OP_ACQUIRE \<noteq> 0" "CBPF_OP_READ \<noteq> 0" "CBPF_OP_RELEASE \<noteq> 0"
    and ne: "CBPF_OP_ACQUIRE \<noteq> CBPF_OP_READ" "CBPF_OP_ACQUIRE \<noteq> CBPF_OP_RELEASE"
      "CBPF_OP_READ \<noteq> CBPF_OP_RELEASE"
    by (simp_all add: CBPF_OP_ACQUIRE_def CBPF_OP_READ_def CBPF_OP_RELEASE_def)
  consider (acquire) "?op = CBPF_OP_ACQUIRE" | (use_it) "?op = CBPF_OP_READ \<or> ?op = CBPF_OP_RELEASE"
    | (none) "?op \<noteq> CBPF_OP_ACQUIRE" "?op \<noteq> CBPF_OP_READ" "?op \<noteq> CBPF_OP_RELEASE" by blast
  then show ?thesis
  proof cases
    case acquire
    then have sc: "scalar (f_reg f ! 1)"
      and t': "t = (goes_on (clobber (set_reg f 0 (HANDLE OR ZERO))) (acq + 1))\<lparr>t_operation := ?op\<rparr>"
      using t by (auto simp: admit_call_def Let_def split: if_splits)
    obtain n where n: "b_reg s ! 1 = Num n" using covers_scalar [OF r1 sc] by blast
    have eff: "bpf_call E i s = Call ?op (Num n) (after_call s)"
      using acquire n by (simp add: bpf_call_def Let_def)
    have "flow_covers (clobber (set_reg f 0 (HANDLE OR ZERO))) (after_call s v)" if "result_ok ?op v" for v
      by (rule clobber_covers [OF cov]) (use that acquire in \<open>auto simp: result_ok_def bit_or_iff\<close>)
    then show ?thesis
      using acquire nz by (simp add: effect_ok_def eff t' goes_on_def after_call_pc)
  next
    case use_it
    let ?k = "if ?op = CBPF_OP_READ then SCALAR else ZERO"
    have h1: "f_reg f ! 1 = HANDLE"
      and t': "t = (goes_on (clobber (set_reg f 0 ?k)) acq)\<lparr>t_operation := ?op\<rparr>"
      using t use_it ne by (auto simp: admit_call_def Let_def split: if_splits)
    obtain h where h: "b_reg s ! 1 = Cap h" using covers_handle [of "b_reg s ! 1"] r1 h1 by auto
    have eff: "bpf_call E i s = Call ?op (Cap h) (after_call s)"
      using use_it h ne by (auto simp: bpf_call_def Let_def)
    have "flow_covers (clobber (set_reg f 0 ?k)) (after_call s v)" if "result_ok ?op v" for v
      by (rule clobber_covers [OF cov]) (use that use_it ne in \<open>auto simp: result_ok_def\<close>)
    then show ?thesis
      using use_it nz by (auto simp: effect_ok_def eff t' goes_on_def after_call_pc)
  next
    case none
    then show ?thesis using t by (simp add: admit_call_def Let_def)
  qed
qed

lemma admit_branch_sound:
  assumes t: "admit_insn E (length insnsi) (b_pc s) (insnsi ! b_pc s) f acq = Inr t"
    and cov: "flow_covers f s" and pc: "b_pc s < length insnsi"
    and jeq: "i_code (insnsi ! b_pc s) = BPF_JMP_JEQ_K"
  shows "effect_ok (length insnsi) (b_pc s) t (bpf_effect E insnsi s)"
proof -
  let ?i = "insnsi ! b_pc s"
  let ?d = "unat (i_dst ?i)"
  note cv = flow_coversD [OF cov]
  let ?k = "f_reg f ! ?d" and ?n = "b_pc s + 1 + nat (sint (i_off ?i))"
  have b: "?d < 10" "0 < sint (i_off ?i)" "?n < length insnsi" "?k AND NOT (ZERO OR HANDLE) = 0"
    and t': "t = (goes_on (set_reg f ?d (?k AND NOT ZERO)) acq)
        \<lparr>t_taken := (if ?k AND ZERO \<noteq> 0 then Some (?n, set_reg f ?d ZERO) else None),
         t_falls_through := ?k AND NOT ZERO \<noteq> 0\<rparr>"
    using t jeq by (auto simp: admit_insn_def Let_def split: if_splits)
  have same: "(b_reg s)[?d := b_reg s ! ?d] = b_reg s" by simp
  have upd: "flow_covers (set_reg f ?d k) (s\<lparr>b_pc := n\<rparr>)" if "covers k (b_reg s ! ?d)" for k n
    using set_reg_covers [OF cov that, of ?d] by (simp add: put_def same flow_covers_def)
  from covers_null_test [OF cv(1) [OF b(1)] b(4)] show ?thesis
  proof (elim disjE conjE exE)
    assume z: "b_reg s ! ?d = Num 0" "?k AND ZERO \<noteq> 0"
    have "bpf_effect E insnsi s = Step (s\<lparr>b_pc := ?n\<rparr>)"
      using jeq pc z b(1) by (simp add: bpf_effect_def Let_def)
    moreover have "flow_covers (set_reg f ?d ZERO) (s\<lparr>b_pc := ?n\<rparr>)" using upd z(1) by simp
    ultimately show ?thesis using z(2) b by (simp add: effect_ok_def t')
  next
    fix h
    assume c: "b_reg s ! ?d = Cap h" "covers (?k AND NOT ZERO) (b_reg s ! ?d)" "?k AND NOT ZERO \<noteq> 0"
    have "bpf_effect E insnsi s = Step (s\<lparr>b_pc := b_pc s + 1\<rparr>)"
      using jeq pc c(1) b(1) by (simp add: bpf_effect_def Let_def)
    then show ?thesis using upd [OF c(2)] c(3) by (simp add: effect_ok_def t' goes_on_def)
  qed
qed

lemma admit_insn_sound:
  assumes t: "admit_insn E (length insnsi) (b_pc s) (insnsi ! b_pc s) f acq = Inr t"
    and cov: "flow_covers f s" and pc: "b_pc s < length insnsi"
  shows "effect_ok (length insnsi) (b_pc s) t (bpf_effect E insnsi s)"
proof -
  let ?i = "insnsi ! b_pc s"
  let ?d = "unat (i_dst ?i)" and ?s = "unat (i_src ?i)"
  note cv = flow_coversD [OF cov]
  consider (movx) "i_code ?i = BPF_ALU64_MOV_X" | (movk) "i_code ?i = BPF_ALU64_MOV_K"
    | (stx) "i_code ?i = BPF_STX_MEM_DW" | (ldx) "i_code ?i = BPF_LDX_MEM_DW"
    | (jeq) "i_code ?i = BPF_JMP_JEQ_K" | (call) "i_code ?i = BPF_JMP_CALL"
    | (exit) "i_code ?i = BPF_JMP_EXIT"
    using t by (auto simp: admit_insn_def Let_def split: if_splits)
  then show ?thesis
  proof cases
    case movx
    then have b: "?s < 10" "defined (f_reg f ! ?s)" "\<not> 9 < ?d"
      and t': "t = goes_on (set_reg f ?d (f_reg f ! ?s)) acq"
      using t by (auto simp: admit_insn_def Let_def split: if_splits)
    show ?thesis
      using movx pc b cv(1) [OF b(1)] covers_defined [OF cv(1) [OF b(1)] b(2)] set_reg_covers [OF cov]
      by (simp add: bpf_effect_def Let_def effect_ok_def goes_on_def t' put_def)
  next
    case movk
    then have t': "t = goes_on (set_reg f ?d (if i_imm ?i \<noteq> 0 then SCALAR else ZERO)) acq"
      and b: "\<not> 9 < ?d"
      using t by (auto simp: admit_insn_def Let_def split: if_splits)
    have "flow_covers (t_state t) (put s ?d (Num (scast (i_imm ?i))))"
      unfolding t' goes_on_def by (simp only: transfer.select_convs) (rule set_reg_covers [OF cov covers_immediate])
    then show ?thesis
      using movk pc b
      by (simp add: bpf_effect_def Let_def effect_ok_def t' goes_on_def put_def split del: if_split)
  next
    case stx
    then have b: "?s < 10" "defined (f_reg f ! ?s)" "i_dst ?i = BPF_REG_10" "sint (i_off ?i) = - 8"
      and t': "t = goes_on (f\<lparr>f_spill := f_reg f ! ?s\<rparr>) acq"
      using t by (auto simp: admit_insn_def Let_def split: if_splits)
    have "flow_covers (f\<lparr>f_spill := f_reg f ! ?s\<rparr>) (s\<lparr>b_stack := (b_stack s)(- 8 := b_reg s ! ?s), b_pc := b_pc s + 1\<rparr>)"
      using cov cv(1) [OF b(1)] by (simp add: flow_covers_def)
    then show ?thesis
      using stx pc b(1,3,4) covers_defined [OF cv(1) [OF b(1)] b(2)]
      by (simp add: bpf_effect_def Let_def effect_ok_def t' goes_on_def stack_slot_def)
  next
    case ldx
    then have b: "defined (f_spill f)" "\<not> 9 < ?d" "i_src ?i = BPF_REG_10" "sint (i_off ?i) = - 8"
      and t': "t = goes_on (set_reg f ?d (f_spill f)) acq"
      using t by (auto simp: admit_insn_def Let_def split: if_splits)
    show ?thesis
      using ldx pc b(2-4) covers_defined [OF cv(2) b(1)] set_reg_covers [OF cov cv(2)]
      by (simp add: bpf_effect_def Let_def effect_ok_def t' goes_on_def put_def stack_slot_def)
  next
    case jeq
    then show ?thesis using admit_branch_sound [OF t cov pc] by blast
  next
    case call
    then have "admit_call E ?i f acq = Inr t"
      using t by (simp add: admit_insn_def Let_def)
    then show ?thesis
      using admit_call_sound [OF _ cov] call pc by (simp add: bpf_effect_def Let_def)
  next
    case exit
    then have b: "scalar (f_reg f ! 0)" and t': "t_exit t"
      using t by (auto simp: admit_insn_def Let_def split: if_splits)
    obtain n where "b_reg s ! 0 = Num n" using covers_scalar [OF cv(1) [of 0] b] by auto
    then show ?thesis
      using exit pc t' by (simp add: bpf_effect_def Let_def effect_ok_def)
  qed
qed

subsection \<open>The pass computes a fixed point\<close>

lemma set_reg_wf [simp]: "flow_wf (set_reg f r k) = flow_wf f"
  by (simp add: flow_wf_def set_reg_def)

lemma clobber_wf [simp]: "flow_wf (clobber f) = flow_wf f"
proof -
  have "flow_wf (fold (\<lambda>reg s. set_reg s reg UNINIT) rs f) = flow_wf f" for rs
    by (induction rs arbitrary: f) simp_all
  then show ?thesis by (simp add: clobber_def)
qed

lemma reached_simps [simp]:
  "f_reached (set_reg f r k) = f_reached f" "f_reached (clobber f) = f_reached f"
  "flow_wf (f\<lparr>f_spill := k\<rparr>) = flow_wf f"
proof -
  show "flow_wf (f\<lparr>f_spill := k\<rparr>) = flow_wf f" by (simp add: flow_wf_def)
  show "f_reached (set_reg f r k) = f_reached f" for f r k by (simp add: set_reg_def)
  then have "f_reached (fold (\<lambda>reg s. set_reg s reg UNINIT) rs f) = f_reached f" for rs f
    by (induction rs arbitrary: f) simp_all
  then show "f_reached (clobber f) = f_reached f" by (simp add: clobber_def)
qed

text \<open>Where an admitted instruction sends its states: forward and inside the program.\<close>

lemma admit_insn_targets:
  assumes t: "admit_insn E len pc i f acq = Inr t" and wf: "flow_wf f" and re: "f_reached f"
  shows "flow_wf (t_state t)" and "f_reached (t_state t)"
    and "t_taken t = Some (n, g) \<Longrightarrow> pc < n \<and> n < len \<and> flow_wf g \<and> f_reached g"
  using t wf re
  by (auto simp: admit_insn_def admit_call_def goes_on_def Let_def split: if_splits)

definition flows_wf :: "admission \<Rightarrow> bool" where
  "flows_wf a \<longleftrightarrow>
     length (a_flow a) = JIT_MAX_INSNS + 1 \<and> (\<forall>f \<in> set (a_flow a). flow_wf f) \<and>
     length (a_operation a) = JIT_MAX_INSNS"

lemma join_at_wf:
  "length flow = n \<Longrightarrow> \<forall>f \<in> set flow. flow_wf f \<Longrightarrow> flow_wf g \<Longrightarrow> k < n \<Longrightarrow>
   length (join_at k g flow) = n \<and> (\<forall>f \<in> set (join_at k g flow). flow_wf f)"
  by (auto simp: join_at_def join_wf dest!: set_update_subset_insert [THEN subsetD])

lemma join_at_keeps:
  assumes "\<forall>f \<in> set flow. flow_wf f" and "flow_wf g" and "k < length flow" and "j < length flow"
  shows "flow_covers (flow ! j) s \<Longrightarrow> flow_covers (join_at k g flow ! j) s"
    and "f_reached g \<Longrightarrow> flow_covers g s \<Longrightarrow> flow_covers (join_at k g flow ! k) s"
    and "j \<noteq> k \<Longrightarrow> join_at k g flow ! j = flow ! j"
    and "f_reached g \<Longrightarrow> f_reached (join_at k g flow ! k)"
    and "f_reached (flow ! j) \<Longrightarrow> f_reached (join_at k g flow ! j)"
  using assms join_covers [of "flow ! k" g s]
  by (auto simp: join_at_def nth_list_update join_reached join_def)

text \<open>\<open>sends b f n\<close>: every state \<open>f\<close> covers is covered by the pass's state at \<open>n\<close>.\<close>

definition sends :: "admission \<Rightarrow> cbpf_flow \<Rightarrow> nat \<Rightarrow> 'h itself \<Rightarrow> bool" where
  "sends b f n ty \<longleftrightarrow>
     f_reached (a_flow b ! n) \<and>
     (\<forall>s :: 'h bstate. flow_covers f s \<longrightarrow> flow_covers (a_flow b ! n) s)"

lemma admit_step_sends:
  assumes st: "admit_step E insnsi pc a = Inr b" and wf: "flows_wf a"
    and pc: "pc < length insnsi" and len: "length insnsi \<le> JIT_MAX_INSNS"
  obtains t where
    "f_reached (a_flow a ! pc)"
    "admit_insn E (length insnsi) pc (insnsi ! pc) (a_flow a ! pc) (a_acquisitions a) = Inr t"
    "t_falls_through t \<longrightarrow> sends b (t_state t) (pc + 1) TYPE('h)"
    "\<And>n f. t_taken t = Some (n, f) \<Longrightarrow> sends b f n TYPE('h)"
    "flows_wf b" "a_operation b = (a_operation a)[pc := t_operation t]"
    "a_acquisitions b = t_acquisitions t"
    "\<And>j. j \<le> pc \<Longrightarrow> a_flow b ! j = a_flow a ! j"
    "\<And>j (s :: 'h bstate). j \<le> JIT_MAX_INSNS \<Longrightarrow> flow_covers (a_flow a ! j) s \<Longrightarrow>
       flow_covers (a_flow b ! j) s"
    "\<And>j. j \<le> JIT_MAX_INSNS \<Longrightarrow> f_reached (a_flow a ! j) \<Longrightarrow> f_reached (a_flow b ! j)"
proof -
  let ?f = "a_flow a ! pc"
  have re: "f_reached ?f" using st by (auto simp: admit_step_def Let_def split: if_splits)
  obtain t where t: "admit_insn E (length insnsi) pc (insnsi ! pc) ?f (a_acquisitions a) = Inr t"
    using st re by (auto simp: admit_step_def Let_def split: sum.splits)
  have L: "length (a_flow a) = JIT_MAX_INSNS + 1" and W: "\<forall>f \<in> set (a_flow a). flow_wf f"
    using wf by (simp_all add: flows_wf_def)
  have "?f \<in> set (a_flow a)" using L pc len by (intro nth_mem) simp
  then have wf_f: "flow_wf ?f" using W by blast
  note tg = admit_insn_targets [OF t wf_f re]
  define fl1 where "fl1 = (case t_taken t of None \<Rightarrow> a_flow a
      | Some (target, taken) \<Rightarrow> join_at target taken (a_flow a))"
  define fl2 where "fl2 = (if t_falls_through t then join_at (pc + 1) (t_state t) fl1 else fl1)"
  have b: "b = a\<lparr>a_flow := fl2, a_operation := (a_operation a)[pc := t_operation t],
      a_acquisitions := t_acquisitions t, a_has_exit := a_has_exit a \<or> t_exit t\<rparr>"
    using st re t unfolding fl1_def fl2_def
    by (simp add: admit_step_def Let_def eq_commute [of b] split del: if_split)
  have p1: "pc + 1 < JIT_MAX_INSNS + 1" using pc len by simp
  have LW1: "length fl1 = JIT_MAX_INSNS + 1 \<and> (\<forall>f \<in> set fl1. flow_wf f)"
  proof (cases "t_taken t")
    case None
    then show ?thesis using L W by (simp add: fl1_def)
  next
    case (Some p)
    obtain n g where p: "p = (n, g)" by (cases p)
    have "n < JIT_MAX_INSNS + 1" "flow_wf g" using tg(3) Some p len by fastforce+
    then show ?thesis using join_at_wf [OF L W] Some p by (simp add: fl1_def)
  qed
  then have L1: "length fl1 = JIT_MAX_INSNS + 1" and W1: "\<forall>f \<in> set fl1. flow_wf f" by blast+
  have k1: "j \<le> JIT_MAX_INSNS \<Longrightarrow> flow_covers (a_flow a ! j) s \<Longrightarrow> flow_covers (fl1 ! j) s"
    "j \<le> pc \<Longrightarrow> fl1 ! j = a_flow a ! j"
    "j \<le> JIT_MAX_INSNS \<Longrightarrow> f_reached (a_flow a ! j) \<Longrightarrow> f_reached (fl1 ! j)"
    for j and s :: "'h bstate"
  proof -
    show "flow_covers (fl1 ! j) s" if "j \<le> JIT_MAX_INSNS" "flow_covers (a_flow a ! j) s"
      using that join_at_keeps(1) [OF W, of _ _ j s] tg(3) L len
      by (auto simp: fl1_def split: option.splits prod.splits)
    show "fl1 ! j = a_flow a ! j" if "j \<le> pc"
      using that tg(3) by (auto simp: fl1_def join_at_def split: option.splits)
    show "f_reached (fl1 ! j)" if "j \<le> JIT_MAX_INSNS" "f_reached (a_flow a ! j)"
      using that join_at_keeps(5) [OF W, of _ _ j] tg(3) L len
      by (auto simp: fl1_def split: option.splits prod.splits)
  qed
  have k2: "j \<le> JIT_MAX_INSNS \<Longrightarrow> flow_covers (fl1 ! j) s \<Longrightarrow> flow_covers (fl2 ! j) s"
    "j \<le> pc \<Longrightarrow> fl2 ! j = fl1 ! j"
    "j \<le> JIT_MAX_INSNS \<Longrightarrow> f_reached (fl1 ! j) \<Longrightarrow> f_reached (fl2 ! j)"
    for j and s :: "'h bstate"
    using join_at_keeps(1,5) [OF W1 tg(1), of "pc + 1" j] L1 p1
    by (auto simp: fl2_def join_at_def)
  have s2: "sends b (t_state t) (pc + 1) TYPE('h)" if "t_falls_through t"
    using that join_at_keeps(2,4) [OF W1 tg(1), of "pc + 1" 0] L1 p1 tg(2)
    by (auto simp: sends_def b fl2_def)
  have s1: "sends b f n TYPE('h)" if "t_taken t = Some (n, f)" for n f
  proof -
    have n: "n < length insnsi" "flow_wf f" "f_reached f" using tg(3) [OF that] by simp_all
    have "f_reached (fl1 ! n)" "\<And>s :: 'h bstate. flow_covers f s \<Longrightarrow> flow_covers (fl1 ! n) s"
      using join_at_keeps(2,4) [OF W n(2), of n 0] n L len that by (simp_all add: fl1_def)
    then show ?thesis using k2(1,3) n len by (simp add: sends_def b)
  qed
  have wfb: "flows_wf b"
    using join_at_wf [OF L1 W1 tg(1) p1] L1 W1 wf by (simp add: flows_wf_def b fl2_def)
  show ?thesis
    by (rule that [OF re t])
      (use s1 s2 wfb k1 k2 in \<open>simp_all add: b\<close>)
qed

definition node_ok :: "'z jit_env_scheme \<Rightarrow> bpf_insn list \<Rightarrow> admission \<Rightarrow> nat \<Rightarrow> 'h itself \<Rightarrow> bool" where
  "node_ok E insnsi b j ty \<longleftrightarrow>
     (\<exists>t acq. f_reached (a_flow b ! j) \<and>
        admit_insn E (length insnsi) j (insnsi ! j) (a_flow b ! j) acq = Inr t \<and>
        (t_falls_through t \<longrightarrow> sends b (t_state t) (j + 1) ty) \<and>
        (\<forall>n f. t_taken t = Some (n, f) \<longrightarrow> sends b f n ty) \<and>
        a_operation b ! j = t_operation t)"

definition grows :: "admission \<Rightarrow> admission \<Rightarrow> nat \<Rightarrow> 'h itself \<Rightarrow> bool" where
  "grows a b pc ty \<longleftrightarrow>
     (\<forall>j \<le> pc. a_flow b ! j = a_flow a ! j) \<and>
     (\<forall>j < pc. a_operation b ! j = a_operation a ! j) \<and>
     (\<forall>j \<le> JIT_MAX_INSNS. (f_reached (a_flow a ! j) \<longrightarrow> f_reached (a_flow b ! j)) \<and>
        (\<forall>s :: 'h bstate. flow_covers (a_flow a ! j) s \<longrightarrow> flow_covers (a_flow b ! j) s))"

lemma grows_refl: "grows a a pc ty"
  by (simp add: grows_def)

lemma grows_trans: "grows a b pc ty \<Longrightarrow> grows b c (pc + 1) ty \<Longrightarrow> grows a c pc ty"
  by (simp add: grows_def)

lemma sends_grows:
  "sends a f n ty \<Longrightarrow> grows a b pc ty \<Longrightarrow> n \<le> JIT_MAX_INSNS \<Longrightarrow> sends b f n ty"
  by (auto simp: sends_def grows_def)

lemma call_operation_code: "i_code i \<noteq> BPF_JMP_CALL \<Longrightarrow> call_operation E i = 0"
  by (simp add: call_operation_def)

lemma admit_insn_acquisitions:
  assumes "admit_insn E len pc i f acq = Inr t"
  shows "t_acquisitions t = acq + of_bool (call_operation E i = CBPF_OP_ACQUIRE)"
    and "acq \<le> 2 \<Longrightarrow> t_acquisitions t \<le> 2"
proof -
  have z: "call_operation E i = 0" if "i_code i \<noteq> BPF_JMP_CALL" using that by (rule call_operation_code)
  have ne: "(0::u8) \<noteq> CBPF_OP_ACQUIRE" "CBPF_OP_READ \<noteq> CBPF_OP_ACQUIRE" "CBPF_OP_RELEASE \<noteq> CBPF_OP_ACQUIRE"
    by (simp_all add: CBPF_OP_ACQUIRE_def CBPF_OP_READ_def CBPF_OP_RELEASE_def)
  show "t_acquisitions t = acq + of_bool (call_operation E i = CBPF_OP_ACQUIRE)"
    "acq \<le> 2 \<Longrightarrow> t_acquisitions t \<le> 2"
    using assms z ne
    by (auto simp: admit_insn_def admit_call_def goes_on_def Let_def split: if_splits)
qed

lemma admit_from_fixpoint:
  assumes "admit_from E insnsi pc a = Inr b" and "flows_wf a" and "length insnsi \<le> JIT_MAX_INSNS"
    and "a_acquisitions a \<le> 2"
  shows "flows_wf b \<and> grows a b pc TYPE('h) \<and>
    (\<forall>j. pc \<le> j \<and> j < length insnsi \<longrightarrow> node_ok E insnsi b j TYPE('h)) \<and>
    a_acquisitions b = a_acquisitions a +
      length (filter (\<lambda>i. call_operation E i = CBPF_OP_ACQUIRE) (drop pc insnsi)) \<and>
    a_acquisitions b \<le> 2"
  using assms
proof (induction E insnsi pc a rule: admit_from.induct)
  case (1 E insnsi pc a)
  show ?case
  proof (cases "pc < length insnsi")
    case False
    then have "b = a" using "1.prems"(1) by (simp add: admit_from.simps [of E insnsi pc])
    then show ?thesis using False "1.prems" by (auto simp: grows_refl)
  next
    case True
    obtain c where c: "admit_step E insnsi pc a = Inr c" "admit_from E insnsi (pc + 1) c = Inr b"
      using "1.prems"(1) True by (auto simp: admit_from.simps [of E insnsi pc] split: sum.splits)
    obtain t where t: "f_reached (a_flow a ! pc)"
      "admit_insn E (length insnsi) pc (insnsi ! pc) (a_flow a ! pc) (a_acquisitions a) = Inr t"
      "t_falls_through t \<longrightarrow> sends c (t_state t) (pc + 1) TYPE('h)"
      "\<And>n f. t_taken t = Some (n, f) \<Longrightarrow> sends c f n TYPE('h)"
      "flows_wf c" "a_operation c = (a_operation a)[pc := t_operation t]"
      "a_acquisitions c = t_acquisitions t"
      "\<And>j. j \<le> pc \<Longrightarrow> a_flow c ! j = a_flow a ! j"
      "\<And>j (s :: 'h bstate). j \<le> JIT_MAX_INSNS \<Longrightarrow> flow_covers (a_flow a ! j) s \<Longrightarrow>
         flow_covers (a_flow c ! j) s"
      "\<And>j. j \<le> JIT_MAX_INSNS \<Longrightarrow> f_reached (a_flow a ! j) \<Longrightarrow> f_reached (a_flow c ! j)"
      using admit_step_sends [where 'h = 'h, OF c(1) "1.prems"(2) True "1.prems"(3)] by blast
    have acq: "a_acquisitions c \<le> 2"
      "a_acquisitions c = a_acquisitions a + of_bool (call_operation E (insnsi ! pc) = CBPF_OP_ACQUIRE)"
      using admit_insn_acquisitions [OF t(2)] t(7) "1.prems"(4) by simp_all
    have IH: "flows_wf b" "grows c b (pc + 1) TYPE('h)"
      "\<forall>j. pc + 1 \<le> j \<and> j < length insnsi \<longrightarrow> node_ok E insnsi b j TYPE('h)"
      "a_acquisitions b = a_acquisitions c +
        length (filter (\<lambda>i. call_operation E i = CBPF_OP_ACQUIRE) (drop (pc + 1) insnsi))"
      "a_acquisitions b \<le> 2"
      using "1.IH" [OF True c(1)] c(2) t(5) "1.prems"(3) acq(1) by blast+
    have ac: "grows a c pc TYPE('h)" using t(6,8,9,10) by (simp add: grows_def)
    have opl: "a_operation c ! pc = t_operation t"
      using t(6) "1.prems"(2,3) True by (simp add: flows_wf_def)
    have tl: "admit_insn E (length insnsi) pc (insnsi ! pc) (a_flow b ! pc) (a_acquisitions a) = Inr t"
      "f_reached (a_flow b ! pc)" "a_operation b ! pc = t_operation t"
      using IH(2) t(1,2,8) opl by (simp_all add: grows_def)
    have "flow_wf (a_flow a ! pc)"
      using "1.prems"(2,3) True by (simp add: flows_wf_def)
    note tg = admit_insn_targets [OF t(2) this t(1)]
    have "node_ok E insnsi b pc TYPE('h)"
      unfolding node_ok_def
    proof (intro exI conjI allI impI)
      show "sends b (t_state t) (pc + 1) TYPE('h)" if "t_falls_through t"
        using sends_grows [OF _ IH(2)] t(3) that True "1.prems"(3) by simp
      show "sends b f n TYPE('h)" if "t_taken t = Some (n, f)" for n f
        using sends_grows [OF t(4) [OF that] IH(2)] tg(3) [OF that] "1.prems"(3) by simp
    qed (rule tl)+
    then have nodes: "node_ok E insnsi b j TYPE('h)" if "pc \<le> j" "j < length insnsi" for j
      using IH(3) that by (cases "j = pc") auto
    have "drop pc insnsi = insnsi ! pc # drop (pc + 1) insnsi"
      using True by (simp add: Cons_nth_drop_Suc)
    then show ?thesis
      using IH(1,4,5) nodes grows_trans [OF ac IH(2)] acq(2) by simp
  qed
qed

lemma admit_start_ok:
  "flows_wf admit_start" "a_acquisitions admit_start \<le> 2" "flow_covers (a_flow admit_start ! 0) bpf_start"
  by (auto simp: admit_start_def flows_wf_def flow_wf_def zero_flow_def flow_covers_def bpf_start_def
      nth_Cons' dest!: set_update_subset_insert [THEN subsetD])

lemma admit_facts:
  assumes "admit E insnsi = Inr a" and "length insnsi \<le> JIT_MAX_INSNS"
  shows "\<forall>j < length insnsi. node_ok E insnsi a j TYPE('h)"
    and "flow_covers (a_flow a ! 0) (bpf_start :: 'h bstate)"
    and "\<not> f_reached (a_flow a ! length insnsi)"
    and "length (filter (\<lambda>i. call_operation E i = CBPF_OP_ACQUIRE) insnsi) \<in> {1..2}"
    and "insnsi \<noteq> []"
proof -
  have run: "admit_from E insnsi 0 admit_start = Inr a" and fin: "a_acquisitions a \<noteq> 0"
    "\<not> f_reached (a_flow a ! length insnsi)"
    using assms(1) by (auto simp: admit_def split: sum.splits if_splits)
  note fp = admit_from_fixpoint [where 'h = 'h, OF run admit_start_ok(1) assms(2) admit_start_ok(2)]
  show "\<forall>j < length insnsi. node_ok E insnsi a j TYPE('h)" using fp by simp
  have "a_acquisitions admit_start = 0" by (simp add: admit_start_def)
  then show cnt: "length (filter (\<lambda>i. call_operation E i = CBPF_OP_ACQUIRE) insnsi) \<in> {1..2}"
    using fp fin(1) by (simp add: Suc_le_eq)
  have "a_flow a ! 0 = a_flow admit_start ! 0" using fp by (simp add: grows_def)
  then show "flow_covers (a_flow a ! 0) (bpf_start :: 'h bstate)" using admit_start_ok(3) by simp
  show "\<not> f_reached (a_flow a ! length insnsi)" by (rule fin)
  show "insnsi \<noteq> []" using cnt by auto
qed

subsection \<open>Executions\<close>

lemma admitted_effect:
  fixes s :: "'h bstate"
  assumes "admit E insnsi = Inr a" and "length insnsi \<le> JIT_MAX_INSNS"
    and pc: "b_pc s < length insnsi" and cov: "flow_covers (a_flow a ! b_pc s) s"
  obtains t where "effect_ok (length insnsi) (b_pc s) t (bpf_effect E insnsi s)"
    "t_falls_through t \<Longrightarrow> b_pc s + 1 < length insnsi \<and>
       (\<forall>s' :: 'h bstate. flow_covers (t_state t) s' \<longrightarrow> flow_covers (a_flow a ! (b_pc s + 1)) s')"
    "\<And>n f s'. t_taken t = Some (n, f) \<Longrightarrow> flow_covers f (s' :: 'h bstate) \<Longrightarrow>
       flow_covers (a_flow a ! n) s'"
    "a_operation a ! b_pc s = t_operation t"
proof -
  have "node_ok E insnsi a (b_pc s) TYPE('h)" using admit_facts(1) [OF assms(1,2)] pc by blast
  then obtain t acq where t: "admit_insn E (length insnsi) (b_pc s) (insnsi ! b_pc s) (a_flow a ! b_pc s) acq = Inr t"
    "t_falls_through t \<longrightarrow> sends a (t_state t) (b_pc s + 1) TYPE('h)"
    "\<forall>n f. t_taken t = Some (n, f) \<longrightarrow> sends a f n TYPE('h)" "a_operation a ! b_pc s = t_operation t"
    by (auto simp: node_ok_def)
  have "b_pc s + 1 < length insnsi" if "t_falls_through t"
  proof (rule ccontr)
    assume "\<not> b_pc s + 1 < length insnsi"
    then have "b_pc s + 1 = length insnsi" using pc by simp
    then show False using t(2) that admit_facts(3) [OF assms(1,2)] by (simp add: sends_def)
  qed
  then show ?thesis
    using that [OF admit_insn_sound [OF t(1) cov pc]] t(2-4) by (auto simp: sends_def)
qed

lemma admitted_reach:
  assumes "admit E insnsi = Inr a" and "length insnsi \<le> JIT_MAX_INSNS"
    and "bpf_reach E insnsi s"
  shows "b_pc s < length insnsi \<and> flow_covers (a_flow a ! b_pc s) s"
  using assms(3)
proof (induction rule: bpf_reach.induct)
  case start
  have "insnsi \<noteq> []" "flow_covers (a_flow a ! 0) bpf_start"
    using admit_facts(2,5) [OF assms(1,2)] by auto
  then show ?case by (simp add: bpf_start_def)
next
  case (step s s')
  then have s: "b_pc s < length insnsi" "flow_covers (a_flow a ! b_pc s) s" by simp_all
  show ?case
  proof (cases rule: admitted_effect [OF assms(1,2) s])
    case (1 t)
    then show ?thesis using step.hyps(2) by (auto simp: effect_ok_def)
  qed
next
  case (call s op arg k v)
  then have s: "b_pc s < length insnsi" "flow_covers (a_flow a ! b_pc s) s" by simp_all
  show ?case
  proof (cases rule: admitted_effect [OF assms(1,2) s])
    case (1 t)
    then show ?thesis using call.hyps(2,3) by (auto simp: effect_ok_def)
  qed
qed

end
