(* ===== verification/JitProgram.thy ===== *)
theory JitProgram
  imports JitAdmit
begin

text \<open>
  What admission guarantees of every execution, the gate calls an admitted program makes
  as native code, and the programs \<open>src/linux/ownership/guest.c\<close> loads.
\<close>

subsection \<open>Every execution\<close>

lemma admitted_reach_effect:
  assumes adm: "admit E insnsi = Inr a" and len: "length insnsi \<le> JIT_MAX_INSNS"
    and reach: "bpf_reach E insnsi s"
  shows "b_pc s < length insnsi \<and>
    (case bpf_effect E insnsi s of
       Stuck \<Rightarrow> False
     | Step s' \<Rightarrow> b_pc s < b_pc s'
     | Call op arg k \<Rightarrow>
         op = a_operation a ! b_pc s \<and> op \<noteq> 0 \<and>
         (\<forall>v. result_ok op v \<longrightarrow> b_pc (k v) = b_pc s + 1)
     | Exit n \<Rightarrow> True)"
proof -
  have s: "b_pc s < length insnsi" "flow_covers (a_flow a ! b_pc s) s"
    using admitted_reach [OF adm len reach] by simp_all
  show ?thesis
  proof (cases rule: admitted_effect [OF adm len s])
    case (1 t)
    then show ?thesis using s(1) by (auto simp: effect_ok_def split: beffect.splits)
  qed
qed

lemma bpf_call_facts:
  assumes "bpf_call E i s = Call op arg k"
  shows "op = CBPF_OP_ACQUIRE \<and> (\<exists>n. arg = Num n) \<or>
    op \<in> {CBPF_OP_READ, CBPF_OP_RELEASE} \<and> (\<exists>h. arg = Cap h)"
proof -
  define v where "v = b_reg s ! 1"
  show ?thesis
    using assms unfolding bpf_call_def Let_def v_def [symmetric]
    by (cases v) (auto split: if_splits)
qed

lemma bpf_effect_call:
  assumes "bpf_effect E insnsi s = Call op arg k"
  shows "bpf_call E (insnsi ! b_pc s) s = Call op arg k"
  using assms by (auto simp: bpf_effect_def Let_def split: if_splits bval.splits)

lemma bpf_effect_operation:
  assumes "bpf_effect E insnsi s = Call op arg k"
  shows "op \<in> {CBPF_OP_ACQUIRE, CBPF_OP_READ, CBPF_OP_RELEASE}"
  using bpf_call_facts [OF bpf_effect_call [OF assms]] by auto

subsection \<open>Bounded execution over a gate runtime\<close>

text \<open>
  An execution of at most \<open>fuel\<close> instructions over a runtime of gates with a state of its
  own: a gate takes the operation, the argument and the instruction's index, and ends the
  program when it has no result. \<open>Wrong\<close> is a forbidden use, or running out of fuel.
\<close>

datatype bpf_outcome = Finished u64 | Aborted | Wrong

type_synonym ('h, 'k) gate = "u8 \<Rightarrow> 'h bval \<Rightarrow> nat \<Rightarrow> 'k \<Rightarrow> 'h bval option \<times> 'k"

primrec bpf_exec ::
    "nat \<Rightarrow> 'z jit_env_scheme \<Rightarrow> bpf_insn list \<Rightarrow> ('h, 'k) gate \<Rightarrow> 'h bstate \<Rightarrow> 'k \<Rightarrow>
     bpf_outcome \<times> 'k" where
  "bpf_exec 0 E insnsi gate s k = (Wrong, k)"
| "bpf_exec (Suc fuel) E insnsi gate s k =
     (case bpf_effect E insnsi s of
        Stuck \<Rightarrow> (Wrong, k)
      | Step s' \<Rightarrow> bpf_exec fuel E insnsi gate s' k
      | Call op arg cont \<Rightarrow>
          (case gate op arg (b_pc s) k of
             (None, k') \<Rightarrow> (Aborted, k')
           | (Some v, k') \<Rightarrow> bpf_exec fuel E insnsi gate (cont v) k')
      | Exit n \<Rightarrow> (Finished n, k))"

text \<open>
  What the compiler expects of the gates: a successful call returns what its kfunc's
  type promises the verifier.
\<close>

locale gate_runtime =
  fixes gate :: "('h, 'k) gate"
    and inv :: "'k \<Rightarrow> bool"
  assumes gate_result: "inv k \<Longrightarrow> gate op arg pc k = (Some v, k') \<Longrightarrow>
      op \<in> {CBPF_OP_ACQUIRE, CBPF_OP_READ, CBPF_OP_RELEASE} \<Longrightarrow> result_ok op v"
    and gate_keeps: "inv k \<Longrightarrow> gate op arg pc k = (r, k') \<Longrightarrow> inv k'"
begin

lemma exec_keeps: "inv k \<Longrightarrow> bpf_exec fuel E insnsi gate s k = (r, k') \<Longrightarrow> inv k'"
proof (induction fuel arbitrary: s k)
  case (Suc fuel)
  then show ?case
    by (auto split: beffect.splits prod.splits option.splits dest: gate_keeps)
qed simp

lemma exec_not_wrong:
  assumes adm: "admit E insnsi = Inr a" and len: "length insnsi \<le> JIT_MAX_INSNS"
    and "bpf_reach E insnsi s" and "length insnsi - b_pc s \<le> fuel" and "inv k"
  shows "fst (bpf_exec fuel E insnsi gate s k) \<noteq> Wrong"
  using assms(3-5)
proof (induction fuel arbitrary: s k)
  case 0
  then show ?case using admitted_reach_effect [OF adm len "0.prems"(1)] by simp
next
  case (Suc fuel)
  note ok = admitted_reach_effect [OF adm len Suc.prems(1)]
  show ?case
  proof (cases "bpf_effect E insnsi s")
    case (Step s')
    then have "b_pc s < length insnsi" "b_pc s < b_pc s'" using ok by simp_all
    then have "length insnsi - b_pc s' \<le> fuel" using Suc.prems(2) by linarith
    then show ?thesis
      using Suc.IH [OF bpf_reach.step [OF Suc.prems(1) Step]] Step Suc.prems(3) by simp
  next
    case (Call op arg cont)
    obtain r k' where g: "gate op arg (b_pc s) k = (r, k')" by fastforce
    show ?thesis
    proof (cases r)
      case None
      then show ?thesis using Call g by simp
    next
      case (Some v)
      have v: "result_ok op v"
        using gate_result [OF Suc.prems(3), of op arg "b_pc s" v k'] g Some
          bpf_effect_operation [OF Call] by simp
      then have "b_pc (cont v) = b_pc s + 1" using ok Call by simp
      then have "length insnsi - b_pc (cont v) \<le> fuel" using Suc.prems(2) by linarith
      then show ?thesis
        using Suc.IH [OF bpf_reach.call [OF Suc.prems(1) Call v] _ gate_keeps [OF Suc.prems(3) g]]
          Call g Some by simp
    qed
  qed (use ok in simp_all)
qed

end

subsection \<open>The guest's programs\<close>

text \<open>The macros of \<open>guest.c\<close>; the BTF ids come from a generated header.\<close>

record btf_ids =
  id_acquire :: u32
  id_read :: u32
  id_release :: u32

definition INSN :: "u8 \<Rightarrow> 4 word \<Rightarrow> 4 word \<Rightarrow> s16 \<Rightarrow> u32 \<Rightarrow> bpf_insn" where
  "INSN c d s off v = \<lparr>i_code = c, i_dst = d, i_src = s, i_off = off, i_imm = v\<rparr>"

definition IMM :: "4 word \<Rightarrow> u32 \<Rightarrow> bpf_insn" where
  "IMM d v = INSN BPF_ALU64_MOV_K d 0 0 v"
definition COPY :: "4 word \<Rightarrow> 4 word \<Rightarrow> bpf_insn" where
  "COPY d s = INSN BPF_ALU64_MOV_X d s 0 0"
definition CALL :: "u32 \<Rightarrow> bpf_insn" where
  "CALL ident = INSN BPF_JMP_CALL 0 BPF_PSEUDO_KFUNC_CALL 0 ident"
definition NULL_TO :: "s16 \<Rightarrow> bpf_insn" where
  "NULL_TO off = INSN BPF_JMP_JEQ_K 0 0 off 0"
definition SPILL_FROM :: "4 word \<Rightarrow> bpf_insn" where
  "SPILL_FROM s = INSN BPF_STX_MEM_DW 10 s (- 8) 0"
definition RELOAD_TO :: "4 word \<Rightarrow> bpf_insn" where
  "RELOAD_TO d = INSN BPF_LDX_MEM_DW d 10 (- 8) 0"
definition EXIT :: bpf_insn where
  "EXIT = INSN BPF_JMP_EXIT 0 0 0 0"

definition guest_program :: "btf_ids \<Rightarrow> bpf_insn list" where
  "guest_program B =
     [IMM 1 0, CALL (id_acquire B), NULL_TO 21,
      COPY 6 0, SPILL_FROM 6,
      IMM 1 0, CALL (id_acquire B), NULL_TO 11,
      COPY 7 0, RELOAD_TO 8, COPY 1 8, CALL (id_release B),
      COPY 1 7, CALL (id_read B), COPY 9 0,
      COPY 1 7, CALL (id_release B), COPY 0 9, EXIT,
      RELOAD_TO 8, COPY 1 8, CALL (id_release B), IMM 0 7, EXIT,
      IMM 0 0, EXIT]"

definition guest_alternate :: "btf_ids \<Rightarrow> bpf_insn list" where
  "guest_alternate B =
     [IMM 1 0, CALL (id_acquire B), COPY 8 0,
      INSN BPF_JMP_JEQ_K 8 0 21 0,
      SPILL_FROM 8,
      IMM 1 0, CALL (id_acquire B), COPY 6 0,
      INSN BPF_JMP_JEQ_K 6 0 11 0,
      RELOAD_TO 7, COPY 1 7,
      CALL (id_release B), COPY 1 6, CALL (id_read B),
      COPY 9 0, COPY 1 6, CALL (id_release B),
      COPY 8 9, COPY 0 8, EXIT,
      RELOAD_TO 7, COPY 1 7,
      CALL (id_release B), IMM 0 9, EXIT, IMM 0 0, EXIT]"

text \<open>The fixture \<open>main\<close> selects for a test, its expected result and whether loading must fail.\<close>

definition guest_case :: "btf_ids \<Rightarrow> nat \<Rightarrow> bpf_insn list \<times> u32 \<times> bool" where
  "guest_case B test =
     (let selected = guest_program B;
          expected = 42
      in if test = 1 then (guest_alternate B, expected, test \<ge> 4)
         else if test = 2 \<or> test = 3 then
           (selected[5 := (selected ! 5)\<lparr>i_imm := (if test = 2 then 1 else 2)\<rparr>],
            (if test = 2 then 7 else 0), test \<ge> 4)
         else if test = 4 \<or> test = 6 then
           (let selected = selected[12 := (selected ! 12)\<lparr>i_src := 6\<rparr>]
            in (if test = 6 then selected[13 := (selected ! 13)\<lparr>i_imm := id_release B\<rparr>] else selected,
                expected, test \<ge> 4))
         else if test = 5 then (selected[12 := RELOAD_TO 1], expected, test \<ge> 4)
         else (selected, expected, test \<ge> 4))"

text \<open>A concrete resolution of the calls, for the examples.\<close>

definition sample_ids :: btf_ids where
  "sample_ids = \<lparr>id_acquire = 101, id_read = 102, id_release = 103\<rparr>"

definition sample_env :: jit_env where
  "sample_env =
     \<lparr>je_func_addr = (\<lambda>i. if i_imm i = 101 then Some (0x100, True)
        else if i_imm i = 102 then Some (0x200, True)
        else if i_imm i = 103 then Some (0x300, True) else None),
      je_acquire = 0x100, je_read = 0x200, je_release = 0x300\<rparr>"

lemma guest_admitted:
  "\<exists>a. admit sample_env (guest_program sample_ids) = Inr a"
proof -
  have "case admit sample_env (guest_program sample_ids) of Inl e \<Rightarrow> False | Inr a \<Rightarrow> True"
    by code_simp
  then show ?thesis by (auto split: sum.splits)
qed

end
