(* ===== verification/KernelCorrect.thy ===== *)
theory KernelCorrect
  imports KernelGate
begin

text \<open>
  The kernel gates keep the ownership protocol: an observer that replays the \<open>CBPF_GATE\<close>
  lines accepts every one, whatever native code runs, and the terminal sweep settles
  every acquisition.
\<close>

subsection \<open>The observer of the log\<close>

definition line_own :: "own \<Rightarrow> gate_line \<Rightarrow> own option" where
  "line_own s l =
     (if l_event l = ''acquire'' then
        (if l_id l = issued s + 1 then own_next ARRAY_SIZE_cells s Acquire else None)
      else if l_event l = ''read'' then own_next ARRAY_SIZE_cells s (Use (l_id l))
      else if l_event l = ''release'' then own_next ARRAY_SIZE_cells s (Consume (l_id l))
      else if l_event l = ''cleanup'' then own_next ARRAY_SIZE_cells s (Sweep (l_id l))
      else if l_event l = ''clear'' then (if l_id l \<in> live_ids s then Some s else None)
      else if l_event l \<in> {''null'', ''reject'', ''exit'', ''failed''} then Some s
      else None)"

fun replay_log :: "own \<Rightarrow> gate_line list \<Rightarrow> own option" where
  "replay_log s [] = Some s"
| "replay_log s (l # ls) =
     (case line_own s l of
        None \<Rightarrow> None
      | Some t \<Rightarrow> if rc t = l_refs l \<and> issued t = l_acquired l then replay_log t ls else None)"

lemma replay_log_append:
  "replay_log s (xs @ ys) =
     (case replay_log s xs of None \<Rightarrow> None | Some t \<Rightarrow> replay_log t ys)"
  by (induction xs arbitrary: s) (auto split: option.splits)

definition line_count :: "string \<Rightarrow> gate_line list \<Rightarrow> nat \<Rightarrow> nat" where
  "line_count e ls i = length (filter (\<lambda>l. l_event l = e \<and> l_id l = i) ls)"

lemma line_count_simps [simp]:
  "line_count e [] i = 0"
  "line_count e (l # ls) i = of_bool (l_event l = e \<and> l_id l = i) + line_count e ls i"
  "line_count e (ls @ ms) i = line_count e ls i + line_count e ms i"
  by (simp_all add: line_count_def)

subsection \<open>The abstraction and the invariant\<close>

definition kernel_own :: "'v kplatform \<Rightarrow> 'v kernel \<Rightarrow> own" where
  "kernel_own K k =
     (let s = active k
      in \<lparr>issued = iv_acquired s,
          live_ids = {i. 1 \<le> i \<and> i \<le> iv_acquired s \<and>
                         cheri_tag_get (kp_cheri K) (iv_cells s ! (i - 1))},
          explicit = line_count ''release'' (iv_log s),
          swept = line_count ''cleanup'' (iv_log s),
          rc = ko_refs (k_object k)\<rparr>)"

definition cell_view :: "'v kplatform \<Rightarrow> nat \<Rightarrow> 'v" where
  "cell_view K i =
     cbpf_exact (kp_cheri K) (kp_cell K i) sizeof_cbpf_cell (CBPF_PUBLIC_PERMS (kp_cheri K))"

definition object_cap :: "'v kplatform \<Rightarrow> 'v" where
  "object_cap K =
     cbpf_exact (kp_cheri K) (kp_object K) (kp_sizeof_object K) (CBPF_PUBLIC_PERMS (kp_cheri K))"

definition kernel_inv :: "'v kplatform \<Rightarrow> 'v kernel \<Rightarrow> bool" where
  "kernel_inv K k \<longleftrightarrow>
     cheri_laws (kp_cheri K) \<and> k_active k \<noteq> None \<and>
     length (iv_cells (active k)) = ARRAY_SIZE_cells \<and>
     length (iv_views (active k)) = ARRAY_SIZE_cells \<and>
     (\<forall>i < iv_acquired (active k).
        iv_views (active k) ! i = cell_view K i \<and>
        cheri_tag_get (kp_cheri K) (cell_view K i) \<and>
        (iv_cells (active k) ! i = object_cap K \<or>
         iv_cells (active k) ! i = cheri_tag_clear (kp_cheri K) (object_cap K))) \<and>
     (\<forall>i < ARRAY_SIZE_cells. iv_acquired (active k) \<le> i \<longrightarrow>
        \<not> cheri_tag_get (kp_cheri K) (iv_cells (active k) ! i)) \<and>
     ko_refs (k_object k) = 1 + int (iv_acquired (active k)) - int (iv_released (active k)) \<and>
     iv_cleanup (active k) \<le> iv_released (active k) \<and>
     own_inv ARRAY_SIZE_cells (kernel_own K k) \<and>
     replay_log own_init (iv_log (active k)) = Some (kernel_own K k)"

lemma active_simps [simp]:
  "active (set_active s k) = s" "k_active (set_active s k) = Some s"
  "k_object (set_active s k) = k_object k" "active (k\<lparr>k_object := b\<rparr>) = active k"
  "k_rddc (set_active s k) = k_rddc k" "k_rcsp (set_active s k) = k_rcsp k"
  "active (k\<lparr>k_rcsp := c, k_rddc := d\<rparr>) = active k"
  by (simp_all add: active_def set_active_def)

lemma own_sel [simp]:
  "issued (kernel_own K k) = iv_acquired (active k)"
  "rc (kernel_own K k) = ko_refs (k_object k)"
  by (simp_all add: kernel_own_def Let_def)

lemma own_counts:
  "explicit (kernel_own K k) = line_count ''release'' (iv_log (active k))"
  "swept (kernel_own K k) = line_count ''cleanup'' (iv_log (active k))"
  by (simp_all add: kernel_own_def Let_def)

lemma trace_sel [simp]:
  "k_object (cbpf_trace C e pc i k) = k_object k"
  "k_rddc (cbpf_trace C e pc i k) = k_rddc k" "k_rcsp (cbpf_trace C e pc i k) = k_rcsp k"
  "k_active (cbpf_trace C e pc i k) \<noteq> None"
  "iv_prog (active (cbpf_trace C e pc i k)) = iv_prog (active k)"
  "iv_cells (active (cbpf_trace C e pc i k)) = iv_cells (active k)"
  "iv_views (active (cbpf_trace C e pc i k)) = iv_views (active k)"
  "iv_acquired (active (cbpf_trace C e pc i k)) = iv_acquired (active k)"
  "iv_released (active (cbpf_trace C e pc i k)) = iv_released (active k)"
  "iv_reads (active (cbpf_trace C e pc i k)) = iv_reads (active k)"
  "iv_cleanup (active (cbpf_trace C e pc i k)) = iv_cleanup (active k)"
  "iv_entered (active (cbpf_trace C e pc i k)) = iv_entered (active k)"
  "iv_failed (active (cbpf_trace C e pc i k)) = iv_failed (active k)"
  by (simp_all add: cbpf_trace_def Let_def)

text \<open>A printed line that reports a protocol step of the state it is printed in.\<close>

lemma trace_log:
  "\<exists>l. iv_log (active (cbpf_trace C e pc i k)) = iv_log (active k) @ [l] \<and>
     l_event l = e \<and> l_id l = i \<and> l_refs l = ko_refs (k_object k) \<and>
     l_acquired l = iv_acquired (active k) \<and> l_pc l = pc"
  by (simp add: cbpf_trace_def Let_def)

lemma trace_inv:
  assumes "cheri_laws (kp_cheri K)" "k_active k \<noteq> None"
    "length (iv_cells (active k)) = ARRAY_SIZE_cells"
    "length (iv_views (active k)) = ARRAY_SIZE_cells"
    "\<forall>i < iv_acquired (active k).
        iv_views (active k) ! i = cell_view K i \<and> cheri_tag_get (kp_cheri K) (cell_view K i) \<and>
        (iv_cells (active k) ! i = object_cap K \<or>
         iv_cells (active k) ! i = cheri_tag_clear (kp_cheri K) (object_cap K))"
    "\<forall>i < ARRAY_SIZE_cells. iv_acquired (active k) \<le> i \<longrightarrow>
        \<not> cheri_tag_get (kp_cheri K) (iv_cells (active k) ! i)"
    "ko_refs (k_object k) = 1 + int (iv_acquired (active k)) - int (iv_released (active k))"
    "iv_cleanup (active k) \<le> iv_released (active k)"
    and rep: "replay_log own_init (iv_log (active k)) = Some s" and inv: "own_inv ARRAY_SIZE_cells s"
    and line: "\<And>l. l_event l = e \<Longrightarrow> l_id l = i \<Longrightarrow>
      line_own s l = Some (kernel_own K (cbpf_trace (kp_cheri K) e pc i k))"
    and step: "\<exists>a. own_next ARRAY_SIZE_cells s a = Some (kernel_own K (cbpf_trace (kp_cheri K) e pc i k)) \<or>
      s = kernel_own K (cbpf_trace (kp_cheri K) e pc i k)"
  shows "kernel_inv K (cbpf_trace (kp_cheri K) e pc i k)"
proof -
  let ?k = "cbpf_trace (kp_cheri K) e pc i k"
  obtain l where l: "iv_log (active ?k) = iv_log (active k) @ [l]" "l_event l = e" "l_id l = i"
    "l_refs l = ko_refs (k_object k)" "l_acquired l = iv_acquired (active k)"
    using trace_log by blast
  have "replay_log own_init (iv_log (active ?k)) = Some (kernel_own K ?k)"
    unfolding l(1) replay_log_append using rep line [OF l(2,3)] l(4,5) by simp
  moreover have "own_inv ARRAY_SIZE_cells (kernel_own K ?k)"
    using step own_next_inv [OF inv] inv by auto
  ultimately show ?thesis using assms(1-8) by (simp add: kernel_inv_def)
qed

text \<open>Lines that change nothing.\<close>

lemma trace_own_quiet:
  assumes "e \<noteq> ''release''" and "e \<noteq> ''cleanup''"
  shows "kernel_own K (cbpf_trace (kp_cheri K) e pc i k) = kernel_own K k"
  using assms by (auto simp: kernel_own_def cbpf_trace_def Let_def fun_eq_iff)

lemma line_own_quiet:
  "l_event l = ''null'' \<Longrightarrow> line_own s l = Some s" "l_event l = ''reject'' \<Longrightarrow> line_own s l = Some s"
  "l_event l = ''exit'' \<Longrightarrow> line_own s l = Some s" "l_event l = ''failed'' \<Longrightarrow> line_own s l = Some s"
  by (simp_all add: line_own_def)

definition quiet_event :: "string \<Rightarrow> bool" where
  "quiet_event e \<longleftrightarrow> e = ''null'' \<or> e = ''reject'' \<or> e = ''exit'' \<or> e = ''failed''"

lemma quiet_event_simps [simp]:
  "quiet_event ''null''" "quiet_event ''reject''" "quiet_event ''exit''" "quiet_event ''failed''"
  "quiet_event (if b then ''failed'' else ''exit'')"
  by (simp_all add: quiet_event_def)

lemma trace_quiet_inv:
  assumes inv: "kernel_inv K k" and e: "quiet_event e"
  shows "kernel_inv K (cbpf_trace (kp_cheri K) e pc i k)"
proof -
  have "e \<noteq> ''release''" "e \<noteq> ''cleanup''" using e unfolding quiet_event_def by fastforce+
  then have same: "kernel_own K (cbpf_trace (kp_cheri K) e pc i k) = kernel_own K k"
    by (rule trace_own_quiet)
  have line: "line_own (kernel_own K k) l = Some (kernel_own K k)" if "l_event l = e" for l
    using e that line_own_quiet unfolding quiet_event_def by metis
  show ?thesis
    by (rule trace_inv [where s = "kernel_own K k"])
      (use inv same line in \<open>simp_all add: kernel_inv_def\<close>)
qed

lemma own_flags [simp]:
  "kernel_own K (set_active (s\<lparr>iv_failed := b\<rparr>) k) = kernel_own K (set_active s k)"
  "kernel_own K (set_active (s\<lparr>iv_entered := b\<rparr>) k) = kernel_own K (set_active s k)"
  "kernel_own K (set_active (s\<lparr>iv_reads := r\<rparr>) k) = kernel_own K (set_active s k)"
  "kernel_own K (k\<lparr>k_rcsp := c, k_rddc := d\<rparr>) = kernel_own K k"
  by (simp_all add: kernel_own_def Let_def)

lemma set_active_same: "k_active k \<noteq> None \<Longrightarrow> set_active (active k) k = k"
  by (auto simp: set_active_def active_def)

lemma kernel_inv_active: "kernel_inv K k \<Longrightarrow> k_active k = Some (active k)"
  by (auto simp: kernel_inv_def active_def)

lemma flags_inv:
  assumes "kernel_inv K k"
  shows "kernel_inv K (set_active ((active k)\<lparr>iv_failed := b\<rparr>) k)"
    and "kernel_inv K (set_active ((active k)\<lparr>iv_entered := b\<rparr>) k)"
    and "kernel_inv K (set_active ((active k)\<lparr>iv_reads := r\<rparr>) k)"
    and "kernel_inv K (k\<lparr>k_rcsp := c, k_rddc := d\<rparr>)"
  using assms set_active_same [of k] by (simp_all add: kernel_inv_def)

lemma fail_eq:
  "k_active k \<noteq> None \<Longrightarrow> cbpf_fail C pc k =
     (CBPF_FAILURE C, cbpf_trace C ''reject'' pc 0 (set_active ((active k)\<lparr>iv_failed := True\<rparr>) k))"
  by (auto simp: cbpf_fail_def active_def)

lemma fail_inv: "kernel_inv K k \<Longrightarrow> kernel_inv K (snd (cbpf_fail (kp_cheri K) pc k))"
  using flags_inv(1) [of K k True]
  by (auto simp: cbpf_fail_def kernel_inv_active intro: trace_quiet_inv)

lemma kernel_inv_acquired: "kernel_inv K k \<Longrightarrow> iv_acquired (active k) \<le> ARRAY_SIZE_cells"
  by (simp add: kernel_inv_def own_inv_def)

lemma kernel_live:
  "i \<in> live_ids (kernel_own K k) \<longleftrightarrow> 1 \<le> i \<and> i \<le> iv_acquired (active k) \<and>
     cheri_tag_get (kp_cheri K) (iv_cells (active k) ! (i - 1))"
  by (simp add: kernel_own_def Let_def)

subsection \<open>The operations of the gate\<close>

lemma exact_tag:
  assumes "cheri_laws C" and "cheri_tag_get C (cbpf_exact C a n p)"
  shows "\<not> cheri_is_sealed C (cbpf_exact C a n p) \<and> cheri_address_get C (cbpf_exact C a n p) = a \<and>
    cheri_base_get C (cbpf_exact C a n p) = a \<and> cheri_length_get C (cbpf_exact C a n p) = n \<and>
    cheri_perms_get C (cbpf_exact C a n p) = p"
  using assms(2) cheri_lawsD(6) [OF assms(1)] by (auto simp: cbpf_exact_def Let_def split: if_splits)

text \<open>The state of a successful acquisition before its line is printed.\<close>

definition acquired_state :: "'v kplatform \<Rightarrow> 'v kernel \<Rightarrow> 'v kernel" where
  "acquired_state K k =
     (let s = active k; index = iv_acquired s
      in set_active (s\<lparr>iv_cells := (iv_cells s)[index := object_cap K],
                       iv_views := (iv_views s)[index := cell_view K index],
                       iv_acquired := iv_acquired s + 1\<rparr>)
           (k\<lparr>k_object := (k_object k)\<lparr>ko_refs := ko_refs (k_object k) + 1\<rparr>\<rparr>))"

lemma acquired_state_inv:
  assumes inv: "kernel_inv K k" and room: "iv_acquired (active k) < ARRAY_SIZE_cells"
    and tags: "cheri_tag_get (kp_cheri K) (cell_view K (iv_acquired (active k)))"
      "cheri_tag_get (kp_cheri K) (object_cap K)"
  shows "kernel_inv K (cbpf_trace (kp_cheri K) ''acquire'' pc (iv_acquired (active k) + 1)
      (acquired_state K k))"
proof -
  let ?n = "iv_acquired (active k)" and ?k = "acquired_state K k"
  let ?k' = "cbpf_trace (kp_cheri K) ''acquire'' pc (?n + 1) ?k"
  have same: "kernel_own K ?k' = kernel_own K ?k" by (rule trace_own_quiet) simp_all
  have len: "length (iv_cells (active k)) = ARRAY_SIZE_cells"
    "length (iv_views (active k)) = ARRAY_SIZE_cells"
    using inv by (simp_all add: kernel_inv_def)
  have sel: "iv_acquired (active ?k) = ?n + 1" "iv_released (active ?k) = iv_released (active k)"
    "iv_cleanup (active ?k) = iv_cleanup (active k)" "iv_log (active ?k) = iv_log (active k)"
    "ko_refs (k_object ?k) = ko_refs (k_object k) + 1" "k_active ?k \<noteq> None"
    "iv_cells (active ?k) = (iv_cells (active k))[?n := object_cap K]"
    "iv_views (active ?k) = (iv_views (active k))[?n := cell_view K ?n]"
    by (simp_all add: acquired_state_def Let_def)
  have "{i. 1 \<le> i \<and> i \<le> Suc ?n \<and>
         cheri_tag_get (kp_cheri K) ((iv_cells (active k))[?n := object_cap K] ! (i - 1))} =
      insert (Suc ?n) {i. 1 \<le> i \<and> i \<le> ?n \<and>
         cheri_tag_get (kp_cheri K) (iv_cells (active k) ! (i - 1))}"
    using len room tags by (auto simp: nth_list_update)
  then have own: "own_next ARRAY_SIZE_cells (kernel_own K k) Acquire = Some (kernel_own K ?k')"
    unfolding same using room by (simp add: kernel_own_def sel Let_def)
  show ?thesis
  proof (rule trace_inv [where s = "kernel_own K k"])
    show "line_own (kernel_own K k) l = Some (kernel_own K ?k')"
      if "l_event l = ''acquire''" "l_id l = ?n + 1" for l
      using that own by (simp add: line_own_def)
    show "\<exists>a. own_next ARRAY_SIZE_cells (kernel_own K k) a = Some (kernel_own K ?k') \<or>
        kernel_own K k = kernel_own K ?k'" using own by blast
    show "\<forall>i < iv_acquired (active ?k).
        iv_views (active ?k) ! i = cell_view K i \<and> cheri_tag_get (kp_cheri K) (cell_view K i) \<and>
        (iv_cells (active ?k) ! i = object_cap K \<or>
         iv_cells (active ?k) ! i = cheri_tag_clear (kp_cheri K) (object_cap K))"
      using inv len room tags by (auto simp: sel nth_list_update kernel_inv_def)
  qed (use inv len room in \<open>simp_all add: kernel_inv_def sel\<close>)
qed

text \<open>Consuming a live cell, by a release or by the sweep.\<close>

definition consume_event :: "bool \<Rightarrow> string" where
  "consume_event cleanup = (if cleanup then ''cleanup'' else ''release'')"

definition consume_act :: "bool \<Rightarrow> nat \<Rightarrow> own_act" where
  "consume_act cleanup i = (if cleanup then Sweep i else Consume i)"

text \<open>The state between the two lines \<open>consume\<close> prints, after the counts are updated.\<close>

definition consumed_state :: "'v cheri \<Rightarrow> nat \<Rightarrow> u64 \<Rightarrow> bool \<Rightarrow> 'v kernel \<Rightarrow> 'v kernel" where
  "consumed_state C index pc cleanup k0 =
     (let s = active k0;
          object = iv_cells s ! index;
          k = set_active (s\<lparr>iv_cells := (iv_cells s)[index := cheri_tag_clear C object]\<rparr>) k0;
          k = cbpf_trace C ''clear'' pc (index + 1) k;
          k = k\<lparr>k_object := (k_object k)\<lparr>ko_refs := ko_refs (k_object k) - 1\<rparr>\<rparr>;
          s = active k
      in set_active (s\<lparr>iv_released := iv_released s + 1,
                       iv_cleanup := (if cleanup then iv_cleanup s + 1 else iv_cleanup s)\<rparr>) k)"

lemma kernel_consume_eq:
  "kernel_consume C index pc cleanup k =
     cbpf_trace C (consume_event cleanup) pc (index + 1) (consumed_state C index pc cleanup k)"
  by (simp add: kernel_consume_def consumed_state_def consume_event_def Let_def)

lemma kernel_consume_sel:
  "iv_acquired (active (kernel_consume C i pc c k)) = iv_acquired (active k)"
  "iv_views (active (kernel_consume C i pc c k)) = iv_views (active k)"
  "iv_entered (active (kernel_consume C i pc c k)) = iv_entered (active k)"
  "iv_failed (active (kernel_consume C i pc c k)) = iv_failed (active k)"
  "iv_reads (active (kernel_consume C i pc c k)) = iv_reads (active k)"
  "iv_prog (active (kernel_consume C i pc c k)) = iv_prog (active k)"
  "iv_released (active (kernel_consume C i pc c k)) = iv_released (active k) + 1"
  "iv_cleanup (active (kernel_consume C i pc c k)) = iv_cleanup (active k) + of_bool c"
  "iv_cells (active (kernel_consume C i pc c k)) =
     (iv_cells (active k))[i := cheri_tag_clear C (iv_cells (active k) ! i)]"
  "k_object (kernel_consume C i pc c k) = (k_object k)\<lparr>ko_refs := ko_refs (k_object k) - 1\<rparr>"
  "k_rddc (kernel_consume C i pc c k) = k_rddc k" "k_rcsp (kernel_consume C i pc c k) = k_rcsp k"
  "k_active (kernel_consume C i pc c k) \<noteq> None"
  by (simp_all add: kernel_consume_eq consumed_state_def Let_def)

text \<open>The cell a consumption clears, and what it is in the protocol.\<close>

lemma live_cell:
  assumes inv: "kernel_inv K k" and live: "Suc i \<in> live_ids (kernel_own K k)"
  shows "i < iv_acquired (active k)" and "i < ARRAY_SIZE_cells"
    and "iv_cells (active k) ! i = object_cap K" and "length (iv_cells (active k)) = ARRAY_SIZE_cells"
proof -
  let ?C = "kp_cheri K"
  have i: "i < iv_acquired (active k)" "cheri_tag_get ?C (iv_cells (active k) ! i)"
    using live by (simp_all add: kernel_live)
  have laws: "cheri_laws ?C" using inv by (simp add: kernel_inv_def)
  show "i < iv_acquired (active k)" "i < ARRAY_SIZE_cells" "length (iv_cells (active k)) = ARRAY_SIZE_cells"
    using inv kernel_inv_acquired [OF inv] i(1) by (simp_all add: kernel_inv_def)
  have "iv_cells (active k) ! i = object_cap K \<or> iv_cells (active k) ! i = cheri_tag_clear ?C (object_cap K)"
    using inv i(1) by (simp add: kernel_inv_def)
  then show "iv_cells (active k) ! i = object_cap K" using i(2) cheri_lawsD(2) [OF laws] by auto
qed

lemma consumed_line:
  obtains l where
    "iv_log (active (consumed_state C i pc c k)) = iv_log (active k) @ [l]" "l_event l = ''clear''"
    "l_id l = Suc i" "l_refs l = ko_refs (k_object k)" "l_acquired l = iv_acquired (active k)"
  using trace_log [of C "''clear''" pc "i + 1"
      "set_active ((active k)\<lparr>iv_cells := (iv_cells (active k))
         [i := cheri_tag_clear C (iv_cells (active k) ! i)]\<rparr>) k"]
  by (auto simp: consumed_state_def Let_def)

lemma kernel_consume_next:
  assumes inv: "kernel_inv K k" and live: "Suc i \<in> live_ids (kernel_own K k)"
  shows "own_next ARRAY_SIZE_cells (kernel_own K k) (consume_act c (Suc i)) =
      Some (kernel_own K (kernel_consume (kp_cheri K) i pc c k))"
proof -
  let ?C = "kp_cheri K"
  let ?k1 = "consumed_state ?C i pc c k" and ?k2 = "kernel_consume ?C i pc c k"
  have laws: "cheri_laws ?C" using inv by (simp add: kernel_inv_def)
  note len = live_cell(4,2) [OF inv live]
  obtain l where l: "iv_log (active ?k1) = iv_log (active k) @ [l]" "l_event l = ''clear''" "l_id l = Suc i"
    by (rule consumed_line)
  obtain l2 where l2: "iv_log (active ?k2) = iv_log (active ?k1) @ [l2]"
    "l_event l2 = consume_event c" "l_id l2 = Suc i"
    using trace_log [of ?C "consume_event c" pc "i + 1" ?k1] by (auto simp: kernel_consume_eq)
  have "{j. 1 \<le> j \<and> j \<le> iv_acquired (active k) \<and> cheri_tag_get ?C ((iv_cells (active k))
           [i := cheri_tag_clear ?C (iv_cells (active k) ! i)] ! (j - 1))} =
      {j. 1 \<le> j \<and> j \<le> iv_acquired (active k) \<and> cheri_tag_get ?C (iv_cells (active k) ! (j - 1))} -
        {Suc i}"
    using len cheri_lawsD(2) [OF laws] by (auto simp: nth_list_update)
  then have ids: "live_ids (kernel_own K ?k2) = live_ids (kernel_own K k) - {Suc i}"
    by (simp add: kernel_own_def Let_def kernel_consume_sel)
  have log: "iv_log (active ?k2) = (iv_log (active k) @ [l]) @ [l2]" using l l2 by simp
  have events: "l_event l2 = ''release'' \<longleftrightarrow> \<not> c" "l_event l2 = ''cleanup'' \<longleftrightarrow> c"
    by (simp_all add: l2(2) consume_event_def)
  let ?R = "explicit (kernel_own K k)" and ?S = "swept (kernel_own K k)"
  have counts: "explicit (kernel_own K ?k2) = (if c then ?R else ?R(Suc i := ?R (Suc i) + 1))"
    "swept (kernel_own K ?k2) = (if c then ?S(Suc i := ?S (Suc i) + 1) else ?S)"
    unfolding own_counts using l(2) l2(3)
    by (simp_all add: fun_eq_iff log events)
  have other: "issued (kernel_own K ?k2) = issued (kernel_own K k)"
    "rc (kernel_own K ?k2) = rc (kernel_own K k) - 1"
    by (simp_all add: kernel_consume_sel)
  have "kernel_own K ?k2 = (if c
      then (kernel_own K k)\<lparr>live_ids := live_ids (kernel_own K k) - {Suc i},
             swept := ?S(Suc i := ?S (Suc i) + 1), rc := rc (kernel_own K k) - 1\<rparr>
      else (kernel_own K k)\<lparr>live_ids := live_ids (kernel_own K k) - {Suc i},
             explicit := ?R(Suc i := ?R (Suc i) + 1), rc := rc (kernel_own K k) - 1\<rparr>)"
    by (rule own.equality) (use ids counts other in \<open>simp_all del: own_sel\<close>)
  then show ?thesis using live by (cases c) (simp_all add: consume_act_def del: own_sel)
qed

lemma kernel_consume_own:
  assumes inv: "kernel_inv K k" and live: "Suc i \<in> live_ids (kernel_own K k)"
  shows "own_next ARRAY_SIZE_cells (kernel_own K k) (consume_act c (Suc i)) =
      Some (kernel_own K (kernel_consume (kp_cheri K) i pc c k))"
    and "kernel_inv K (kernel_consume (kp_cheri K) i pc c k)"
proof -
  let ?C = "kp_cheri K"
  let ?k1 = "consumed_state ?C i pc c k"
  have laws: "cheri_laws ?C" using inv by (simp add: kernel_inv_def)
  note cell = live_cell [OF inv live]
  have sel: "iv_acquired (active ?k1) = iv_acquired (active k)"
    "iv_released (active ?k1) = iv_released (active k) + 1"
    "iv_cleanup (active ?k1) = iv_cleanup (active k) + of_bool c"
    "iv_views (active ?k1) = iv_views (active k)"
    "iv_cells (active ?k1) = (iv_cells (active k))[i := cheri_tag_clear ?C (iv_cells (active k) ! i)]"
    "ko_refs (k_object ?k1) = ko_refs (k_object k) - 1" "k_active ?k1 \<noteq> None"
    by (simp_all add: consumed_state_def Let_def)
  show own: "own_next ARRAY_SIZE_cells (kernel_own K k) (consume_act c (Suc i)) =
      Some (kernel_own K (kernel_consume ?C i pc c k))"
    by (rule kernel_consume_next [OF inv live])
  obtain l where l: "iv_log (active ?k1) = iv_log (active k) @ [l]" "l_event l = ''clear''"
    "l_id l = Suc i" "l_refs l = ko_refs (k_object k)" "l_acquired l = iv_acquired (active k)"
    by (rule consumed_line)
  have rep: "replay_log own_init (iv_log (active ?k1)) = Some (kernel_own K k)"
    using inv l live unfolding l(1) replay_log_append
    by (simp add: kernel_inv_def line_own_def)
  have views: "\<forall>j < iv_acquired (active ?k1).
        iv_views (active ?k1) ! j = cell_view K j \<and> cheri_tag_get ?C (cell_view K j) \<and>
        (iv_cells (active ?k1) ! j = object_cap K \<or>
         iv_cells (active ?k1) ! j = cheri_tag_clear ?C (object_cap K))"
    using inv cell(2,4) by (auto simp: sel nth_list_update kernel_inv_def cell(3))
  show "kernel_inv K (kernel_consume ?C i pc c k)"
    unfolding kernel_consume_eq
  proof (rule trace_inv [where s = "kernel_own K k"])
    show "line_own (kernel_own K k) m =
        Some (kernel_own K (cbpf_trace ?C (consume_event c) pc (i + 1) ?k1))"
      if "l_event m = consume_event c" "l_id m = i + 1" for m
      using that own by (cases c) (simp_all add: line_own_def consume_event_def consume_act_def kernel_consume_eq)
    show "\<exists>a. own_next ARRAY_SIZE_cells (kernel_own K k) a =
          Some (kernel_own K (cbpf_trace ?C (consume_event c) pc (i + 1) ?k1)) \<or>
        kernel_own K k = kernel_own K (cbpf_trace ?C (consume_event c) pc (i + 1) ?k1)"
      using own unfolding kernel_consume_eq by blast
    show "\<forall>j < ARRAY_SIZE_cells. iv_acquired (active ?k1) \<le> j \<longrightarrow>
        \<not> cheri_tag_get ?C (iv_cells (active ?k1) ! j)"
      using inv cell(1) by (simp add: kernel_inv_def sel)
  qed (use inv laws rep views cell(4) in \<open>simp_all add: kernel_inv_def sel\<close>)
qed

lemma find_view_spec:
  assumes "i \<le> n"
  shows "i \<le> find_view C v vs i n \<and> find_view C v vs i n \<le> n \<and>
    (find_view C v vs i n < n \<longrightarrow> cheri_is_equal_exact C v (vs ! find_view C v vs i n)) \<and>
    (\<forall>j. i \<le> j \<and> j < find_view C v vs i n \<longrightarrow> \<not> cheri_is_equal_exact C v (vs ! j))"
  using assms
proof (induction C v vs i n rule: find_view.induct)
  case (1 C v vs i n)
  show ?case
  proof (cases "i < n \<and> \<not> cheri_is_equal_exact C v (vs ! i)")
    case True
    then have step: "find_view C v vs i n = find_view C v vs (i + 1) n"
      by (simp add: find_view.simps [of C v vs i n])
    have IH: "i + 1 \<le> find_view C v vs (i + 1) n \<and> find_view C v vs (i + 1) n \<le> n \<and>
      (find_view C v vs (i + 1) n < n \<longrightarrow>
        cheri_is_equal_exact C v (vs ! find_view C v vs (i + 1) n)) \<and>
      (\<forall>j. i + 1 \<le> j \<and> j < find_view C v vs (i + 1) n \<longrightarrow> \<not> cheri_is_equal_exact C v (vs ! j))"
      using 1 True by simp
    show ?thesis unfolding step
      using IH True by (metis Suc_eq_plus1 Suc_leI le_neq_implies_less order_trans le_add1)
  next
    case False
    then have "find_view C v vs i n = i" by (auto simp: find_view.simps [of C v vs i n])
    with False 1 show ?thesis by auto
  qed
qed

text \<open>The ways a gate call ends.\<close>

text \<open>The gate's two halves once the invocation entered and has not failed.\<close>

lemma acquire_op_cases:
  assumes inv: "kernel_inv K k"
  obtains
    (reject) "gate_acquire_op K a pc k = cbpf_fail (kp_cheri K) pc k"
  | (null) "gate_acquire_op K a pc k =
        (cheri_from_u64 (kp_cheri K) 0, cbpf_trace (kp_cheri K) ''null'' pc 0 k)"
  | (acquire) "iv_acquired (active k) < ARRAY_SIZE_cells"
      "cheri_tag_get (kp_cheri K) (cell_view K (iv_acquired (active k)))"
      "cheri_tag_get (kp_cheri K) (object_cap K)"
      "gate_acquire_op K a pc k = (cell_view K (iv_acquired (active k)),
         cbpf_trace (kp_cheri K) ''acquire'' pc (iv_acquired (active k) + 1) (acquired_state K k))"
proof -
  let ?C = "kp_cheri K" and ?s = "active k"
  consider (bad) "cheri_tag_get ?C a \<or> cheri_address_get ?C a > 1"
    | (no) "\<not> cheri_tag_get ?C a" "cheri_address_get ?C a \<le> 1" "cheri_address_get ?C a \<noteq> 0"
    | (full) "\<not> cheri_tag_get ?C a" "cheri_address_get ?C a = 0" "iv_acquired ?s = ARRAY_SIZE_cells"
    | (fresh) "\<not> cheri_tag_get ?C a" "cheri_address_get ?C a = 0" "iv_acquired ?s < ARRAY_SIZE_cells"
    using kernel_inv_acquired [OF inv] by fastforce
  then show ?thesis
  proof cases
    case bad
    then show ?thesis by (intro reject) (auto simp: gate_acquire_op_def Let_def)
  next
    case no
    then show ?thesis by (intro null) (auto simp: gate_acquire_op_def Let_def)
  next
    case full
    then show ?thesis by (intro reject) (simp add: gate_acquire_op_def Let_def)
  next
    case fresh
    have eq: "gate_acquire_op K a pc k =
        (if \<not> cheri_tag_get ?C (cell_view K (iv_acquired ?s)) \<or> \<not> cheri_tag_get ?C (object_cap K)
         then cbpf_fail ?C pc k
         else (cell_view K (iv_acquired ?s),
               cbpf_trace ?C ''acquire'' pc (iv_acquired ?s + 1) (acquired_state K k)))"
      using fresh by (simp add: gate_acquire_op_def Let_def cell_view_def object_cap_def acquired_state_def)
    show ?thesis
    proof (cases "cheri_tag_get ?C (cell_view K (iv_acquired ?s)) \<and> cheri_tag_get ?C (object_cap K)")
      case True
      then show ?thesis using acquire eq fresh by simp
    next
      case False
      then show ?thesis using reject eq by auto
    qed
  qed
qed

lemma found_view:
  assumes inv: "kernel_inv K k"
    and found: "find_view (kp_cheri K) a (iv_views (active k)) 0 (iv_acquired (active k)) \<noteq> iv_acquired (active k)"
  defines "i \<equiv> find_view (kp_cheri K) a (iv_views (active k)) 0 (iv_acquired (active k))"
  shows "i < iv_acquired (active k)" and "a = cell_view K i"
proof -
  let ?C = "kp_cheri K"
  have laws: "cheri_laws ?C" using inv by (simp add: kernel_inv_def)
  have spec: "i \<le> iv_acquired (active k)"
    "i < iv_acquired (active k) \<longrightarrow> cheri_is_equal_exact ?C a (iv_views (active k) ! i)"
    using find_view_spec [of 0 "iv_acquired (active k)" ?C a "iv_views (active k)"] unfolding i_def by blast+
  then show lt: "i < iv_acquired (active k)" using found unfolding i_def by linarith
  have "a = iv_views (active k) ! i" using spec(2) lt cheri_lawsD(1) [OF laws] by blast
  then show "a = cell_view K i" using inv lt by (simp add: kernel_inv_def)
qed

lemma gate_impl_cases:
  assumes inv: "kernel_inv K k"
  obtains
    (reject) "cbpf_gate_impl K a op pc k = cbpf_fail (kp_cheri K) pc k"
  | (null) "iv_entered (active k)" "\<not> iv_failed (active k)" "op = 1"
      "cbpf_gate_impl K a op pc k =
        (cheri_from_u64 (kp_cheri K) 0, cbpf_trace (kp_cheri K) ''null'' pc 0 k)"
  | (acquire) "iv_entered (active k)" "\<not> iv_failed (active k)" "op = 1"
      "iv_acquired (active k) < ARRAY_SIZE_cells"
      "cheri_tag_get (kp_cheri K) (cell_view K (iv_acquired (active k)))"
      "cheri_tag_get (kp_cheri K) (object_cap K)"
      "cbpf_gate_impl K a op pc k = (cell_view K (iv_acquired (active k)),
         cbpf_trace (kp_cheri K) ''acquire'' pc (iv_acquired (active k) + 1) (acquired_state K k))"
  | (read) i where "iv_entered (active k)" "\<not> iv_failed (active k)" "op = 2"
      "Suc i \<in> live_ids (kernel_own K k)" "a = cell_view K i"
      "cbpf_gate_impl K a op pc k =
        (cheri_from_u64 (kp_cheri K) (word_of_int (ko_value (k_object k))),
         cbpf_trace (kp_cheri K) ''read'' pc (i + 1)
           (set_active ((active k)\<lparr>iv_reads := iv_reads (active k) + 1\<rparr>) k))"
  | (release) i where "iv_entered (active k)" "\<not> iv_failed (active k)" "op = 3"
      "Suc i \<in> live_ids (kernel_own K k)" "a = cell_view K i"
      "cbpf_gate_impl K a op pc k =
        (cheri_from_u64 (kp_cheri K) 0, kernel_consume (kp_cheri K) i pc False k)"
proof -
  let ?C = "kp_cheri K" and ?s = "active k"
  have act: "k_active k \<noteq> None" using inv by (simp add: kernel_inv_def)
  consider (idle) "\<not> iv_entered ?s \<or> iv_failed ?s" | (one) "iv_entered ?s" "\<not> iv_failed ?s" "op = 1"
    | (use) "iv_entered ?s" "\<not> iv_failed ?s" "op \<noteq> 1" by blast
  then show ?thesis
  proof cases
    case idle
    then show ?thesis using reject by (auto simp: cbpf_gate_impl_def Let_def)
  next
    case one
    then have acq: "cbpf_gate_impl K a op pc k = gate_acquire_op K a pc k"
      using act by (auto simp: cbpf_gate_impl_def Let_def)
    from inv show ?thesis
    proof (cases rule: acquire_op_cases [of K k a pc])
      case reject': reject
      then show ?thesis using reject acq by simp
    next
      case null': null
      then show ?thesis using null one acq by simp
    next
      case acquire': acquire
      then show ?thesis using acquire one acq by simp
    qed
  next
    case use
    let ?i = "find_view ?C a (iv_views ?s) 0 (iv_acquired ?s)"
    show ?thesis
    proof (cases "(op = 2 \<or> op = 3) \<and> ?i \<noteq> iv_acquired ?s \<and> cheri_tag_get ?C (iv_cells ?s ! ?i)")
      case False
      then show ?thesis using reject use act by (auto simp: cbpf_gate_impl_def Let_def)
    next
      case True
      then have lt: "?i < iv_acquired ?s" and av: "a = cell_view K ?i" using found_view [OF inv] by blast+
      then have live: "Suc ?i \<in> live_ids (kernel_own K k)" using True by (simp add: kernel_live)
      show ?thesis
      proof (cases "op = 2")
        case two: True
        show ?thesis
          by (rule read [OF use(1,2) two live av])
            (use use lt live act two in \<open>auto simp: cbpf_gate_impl_def Let_def kernel_live\<close>)
      next
        case False
        then have op: "op = 3" using True by simp
        show ?thesis
          by (rule release [OF use(1,2) op live av])
            (use use lt live act op in \<open>auto simp: cbpf_gate_impl_def Let_def kernel_live\<close>)
      qed
    qed
  qed
qed

lemma read_line_inv:
  assumes inv: "kernel_inv K k" and live: "Suc i \<in> live_ids (kernel_own K k)"
  shows "kernel_inv K (cbpf_trace (kp_cheri K) ''read'' pc (i + 1)
    (set_active ((active k)\<lparr>iv_reads := r\<rparr>) k))"
proof -
  let ?k = "set_active ((active k)\<lparr>iv_reads := r\<rparr>) k"
  have inv': "kernel_inv K ?k" using flags_inv(3) [OF inv] .
  have own: "kernel_own K ?k = kernel_own K k"
    using inv set_active_same [of k] by (simp add: kernel_inv_def)
  have same: "kernel_own K (cbpf_trace (kp_cheri K) ''read'' pc (i + 1) ?k) = kernel_own K k"
    using trace_own_quiet [of "''read''" K] own by simp
  show ?thesis
    by (rule trace_inv [where s = "kernel_own K k"])
      (use inv' same own live in \<open>simp_all add: kernel_inv_def line_own_def\<close>)
qed

text \<open>What every gate call keeps.\<close>

definition gate_frame :: "'v kernel \<Rightarrow> 'v kernel \<Rightarrow> bool" where
  "gate_frame k k' \<longleftrightarrow>
     iv_entered (active k') = iv_entered (active k) \<and> iv_prog (active k') = iv_prog (active k) \<and>
     ko_value (k_object k') = ko_value (k_object k) \<and>
     iv_acquired (active k) \<le> iv_acquired (active k') \<and>
     (iv_failed (active k) \<longrightarrow> iv_failed (active k')) \<and>
     k_rddc k' = k_rddc k \<and> k_rcsp k' = k_rcsp k"

lemma gate_impl_inv:
  assumes "kernel_inv K k" and "cbpf_gate_impl K a op pc k = (r, k')"
  shows "kernel_inv K k' \<and> gate_frame k k'"
  using assms(1)
proof (cases rule: gate_impl_cases [of K k a op pc])
  case reject
  then show ?thesis
    using assms fail_inv [OF assms(1), of pc] fail_eq [of k "kp_cheri K" pc]
    by (auto simp: gate_frame_def kernel_inv_def)
next
  case null
  then show ?thesis
    using assms trace_quiet_inv [OF assms(1)] by (auto simp: gate_frame_def)
next
  case acquire
  then show ?thesis
    using assms acquired_state_inv [OF assms(1)]
    by (auto simp: gate_frame_def acquired_state_def Let_def)
next
  case (read i)
  then show ?thesis
    using assms read_line_inv [OF assms(1)] by (auto simp: gate_frame_def)
next
  case (release i)
  then show ?thesis
    using assms kernel_consume_own(2) [OF assms(1) release(4)]
    by (auto simp: gate_frame_def kernel_consume_sel)
qed

end
