(* ===== verification/KernelChecks.thy ===== *)
theory KernelChecks
  imports KernelGate
begin

text \<open>
  The checks \<open>cbpf_runtime.c\<close> runs once at boot on the trusted resolver: consumed handles
  that survive in a copy or a spill, duplicate releases, and synchronous callbacks that
  retain handles. The printed \<open>CBPF_GUARD\<close> and \<open>CBPF_CALLBACK\<close> lines are not modelled.
\<close>

text \<open>The label \<open>out\<close> once the check's invocation is active.\<close>

definition check_out :: "'v kplatform \<Rightarrow> bool \<Rightarrow> 'v kernel \<Rightarrow> bool \<times> 'v kernel" where
  "check_out K pass k =
     (pass, (fold (kernel_sweep1 (kp_cheri K)) [0..<ARRAY_SIZE_cells] k)\<lparr>k_active := None\<rparr>)"

definition counts_are :: "nat \<Rightarrow> nat \<Rightarrow> u32 \<Rightarrow> int \<Rightarrow> 'v kernel \<Rightarrow> bool" where
  "counts_are acquired released reads refs k \<longleftrightarrow>
     iv_acquired (active k) = acquired \<and> iv_released (active k) = released \<and>
     iv_reads (active k) = reads \<and> iv_cleanup (active k) = 0 \<and> ko_refs (k_object k) = refs"

text \<open>A consumed identity whose public capability remains intact.\<close>

definition stale_alias :: "'v cheri \<Rightarrow> 'v \<Rightarrow> 'v kernel \<Rightarrow> bool" where
  "stale_alias C alias k \<longleftrightarrow>
     cheri_tag_get C alias \<and> cheri_is_equal_exact C alias (iv_views (active k) ! 0) \<and>
     \<not> cheri_tag_get C (iv_cells (active k) ! 0)"

definition cbpf_guard_check ::
    "'v kplatform \<Rightarrow> bool \<Rightarrow> u64 \<Rightarrow> 'v kernel \<Rightarrow> bool \<times> 'v kernel" where
  "cbpf_guard_check K use_spill operation k0 =
     (let C = kp_cheri K
      in if k_active k0 \<noteq> None \<or> ko_refs (k_object k0) \<noteq> 1 then (False, k0)
         else case cbpf_gate_impl K (cheri_from_u64 C 0) 1 0
                     (set_active (new_invocation C 0 True) k0) of
           (original, k) \<Rightarrow>
             if iv_failed (active k) \<or> \<not> cheri_tag_get C original \<or> \<not> counts_are 1 0 0 2 k
             then check_out K False k
             else
               let alias = original;
                   spill = (if use_spill then alias else cheri_from_u64 C 0)
               in case cbpf_gate_impl K original 3 1 k of
                    (r, k) \<Rightarrow>
                      if cheri_address_get C r \<noteq> 0 \<or> iv_failed (active k) then check_out K False k
                      else
                        let alias = (if use_spill then spill else alias)
                        in if \<not> stale_alias C alias k \<or> \<not> counts_are 1 1 0 1 k
                           then check_out K False k
                           else case cbpf_gate_impl K alias operation 2 k of
                                  (r, k) \<Rightarrow>
                                    let failure_return = (cheri_address_get C r =
                                          cheri_address_get C (CBPF_FAILURE C))
                                    in check_out K (failure_return \<and> iv_failed (active k) \<and>
                                         stale_alias C alias k \<and> counts_are 1 1 0 1 k) k)"

subsection \<open>Synchronous callbacks\<close>

record 'v cbpf_callback_context =
  cc_aliases :: "'v list"
  cc_calls :: nat
  cc_completed :: nat
  cc_value :: u32
  cc_independent :: bool

type_synonym 'v callback_state = "'v cbpf_callback_context \<times> 'v kernel"

definition cbpf_ownership_callback ::
    "'v kplatform \<Rightarrow> nat \<Rightarrow> 'v callback_state \<Rightarrow> bool \<times> 'v callback_state" where
  "cbpf_ownership_callback K iteration ck =
     (case ck of (ctx0, k0) \<Rightarrow>
       let C = kp_cheri K;
           index = (if cc_independent ctx0 then iteration else 0);
           pc = 4 + 2 * of_nat iteration :: u64;
           alias = cc_aliases ctx0 ! index;
           canonical = cheri_is_equal_exact C alias (iv_views (active k0) ! index);
           ctx = ctx0\<lparr>cc_calls := cc_calls ctx0 + 1\<rparr>
       in if \<not> canonical \<or> \<not> cheri_tag_get C alias
          then (False, ctx, snd (cbpf_fail C pc k0))
          else if cc_independent ctx \<and> iteration = 1
          then (case cbpf_gate_impl K alias 2 pc k0 of
                  (value, k) \<Rightarrow>
                    if iv_failed (active k) then (False, ctx, k)
                    else let ctx = ctx\<lparr>cc_value := ucast (cheri_address_get C value)\<rparr>
                         in case cbpf_gate_impl K alias 3 (pc + 1) k of
                              (_, k) \<Rightarrow> (\<not> iv_failed (active k), ctx, k))
          else case cbpf_gate_impl K alias 3 pc k0 of
                 (_, k) \<Rightarrow> (\<not> iv_failed (active k), ctx, k))"

text \<open>The dispatcher from iteration \<open>i\<close> on.\<close>

function cbpf_dispatch_callbacks ::
    "(nat \<Rightarrow> 'v callback_state \<Rightarrow> bool \<times> 'v callback_state) \<Rightarrow> nat \<Rightarrow> nat \<Rightarrow>
     'v callback_state \<Rightarrow> bool \<times> 'v callback_state" where
  "cbpf_dispatch_callbacks target i limit ck =
     (if i < limit
      then (case target i ck of
              (ok, ctx, k) \<Rightarrow>
                if \<not> ok then (False, ctx, k)
                else cbpf_dispatch_callbacks target (i + 1) limit
                       (ctx\<lparr>cc_completed := cc_completed ctx + 1\<rparr>, k))
      else (True, ck))"
  by pat_completeness auto
termination by (relation "measure (\<lambda>(t, i, n, ck). n - i)") auto

declare cbpf_dispatch_callbacks.simps [simp del]

text \<open>
  The loop that acquires the aliases of a callback check: \<^term>\<open>Inl\<close> when it leaves for
  \<open>out\<close>.
\<close>

function callback_aliases ::
    "'v kplatform \<Rightarrow> nat \<Rightarrow> nat \<Rightarrow> 'v callback_state \<Rightarrow> 'v callback_state + 'v callback_state" where
  "callback_aliases K index n ck =
     (if index < n
      then (case ck of (ctx, k) \<Rightarrow>
             case cbpf_gate_impl K (cheri_from_u64 (kp_cheri K) 0) 1 (of_nat index) k of
               (view, k) \<Rightarrow>
                 let ctx = ctx\<lparr>cc_aliases := (cc_aliases ctx)[index := view]\<rparr>
                 in if iv_failed (active k) \<or> \<not> cheri_tag_get (kp_cheri K) view
                    then Inl (ctx, k)
                    else callback_aliases K (index + 1) n (ctx, k))
      else Inr ck)"
  by pat_completeness auto
termination by (relation "measure (\<lambda>(K, i, n, ck). n - i)") auto

declare callback_aliases.simps [simp del]

definition cbpf_callback_check ::
    "'v kplatform \<Rightarrow> bool \<Rightarrow> 'v kernel \<Rightarrow> bool \<times> 'v kernel" where
  "cbpf_callback_check K independent k0 =
     (let C = kp_cheri K;
          ctx = \<lparr>cc_aliases = replicate 2 (cheri_null C), cc_calls = 0, cc_completed = 0,
                 cc_value = 0, cc_independent = independent\<rparr>;
          n = (if independent then 2 else 1)
      in if k_active k0 \<noteq> None \<or> ko_refs (k_object k0) \<noteq> 1 then (False, k0)
         else case callback_aliases K 0 n (ctx, set_active (new_invocation C 0 True) k0) of
           Inl (_, k) \<Rightarrow> check_out K False k
         | Inr ck \<Rightarrow>
             (case cbpf_dispatch_callbacks (cbpf_ownership_callback K) 0
                     (if independent then 2 else 3) ck of
                (dispatched, ctx, k) \<Rightarrow>
                  let s = active k;
                      pass = (dispatched = independent \<and> iv_failed s = (\<not> independent) \<and>
                        cc_calls ctx = 2 \<and> cc_completed ctx = (if independent then 2 else 1) \<and>
                        cc_value ctx = (if independent then 42 else 0) \<and>
                        counts_are n n (if independent then 1 else 0) 1 k \<and>
                        (\<forall>index \<in> set [0..<n].
                           cheri_tag_get C (cc_aliases ctx ! index) \<and>
                           cheri_is_equal_exact C (cc_aliases ctx ! index) (iv_views s ! index) \<and>
                           \<not> cheri_tag_get C (iv_cells s ! index)))
                  in check_out K pass k))"

text \<open>
  The initcall: the checks in order, the first failure ends it; then the registration of
  the kfunc set, whose result is a parameter.
\<close>

definition cbpf_cap_init :: "'v kplatform \<Rightarrow> int \<Rightarrow> 'v kernel \<Rightarrow> int \<times> 'v kernel" where
  "cbpf_cap_init K registered k =
     (case cbpf_guard_check K False 2 k of (a, k) \<Rightarrow> if \<not> a then (- EINVAL, k) else
      case cbpf_guard_check K True 2 k of (b, k) \<Rightarrow> if \<not> b then (- EINVAL, k) else
      case cbpf_guard_check K False 3 k of (c, k) \<Rightarrow> if \<not> c then (- EINVAL, k) else
      case cbpf_callback_check K False k of (d, k) \<Rightarrow> if \<not> d then (- EINVAL, k) else
      case cbpf_callback_check K True k of (e, k) \<Rightarrow> if \<not> e then (- EINVAL, k)
      else (registered, k))"

end
