(* ===== verification/KernelProps.thy ===== *)
theory KernelProps
  imports KernelCorrect KernelChecks
begin

text \<open>
  What every invocation of a program leaves behind, how a handle resolves, what the
  restricted entry hands out, and that the boot checks pass.
\<close>

subsection \<open>The kernel as a store of acquisitions\<close>

lemma kernel_sweep1_dead:
  "kernel_inv K k \<Longrightarrow> i < iv_acquired (active k) \<Longrightarrow> Suc i \<notin> live_ids (kernel_own K k) \<Longrightarrow>
   kernel_sweep1 (kp_cheri K) i k = k"
  by (simp add: kernel_sweep1_def kernel_live)

lemma kernel_sweep1_live:
  "Suc i \<in> live_ids (kernel_own K k) \<Longrightarrow>
   kernel_sweep1 (kp_cheri K) i k = kernel_consume (kp_cheri K) i U64_MAX True k"
  by (simp add: kernel_sweep1_def kernel_live)

interpretation kernel_cells: acquisition_store "kernel_inv K" "kernel_own K" ARRAY_SIZE_cells
    "kernel_sweep1 (kp_cheri K)" for K :: "'v kplatform"
proof unfold_locales
  fix k :: "'v kernel" and i
  assume inv: "kernel_inv K k"
  then show "own_inv ARRAY_SIZE_cells (kernel_own K k)" by (simp add: kernel_inv_def)
  show "kernel_inv K (kernel_sweep1 (kp_cheri K) i k)" if "i < issued (kernel_own K k)"
  proof (cases "Suc i \<in> live_ids (kernel_own K k)")
    case True
    then show ?thesis using kernel_consume_own(2) [OF inv True] kernel_sweep1_live by metis
  next
    case False
    then show ?thesis using that inv kernel_sweep1_dead [OF inv, of i] by simp
  qed
  show "own_next ARRAY_SIZE_cells (kernel_own K k) (Sweep (Suc i)) =
      Some (kernel_own K (kernel_sweep1 (kp_cheri K) i k))" if "Suc i \<in> live_ids (kernel_own K k)"
    using kernel_consume_own(1) [OF inv that, of True U64_MAX] kernel_sweep1_live [OF that]
    by (simp add: consume_act_def)
  show "kernel_own K (kernel_sweep1 (kp_cheri K) i k) = kernel_own K k"
    if "i < issued (kernel_own K k)" "Suc i \<notin> live_ids (kernel_own K k)"
    using that kernel_sweep1_dead [OF inv, of i] by simp
qed

lemma kernel_sweep_frame:
  "gate_frame k (fold (kernel_sweep1 C) is k) \<and>
   iv_failed (active (fold (kernel_sweep1 C) is k)) = iv_failed (active k) \<and>
   (k_active k \<noteq> None \<longrightarrow> k_active (fold (kernel_sweep1 C) is k) \<noteq> None)"
proof (induction "is" arbitrary: k)
  case (Cons i "is")
  have "gate_frame k (kernel_sweep1 C i k) \<and>
      iv_failed (active (kernel_sweep1 C i k)) = iv_failed (active k) \<and>
      (k_active k \<noteq> None \<longrightarrow> k_active (kernel_sweep1 C i k) \<noteq> None)"
    using kernel_consume_sel(13) [simplified]
    by (auto simp: kernel_sweep1_def gate_frame_def kernel_consume_sel)
  then show ?case using Cons.IH [of "kernel_sweep1 C i k"] by (auto simp: gate_frame_def)
qed (simp add: gate_frame_def)

subsection \<open>A whole invocation\<close>

definition kernel_idle :: "'v kplatform \<Rightarrow> 'v kernel \<Rightarrow> bool" where
  "kernel_idle K k \<longleftrightarrow>
     cheri_laws (kp_cheri K) \<and> k_active k = None \<and> ko_refs (k_object k) = 1"

lemma new_invocation_inv:
  assumes "kernel_idle K k"
  shows "kernel_inv K (set_active (new_invocation (kp_cheri K) prog e) k)"
proof -
  let ?k = "set_active (new_invocation (kp_cheri K) prog e) k"
  have own: "kernel_own K ?k = own_init"
    using assms
    by (auto simp: kernel_own_def new_invocation_def own_init_def kernel_idle_def Let_def fun_eq_iff)
  have laws: "cheri_laws (kp_cheri K)" using assms by (simp add: kernel_idle_def)
  show ?thesis
    unfolding kernel_inv_def own
    using assms own_inv_init cheri_lawsD(6) [OF laws]
    by (simp add: new_invocation_def kernel_idle_def)
qed

lemma enter_inv:
  assumes inv: "kernel_inv K k" and enter: "cbpf_enter K a k = Inr (en, k')"
  shows "kernel_inv K k' \<and> iv_prog (active k') = iv_prog (active k) \<and>
    ko_value (k_object k') = ko_value (k_object k) \<and> iv_failed (active k') = iv_failed (active k)"
proof -
  obtain c where k': "k' = (set_active ((active k)\<lparr>iv_entered := True\<rparr>) k)
      \<lparr>k_rcsp := c, k_rddc := cheri_null (kp_cheri K)\<rparr>"
    using enter by (auto simp: cbpf_enter_def Let_def split: if_splits)
  show ?thesis
    unfolding k' using flags_inv(2) [OF inv, of True] flags_inv(4) by force
qed

lemma gateway_inv:
  assumes "kernel_inv K k" and "cbpf_gateway K a op pc k = (r, k')"
  shows "kernel_inv K k' \<and> gate_frame k k'"
  using assms gate_impl_inv [OF assms(1)] by (auto simp: cbpf_gateway_def split: prod.splits)

lemma bpf_prog_run_inv:
  assumes "kernel_inv K k" and "bpf_prog_run K code k = (v, k')"
  shows "kernel_inv K k' \<and> iv_prog (active k') = iv_prog (active k) \<and>
    ko_value (k_object k') = ko_value (k_object k) \<and>
    (iv_failed (active k) \<longrightarrow> iv_failed (active k'))"
  using assms
proof (induction code arbitrary: k)
  case (Native_Return u)
  then show ?case by simp
next
  case (Native_Enter a err ok)
  show ?case
  proof (cases "cbpf_enter K a k")
    case (Inl e)
    then show ?thesis using Native_Enter.IH(1) [of "err e" k] Native_Enter.prems by simp
  next
    case (Inr p)
    obtain en k1 where p: "p = (en, k1)" by (cases p)
    have k1: "kernel_inv K k1" "iv_prog (active k1) = iv_prog (active k)"
      "ko_value (k_object k1) = ko_value (k_object k)" "iv_failed (active k1) = iv_failed (active k)"
      using enter_inv [OF Native_Enter.prems(1)] Inr p by auto
    then show ?thesis
      using Native_Enter.IH(2) [of "ok en" k1] Native_Enter.prems Inr p by simp
  qed
next
  case (Native_Gate a op pc cont)
  obtain r k1 where g: "cbpf_gateway K a op pc k = (r, k1)" by fastforce
  have k1: "kernel_inv K k1" "gate_frame k k1"
    using gateway_inv [OF Native_Gate.prems(1) g] by simp_all
  show ?case
  proof (cases r)
    case None
    then show ?thesis using Native_Gate.prems g k1 by (auto simp: gate_frame_def)
  next
    case (Some c)
    then show ?thesis
      using Native_Gate.IH [of "cont c" k1] Native_Gate.prems g k1 by (auto simp: gate_frame_def)
  qed
qed

text \<open>What \<open>cbpf_test_invoke\<close> returns once the program has run.\<close>

lemma test_invoke_ran:
  assumes idle: "kernel_idle K k"
    and run: "cbpf_test_invoke K prog True code k = (v, log, k')"
  obtains kr w kf where
    "bpf_prog_run K code (set_active (new_invocation (kp_cheri K) prog False) k) = (w, kr)"
    "kernel_inv K kf" "live_ids (kernel_own K kf) = {}" "log = iv_log (active kf)"
    "k_object k' = k_object kf" "k_active k' = None" "k_rddc k' = k_rddc k" "k_rcsp k' = k_rcsp k"
    "ko_value (k_object kf) = ko_value (k_object k)"
    "iv_released (active kf) = iv_acquired (active kf)"
    "v = (if iv_failed (active kf) then 0 else w)"
    "iv_failed (active kf) \<longleftrightarrow> iv_failed (active kr) \<or> \<not> iv_entered (active kr)"
    "l_event (last log) = (if iv_failed (active kf) then ''failed'' else ''exit'')" "log \<noteq> []"
proof -
  let ?C = "kp_cheri K"
  let ?k0 = "set_active (new_invocation ?C prog False) k"
  obtain w kr where r: "bpf_prog_run K code ?k0 = (w, kr)" by fastforce
  have inv0: "kernel_inv K ?k0" by (rule new_invocation_inv [OF idle])
  have kr: "kernel_inv K kr" "ko_value (k_object kr) = ko_value (k_object k)"
    using bpf_prog_run_inv [OF inv0 r] by simp_all
  define ks where "ks = fold (kernel_sweep1 ?C) [0..<iv_acquired (active kr)] kr"
  have ks: "kernel_inv K ks" "live_ids (kernel_own K ks) = {}"
    using kernel_cells.sweep_all [OF kr(1)] by (simp_all add: ks_def)
  have fr: "gate_frame kr ks" "iv_failed (active ks) = iv_failed (active kr)"
    using kernel_sweep_frame [of kr ?C "[0..<iv_acquired (active kr)]"] by (simp_all add: ks_def)
  have rel: "iv_released (active ks) = iv_acquired (active ks)"
  proof -
    have "rc (kernel_own K ks) = 1"
      using own_inv_settled(1) [OF kernel_cells.abs_inv [OF ks(1)] ks(2)] .
    then show ?thesis using ks(1) by (simp add: kernel_inv_def)
  qed
  define kt where "kt = (if \<not> iv_entered (active ks) \<or> iv_acquired (active ks) \<noteq> iv_released (active ks)
      then set_active ((active ks)\<lparr>iv_failed := True\<rparr>) ks else ks)"
  have kt: "kernel_inv K kt" "live_ids (kernel_own K kt) = {}"
    "ko_value (k_object kt) = ko_value (k_object k)" "iv_released (active kt) = iv_acquired (active kt)"
    "iv_failed (active kt) \<longleftrightarrow> iv_failed (active kr) \<or> \<not> iv_entered (active kr)"
    using ks flags_inv(1) [OF ks(1), of True] rel kr(2) fr
    by (auto simp: kt_def gate_frame_def kernel_own_def Let_def)
  let ?e = "if iv_failed (active kt) then ''failed'' else ''exit''"
  define kf where "kf = cbpf_trace ?C ?e U64_MAX 0 kt"
  have kf: "kernel_inv K kf" unfolding kf_def by (rule trace_quiet_inv [OF kt(1)]) simp
  have own: "kernel_own K kf = kernel_own K kt"
    unfolding kf_def by (rule trace_own_quiet) simp_all
  obtain l where l: "iv_log (active kf) = iv_log (active kt) @ [l]" "l_event l = ?e"
    unfolding kf_def using trace_log by blast
  have "cbpf_test_invoke K prog True code k = (if iv_failed (active kt) then 0 else w,
      iv_log (active kf), kf\<lparr>k_active := None, k_rddc := k_rddc k, k_rcsp := k_rcsp k\<rparr>)"
    unfolding kf_def kt_def ks_def using idle r
    by (simp add: cbpf_test_invoke_def kernel_idle_def Let_def)
  with run have res: "v = (if iv_failed (active kt) then 0 else w)" "log = iv_log (active kf)"
    "k' = kf\<lparr>k_active := None, k_rddc := k_rddc k, k_rcsp := k_rcsp k\<rparr>"
    by simp_all
  show ?thesis
    by (rule that [OF r kf]) (use res kt own l in \<open>auto simp: kf_def\<close>)
qed

text \<open>An invocation leaves an idle kernel as it was.\<close>

lemma invocation_restores:
  assumes "kernel_idle K k" and "cbpf_test_invoke K prog True code k = (v, log, k')"
  shows "k' = k"
proof -
  obtain kf where r: "kernel_inv K kf" "live_ids (kernel_own K kf) = {}"
    "k_object k' = k_object kf" "k_active k' = None" "k_rddc k' = k_rddc k" "k_rcsp k' = k_rcsp k"
    "ko_value (k_object kf) = ko_value (k_object k)"
    using test_invoke_ran [OF assms] by metis
  have own: "own_inv ARRAY_SIZE_cells (kernel_own K kf)" using r(1) by (simp add: kernel_inv_def)
  have "ko_refs (k_object k') = 1" using own_inv_settled(1) [OF own r(2)] r(3) by simp
  then show ?thesis using r(3-7) assms(1) by (simp add: kernel_idle_def)
qed

subsection \<open>The log as an observation\<close>

definition line_uses :: "nat \<Rightarrow> gate_line \<Rightarrow> bool" where
  "line_uses i l \<longleftrightarrow>
     l_id l = i \<and>
     (l_event l = ''read'' \<or> l_event l = ''clear'' \<or> l_event l = ''release'' \<or> l_event l = ''cleanup'')"

definition line_consumes :: "nat \<Rightarrow> gate_line \<Rightarrow> bool" where
  "line_consumes i l \<longleftrightarrow> l_id l = i \<and> (l_event l = ''release'' \<or> l_event l = ''cleanup'')"

definition line_issues :: "nat \<Rightarrow> gate_line \<Rightarrow> bool" where
  "line_issues i l \<longleftrightarrow> l_id l = i \<and> l_event l = ''acquire''"

definition line_step :: "own \<Rightarrow> gate_line \<Rightarrow> own option" where
  "line_step s l =
     (case line_own s l of
        None \<Rightarrow> None
      | Some t \<Rightarrow> if rc t = l_refs l \<and> issued t = l_acquired l then Some t else None)"

lemma replay_log_observe: "replay_log s ls = observe line_step s ls"
  by (induction ls arbitrary: s) (auto simp: line_step_def split: option.splits)

text \<open>A line either leaves the state as it is or is one step of the protocol.\<close>

lemma line_step_cases:
  assumes "line_step s l = Some t"
  obtains (quiet) "t = s" "l_event l \<noteq> ''read''" "l_event l \<noteq> ''release''" "l_event l \<noteq> ''cleanup''"
      "l_event l = ''clear'' \<longrightarrow> l_id l \<in> live_ids s"
  | (step) a where "own_next ARRAY_SIZE_cells s a = Some t"
      "l_event l = ''read'' \<Longrightarrow> a = Use (l_id l)" "l_event l = ''release'' \<Longrightarrow> a = Consume (l_id l)"
      "l_event l = ''cleanup'' \<Longrightarrow> a = Sweep (l_id l)" "l_event l \<noteq> ''clear''"
proof -
  have own: "line_own s l = Some t"
    using assms by (auto simp: line_step_def split: option.splits if_splits)
  show ?thesis
  proof (cases "l_event l = ''acquire'' \<or> l_event l = ''read'' \<or> l_event l = ''release'' \<or> l_event l = ''cleanup''")
    case True
    then show ?thesis
    proof (elim disjE)
      assume e: "l_event l = ''acquire''"
      then show ?thesis using own by (intro step [of Acquire]) (simp_all add: line_own_def split: if_splits)
    next
      assume e: "l_event l = ''read''"
      then show ?thesis using own by (intro step [of "Use (l_id l)"]) (simp_all add: line_own_def)
    next
      assume e: "l_event l = ''release''"
      then show ?thesis using own by (intro step [of "Consume (l_id l)"]) (simp_all add: line_own_def)
    next
      assume e: "l_event l = ''cleanup''"
      then show ?thesis using own by (intro step [of "Sweep (l_id l)"]) (simp_all add: line_own_def)
    qed
  next
    case False
    then show ?thesis using own
      by (intro quiet) (auto simp: line_own_def split: if_splits)
  qed
qed

lemma line_step_issues:
  assumes "line_step s l = Some t" "line_issues i l"
  shows "i \<in> live_ids t"
  using assms by (auto simp: line_step_def line_own_def line_issues_def split: option.splits if_splits)

lemma line_step_taken:
  assumes "line_step s l = Some t" "i \<in> live_ids s" "i \<notin> live_ids t"
  shows "line_consumes i l"
proof -
  have own: "line_own s l = Some t"
    using assms(1) by (auto simp: line_step_def split: option.splits if_splits)
  then have e: "l_event l \<in> {''acquire'', ''read'', ''release'', ''cleanup''}"
    using assms(2,3) by (auto simp: line_own_def split: if_splits)
  then show ?thesis using own assms(2,3)
    by (elim insertE emptyE) (auto simp: line_own_def line_consumes_def split: if_splits)
qed

interpretation kernel_log: acquisition_observer line_step line_uses line_consumes ARRAY_SIZE_cells line_issues
proof unfold_locales
  fix s l t
  assume st: "line_step s l = Some t"
  show "own_inv ARRAY_SIZE_cells t" if "own_inv ARRAY_SIZE_cells s"
    using st that own_next_inv by (cases rule: line_step_cases) auto
  show "consumed t i" if "consumed s i" for i
    using st that own_next_consumed by (cases rule: line_step_cases) auto
  show "consumed t i" if "own_inv ARRAY_SIZE_cells s" "line_consumes i l" for i
    using st that own_inv_live [OF that(1), of i]
    by (cases rule: line_step_cases) (auto simp: line_consumes_def consumed_def split: if_splits)
  show "\<not> consumed s i" if "line_uses i l" for i
    using st that
    by (cases rule: line_step_cases) (auto simp: line_uses_def consumed_def split: if_splits)
  show "i \<in> live_ids t" if "line_issues i l" for i using line_step_issues [OF st that] .
  show "line_consumes i l" if "i \<in> live_ids s" "i \<notin> live_ids t" for i using line_step_taken [OF st that] .
next
  show "line_uses i l" if "line_consumes i l" for i l
    using that by (auto simp: line_uses_def line_consumes_def)
qed

subsection \<open>A software instance for the examples\<close>

definition sample_kplatform :: "swcap kplatform" where
  "sample_kplatform =
     \<lparr>kp_cheri = sample_cheri, kp_cell = (\<lambda>i. 0x1000 + 16 * of_nat i), kp_object = 0x2000,
      kp_sizeof_object = 8, kp_gateway = 0x3000\<rparr>"

definition sample_kernel :: "swcap kernel" where
  "sample_kernel =
     \<lparr>k_object = \<lparr>ko_value = 42, ko_refs = 1\<rparr>, k_active = None, k_rddc = sw_root 0xff,
      k_rcsp = sw_root 0xff\<rparr>"

definition sample_enter :: enter_args where
  "sample_enter =
     \<lparr>ea_stack_base = 0x4000, ea_stack_size = 16, ea_ret_addr = 0x5100,
      ea_executive_return_size = 0x40, ea_outer_return_addr = 0x6000, ea_prog_cookie = 7,
      ea_caller_lr = 0x5000\<rparr>"

lemma sample_kernel_idle: "kernel_idle sample_kplatform sample_kernel"
  by (simp add: kernel_idle_def sample_kplatform_def sample_kernel_def sample_cheri_laws)

text \<open>Enter, acquire twice, read and release the first, leave the second to the sweep.\<close>

definition sample_code :: "swcap native" where
  "sample_code =
     Native_Enter sample_enter (\<lambda>e. Native_Return 1) (\<lambda>en.
     Native_Gate (sw_int 0) 1 0 (\<lambda>a.
     Native_Gate (sw_int 0) 1 1 (\<lambda>b.
     Native_Gate a 2 2 (\<lambda>v.
     Native_Gate a 3 3 (\<lambda>_. Native_Return (ucast (sw_address v)))))))"

lemma sample_run_ready:
  "\<exists>v log k'. cbpf_test_invoke sample_kplatform 7 True sample_code sample_kernel = (v, log, k') \<and>
     v = 42 \<and> map l_event log =
       [''acquire'', ''acquire'', ''read'', ''clear'', ''release'', ''clear'', ''cleanup'', ''exit'']"
proof -
  have "case cbpf_test_invoke sample_kplatform 7 True sample_code sample_kernel of (v, log, k') \<Rightarrow>
      v = 42 \<and> map l_event log =
       [''acquire'', ''acquire'', ''read'', ''clear'', ''release'', ''clear'', ''cleanup'', ''exit'']"
    by code_simp
  then show ?thesis by (auto split: prod.splits)
qed

subsection \<open>How a handle resolves\<close>

definition distinct_cells :: "'v kplatform \<Rightarrow> bool" where
  "distinct_cells K \<longleftrightarrow>
     (\<forall>i < ARRAY_SIZE_cells. \<forall>j < ARRAY_SIZE_cells. kp_cell K i = kp_cell K j \<longrightarrow> i = j)"

text \<open>A machine on which the gates can derive every capability they need.\<close>

definition kernel_representable :: "'v kplatform \<Rightarrow> bool" where
  "kernel_representable K \<longleftrightarrow>
     distinct_cells K \<and> cheri_tag_get (kp_cheri K) (object_cap K) \<and>
     (\<forall>i < ARRAY_SIZE_cells. cheri_tag_get (kp_cheri K) (cell_view K i))"

lemma sample_representable: "kernel_representable sample_kplatform"
proof -
  have "cheri_tag_get (kp_cheri sample_kplatform) (object_cap sample_kplatform)" by code_simp
  moreover have "cheri_tag_get (kp_cheri sample_kplatform) (cell_view sample_kplatform 0)" by code_simp
  moreover have "cheri_tag_get (kp_cheri sample_kplatform) (cell_view sample_kplatform 1)" by code_simp
  ultimately show ?thesis
    by (auto simp: kernel_representable_def distinct_cells_def ARRAY_SIZE_cells_def less_2_cases_iff
        sample_kplatform_def)
qed

lemma find_view_issued:
  assumes inv: "kernel_inv K k" and dist: "distinct_cells K" and i: "i < iv_acquired (active k)"
  shows "find_view (kp_cheri K) (cell_view K i) (iv_views (active k)) 0 (iv_acquired (active k)) = i"
proof -
  let ?C = "kp_cheri K" and ?n = "iv_acquired (active k)" and ?vs = "iv_views (active k)"
  let ?j = "find_view ?C (cell_view K i) ?vs 0 ?n"
  have laws: "cheri_laws ?C" using inv by (simp add: kernel_inv_def)
  have view: "?vs ! j = cell_view K j \<and> cheri_tag_get ?C (cell_view K j)" if "j < ?n" for j
    using inv that by (simp add: kernel_inv_def)
  have spec: "?j \<le> ?n" "?j < ?n \<longrightarrow> cheri_is_equal_exact ?C (cell_view K i) (?vs ! ?j)"
    "\<forall>j. j < ?j \<longrightarrow> \<not> cheri_is_equal_exact ?C (cell_view K i) (?vs ! j)"
    using find_view_spec [of 0 ?n ?C "cell_view K i" ?vs] by auto
  have "\<not> i < ?j" using spec(3) view [OF i] cheri_lawsD(1) [OF laws] by auto
  then have lt: "?j < ?n" using i by simp
  then have "cell_view K i = cell_view K ?j"
    using spec(2) view [OF lt] cheri_lawsD(1) [OF laws] by auto
  then have "kp_cell K i = kp_cell K ?j"
    using exact_tag [OF laws, of "kp_cell K i"] exact_tag [OF laws, of "kp_cell K ?j"]
      view [OF i] view [OF lt] unfolding cell_view_def by metis
  moreover have "i < ARRAY_SIZE_cells" "?j < ARRAY_SIZE_cells"
    using less_le_trans [OF _ kernel_inv_acquired [OF inv]] i lt by blast+
  ultimately show ?thesis
    using dist [unfolded distinct_cells_def, rule_format, of i ?j] by simp
qed

definition gate_ready :: "'v kplatform \<Rightarrow> 'v kernel \<Rightarrow> bool" where
  "gate_ready K k \<longleftrightarrow> kernel_inv K k \<and> iv_entered (active k) \<and> \<not> iv_failed (active k)"

lemma gate_ready_active: "gate_ready K k \<Longrightarrow> k_active k \<noteq> None"
  by (simp add: gate_ready_def kernel_inv_def)

lemma gate_issued_view:
  assumes rdy: "gate_ready K k" and dist: "distinct_cells K" and i: "i < iv_acquired (active k)"
    and op: "op = 2 \<or> op = 3"
  shows "cbpf_gate_impl K (cell_view K i) op pc k =
    (if \<not> cheri_tag_get (kp_cheri K) (iv_cells (active k) ! i) then cbpf_fail (kp_cheri K) pc k
     else if op = 2
     then (cheri_from_u64 (kp_cheri K) (word_of_int (ko_value (k_object k))),
           cbpf_trace (kp_cheri K) ''read'' pc (i + 1)
             (set_active ((active k)\<lparr>iv_reads := iv_reads (active k) + 1\<rparr>) k))
     else (cheri_from_u64 (kp_cheri K) 0, kernel_consume (kp_cheri K) i pc False k))"
proof -
  have inv: "kernel_inv K k" and fl: "iv_entered (active k)" "\<not> iv_failed (active k)"
    using rdy by (simp_all add: gate_ready_def)
  note act = gate_ready_active [OF rdy] and fv = find_view_issued [OF inv dist i]
  have op': "op \<noteq> 1" "\<not> (op \<noteq> 2 \<and> op \<noteq> 3)" using op by auto
  have ni: "i \<noteq> iv_acquired (active k)" using i by simp
  show ?thesis
    unfolding cbpf_gate_impl_def Let_def fv
    by (simp only: act fl op' ni HOL.simp_thms if_False if_True)
qed

lemma gate_read_live:
  assumes "gate_ready K k" and "distinct_cells K" and "i < iv_acquired (active k)"
    and "cheri_tag_get (kp_cheri K) (iv_cells (active k) ! i)"
  shows "cbpf_gate_impl K (cell_view K i) 2 pc k =
    (cheri_from_u64 (kp_cheri K) (word_of_int (ko_value (k_object k))),
     cbpf_trace (kp_cheri K) ''read'' pc (i + 1)
       (set_active ((active k)\<lparr>iv_reads := iv_reads (active k) + 1\<rparr>) k))"
  using gate_issued_view [OF assms(1-3), of 2 pc] assms(4) by simp

lemma gate_release_live:
  assumes "gate_ready K k" and "distinct_cells K" and "i < iv_acquired (active k)"
    and "cheri_tag_get (kp_cheri K) (iv_cells (active k) ! i)"
  shows "cbpf_gate_impl K (cell_view K i) 3 pc k =
    (cheri_from_u64 (kp_cheri K) 0, kernel_consume (kp_cheri K) i pc False k)"
  using gate_issued_view [OF assms(1-3), of 3 pc] assms(4) by simp

lemma gate_stale:
  assumes "gate_ready K k" and "distinct_cells K" and "i < iv_acquired (active k)"
    and "\<not> cheri_tag_get (kp_cheri K) (iv_cells (active k) ! i)" and "op = 2 \<or> op = 3"
  shows "cbpf_gate_impl K (cell_view K i) op pc k = cbpf_fail (kp_cheri K) pc k"
  using gate_issued_view [OF assms(1-3,5), of pc] assms(4) by simp

lemma gate_acquire_fresh:
  assumes rdy: "gate_ready K k" and room: "iv_acquired (active k) < ARRAY_SIZE_cells"
    and tags: "cheri_tag_get (kp_cheri K) (cell_view K (iv_acquired (active k)))"
      "cheri_tag_get (kp_cheri K) (object_cap K)"
  shows "cbpf_gate_impl K (cheri_from_u64 (kp_cheri K) 0) 1 pc k =
    (cell_view K (iv_acquired (active k)),
     cbpf_trace (kp_cheri K) ''acquire'' pc (iv_acquired (active k) + 1) (acquired_state K k))"
proof -
  have inv: "kernel_inv K k" and fl: "iv_entered (active k)" "\<not> iv_failed (active k)"
    using rdy by (simp_all add: gate_ready_def)
  have laws: "cheri_laws (kp_cheri K)" using inv by (simp add: kernel_inv_def)
  have "cbpf_gate_impl K (cheri_from_u64 (kp_cheri K) 0) 1 pc k =
      gate_acquire_op K (cheri_from_u64 (kp_cheri K) 0) pc k"
    unfolding cbpf_gate_impl_def Let_def using gate_ready_active [OF rdy] fl by auto
  then show ?thesis
    using room tags cheri_lawsD(4,5) [OF laws]
    by (simp add: gate_acquire_op_def Let_def cell_view_def object_cap_def acquired_state_def)
qed

lemma acquired_ready:
  assumes "gate_ready K k" and "iv_acquired (active k) < ARRAY_SIZE_cells"
    and "cheri_tag_get (kp_cheri K) (cell_view K (iv_acquired (active k)))"
    and "cheri_tag_get (kp_cheri K) (object_cap K)"
  shows "gate_ready K (cbpf_trace (kp_cheri K) ''acquire'' pc (iv_acquired (active k) + 1)
    (acquired_state K k))"
  using acquired_state_inv [OF _ assms(2-4)] assms(1)
  by (simp add: gate_ready_def acquired_state_def Let_def)

lemma acquired_sel:
  assumes "kernel_inv K k" and "iv_acquired (active k) < ARRAY_SIZE_cells"
    and "k' = cbpf_trace (kp_cheri K) ''acquire'' pc (iv_acquired (active k) + 1)
      (acquired_state K k)"
  shows "iv_acquired (active k') = iv_acquired (active k) + 1"
    and "iv_released (active k') = iv_released (active k)" and "iv_reads (active k') = iv_reads (active k)"
    and "iv_cleanup (active k') = iv_cleanup (active k)"
    and "iv_failed (active k') = iv_failed (active k)"
    and "iv_cells (active k') = (iv_cells (active k))[iv_acquired (active k) := object_cap K]"
    and "iv_views (active k') = (iv_views (active k))[iv_acquired (active k) := cell_view K (iv_acquired (active k))]"
    and "k_object k' = (k_object k)\<lparr>ko_refs := ko_refs (k_object k) + 1\<rparr>"
    and "k_rddc k' = k_rddc k" and "k_rcsp k' = k_rcsp k"
  using assms(3) by (simp_all add: acquired_state_def Let_def)

lemma released_ready:
  assumes "gate_ready K k" and "i < iv_acquired (active k)"
    and "cheri_tag_get (kp_cheri K) (iv_cells (active k) ! i)"
  shows "gate_ready K (kernel_consume (kp_cheri K) i pc False k)"
  using assms kernel_consume_own(2) [of K k i] by (simp add: gate_ready_def kernel_live kernel_consume_sel)

lemma fail_sel:
  assumes "k_active k \<noteq> None" and "k' = snd (cbpf_fail C pc k)"
  shows "iv_failed (active k')" and "k_object k' = k_object k"
    and "iv_cells (active k') = iv_cells (active k)" and "iv_views (active k') = iv_views (active k)"
    and "iv_acquired (active k') = iv_acquired (active k)"
    and "iv_released (active k') = iv_released (active k)" and "iv_reads (active k') = iv_reads (active k)"
    and "iv_cleanup (active k') = iv_cleanup (active k)"
    and "k_rddc k' = k_rddc k" and "k_rcsp k' = k_rcsp k" and "k_active k' \<noteq> None"
  using assms by (simp_all add: fail_eq)

end
