(* ===== verification/JitRun.thy ===== *)
theory JitRun
  imports JitProgram KernelProps
begin

text \<open>
  Admitted programs on the kernel's gates. The native code of a program is the tree of the
  calls its instructions make (\<open>bpf_native\<close>), which \<open>cbpf_test_invoke\<close> runs; the gates of
  \<open>cbpf_runtime.c\<close> are a runtime in the sense of \<open>gate_runtime\<close>.
\<close>

subsection \<open>Values in capability registers\<close>

text \<open>A number is an untagged capability; a handle is a tagged one.\<close>

fun as_cap :: "'v cheri \<Rightarrow> 'v bval \<Rightarrow> 'v" where
  "as_cap C Uninit = cheri_from_u64 C 0"
| "as_cap C (Num n) = cheri_from_u64 C n"
| "as_cap C (Cap h) = h"

definition as_bval :: "'v cheri \<Rightarrow> 'v \<Rightarrow> 'v bval" where
  "as_bval C v = (if cheri_tag_get C v then Cap v else Num (cheri_address_get C v))"

text \<open>
  The code of a program after its entry: \<open>body\<close> sets the gate's operation and the
  instruction's index and passes BPF register 1; \<open>wrong\<close> stands for a forbidden use.
\<close>

primrec bpf_native ::
    "'v native \<Rightarrow> nat \<Rightarrow> 'v cheri \<Rightarrow> 'z jit_env_scheme \<Rightarrow> bpf_insn list \<Rightarrow> 'v bstate \<Rightarrow> 'v native" where
  "bpf_native wrong 0 C E insnsi s = wrong"
| "bpf_native wrong (Suc fuel) C E insnsi s =
     (case bpf_effect E insnsi s of
        Stuck \<Rightarrow> wrong
      | Step s' \<Rightarrow> bpf_native wrong fuel C E insnsi s'
      | Call op arg cont \<Rightarrow>
          Native_Gate (as_cap C arg) (ucast op) (of_nat (b_pc s))
            (\<lambda>r. bpf_native wrong fuel C E insnsi (cont (as_bval C r)))
      | Exit n \<Rightarrow> Native_Return (ucast n))"

text \<open>The prologue enters restricted mode first and returns 0 when that is refused.\<close>

definition bpf_program ::
    "'v native \<Rightarrow> enter_args \<Rightarrow> 'v cheri \<Rightarrow> 'z jit_env_scheme \<Rightarrow> bpf_insn list \<Rightarrow> 'v native" where
  "bpf_program wrong a C E insnsi =
     Native_Enter a (\<lambda>e. Native_Return 0)
       (\<lambda>en. bpf_native wrong (length insnsi) C E insnsi bpf_start)"

subsection \<open>The kernel's gates as a runtime\<close>

definition kernel_gate :: "'v kplatform \<Rightarrow> ('v, 'v kernel) gate" where
  "kernel_gate K op arg pc k =
     (case cbpf_gateway K (as_cap (kp_cheri K) arg) (ucast op) (of_nat pc) k of
        (r, k') \<Rightarrow> (map_option (as_bval (kp_cheri K)) r, k'))"

lemma kernel_gate_result:
  assumes inv: "kernel_inv K k" and g: "kernel_gate K op arg pc k = (Some v, k')"
    and op: "op \<in> {CBPF_OP_ACQUIRE, CBPF_OP_READ, CBPF_OP_RELEASE}"
  shows "result_ok op v"
proof -
  let ?C = "kp_cheri K"
  have laws: "cheri_laws ?C" using inv by (simp add: kernel_inv_def)
  note L = cheri_lawsD [OF laws]
  obtain r where r: "cbpf_gate_impl K (as_cap ?C arg) (ucast op) (of_nat pc) k = (r, k')"
    "cheri_address_get ?C r \<noteq> - 1" "v = as_bval ?C r"
    using g by (auto simp: kernel_gate_def cbpf_gateway_def split: prod.splits if_splits)
  have ops: "CBPF_OP_ACQUIRE = 1" "CBPF_OP_READ = 2" "CBPF_OP_RELEASE = 3"
    by (simp_all add: CBPF_OP_ACQUIRE_def CBPF_OP_READ_def CBPF_OP_RELEASE_def)
  show ?thesis
  proof (cases rule: gate_impl_cases
      [OF inv, of "as_cap ?C arg" "ucast op" "of_nat pc", case_names reject null acquire read release])
    case reject
    then have "r = CBPF_FAILURE ?C" using r(1) by (simp add: cbpf_fail_def)
    then show ?thesis using r(2) L(5) by (simp add: CBPF_FAILURE_def U64_MAX_def)
  next
    case null
    then show ?thesis using r(1,3) op L(4,5) by (auto simp: result_ok_def as_bval_def ops)
  next
    case acquire
    then show ?thesis using r(1,3) op by (auto simp: result_ok_def as_bval_def ops)
  next
    case (read i)
    then show ?thesis using r(1,3) op L(4,5) by (auto simp: result_ok_def as_bval_def ops)
  next
    case (release i)
    then show ?thesis using r(1,3) op L(4,5) by (auto simp: result_ok_def as_bval_def ops)
  qed
qed

interpretation kernel_gates: gate_runtime "kernel_gate K" "kernel_inv K"
  for K :: "'v kplatform"
proof
  show "result_ok op v" if "kernel_inv K k" "kernel_gate K op arg pc k = (Some v, k')"
    "op \<in> {CBPF_OP_ACQUIRE, CBPF_OP_READ, CBPF_OP_RELEASE}" for k op arg pc v k'
    using kernel_gate_result that by blast
  show "kernel_inv K k'" if "kernel_inv K k" "kernel_gate K op arg pc k = (r, k')" for k op arg pc r k'
    using gateway_inv [OF that(1)] that(2)
    by (auto simp: kernel_gate_def split: prod.splits)
qed

lemma bpf_native_run:
  "bpf_prog_run K (bpf_native wrong fuel (kp_cheri K) E insnsi s) k =
     (case bpf_exec fuel E insnsi (kernel_gate K) s k of
        (Finished n, k') \<Rightarrow> (ucast n, k')
      | (Aborted, k') \<Rightarrow> (0, k')
      | (Wrong, k') \<Rightarrow> bpf_prog_run K wrong k')"
proof (induction fuel arbitrary: s k)
  case (Suc fuel)
  then show ?case
    by (auto simp: kernel_gate_def split: beffect.splits prod.splits option.splits)
qed simp

end
