(* ===== verification/BpfLift.thy ===== *)
theory BpfLift
  imports JitProgram
begin

text \<open>
  Programs do not look into handles: the meaning of the instructions commutes with a
  renaming of handles (\<open>lift_state\<close>), so an execution over one runtime of gates is one over
  another whose gates agree with it up to such a renaming (locale \<open>gate_refinement\<close>). The
  abstract side numbers the acquisitions; the concrete side has capabilities or addresses.
\<close>

subsection \<open>Handles\<close>

definition lift_state :: "(nat \<Rightarrow> 'v) \<Rightarrow> nat bstate \<Rightarrow> 'v bstate" where
  "lift_state f s =
     \<lparr>b_reg = map (map_bval f) (b_reg s), b_stack = (\<lambda>off. map_bval f (b_stack s off)),
      b_pc = b_pc s\<rparr>"

lemma lift_state_sel [simp]:
  "b_reg (lift_state f s) = map (map_bval f) (b_reg s)"
  "b_stack (lift_state f s) off = map_bval f (b_stack s off)" "b_pc (lift_state f s) = b_pc s"
  by (simp_all add: lift_state_def)

lemma map_bval_shape [simp]:
  "map_bval f v = Uninit \<longleftrightarrow> v = Uninit" "map_bval f v = Num n \<longleftrightarrow> v = Num n"
  by (cases v; simp)+

fun known :: "nat \<Rightarrow> nat bval \<Rightarrow> bool" where
  "known n (Cap i) = (i < n)"
| "known n v = True"

definition state_known :: "nat \<Rightarrow> nat bstate \<Rightarrow> bool" where
  "state_known n s \<longleftrightarrow>
     length (b_reg s) = 10 \<and> (\<forall>v \<in> set (b_reg s). known n v) \<and> (\<forall>off. known n (b_stack s off))"

lemma known_mono: "known m v \<Longrightarrow> m \<le> n \<Longrightarrow> known n v"
  by (cases v) simp_all

lemma state_known_mono: "state_known m s \<Longrightarrow> m \<le> n \<Longrightarrow> state_known n s"
  by (auto simp: state_known_def intro: known_mono)

lemma state_known_start: "state_known n bpf_start"
  by (simp add: state_known_def bpf_start_def)

lemma lift_start: "lift_state f bpf_start = bpf_start"
  by (simp add: lift_state_def bpf_start_def)

lemma put_lift:
  "put (lift_state f s) r (map_bval f v) = lift_state f (put s r v)"
  by (simp add: put_def lift_state_def map_update)

lemma put_known: "state_known n s \<Longrightarrow> known n v \<Longrightarrow> state_known n (put s r v)"
  using set_update_subset_insert [of "b_reg s" r v] by (auto simp: state_known_def put_def)

lemma after_call_lift:
  "after_call (lift_state f s) (map_bval f v) = lift_state f (after_call s v)"
proof -
  have "[1..<6] = [1, 2, 3, 4, 5::nat]" by (simp add: upt_rec)
  then show ?thesis by (simp add: after_call_def lift_state_def map_update)
qed

lemma after_call_known: "state_known n s \<Longrightarrow> known n v \<Longrightarrow> state_known n (after_call s v)"
proof -
  assume s: "state_known n s" and v: "known n v"
  have up: "state_known n (s\<lparr>b_reg := (b_reg s)[r := w], b_pc := pc\<rparr>)"
    if "state_known n s" "known n w" for s r w pc
    using put_known [OF that, of r] by (simp add: put_def state_known_def)
  have "[1..<6] = [1, 2, 3, 4, 5::nat]" by (simp add: upt_rec)
  then have eq: "after_call s v = (put (put (put (put (put (put s 0 v) 1 Uninit) 2 Uninit) 3 Uninit) 4 Uninit) 5 Uninit)
      \<lparr>b_pc := b_pc s + 1\<rparr>"
    by (simp add: after_call_def put_def)
  have "state_known n (put (put (put (put (put (put s 0 v) 1 Uninit) 2 Uninit) 3 Uninit) 4 Uninit) 5 Uninit)"
    by (intro put_known s v) simp_all
  then show ?thesis unfolding eq by (simp add: state_known_def)
qed

subsection \<open>One instruction on lifted states\<close>

definition lifts :: "(nat \<Rightarrow> 'v) \<Rightarrow> nat \<Rightarrow> nat beffect \<Rightarrow> 'v beffect \<Rightarrow> bool" where
  "lifts f n e e' \<longleftrightarrow>
     (case e of
        Stuck \<Rightarrow> e' = Stuck
      | Step s \<Rightarrow> e' = Step (lift_state f s) \<and> state_known n s
      | Call op arg k \<Rightarrow>
          (\<exists>k'. e' = Call op (map_bval f arg) k' \<and> known n arg \<and>
            (\<forall>v m. k' (map_bval f v) = lift_state f (k v) \<and>
              (n \<le> m \<longrightarrow> known m v \<longrightarrow> state_known m (k v))))
      | Exit u \<Rightarrow> e' = Exit u)"

lemma state_known_reg: "state_known n s \<Longrightarrow> r < 10 \<Longrightarrow> known n (b_reg s ! r)"
  by (simp add: state_known_def)

lemma lift_reg: "state_known n s \<Longrightarrow> r < 10 \<Longrightarrow> b_reg (lift_state f s) ! r = map_bval f (b_reg s ! r)"
  by (simp add: state_known_def)

lemma bpf_call_lifts:
  assumes s: "state_known n s"
  shows "lifts f n (bpf_call E i s) (bpf_call E i (lift_state f s))"
proof -
  have r1: "b_reg (lift_state f s) ! 1 = map_bval f (b_reg s ! 1)" and k1: "known n (b_reg s ! 1)"
    using lift_reg [OF s, of 1] state_known_reg [OF s, of 1] by simp_all
  have k: "after_call (lift_state f s) (map_bval f v) = lift_state f (after_call s v) \<and>
      (n \<le> m \<longrightarrow> known m v \<longrightarrow> state_known m (after_call s v))" for v m
    using after_call_lift after_call_known state_known_mono [OF s] by blast
  show ?thesis
    unfolding bpf_call_def Let_def r1
    using k k1 by (cases "b_reg s ! 1") (simp_all add: lifts_def)
qed

text \<open>The meaning of each instruction, in range.\<close>

lemma bpf_effect_cases:
  assumes "insnsi ! b_pc s = i" and "b_pc s < length insnsi"
  shows "i_code i = BPF_ALU64_MOV_X \<Longrightarrow> bpf_effect E insnsi s =
      (if unat (i_dst i) > 9 \<or> unat (i_src i) > 9 \<or> b_reg s ! unat (i_src i) = Uninit
       then Stuck else Step (put s (unat (i_dst i)) (b_reg s ! unat (i_src i))))"
    and "i_code i = BPF_ALU64_MOV_K \<Longrightarrow> bpf_effect E insnsi s =
      (if unat (i_dst i) > 9 then Stuck
       else Step (put s (unat (i_dst i)) (Num (scast (i_imm i)))))"
    and "i_code i = BPF_STX_MEM_DW \<Longrightarrow> bpf_effect E insnsi s =
      (if i_dst i \<noteq> BPF_REG_10 \<or> \<not> stack_slot (sint (i_off i)) \<or> unat (i_src i) > 9 \<or>
          b_reg s ! unat (i_src i) = Uninit
       then Stuck else Step (s\<lparr>b_stack := (b_stack s)(sint (i_off i) := b_reg s ! unat (i_src i)), b_pc := b_pc s + 1\<rparr>))"
    and "i_code i = BPF_LDX_MEM_DW \<Longrightarrow> bpf_effect E insnsi s =
      (if i_src i \<noteq> BPF_REG_10 \<or> \<not> stack_slot (sint (i_off i)) \<or> unat (i_dst i) > 9 \<or>
          b_stack s (sint (i_off i)) = Uninit
       then Stuck else Step (put s (unat (i_dst i)) (b_stack s (sint (i_off i)))))"
    and "i_code i = BPF_JMP_JEQ_K \<Longrightarrow> bpf_effect E insnsi s =
      (if unat (i_dst i) > 9 then Stuck
       else case b_reg s ! unat (i_dst i) of
         Uninit \<Rightarrow> Stuck
       | Num n \<Rightarrow> Step (s\<lparr>b_pc := (if n = 0 then b_pc s + 1 + nat (sint (i_off i)) else b_pc s + 1)\<rparr>)
       | Cap h \<Rightarrow> Step (s\<lparr>b_pc := b_pc s + 1\<rparr>))"
    and "i_code i = BPF_JMP_CALL \<Longrightarrow> bpf_effect E insnsi s = bpf_call E i s"
    and "i_code i = BPF_JMP_EXIT \<Longrightarrow> bpf_effect E insnsi s =
      (case b_reg s ! 0 of Num n \<Rightarrow> Exit n | _ \<Rightarrow> Stuck)"
    and "i_code i \<notin> {BPF_ALU64_MOV_X, BPF_ALU64_MOV_K, BPF_STX_MEM_DW, BPF_LDX_MEM_DW,
        BPF_JMP_JEQ_K, BPF_JMP_CALL, BPF_JMP_EXIT} \<Longrightarrow> bpf_effect E insnsi s = Stuck"
  using assms by (simp_all add: bpf_effect_def Let_def split del: if_split)

lemma bpf_effect_lifts:
  assumes s: "state_known n s"
  shows "lifts f n (bpf_effect E insnsi s) (bpf_effect E insnsi (lift_state f s))"
proof -
  let ?i = "insnsi ! b_pc s"
  let ?d = "unat (i_dst ?i)" and ?s = "unat (i_src ?i)"
  have r: "r \<le> 9 \<Longrightarrow> b_reg (lift_state f s) ! r = map_bval f (b_reg s ! r)"
    and kn: "r \<le> 9 \<Longrightarrow> known n (b_reg s ! r)" for r
    using lift_reg [OF s, of r] state_known_reg [OF s, of r] by simp_all
  have ks: "known n (b_stack s off)" for off using s by (simp add: state_known_def)
  have pcs: "state_known n (s\<lparr>b_pc := p\<rparr>)" "lift_state f s\<lparr>b_pc := p\<rparr> = lift_state f (s\<lparr>b_pc := p\<rparr>)" for p
    using s by (simp_all add: state_known_def lift_state_def)
  have sp: "state_known n (s\<lparr>b_stack := (b_stack s)(off := v), b_pc := p\<rparr>)" if "known n v" for v p off
    using s that by (simp add: state_known_def)
  have spl: "lift_state f s\<lparr>b_stack := (b_stack (lift_state f s))(off := map_bval f v), b_pc := p\<rparr> =
      lift_state f (s\<lparr>b_stack := (b_stack s)(off := v), b_pc := p\<rparr>)" for v p off
    by (simp add: lift_state_def fun_eq_iff)
  have r0: "b_reg (lift_state f s) ! 0 = map_bval f (b_reg s ! 0)" by (rule r) simp
  note eff = bpf_effect_cases [of insnsi s ?i E] bpf_effect_cases [of insnsi "lift_state f s" ?i E]
  consider (out) "length insnsi \<le> b_pc s" | (movx) "b_pc s < length insnsi" "i_code ?i = BPF_ALU64_MOV_X"
    | (movk) "b_pc s < length insnsi" "i_code ?i = BPF_ALU64_MOV_K"
    | (stx) "b_pc s < length insnsi" "i_code ?i = BPF_STX_MEM_DW"
    | (ldx) "b_pc s < length insnsi" "i_code ?i = BPF_LDX_MEM_DW"
    | (jeq) "b_pc s < length insnsi" "i_code ?i = BPF_JMP_JEQ_K"
    | (call) "b_pc s < length insnsi" "i_code ?i = BPF_JMP_CALL"
    | (exit) "b_pc s < length insnsi" "i_code ?i = BPF_JMP_EXIT"
    | (other) "i_code ?i \<notin> {BPF_ALU64_MOV_X, BPF_ALU64_MOV_K, BPF_STX_MEM_DW, BPF_LDX_MEM_DW,
        BPF_JMP_JEQ_K, BPF_JMP_CALL, BPF_JMP_EXIT}"
    using not_le by auto
  then show ?thesis
  proof cases
    case movx
    show ?thesis
    proof (cases "?s \<le> 9")
      case True
      then show ?thesis
        using movx r [OF True] kn [OF True] put_known [OF s] put_lift [of f s ?d "b_reg s ! ?s"]
        by (simp add: eff lifts_def del: lift_state_sel(1))
    qed (use movx in \<open>simp add: eff lifts_def\<close>)
  next
    case movk
    then show ?thesis
      using put_known [OF s] put_lift [of f s ?d "Num (scast (i_imm ?i))"]
      by (simp add: eff lifts_def del: lift_state_sel(1))
  next
    case stx
    show ?thesis
    proof (cases "?s \<le> 9")
      case True
      then show ?thesis
        using stx r [OF True] kn [OF True] sp spl
        by (simp add: eff lifts_def del: lift_state_sel(1))
    qed (use stx in \<open>simp add: eff lifts_def\<close>)
  next
    case ldx
    then show ?thesis
      using ks put_known [OF s ks] put_lift [of f s ?d "b_stack s (sint (i_off ?i))"]
      by (simp add: eff lifts_def del: lift_state_sel(1))
  next
    case jeq
    show ?thesis
    proof (cases "?d \<le> 9")
      case True
      then show ?thesis
        using jeq r [OF True] pcs
        by (cases "b_reg s ! ?d") (simp_all add: eff lifts_def del: lift_state_sel(1))
    qed (use jeq in \<open>simp add: eff lifts_def\<close>)
  next
    case call
    then show ?thesis using bpf_call_lifts [OF s] by (simp add: eff)
  next
    case exit
    then show ?thesis
      using r0 by (cases "b_reg s ! 0") (simp_all add: eff lifts_def del: lift_state_sel(1))
  next
    case out
    then show ?thesis by (simp add: bpf_effect_def Let_def lifts_def)
  next
    case other
    then have "bpf_effect E insnsi s = Stuck" "bpf_effect E insnsi (lift_state f s) = Stuck"
      by (simp_all add: bpf_effect_def Let_def)
    then show ?thesis by (simp add: lifts_def)
  qed
qed

subsection \<open>Call identifiers\<close>

text \<open>Programs that differ only in the BTF ids of their calls.\<close>

definition same_insn :: "'z jit_env_scheme \<Rightarrow> 'y jit_env_scheme \<Rightarrow> bpf_insn \<Rightarrow> bpf_insn \<Rightarrow> bool" where
  "same_insn E E' i j \<longleftrightarrow>
     call_operation E i = call_operation E' j \<and> i_code i = i_code j \<and> i_dst i = i_dst j \<and>
     i_src i = i_src j \<and> i_off i = i_off j \<and> (i_code i \<noteq> BPF_JMP_CALL \<longrightarrow> i_imm i = i_imm j)"

lemma same_effect:
  assumes "list_all2 (same_insn E E') is js"
  shows "bpf_effect E is s = bpf_effect E' js s"
proof (cases "b_pc s < length is")
  case False
  then show ?thesis using assms by (simp add: bpf_effect_def list_all2_lengthD)
next
  case True
  then have i: "same_insn E E' (is ! b_pc s) (js ! b_pc s)" and len: "length is = length js"
    using assms by (auto simp: list_all2_conv_all_nth)
  have c: "bpf_call E (is ! b_pc s) s = bpf_call E' (js ! b_pc s) s"
    using i by (simp add: bpf_call_def same_insn_def)
  have e: "i_code (is ! b_pc s) = i_code (js ! b_pc s)" "i_dst (is ! b_pc s) = i_dst (js ! b_pc s)"
    "i_src (is ! b_pc s) = i_src (js ! b_pc s)" "i_off (is ! b_pc s) = i_off (js ! b_pc s)"
    using i by (simp_all add: same_insn_def)
  show ?thesis
  proof (cases "i_code (js ! b_pc s) = BPF_JMP_CALL")
    case call: True
    then show ?thesis
      using bpf_effect_cases(6) [OF refl True, of E] bpf_effect_cases(6) [OF refl, of s js E'] True len c e(1)
      by simp
  next
    case False
    then have "i_imm (is ! b_pc s) = i_imm (js ! b_pc s)" using i by (simp add: same_insn_def)
    then show ?thesis by (simp only: bpf_effect_def Let_def e c len)
  qed
qed

lemma same_exec:
  assumes "list_all2 (same_insn E E') is js"
  shows "bpf_exec fuel E is gate s k = bpf_exec fuel E' js gate s k"
proof (induction fuel arbitrary: s k)
  case (Suc fuel)
  have IH: "bpf_exec fuel E is gate = bpf_exec fuel E' js gate" using Suc.IH by (intro ext)
  show ?case by (simp only: bpf_exec.simps same_effect [OF assms] IH)
qed simp

subsection \<open>Executions\<close>

definition gate_call :: "u8 \<Rightarrow> 'h bval \<Rightarrow> bool" where
  "gate_call op arg \<longleftrightarrow>
     op = CBPF_OP_ACQUIRE \<and> (\<exists>n. arg = Num n) \<or>
     op \<in> {CBPF_OP_READ, CBPF_OP_RELEASE} \<and> (\<exists>h. arg = Cap h)"

lemma lift_state_cong:
  assumes "state_known n s" and "\<And>i. i < n \<Longrightarrow> f i = g i"
  shows "lift_state f s = lift_state g s"
proof -
  have "map_bval f v = map_bval g v" if "known n v" for v
    using that assms(2) by (cases v) simp_all
  then show ?thesis using assms(1) by (simp add: lift_state_def state_known_def fun_eq_iff)
qed

text \<open>
  \<open>f\<close> gives the concrete handle of each acquisition issued so far. A gate keeps the
  handles that are out. Where the abstract gate ends the program, a \<open>strict\<close> concrete gate
  does so too and leaves a state in \<open>dead\<close>; nothing is claimed of another.
\<close>

locale gate_refinement =
  fixes agate :: "(nat, 'a) gate"
    and cgate :: "('h, 'c) gate"
    and issued_handles :: "'a \<Rightarrow> nat"
    and rel :: "(nat \<Rightarrow> 'h) \<Rightarrow> 'a \<Rightarrow> 'c \<Rightarrow> bool"
    and strict :: bool
    and dead :: "'c \<Rightarrow> bool"
  assumes abort_refines: "strict \<Longrightarrow> rel f a c \<Longrightarrow> gate_call op arg \<Longrightarrow> known (issued_handles a) arg \<Longrightarrow>
      agate op arg pc a = (None, a') \<Longrightarrow>
      \<exists>c'. cgate op (map_bval f arg) pc c = (None, c') \<and> dead c'"
    and result_refines: "rel f a c \<Longrightarrow> gate_call op arg \<Longrightarrow> known (issued_handles a) arg \<Longrightarrow>
      agate op arg pc a = (Some v, a') \<Longrightarrow>
      \<exists>f' c'. cgate op (map_bval f arg) pc c = (Some (map_bval f' v), c') \<and> rel f' a' c' \<and>
        issued_handles a \<le> issued_handles a' \<and> known (issued_handles a') v \<and>
        (\<forall>i < issued_handles a. f' i = f i)"
begin

lemma exec_refines:
  assumes "state_known (issued_handles a) s" and "rel f a c"
    and "bpf_exec fuel E insnsi agate s a = (out, a')" and ok: "out = Aborted \<Longrightarrow> strict"
  shows "\<exists>f' c'. bpf_exec fuel E insnsi cgate (lift_state f s) c = (out, c') \<and>
    (if out = Aborted then dead c' else rel f' a' c')"
  using assms(1-3)
proof (induction fuel arbitrary: s a f c)
  case (Suc fuel)
  note li = bpf_effect_lifts [OF Suc.prems(1), of f E insnsi]
  show ?case
  proof (cases "bpf_effect E insnsi s")
    case Stuck
    then show ?thesis using Suc.prems li by (auto simp: lifts_def)
  next
    case (Step s')
    then show ?thesis using Suc.prems li Suc.IH [of a s' f c] by (simp add: lifts_def)
  next
    case (Exit n)
    then show ?thesis using Suc.prems li by (auto simp: lifts_def)
  next
    case (Call op arg cont)
    obtain cont' where k: "bpf_effect E insnsi (lift_state f s) = Call op (map_bval f arg) cont'"
      "known (issued_handles a) arg"
      using li Call by (auto simp: lifts_def)
    have shape: "gate_call op arg"
      using bpf_call_facts [OF bpf_effect_call [OF Call]] by (simp add: gate_call_def)
    obtain r a1 where g: "agate op arg (b_pc s) a = (r, a1)" by fastforce
    show ?thesis
    proof (cases r)
      case None
      then show ?thesis
        using abort_refines [OF ok Suc.prems(2) shape k(2), of "b_pc s" a1] Suc.prems(3) Call g k(1)
        by auto
    next
      case (Some v)
      obtain f1 c1 where c: "cgate op (map_bval f arg) (b_pc s) c = (Some (map_bval f1 v), c1)"
        "rel f1 a1 c1" "issued_handles a \<le> issued_handles a1" "known (issued_handles a1) v"
        "\<forall>i < issued_handles a. f1 i = f i"
        using result_refines [OF Suc.prems(2) shape k(2)] g Some by blast
      have "lift_state f s = lift_state f1 s"
        using lift_state_cong [OF Suc.prems(1), of f f1] c(5) by simp
      then have "lifts f1 (issued_handles a) (Call op arg cont) (Call op (map_bval f arg) cont')"
        using bpf_effect_lifts [OF Suc.prems(1), of f1 E insnsi] Call k(1) by simp
      then have "cont' (map_bval f1 v) = lift_state f1 (cont v)"
        "state_known (issued_handles a1) (cont v)"
        using c(3,4) by (auto simp: lifts_def)
      then show ?thesis
        using Suc.IH [of a1 "cont v" f1 c1] Suc.prems(3) Call g k(1) c(1,2) Some by simp
    qed
  qed
qed auto

end

end
