(* ===== verification/JitRefine.thy ===== *)
theory JitRefine
  imports JitRun BpfLift
begin

text \<open>
  The kernel's gates refine a small abstract machine whose handles are the acquisitions'
  numbers: an admitted program does on the real gates what it does on the abstract ones.
\<close>

subsection \<open>The abstract gates\<close>

text \<open>The state: for each acquisition, in order, whether it is live. \<open>value\<close> is the object's.\<close>

fun abs_acquire :: "nat bval \<Rightarrow> bool list \<Rightarrow> nat bval option \<times> bool list" where
  "abs_acquire (Num n) live =
     (if n > 1 then (None, live)
      else if n \<noteq> 0 then (Some (Num 0), live)
      else if length live = ARRAY_SIZE_cells then (None, live)
      else (Some (Cap (length live)), live @ [True]))"
| "abs_acquire _ live = (None, live)"

fun abs_use :: "(bool list \<Rightarrow> nat \<Rightarrow> nat bval \<times> bool list) \<Rightarrow> nat bval \<Rightarrow> bool list \<Rightarrow> nat bval option \<times> bool list" where
  "abs_use f (Cap i) live =
     (if i < length live \<and> live ! i then (case f live i of (v, l) \<Rightarrow> (Some v, l)) else (None, live))"
| "abs_use f _ live = (None, live)"

definition abs_gate :: "u64 \<Rightarrow> (nat, bool list) gate" where
  "abs_gate value op arg pc live =
     (if op = CBPF_OP_ACQUIRE then abs_acquire arg live
      else if op = CBPF_OP_READ then abs_use (\<lambda>l i. (Num value, l)) arg live
      else abs_use (\<lambda>l i. (Num 0, l[i := False])) arg live)"

interpretation abs_gates: gate_runtime "abs_gate w" "\<lambda>_. True" for w
proof
  show "result_ok op v" if "abs_gate w op arg pc k = (Some v, k')"
    "op \<in> {CBPF_OP_ACQUIRE, CBPF_OP_READ, CBPF_OP_RELEASE}" for op v k k' and arg and pc :: nat
    using that by (cases arg) (auto simp: abs_gate_def result_ok_def split: if_splits)
qed simp

subsection \<open>The gates\<close>

definition gates_rel :: "'v kplatform \<Rightarrow> u64 \<Rightarrow> bool list \<Rightarrow> 'v kernel \<Rightarrow> bool" where
  "gates_rel K value live k \<longleftrightarrow>
     gate_ready K k \<and> word_of_int (ko_value (k_object k)) = value \<and>
     iv_acquired (active k) = length live \<and>
     (\<forall>i < length live. cheri_tag_get (kp_cheri K) (iv_cells (active k) ! i) = live ! i)"

definition abort_rel :: "'v kplatform \<Rightarrow> 'v kernel \<Rightarrow> bool" where
  "abort_rel K k \<longleftrightarrow> kernel_inv K k \<and> iv_entered (active k) \<and> iv_failed (active k)"

text \<open>No value a gate returns is the failure marker.\<close>

definition value_fits :: "'v kplatform \<Rightarrow> u64 \<Rightarrow> bool" where
  "value_fits K value \<longleftrightarrow> value \<noteq> - 1 \<and> (\<forall>i < ARRAY_SIZE_cells. kp_cell K i \<noteq> - 1)"

lemma fail_gate:
  assumes "gate_ready K k"
    and "cbpf_gate_impl K (as_cap (kp_cheri K) arg) (ucast op) (of_nat pc) k = cbpf_fail (kp_cheri K) (of_nat pc) k"
  shows "\<exists>k'. kernel_gate K op arg pc k = (None, k') \<and> abort_rel K k'"
proof -
  let ?C = "kp_cheri K"
  have inv: "kernel_inv K k" and ent: "iv_entered (active k)" using assms(1) by (simp_all add: gate_ready_def)
  have laws: "cheri_laws ?C" using inv by (simp add: kernel_inv_def)
  let ?k = "snd (cbpf_fail ?C (of_nat pc) k)"
  have "kernel_gate K op arg pc k = (None, ?k)"
    using assms(2) cheri_lawsD(5) [OF laws]
    by (simp add: kernel_gate_def cbpf_gateway_def cbpf_fail_def CBPF_FAILURE_def U64_MAX_def)
  moreover have "abort_rel K ?k"
    unfolding abort_rel_def fail_eq [OF gate_ready_active [OF assms(1)]]
    using fail_inv [OF inv, of "of_nat pc"] ent
    by (simp add: fail_eq [OF gate_ready_active [OF assms(1)]])
  ultimately show ?thesis by blast
qed

lemma ready_acquire:
  assumes rdy: "gate_ready K k"
  shows "cbpf_gate_impl K a 1 pc k = gate_acquire_op K a pc k"
  using rdy gate_ready_active [OF rdy]
  by (auto simp: cbpf_gate_impl_def Let_def gate_ready_def simp del: active_simps)

lemma acquire_gate_rel:
  assumes rel: "gates_rel K value live k" and rep: "kernel_representable K" and fit: "value_fits K value"
    and abs: "abs_acquire (Num n) live = (r, live')"
  shows "\<exists>k'. kernel_gate K CBPF_OP_ACQUIRE (Num n) pc k = (map_option (map_bval (cell_view K)) r, k') \<and>
    (if r = None then abort_rel K k' else gates_rel K value live' k')"
proof -
  let ?C = "kp_cheri K"
  have rdy: "gate_ready K k" and val: "word_of_int (ko_value (k_object k)) = value"
    and acq: "iv_acquired (active k) = length live"
    and tags: "\<forall>i < length live. cheri_tag_get ?C (iv_cells (active k) ! i) = live ! i"
    using rel by (simp_all add: gates_rel_def)
  have inv: "kernel_inv K k" using rdy by (simp add: gate_ready_def)
  have laws: "cheri_laws ?C" using inv by (simp add: kernel_inv_def)
  note L = cheri_lawsD [OF laws]
  have op: "(ucast CBPF_OP_ACQUIRE :: u64) = 1" by (simp add: CBPF_OP_ACQUIRE_def)
  have len: "length live \<le> ARRAY_SIZE_cells" using kernel_inv_acquired [OF inv] acq by simp
  have impl: "cbpf_gate_impl K (as_cap ?C (Num n)) (ucast CBPF_OP_ACQUIRE) (of_nat pc) k =
      gate_acquire_op K (cheri_from_u64 ?C n) (of_nat pc) k"
    by (simp only: as_cap.simps op ready_acquire [OF rdy])
  consider (bad) "n > 1 \<or> n = 0 \<and> length live = ARRAY_SIZE_cells" "r = None"
    | (null) "\<not> n > 1" "n \<noteq> 0" "r = Some (Num 0)" "live' = live"
    | (fresh) "n = 0" "length live < ARRAY_SIZE_cells" "r = Some (Cap (length live))" "live' = live @ [True]"
    using abs len by (fastforce split: if_splits)
  then show ?thesis
  proof cases
    case bad
    then have "gate_acquire_op K (cheri_from_u64 ?C n) (of_nat pc) k = cbpf_fail ?C (of_nat pc) k"
      using acq L(4,5) by (auto simp: gate_acquire_op_def Let_def)
    then show ?thesis using fail_gate [OF rdy] impl bad(2) by simp
  next
    case null
    let ?k = "cbpf_trace ?C ''null'' (of_nat pc) 0 k"
    have "gate_acquire_op K (cheri_from_u64 ?C n) (of_nat pc) k = (cheri_from_u64 ?C 0, ?k)"
      using null L(4,5) by (simp add: gate_acquire_op_def Let_def)
    moreover have "gates_rel K value live ?k"
      using rel trace_quiet_inv [OF inv, of "''null''"] by (simp add: gates_rel_def gate_ready_def)
    ultimately show ?thesis
      using null impl L(4,5) by (simp add: kernel_gate_def cbpf_gateway_def as_bval_def)
  next
    case fresh
    have room: "iv_acquired (active k) < ARRAY_SIZE_cells" using fresh acq by simp
    have tag: "cheri_tag_get ?C (cell_view K (iv_acquired (active k)))" "cheri_tag_get ?C (object_cap K)"
      using rep room by (simp_all add: kernel_representable_def)
    define k1 where "k1 = cbpf_trace ?C ''acquire'' (of_nat pc) (iv_acquired (active k) + 1) (acquired_state K k)"
    have g: "gate_acquire_op K (cheri_from_u64 ?C n) (of_nat pc) k = (cell_view K (length live), k1)"
      using gate_acquire_fresh [OF rdy room tag, of "of_nat pc"] ready_acquire [OF rdy] fresh(1) acq
      by (simp add: k1_def)
    have adr: "cheri_address_get ?C (cell_view K (length live)) \<noteq> - 1"
      using exact_tag [OF laws, of "kp_cell K (length live)"] tag(1) acq fit fresh(2)
      by (simp add: cell_view_def value_fits_def)
    note sel = acquired_sel [OF inv room k1_def]
    have lc: "length (iv_cells (active k)) = ARRAY_SIZE_cells" using inv by (simp add: kernel_inv_def)
    have "cheri_tag_get ?C (iv_cells (active k1) ! i) = (live @ [True]) ! i" if "i < length live + 1" for i
      using that tags tag(2) room lc acq sel(6) by (cases "i = length live") (simp_all add: nth_append)
    then have "gates_rel K value (live @ [True]) k1"
      using acquired_ready [OF rdy room tag, of "of_nat pc", folded k1_def] sel(1,8) val acq
      by (simp add: gates_rel_def)
    then show ?thesis
      using fresh g impl adr tag(1) acq by (simp add: kernel_gate_def cbpf_gateway_def as_bval_def)
  qed
qed

lemma use_gate_rel:
  assumes rel: "gates_rel K value live k" and rep: "kernel_representable K" and fit: "value_fits K value"
    and i: "i < length live" and op: "op = CBPF_OP_READ \<or> op = CBPF_OP_RELEASE"
    and abs: "abs_gate value op (Cap i) pc live = (r, live')"
  shows "\<exists>k'. kernel_gate K op (Cap (cell_view K i)) pc k = (map_option (map_bval (cell_view K)) r, k') \<and>
    (if r = None then abort_rel K k' else gates_rel K value live' k')"
proof -
  let ?C = "kp_cheri K"
  have rdy: "gate_ready K k" and val: "word_of_int (ko_value (k_object k)) = value"
    and acq: "iv_acquired (active k) = length live"
    and tags: "\<forall>i < length live. cheri_tag_get ?C (iv_cells (active k) ! i) = live ! i"
    using rel by (simp_all add: gates_rel_def)
  have inv: "kernel_inv K k" using rdy by (simp add: gate_ready_def)
  have laws: "cheri_laws ?C" using inv by (simp add: kernel_inv_def)
  note L = cheri_lawsD [OF laws]
  have ops: "(ucast CBPF_OP_READ :: u64) = 2" "(ucast CBPF_OP_RELEASE :: u64) = 3"
    "CBPF_OP_READ \<noteq> CBPF_OP_ACQUIRE" "CBPF_OP_RELEASE \<noteq> CBPF_OP_ACQUIRE" "CBPF_OP_RELEASE \<noteq> CBPF_OP_READ"
    by (simp_all add: CBPF_OP_ACQUIRE_def CBPF_OP_READ_def CBPF_OP_RELEASE_def)
  have dist: "distinct_cells K" using rep by (simp add: kernel_representable_def)
  have ia: "i < iv_acquired (active k)" using i acq by simp
  show ?thesis
  proof (cases "live ! i")
    case False
    then have "r = None" using abs op ops(3-5) by (auto simp: abs_gate_def)
    moreover have "cbpf_gate_impl K (as_cap ?C (Cap (cell_view K i))) (ucast op) (of_nat pc) k =
        cbpf_fail ?C (of_nat pc) k"
      using gate_stale [OF rdy dist ia, of "ucast op"] False tags i op ops(1,2) by auto
    ultimately show ?thesis using fail_gate [OF rdy] by simp
  next
    case True
    then have lv: "cheri_tag_get ?C (iv_cells (active k) ! i)" using tags i by simp
    show ?thesis
    proof (cases "op = CBPF_OP_READ")
      case rd: True
      let ?k = "cbpf_trace ?C ''read'' (of_nat pc) (i + 1)
          (set_active ((active k)\<lparr>iv_reads := iv_reads (active k) + 1\<rparr>) k)"
      have r: "r = Some (Num value)" "live' = live" using abs True i rd ops(3) by (simp_all add: abs_gate_def)
      have "Suc i \<in> live_ids (kernel_own K k)" using lv ia by (simp add: kernel_live)
      then have "gates_rel K value live ?k"
        using rel read_line_inv [OF inv] by (simp add: gates_rel_def gate_ready_def)
      moreover have "value \<noteq> - 1" using fit by (simp add: value_fits_def)
      ultimately show ?thesis
        using gate_read_live [OF rdy dist ia lv, of "of_nat pc"] r rd ops(1) val L(4,5)
        by (simp add: kernel_gate_def cbpf_gateway_def as_bval_def)
    next
      case False
      then have rl: "op = CBPF_OP_RELEASE" using op by simp
      let ?k = "kernel_consume ?C i (of_nat pc) False k"
      have r: "r = Some (Num 0)" "live' = live[i := False]"
        using abs True i rl ops(4,5) by (simp_all add: abs_gate_def)
      have lc: "length (iv_cells (active k)) = ARRAY_SIZE_cells" using inv by (simp add: kernel_inv_def)
      have ic: "i < ARRAY_SIZE_cells" using ia kernel_inv_acquired [OF inv] by simp
      have "cheri_tag_get ?C (iv_cells (active ?k) ! j) = live[i := False] ! j" if "j < length live" for j
        using that tags i ic lc L(2) by (cases "j = i") (simp_all add: kernel_consume_sel)
      then have "gates_rel K value (live[i := False]) ?k"
        using released_ready [OF rdy ia lv] val acq by (simp add: gates_rel_def kernel_consume_sel)
      then show ?thesis
        using gate_release_live [OF rdy dist ia lv, of "of_nat pc"] r rl ops(2) L(4,5)
        by (simp add: kernel_gate_def cbpf_gateway_def as_bval_def)
    qed
  qed
qed

lemma abs_gate_known:
  assumes "abs_gate value op arg pc live = (Some v, live')"
  shows "length live \<le> length live' \<and> known (length live') v"
  using assms
  by (cases arg) (auto simp: abs_gate_def split: if_splits)

lemma gate_rel:
  assumes rel: "gates_rel K value live k" and rep: "kernel_representable K" and fit: "value_fits K value"
    and call: "gate_call op arg" and known: "known (length live) arg"
    and abs: "abs_gate value op arg pc live = (r, live')"
  shows "\<exists>k'. kernel_gate K op (map_bval (cell_view K) arg) pc k = (map_option (map_bval (cell_view K)) r, k') \<and>
    (if r = None then abort_rel K k' else gates_rel K value live' k')"
  using call unfolding gate_call_def
proof (elim disjE conjE exE)
  fix n assume "op = CBPF_OP_ACQUIRE" "arg = Num n"
  then show ?thesis using acquire_gate_rel [OF rel rep fit, of n r live' pc] abs by (simp add: abs_gate_def)
next
  fix i assume op: "op \<in> {CBPF_OP_READ, CBPF_OP_RELEASE}" and i: "arg = Cap i"
  then have "i < length live" using known by simp
  then show ?thesis using use_gate_rel [OF rel rep fit, of i op pc r live'] op i abs by auto
qed

subsection \<open>Executions\<close>

text \<open>The relation with what it needs of the machine; a cell's view is its handle for good.\<close>

definition kernel_rel :: "'v kplatform \<Rightarrow> u64 \<Rightarrow> (nat \<Rightarrow> 'v) \<Rightarrow> bool list \<Rightarrow> 'v kernel \<Rightarrow> bool" where
  "kernel_rel K value f live k \<longleftrightarrow>
     kernel_representable K \<and> value_fits K value \<and> f = cell_view K \<and> gates_rel K value live k"

interpretation kernel_refinement:
  gate_refinement "abs_gate w" "kernel_gate K" length "kernel_rel K w" True "abort_rel K"
  for K :: "'v kplatform" and w
proof
  fix f :: "nat \<Rightarrow> 'v" and live live' and k :: "'v kernel" and op and arg :: "nat bval" and pc and v
  assume rel: "kernel_rel K w f live k" and shape: "gate_call op arg" "known (length live) arg"
  then have f: "f = cell_view K" by (simp add: kernel_rel_def)
  note step = gate_rel [of K w live k, OF _ _ _ shape]
  show "\<exists>k'. kernel_gate K op (map_bval f arg) pc k = (None, k') \<and> abort_rel K k'"
    if "abs_gate w op arg pc live = (None, live')"
    using step [OF _ _ _ that] rel by (simp add: kernel_rel_def f)
  show "\<exists>f' k'. kernel_gate K op (map_bval f arg) pc k = (Some (map_bval f' v), k') \<and>
      kernel_rel K w f' live' k' \<and> length live \<le> length live' \<and> known (length live') v \<and>
      (\<forall>i < length live. f' i = f i)"
    if "abs_gate w op arg pc live = (Some v, live')"
    using step [OF _ _ _ that] abs_gate_known [OF that] rel
    by (intro exI [of _ "cell_view K"]) (auto simp: kernel_rel_def f)
qed

text \<open>A whole invocation of a program whose entry succeeds, by its run on the abstract gates.\<close>

definition abs_run :: "u64 \<Rightarrow> 'z jit_env_scheme \<Rightarrow> bpf_insn list \<Rightarrow> bpf_outcome" where
  "abs_run value E insnsi = fst (bpf_exec (length insnsi) E insnsi (abs_gate value) bpf_start [])"

definition outcome_value :: "bpf_outcome \<Rightarrow> u32" where
  "outcome_value out = (case out of Finished n \<Rightarrow> ucast n | _ \<Rightarrow> 0)"

definition enters :: "'v kplatform \<Rightarrow> enter_args \<Rightarrow> u64 \<Rightarrow> 'v kernel \<Rightarrow> bool" where
  "enters K a prog k \<longleftrightarrow>
     (case cbpf_enter K a (set_active (new_invocation (kp_cheri K) prog False) k) of
        Inl e \<Rightarrow> False | Inr r \<Rightarrow> True)"

lemma entered_start:
  assumes idle: "kernel_idle K k"
    and en: "cbpf_enter K a (set_active (new_invocation (kp_cheri K) prog False) k) = Inr (en, k1)"
  shows "gates_rel K (word_of_int (ko_value (k_object k))) [] k1"
proof -
  let ?k0 = "set_active (new_invocation (kp_cheri K) prog False) k"
  obtain c where k1: "k1 = (set_active ((active ?k0)\<lparr>iv_entered := True\<rparr>) ?k0)
      \<lparr>k_rcsp := c, k_rddc := cheri_null (kp_cheri K)\<rparr>"
    using en by (auto simp: cbpf_enter_def Let_def split: if_splits)
  have inv: "kernel_inv K k1" using enter_inv [OF new_invocation_inv [OF idle] en] by simp
  have act: "active k1 = (new_invocation (kp_cheri K) prog False)\<lparr>iv_entered := True\<rparr>"
    and obj: "k_object k1 = k_object k"
    unfolding k1 by (simp_all add: active_def set_active_def)
  have "iv_acquired (active k1) = 0" "iv_entered (active k1)" "\<not> iv_failed (active k1)"
    unfolding act by (simp_all add: new_invocation_def)
  then show ?thesis unfolding gates_rel_def gate_ready_def using inv obj by simp
qed

lemma invocation_outcome:
  assumes idle: "kernel_idle K k" and rep: "kernel_representable K"
    and fit: "value_fits K (word_of_int (ko_value (k_object k)))" and ent: "enters K a prog k"
    and out: "abs_run (word_of_int (ko_value (k_object k))) E insnsi \<noteq> Wrong"
    and run: "cbpf_test_invoke K prog True (bpf_program wrong a (kp_cheri K) E insnsi) k = (v, log, k')"
  shows "v = outcome_value (abs_run (word_of_int (ko_value (k_object k))) E insnsi)"
    and "l_event (last log) = (if abs_run (word_of_int (ko_value (k_object k))) E insnsi = Aborted
      then ''failed'' else ''exit'')"
proof -
  let ?C = "kp_cheri K" and ?w = "word_of_int (ko_value (k_object k)) :: u64"
  let ?k0 = "set_active (new_invocation ?C prog False) k"
  obtain en k1 where e: "cbpf_enter K a ?k0 = Inr (en, k1)"
    using ent by (auto simp: enters_def split: sum.splits)
  note rel = entered_start [OF idle e]
  obtain o1 live where ar: "bpf_exec (length insnsi) E insnsi (abs_gate ?w) bpf_start [] = (o1, live)"
    by fastforce
  have o1: "abs_run ?w E insnsi = o1" by (simp add: abs_run_def ar)
  obtain k2 where k2: "bpf_exec (length insnsi) E insnsi (kernel_gate K) bpf_start k1 = (o1, k2)"
    "if o1 = Aborted then abort_rel K k2 else gates_rel K ?w live k2"
    using kernel_refinement.exec_refines [OF state_known_start _ ar, of K "cell_view K" k1] rep fit rel
    by (auto simp: lift_start kernel_rel_def split: if_splits)
  have fl: "iv_entered (active k2)" "iv_failed (active k2) \<longleftrightarrow> o1 = Aborted"
    using k2(2) by (auto simp: abort_rel_def gates_rel_def gate_ready_def split: if_splits)
  obtain kr w kf where r:
    "bpf_prog_run K (bpf_program wrong a ?C E insnsi) ?k0 = (w, kr)"
    "kernel_inv K kf" "v = (if iv_failed (active kf) then 0 else w)"
    "iv_failed (active kf) \<longleftrightarrow> iv_failed (active kr) \<or> \<not> iv_entered (active kr)"
    "l_event (last log) = (if iv_failed (active kf) then ''failed'' else ''exit'')"
    by (rule test_invoke_ran [OF idle run], rule that) assumption+
  have "bpf_prog_run K (bpf_program wrong a ?C E insnsi) ?k0 =
      bpf_prog_run K (bpf_native wrong (length insnsi) ?C E insnsi bpf_start) k1"
    by (simp only: bpf_program_def bpf_prog_run.simps e sum.case prod.case)
  also have "\<dots> = (outcome_value o1, k2)"
    unfolding bpf_native_run k2(1) using out [unfolded o1] by (cases o1) (simp_all add: outcome_value_def)
  finally have "w = outcome_value o1" "kr = k2" unfolding r(1) by simp_all
  then show "v = outcome_value (abs_run ?w E insnsi)"
    and "l_event (last log) = (if abs_run ?w E insnsi = Aborted then ''failed'' else ''exit'')"
    using r(3-5) fl o1 by (auto simp: outcome_value_def)
qed

end
