(* ===== verification/JitGuest.thy ===== *)
theory JitGuest
  imports JitRefine
begin

text \<open>
  The guest's programs under any resolution of its kfunc identifiers: admission and
  execution depend on an instruction's call only through the operation it resolves to, so a
  run on one resolution is a run on all.
\<close>

lemma same_abs_run: "list_all2 (same_insn E E') is js \<Longrightarrow> abs_run v E is = abs_run v E' js"
  by (simp only: abs_run_def same_exec list_all2_lengthD [of "same_insn E E'" "is" js])

lemma same_admit_insn:
  assumes "same_insn E E' i j"
  shows "admit_insn E len pc i st acq = admit_insn E' len pc j st acq"
  using assms by (simp add: admit_insn_def admit_call_def same_insn_def Let_def)

lemma same_admit_from:
  assumes "list_all2 (same_insn E E') is js"
  shows "admit_from E is pc a = admit_from E' js pc a"
  using assms
proof (induction E "is" pc a rule: admit_from.induct)
  case (1 E "is" pc a)
  have len: "length is = length js" using "1.prems" by (rule list_all2_lengthD)
  show ?case
  proof (cases "pc < length is")
    case True
    then have "same_insn E E' (is ! pc) (js ! pc)" using "1.prems" by (simp add: list_all2_nthD)
    then have "admit_insn E (length is) pc (is ! pc) st acq = admit_insn E' (length js) pc (js ! pc) st acq" for st acq
      using len same_admit_insn by metis
    then have "admit_step E is pc a = admit_step E' js pc a" by (simp only: admit_step_def)
    then show ?thesis
      using "1.IH" [OF True _ "1.prems"] True len
      by (simp add: admit_from.simps [of E "is" pc] admit_from.simps [of E' js pc] split: sum.split)
  qed (simp add: len admit_from.simps [of E "is" pc] admit_from.simps [of E' js pc])
qed

lemma same_admit: "list_all2 (same_insn E E') is js \<Longrightarrow> admit E is = admit E' js"
  by (simp only: admit_def same_admit_from list_all2_lengthD [of "same_insn E E'" "is" js])

text \<open>The identifiers of the generated header name the three kfuncs.\<close>

definition resolves :: "btf_ids \<Rightarrow> 'z jit_env_scheme \<Rightarrow> bool" where
  "resolves B E \<longleftrightarrow>
     call_operation E (CALL (id_acquire B)) = CBPF_OP_ACQUIRE \<and>
     call_operation E (CALL (id_read B)) = CBPF_OP_READ \<and>
     call_operation E (CALL (id_release B)) = CBPF_OP_RELEASE"

lemma guest_case_same:
  assumes "resolves B E" and "test < 7"
  shows "list_all2 (same_insn E sample_env) (fst (guest_case B test)) (fst (guest_case sample_ids test))"
proof -
  have s: "resolves sample_ids sample_env"
    by (simp add: resolves_def sample_ids_def sample_env_def call_operation_def CALL_def INSN_def)
  have c: "same_insn E sample_env (CALL (id_acquire B)) (CALL (id_acquire sample_ids))"
    "same_insn E sample_env (CALL (id_read B)) (CALL (id_read sample_ids))"
    "same_insn E sample_env (CALL (id_release B)) (CALL (id_release sample_ids))"
    using assms(1) s by (simp_all add: same_insn_def resolves_def) (simp_all add: CALL_def INSN_def)
  have o: "same_insn E sample_env i i" if "i_code i \<noteq> BPF_JMP_CALL" for i
    using that by (simp add: same_insn_def call_operation_code)
  have n: "i_code (IMM d v) \<noteq> BPF_JMP_CALL" "i_code (COPY d r) \<noteq> BPF_JMP_CALL"
    "i_code (NULL_TO n) \<noteq> BPF_JMP_CALL" "i_code (SPILL_FROM r) \<noteq> BPF_JMP_CALL"
    "i_code (RELOAD_TO r) \<noteq> BPF_JMP_CALL" "i_code EXIT \<noteq> BPF_JMP_CALL" "i_code (INSN BPF_JMP_JEQ_K d r n v) \<noteq> BPF_JMP_CALL"
    for d v r n
    by (simp_all add: IMM_def COPY_def NULL_TO_def SPILL_FROM_def RELOAD_TO_def EXIT_def INSN_def)
  have u: "(IMM d v)\<lparr>i_imm := w\<rparr> = IMM d w" "(COPY d r)\<lparr>i_src := q\<rparr> = COPY d q"
    "(CALL x)\<lparr>i_imm := y\<rparr> = CALL y" for d v w r q x y
    by (simp_all add: IMM_def COPY_def CALL_def INSN_def)
  have "test \<in> {0, 1, 2, 3, 4, 5, 6}" using assms(2) by auto
  then show ?thesis
    by (elim insertE emptyE) (simp_all add: guest_case_def guest_program_def guest_alternate_def u c o n)
qed

subsection \<open>The seven cases\<close>

definition guest_admits :: "nat \<Rightarrow> bool" where
  "guest_admits test = (case admit sample_env (fst (guest_case sample_ids test)) of Inl e \<Rightarrow> False | Inr a \<Rightarrow> True)"

lemma guest_sample:
  "map (\<lambda>t. abs_run 42 sample_env (fst (guest_case sample_ids t))) [0, 1, 2, 3, 4, 5, 6] =
    [Finished 42, Finished 42, Finished 7, Aborted, Aborted, Aborted, Aborted]"
  "list_all (\<lambda>t. guest_admits t) [0, 1, 2, 3, 4, 5, 6]"
  by code_simp+


text \<open>What each case does on gates whose object holds 42.\<close>

definition guest_outcome :: "nat \<Rightarrow> bpf_outcome" where
  "guest_outcome test =
     (if test \<in> {0, 1} then Finished 42 else if test = 2 then Finished 7 else Aborted)"

lemma guest_runs:
  assumes "resolves B E" and "test < 7"
  shows "abs_run 42 E (fst (guest_case B test)) = guest_outcome test"
    and "\<exists>a. admit E (fst (guest_case B test)) = Inr a"
proof -
  have t: "test \<in> {0, 1, 2, 3, 4, 5, 6}" using assms(2) by auto
  have "abs_run 42 E (fst (guest_case B test)) = abs_run 42 sample_env (fst (guest_case sample_ids test))"
    by (rule same_abs_run [OF guest_case_same [OF assms]])
  then show "abs_run 42 E (fst (guest_case B test)) = guest_outcome test"
    using t guest_sample(1) by (auto simp: guest_outcome_def)
  have "guest_admits test" using t guest_sample(2) by auto
  then show "\<exists>a. admit E (fst (guest_case B test)) = Inr a"
    using same_admit [OF guest_case_same [OF assms]] by (auto simp: guest_admits_def split: sum.splits)
qed

lemma guest_expected: "fst (snd (guest_case B test)) = (if test = 2 then 7 else if test = 3 then 0 else 42)"
  by (simp add: guest_case_def Let_def)

end
