(* ===== verification/JitTheorems.thy ===== *)
theory JitTheorems
  imports JitGuest
begin

text \<open>The properties of the admission pass and of admitted programs on the kernel's gates.\<close>

text \<open>
  C18. Soundness of admission: every state an admitted program reaches, whatever its gates
  answer within their types, is inside the program and is never stuck. A step only goes
  forward; a gate call is one the pass recorded, with a number for an acquisition and a
  handle for a read or a release; and the program has one or two acquisition calls.
\<close>

theorem admitted_programs_safe:
  assumes "admit E insnsi = Inr a" and "length insnsi \<le> JIT_MAX_INSNS" and "bpf_reach E insnsi s"
  shows "b_pc s < length insnsi \<and>
    (case bpf_effect E insnsi s of
       Stuck \<Rightarrow> False
     | Step s' \<Rightarrow> b_pc s < b_pc s'
     | Call op arg k \<Rightarrow>
         op = a_operation a ! b_pc s \<and>
         (op = CBPF_OP_ACQUIRE \<and> (\<exists>n. arg = Num n) \<or>
          op \<in> {CBPF_OP_READ, CBPF_OP_RELEASE} \<and> (\<exists>h. arg = Cap h))
     | Exit n \<Rightarrow> True) \<and>
    length (filter (\<lambda>i. call_operation E i = CBPF_OP_ACQUIRE) insnsi) \<in> {1..2}"
  using admitted_reach_effect [OF assms] admit_facts(4) [OF assms(1,2)]
    bpf_call_facts [OF bpf_effect_call, of E insnsi s]
  by (cases "bpf_effect E insnsi s") auto

theorem admitted_programs_safe_witness:
  "\<exists>a. admit sample_env (guest_program sample_ids) = Inr a \<and>
     (\<exists>s :: nat bstate. bpf_effect sample_env (guest_program sample_ids) bpf_start = Step s)"
proof -
  obtain a where a: "admit sample_env (guest_program sample_ids) = Inr a" using guest_admitted by blast
  have "length (guest_program sample_ids) \<le> JIT_MAX_INSNS"
    by (simp add: guest_program_def JIT_MAX_INSNS_def)
  note safe = admitted_programs_safe [OF a this bpf_reach.start]
  have "i_code (guest_program sample_ids ! 0) = BPF_ALU64_MOV_K"
    by (simp add: guest_program_def IMM_def INSN_def)
  then have "bpf_effect sample_env (guest_program sample_ids) bpf_start =
      Step (put bpf_start 1 (Num 0) :: nat bstate)"
    by (simp add: bpf_effect_def Let_def guest_program_def IMM_def INSN_def bpf_start_def)
  then show ?thesis using a safe by blast
qed

text \<open>
  C19. An admitted program on the kernel's gates: it executes at most as many instructions as
  it has and never a forbidden one, and a whole invocation of it returns what its run on
  the abstract gates returns, or 0 with a failed log exactly when that run is aborted.
\<close>

theorem admitted_invocation_outcome:
  assumes "kernel_idle K k" and "kernel_representable K"
    and "value_fits K (word_of_int (ko_value (k_object k)))" and "enters K a prog k"
    and "admit E insnsi = Inr adm" and "length insnsi \<le> JIT_MAX_INSNS"
    and "cbpf_test_invoke K prog True (bpf_program wrong a (kp_cheri K) E insnsi) k = (v, log, k')"
  shows "abs_run (word_of_int (ko_value (k_object k))) E insnsi \<noteq> Wrong \<and>
    v = outcome_value (abs_run (word_of_int (ko_value (k_object k))) E insnsi) \<and>
    l_event (last log) =
      (if abs_run (word_of_int (ko_value (k_object k))) E insnsi = Aborted then ''failed'' else ''exit'')"
proof -
  let ?w = "word_of_int (ko_value (k_object k)) :: u64"
  have "abs_run ?w E insnsi \<noteq> Wrong"
    unfolding abs_run_def
    by (rule abs_gates.exec_not_wrong [OF assms(5,6) bpf_reach.start]) simp_all
  then show ?thesis using invocation_outcome [OF assms(1-4) _ assms(7)] by blast
qed

lemma sample_enters: "enters sample_kplatform sample_enter 7 sample_kernel"
  by code_simp

lemma sample_kernel_fits:
  "ko_value (k_object sample_kernel) = 42" "kp_cheri sample_kplatform = sample_cheri"
  "value_fits sample_kplatform (word_of_int (ko_value (k_object sample_kernel)))"
proof -
  show v: "ko_value (k_object sample_kernel) = 42" "kp_cheri sample_kplatform = sample_cheri"
    by (simp_all add: sample_kernel_def sample_kplatform_def)
  have "(42 :: u64) \<noteq> - 1" "kp_cell sample_kplatform 0 \<noteq> - 1" "kp_cell sample_kplatform 1 \<noteq> - 1"
    by (simp_all add: sample_kplatform_def)
  then show "value_fits sample_kplatform (word_of_int (ko_value (k_object sample_kernel)))"
    by (auto simp: v value_fits_def ARRAY_SIZE_cells_def less_2_cases_iff)
qed

theorem admitted_invocation_outcome_witness:
  "\<exists>v log k'. cbpf_test_invoke sample_kplatform 7 True
       (bpf_program (Native_Return 9) sample_enter sample_cheri sample_env (guest_program sample_ids))
       sample_kernel = (v, log, k') \<and> v = 42 \<and> l_event (last log) = ''exit''"
proof -
  obtain a where a: "admit sample_env (guest_program sample_ids) = Inr a" using guest_admitted by blast
  obtain v log k' where r: "cbpf_test_invoke sample_kplatform 7 True
       (bpf_program (Native_Return 9) sample_enter (kp_cheri sample_kplatform) sample_env (guest_program sample_ids))
       sample_kernel = (v, log, k')" by (metis prod_cases3)
  have len: "length (guest_program sample_ids) \<le> JIT_MAX_INSNS"
    by (simp add: guest_program_def JIT_MAX_INSNS_def)
  have "abs_run 42 sample_env (guest_program sample_ids) = Finished 42"
    using guest_sample(1) by (simp add: guest_case_def)
  then show ?thesis
    using admitted_invocation_outcome [OF sample_kernel_idle sample_representable sample_kernel_fits(3)
        sample_enters a len r] r sample_kernel_fits(1,2)
    by (simp add: outcome_value_def)
qed

text \<open>
  The guest's seven cases, for every identifiers that resolve to the three kfuncs and
  every machine on which the gates work: all are admitted. The four that must execute
  return the value the guest expects. The three that the verifier must reject would be
  stopped by the gate, as the fourth is: their invocation fails and returns 0.
\<close>

theorem guest_cases_outcome:
  assumes "kernel_idle K k" and "kernel_representable K" and "ko_value (k_object k) = 42"
    and "\<forall>i < ARRAY_SIZE_cells. kp_cell K i \<noteq> - 1" and "enters K a prog k"
    and "resolves B E" and "guest_case B test = (insnsi, expected, must_reject)" and "test < 7"
    and "cbpf_test_invoke K prog True (bpf_program wrong a (kp_cheri K) E insnsi) k = (v, log, k')"
  shows "(\<exists>adm. admit E insnsi = Inr adm) \<and>
    (if must_reject then v = 0 else v = expected) \<and>
    l_event (last log) = (if test < 3 then ''exit'' else ''failed'')"
proof -
  have g: "insnsi = fst (guest_case B test)" "expected = fst (snd (guest_case B test))" "must_reject = (4 \<le> test)"
    using assms(7) by (auto simp: guest_case_def Let_def split: if_splits)
  have fit: "value_fits K (word_of_int (ko_value (k_object k)))"
    using assms(3,4) by (simp add: value_fits_def)
  have val: "word_of_int (ko_value (k_object k)) = (42 :: u64)" using assms(3) by simp
  note run = guest_runs(1) [OF assms(6,8)]
  have "abs_run (word_of_int (ko_value (k_object k))) E insnsi \<noteq> Wrong"
    using run unfolding val g(1) by (simp add: guest_outcome_def)
  from invocation_outcome [OF assms(1,2) fit assms(5) this assms(9)]
  have r: "v = outcome_value (guest_outcome test)"
    "l_event (last log) = (if guest_outcome test = Aborted then ''failed'' else ''exit'')"
    unfolding val g(1) run by simp_all
  have "test \<in> {0, 1, 2, 3, 4, 5, 6}" using assms(8) by auto
  then have "(if must_reject then v = 0 else v = expected) \<and>
      l_event (last log) = (if test < 3 then ''exit'' else ''failed'')"
    unfolding g(2,3) guest_expected r
    by (elim insertE emptyE) (simp_all add: guest_outcome_def outcome_value_def)
  then show ?thesis using guest_runs(2) [OF assms(6,8)] g(1) by simp
qed

lemma sample_resolves: "resolves sample_ids sample_env"
  by (simp add: resolves_def sample_ids_def sample_env_def call_operation_def CALL_def INSN_def)

theorem guest_cases_outcome_witness:
  "\<exists>v log k'. cbpf_test_invoke sample_kplatform 7 True
       (bpf_program (Native_Return 9) sample_enter sample_cheri sample_env (fst (guest_case sample_ids 5)))
       sample_kernel = (v, log, k') \<and> v = 0 \<and> l_event (last log) = ''failed''"
proof -
  obtain insnsi expected rj where g: "guest_case sample_ids 5 = (insnsi, expected, rj)" by (metis prod_cases3)
  obtain v log k' where r: "cbpf_test_invoke sample_kplatform 7 True
       (bpf_program (Native_Return 9) sample_enter (kp_cheri sample_kplatform) sample_env insnsi)
       sample_kernel = (v, log, k')" by (metis prod_cases3)
  have rj: "rj" using g by (simp add: guest_case_def Let_def)
  have cells: "\<forall>i < ARRAY_SIZE_cells. kp_cell sample_kplatform i \<noteq> - 1"
    using sample_kernel_fits(3) by (simp add: value_fits_def)
  from guest_cases_outcome [OF sample_kernel_idle sample_representable sample_kernel_fits(1) cells
      sample_enters sample_resolves g _ r] rj
  show ?thesis using r g sample_kernel_fits(2) by simp
qed

end
