(* ===== verification/Text.thy ===== *)
theory Text
  imports Prelude "HOL-Library.Monad_Syntax"
begin

text \<open>
  Text as the C programs print and read it: the decimal conversions of \<open>printf\<close>, and the
  C loop over a fixed range whose body may fail to return.
\<close>

subsection \<open>Decimal conversions\<close>

definition NL :: string where "NL = [CHR 0x0A]"

definition digit_char :: "nat \<Rightarrow> char" where
  "digit_char d = char_of (48 + d)"

text \<open>\<open>%u\<close>, \<open>%zu\<close> and \<open>%llu\<close> on the number they are given.\<close>

fun decimal :: "nat \<Rightarrow> string" where
  "decimal n = (if n < 10 then [digit_char n] else decimal (n div 10) @ [digit_char (n mod 10)])"

declare decimal.simps [simp del]

text \<open>\<open>%d\<close> and \<open>PRId64\<close>.\<close>

definition decimal_int :: "int \<Rightarrow> string" where
  "decimal_int i = (if i < 0 then ''-'' @ decimal (nat (- i)) else decimal (nat i))"

subsection \<open>Loops over a range\<close>

fun for_each :: "'a list \<Rightarrow> ('a \<Rightarrow> 's \<Rightarrow> 's option) \<Rightarrow> 's \<Rightarrow> 's option" where
  "for_each [] body s = Some s"
| "for_each (x # xs) body s = body x s \<bind> for_each xs body"

lemma for_each_rule:
  assumes "J s" and "\<And>x s. x \<in> set xs \<Longrightarrow> J s \<Longrightarrow> \<exists>t. body x s = Some t \<and> J t"
  shows "\<exists>t. for_each xs body s = Some t \<and> J t"
  using assms
proof (induction xs arbitrary: s)
  case (Cons x xs)
  then obtain t where "body x s = Some t" "J t" by (meson list.set_intros(1))
  with Cons.IH [of t] Cons.prems(2) show ?case by simp
qed simp

text \<open>The same with an invariant that counts the iterations.\<close>

lemma for_each_count:
  assumes "J k s"
    and "\<And>x k s. x \<in> set xs \<Longrightarrow> J k s \<Longrightarrow> \<exists>t. body x s = Some t \<and> J (k + m) t"
  shows "\<exists>t. for_each xs body s = Some t \<and> J (k + m * length xs) t"
  using assms
proof (induction xs arbitrary: s k)
  case (Cons x xs)
  then obtain t where "body x s = Some t" "J (k + m) t" by (meson list.set_intros(1))
  with Cons.IH [of "k + m" t] Cons.prems(2) show ?case by (simp add: add.assoc)
qed simp

end
