(* ===== verification/GuestOps.thy ===== *)
theory GuestOps
  imports JitProgram Text "HOL-Library.State_Monad"
begin

text \<open>
  What the guests' loaders share: a program in C that makes system calls, keeps the verifier's
  log in a buffer and prints, as an operation of the state monad. The kernel's state is a
  type parameter \<open>'w\<close>; each loader has its own record of system calls.
\<close>

subsection \<open>Operations\<close>

record 'w guest =
  gs_world :: 'w
  gs_log :: string
  gs_out :: string

type_synonym ('w, 'a) guest_op = "('w guest, 'a) state"

abbreviation ret :: "'a \<Rightarrow> ('w, 'a) guest_op" where "ret \<equiv> State_Monad.return"

definition sys :: "('w \<Rightarrow> 'a \<times> 'w) \<Rightarrow> ('w, 'a) guest_op" where
  "sys f = State (\<lambda>g. case f (gs_world g) of (a, w) \<Rightarrow> (a, g\<lparr>gs_world := w\<rparr>))"

definition query :: "('w \<Rightarrow> 'a) \<Rightarrow> ('w, 'a) guest_op" where
  "query f = sys (\<lambda>w. (f w, w))"

definition change :: "('w \<Rightarrow> 'w) \<Rightarrow> ('w, unit) guest_op" where
  "change f = sys (\<lambda>w. ((), f w))"

definition say :: "string \<Rightarrow> ('w, unit) guest_op" where
  "say s = State (\<lambda>g. ((), g\<lparr>gs_out := gs_out g @ s\<rparr>))"

definition set_log :: "string \<Rightarrow> ('w, unit) guest_op" where
  "set_log s = State (\<lambda>g. ((), g\<lparr>gs_log := s\<rparr>))"

definition verifier_log :: "('w, string) guest_op" where
  "verifier_log = State (\<lambda>g. (gs_log g, g))"

lemma bind_lazy: "x = y \<Longrightarrow> State_Monad.bind x f = State_Monad.bind y f"
  by simp

subsection \<open>Buffers and text\<close>

text \<open>The bytes of a buffer up to its first NUL.\<close>

definition cstring :: "string \<Rightarrow> string" where
  "cstring bytes = takeWhile (\<lambda>c. c \<noteq> CHR 0x00) bytes"

text \<open>\<open>0x%02x\<close> of a byte.\<close>

definition hex_digit :: "nat \<Rightarrow> char" where
  "hex_digit d = (if d < 10 then char_of (48 + d) else char_of (87 + d))"

definition hex_byte :: "u8 \<Rightarrow> string" where
  "hex_byte b = [hex_digit (unat b div 16), hex_digit (unat b mod 16)]"

text \<open>\<open>%08x\<close> of a word.\<close>

definition hex_word :: "u32 \<Rightarrow> string" where
  "hex_word w = map (\<lambda>i. hex_digit (unat w div 16 ^ (7 - i) mod 16)) [0..<8]"

fun strstr :: "string \<Rightarrow> string \<Rightarrow> bool" where
  "strstr [] needle = (needle = [])"
| "strstr (c # cs) needle = (take (length needle) (c # cs) = needle \<or> strstr cs needle)"

subsection \<open>Loading a program\<close>

text \<open>The fields of the load command's attributes that a loader sets; the others are zero.\<close>

record load_attr =
  la_prog_type :: u32
  la_insn_cnt :: u32
  la_insns :: "bpf_insn list"
  la_license :: string
  la_log_level :: u32
  la_log_size :: nat
  la_fd_array :: "int list"
  la_prog_name :: string

definition LOG_SIZE :: nat where "LOG_SIZE = 128 * 1024"
definition BPF_PROG_TYPE_SCHED_CLS :: u32 where "BPF_PROG_TYPE_SCHED_CLS = 3"

subsection \<open>Running a program\<close>

text \<open>
  The fields of the test-run command's attributes: the program, the contents and size of the
  input packet, the size of the output buffer and how often the program is executed. Every
  guest gives an input and an output buffer of 64 bytes, the input zero, and one execution.
\<close>

record test_attr =
  ta_prog_fd :: int
  ta_data_in :: "u8 list"
  ta_data_size_in :: u32
  ta_data_size_out :: u32
  ta_repeat :: u32

definition test_attr_of :: "int \<Rightarrow> test_attr" where
  "test_attr_of fd =
     \<lparr>ta_prog_fd = fd, ta_data_in = replicate 64 0, ta_data_size_in = 64, ta_data_size_out = 64, ta_repeat = 1\<rparr>"

text \<open>A request for one execution of a program, on a packet of at least an Ethernet header.\<close>

definition runs_once :: "test_attr \<Rightarrow> int \<Rightarrow> bool" where
  "runs_once attr fd \<longleftrightarrow>
     ta_prog_fd attr = fd \<and> ta_repeat attr = 1 \<and> 14 \<le> ta_data_size_in attr \<and>
     length (ta_data_in attr) = unat (ta_data_size_in attr)"

lemma test_attr_once [simp]: "runs_once (test_attr_of fd) fd"
  by (simp add: runs_once_def test_attr_of_def)

text \<open>How the guest ends: \<open>main\<close> returns, or the machine is powered off.\<close>

datatype guest_end = Guest_Returned int | Guest_Poweroff

subsection \<open>Sequences of operations\<close>

text \<open>The first failure ends a sequence of calls.\<close>

definition proceed :: "('w, 'a option) guest_op \<Rightarrow> ('a \<Rightarrow> ('w, 'b option) guest_op) \<Rightarrow> ('w, 'b option) guest_op" where
  "proceed m f = do { r \<leftarrow> m; (case r of None \<Rightarrow> ret None | Some a \<Rightarrow> f a) }"

fun attempt_each :: "'x list \<Rightarrow> ('x \<Rightarrow> 't \<Rightarrow> ('w, 't option) guest_op) \<Rightarrow> 't \<Rightarrow> ('w, 't option) guest_op" where
  "attempt_each [] body t = ret (Some t)"
| "attempt_each (x # xs) body t = proceed (body x t) (attempt_each xs body)"

subsection \<open>Running an operation\<close>

lemma sys_run [simp]: "run_state (sys f) g = (case f (gs_world g) of (a, w) \<Rightarrow> (a, g\<lparr>gs_world := w\<rparr>))"
  by (simp add: sys_def)

lemma query_run [simp]: "run_state (query f) g = (f (gs_world g), g)"
  by (simp add: query_def)

lemma change_run [simp]: "run_state (change f) g = ((), g\<lparr>gs_world := f (gs_world g)\<rparr>)"
  by (simp add: change_def)

lemma say_run [simp]: "run_state (say s) g = ((), g\<lparr>gs_out := gs_out g @ s\<rparr>)"
  by (simp add: say_def)

lemma log_run [simp]:
  "run_state (set_log s) g = ((), g\<lparr>gs_log := s\<rparr>)" "run_state verifier_log g = (gs_log g, g)"
  by (simp_all add: set_log_def verifier_log_def)

lemma proceed_run:
  "run_state m g = (Some a, g') \<Longrightarrow> run_state (proceed m f) g = run_state (f a) g'"
  "run_state m g = (None, g') \<Longrightarrow> run_state (proceed m f) g = (None, g')"
  by (simp_all add: proceed_def)

text \<open>A sequence of calls that succeed and change the totals by \<open>f\<close>.\<close>

lemma attempt_each_fold:
  assumes "J t g"
    and "\<And>x t g. x \<in> set xs \<Longrightarrow> J t g \<Longrightarrow> \<exists>g'. run_state (body x t) g = (Some (f x t), g') \<and> J (f x t) g'"
  shows "\<exists>g'. run_state (attempt_each xs body t) g = (Some (fold f xs t), g') \<and> J (fold f xs t) g'"
  using assms
proof (induction xs arbitrary: t g)
  case (Cons x xs)
  then obtain g1 where g1: "run_state (body x t) g = (Some (f x t), g1)" "J (f x t) g1"
    by (meson list.set_intros(1))
  with Cons.IH [of "f x t" g1] Cons.prems(2) show ?case by (simp add: proceed_run(1) [OF g1(1)])
qed simp

text \<open>The guest's fields in one order.\<close>

lemma guest_order:
  "g\<lparr>gs_world := w, gs_log := l\<rparr> = g\<lparr>gs_log := l, gs_world := w\<rparr>"
  "g\<lparr>gs_out := out, gs_world := w\<rparr> = g\<lparr>gs_world := w, gs_out := out\<rparr>"
  "g\<lparr>gs_out := out, gs_log := l\<rparr> = g\<lparr>gs_log := l, gs_out := out\<rparr>"
  by (cases g; simp)+

definition ends_in :: "'a \<Rightarrow> ('w, 'a) guest_op \<Rightarrow> bool" where
  "ends_in a m \<longleftrightarrow> (\<forall>g. fst (run_state m g) = a)"

lemma ends_in_bind: "(\<And>x. ends_in a (f x)) \<Longrightarrow> ends_in a (m \<bind> f)"
  by (simp add: ends_in_def split: prod.split)

lemma ends_in_if: "ends_in a m \<Longrightarrow> ends_in a m' \<Longrightarrow> ends_in a (if c then m else m')"
  by simp

subsection \<open>The log\<close>

lemma strstr_here: "strstr (needle @ post) needle"
proof (cases "needle @ post")
  case (Cons c cs)
  have "take (length needle) (needle @ post) = needle" by simp
  then show ?thesis unfolding Cons by simp
qed simp

lemma strstr_within: "strstr (pre @ needle @ post) needle"
  by (induction pre) (simp_all add: strstr_here)

text \<open>The log holds the message; it is text, and fits the buffer.\<close>

definition log_shows :: "string \<Rightarrow> string \<Rightarrow> bool" where
  "log_shows log message \<longleftrightarrow>
     (\<exists>pre post. log = pre @ message @ post) \<and> CHR 0x00 \<notin> set log \<and> length log < LOG_SIZE"

text \<open>The buffer holds all of a log that fits.\<close>

lemma log_kept:
  assumes "log_shows log message"
  shows "cstring (take (LOG_SIZE - 1) log) = log"
proof -
  have "length log \<le> LOG_SIZE - 1" using assms by (simp add: log_shows_def) linarith
  then have "take (LOG_SIZE - 1) log = log" by (rule take_all)
  moreover have "takeWhile (\<lambda>c. c \<noteq> CHR 0x00) log = log"
    using assms by (subst takeWhile_eq_all_conv) (auto simp: log_shows_def)
  ultimately show ?thesis by (simp add: cstring_def)
qed

end
