(* ===== verification/OwnGuest.thy ===== *)
theory OwnGuest
  imports JitTheorems GuestOps
begin

text \<open>
  The ownership guest's loader, \<open>run_case\<close> and \<open>main\<close> of \<open>src/linux/ownership/guest.c\<close>: it
  loads each of the seven fixtures (\<open>guest_case\<close>, theory \<open>JitProgram\<close>), prints the verifier's log and the
  native image, and executes those the verifier must accept.
\<close>

subsection \<open>System calls\<close>

text \<open>
  \<open>ow_native_image\<close> gives whether the call failed, the length it left in \<open>jited_prog_len\<close> and the words it
  wrote; \<open>ow_test_run\<close> whether it failed and the value it left in \<open>retval\<close>.
\<close>

record 'w own_os =
  ow_errno :: "'w \<Rightarrow> int"
  ow_getpid :: "'w \<Rightarrow> int"
  ow_uname :: "'w \<Rightarrow> string option"
  ow_prog_load :: "load_attr \<Rightarrow> 'w \<Rightarrow> (int \<times> string) \<times> 'w"
  ow_native_image :: "int \<Rightarrow> 'w \<Rightarrow> (bool \<times> u32 \<times> u32 list) \<times> 'w"
  ow_test_run :: "test_attr \<Rightarrow> 'w \<Rightarrow> (bool \<times> u32) \<times> 'w"
  ow_close :: "int \<Rightarrow> 'w \<Rightarrow> 'w"

definition EACCES :: int where "EACCES = 13"
definition NATIVE_BYTES :: u32 where "NATIVE_BYTES = 4 * 2048"

subsection \<open>One case\<close>

definition own_insn_line :: "nat \<Rightarrow> bpf_insn \<Rightarrow> string" where
  "own_insn_line pc i =
     ''CBPF_M3 bpf pc='' @ decimal pc @ '' code='' @ hex_byte (i_code i) @
     '' dst='' @ decimal (unat (i_dst i)) @ '' src='' @ decimal (unat (i_src i)) @
     '' off='' @ decimal_int (sint (i_off i)) @ '' imm='' @ decimal_int (sint (i_imm i)) @ NL"

definition word_line :: "nat \<Rightarrow> u32 \<Rightarrow> string" where
  "word_line n w = ''CBPF_M3 word index='' @ decimal n @ '' value='' @ hex_word w @ NL"

definition own_attr :: "bpf_insn list \<Rightarrow> load_attr" where
  "own_attr insns =
     \<lparr>la_prog_type = BPF_PROG_TYPE_SCHED_CLS, la_insn_cnt = of_nat (length insns),
      la_insns = insns, la_license = ''GPL'', la_log_level = 2, la_log_size = LOG_SIZE,
      la_fd_array = [], la_prog_name = ''cbpf_ownership''\<rparr>"

text \<open>The locals of \<open>run_case\<close> at the label \<open>out\<close>; \<open>co_failed\<close> is its result.\<close>

record case_out =
  co_load_errno :: int
  co_executed :: bool
  co_retval :: u32
  co_jited_len :: u32
  co_stage :: string
  co_failed :: bool

definition loaded_out :: "int \<Rightarrow> bool \<Rightarrow> case_out" where
  "loaded_out load_errno failed =
     \<lparr>co_load_errno = load_errno, co_executed = False, co_retval = 0, co_jited_len = 0,
      co_stage = ''load'', co_failed = failed\<rparr>"

definition image_out :: "u32 \<Rightarrow> case_out" where
  "image_out len =
     \<lparr>co_load_errno = 0, co_executed = False, co_retval = 0, co_jited_len = len,
      co_stage = ''native_image'', co_failed = True\<rparr>"

definition executed_out :: "u32 \<Rightarrow> u32 \<Rightarrow> bool \<Rightarrow> case_out" where
  "executed_out len retval failed =
     \<lparr>co_load_errno = 0, co_executed = True, co_retval = retval, co_jited_len = len,
      co_stage = ''execute'', co_failed = failed\<rparr>"

definition case_end_line :: "string \<Rightarrow> int \<Rightarrow> case_out \<Rightarrow> string" where
  "case_end_line name fd co =
     ''CBPF_M3 case='' @ name @ '' phase=end loaded='' @ (if 0 \<le> fd then ''1'' else ''0'') @
     '' executed='' @ (if co_executed co then ''1'' else ''0'') @
     '' retval='' @ decimal (unat (if co_executed co then co_retval co else 0)) @
     '' jited_len='' @ decimal (unat (co_jited_len co)) @
     '' load_errno='' @ decimal_int (co_load_errno co) @ '' stage='' @ co_stage co @
     '' result='' @ (if co_failed co then ''FAIL'' else ''PASS'') @ NL"

definition rejection_expected :: "int \<Rightarrow> int \<Rightarrow> string \<Rightarrow> bool" where
  "rejection_expected fd load_errno log \<longleftrightarrow>
     fd < 0 \<and> (load_errno = EACCES \<or> load_errno = EINVAL) \<and>
     list_ex (strstr log)
       [''R1 type=scalar'', ''R1 !read_ok'', ''R1 must be referenced'',
        ''arg#0 pointer type STRUCT cbpf_cap_ref must point to scalar'']"

text \<open>From the load to the label \<open>out\<close>.\<close>

definition run_loaded_case :: "'w own_os \<Rightarrow> int \<Rightarrow> int \<Rightarrow> u32 \<Rightarrow> bool \<Rightarrow> ('w, case_out) guest_op" where
  "run_loaded_case os fd load_errno expected reject =
     (if reject then do {
        log \<leftarrow> verifier_log;
        ret (loaded_out load_errno (\<not> rejection_expected fd load_errno log))
      } else if fd < 0 then ret (loaded_out load_errno True)
      else do {
        (failed, len, words) \<leftarrow> sys (ow_native_image os fd);
        (if failed \<or> len = 0 \<or> NATIVE_BYTES < len \<or> len mod 4 \<noteq> 0 then ret (image_out len)
         else do {
           say (concat (map (\<lambda>(n, w). word_line n w) (enumerate 0 (take (unat len div 4) words))));
           (failed, retval) \<leftarrow> sys (ow_test_run os (test_attr_of fd));
           ret (executed_out len retval (failed \<or> retval \<noteq> expected))
         })
      })"

definition run_case :: "'w own_os \<Rightarrow> string \<Rightarrow> bpf_insn list \<Rightarrow> u32 \<Rightarrow> bool \<Rightarrow> ('w, bool) guest_op" where
  "run_case os name insns expected reject = do {
     say (''CBPF_M3 case='' @ name @ '' phase=begin expected='' @
          (if reject then ''reject'' else ''execute'') @ NL);
     say (concat (map (\<lambda>(pc, i). own_insn_line pc i) (enumerate 0 insns)));
     (fd, log) \<leftarrow> sys (ow_prog_load os (own_attr insns));
     load_errno \<leftarrow> (if fd < 0 then query (ow_errno os) else ret 0);
     set_log (cstring (take (LOG_SIZE - 1) log));
     log \<leftarrow> verifier_log;
     say (''CBPF_M3 verifier_begin'' @ NL @ log @ ''CBPF_M3 verifier_end'' @ NL);
     co \<leftarrow> run_loaded_case os fd load_errno expected reject;
     say (case_end_line name fd co);
     (if 0 \<le> fd then change (ow_close os fd) else ret ());
     ret (co_failed co)
   }"

subsection \<open>All cases\<close>

definition case_names :: "string list" where
  "case_names =
     [''ab_spill'', ''ab_alternate'', ''null_second'', ''fail_second'', ''stale_copy'',
      ''stale_spill'', ''duplicate_release'']"

text \<open>The tests that are left, up to the first failure: whether one failed.\<close>

primrec run_tests :: "'w own_os \<Rightarrow> btf_ids \<Rightarrow> nat list \<Rightarrow> ('w, bool) guest_op" where
  "run_tests os B [] = ret False"
| "run_tests os B (test # tests) =
     (case guest_case B test of (insns, expected, reject) \<Rightarrow> do {
        failed \<leftarrow> run_case os (case_names ! test) insns expected reject;
        (if failed then ret True else run_tests os B tests)
      })"

definition own_guest_main :: "'w own_os \<Rightarrow> btf_ids \<Rightarrow> string \<Rightarrow> ('w, guest_end) guest_op" where
  "own_guest_main os B expected_release = do {
     pid \<leftarrow> query (ow_getpid os);
     identity \<leftarrow> query (ow_uname os);
     (if pid \<noteq> 1 \<or> identity \<noteq> Some expected_release then do {
        say (''CBPF_M3 identity=FAIL executed=0 poweroff=0'' @ NL);
        ret (Guest_Returned 1)
      } else do {
        say (''CBPF_M3 kernel='' @ expected_release @ '' normal_verifier=1 attached=0'' @ NL);
        failed \<leftarrow> run_tests os B [0..<7];
        say (''CBPF_M3 result='' @ (if failed then ''FAIL'' else ''PASS'') @ NL);
        ret Guest_Poweroff
      })
   }"

end
