(* ===== verification/OwnGuestProps.thy ===== *)
theory OwnGuestProps
  imports OwnGuest
begin

text \<open>
  The ownership guest on the kernel of this repository: the locale \<open>ownership_kernel\<close> is the
  system-call interface with the kernel's gates and its compiler's admission behind it.
\<close>

subsection \<open>The kernel behind the system calls\<close>

text \<open>
  The verifier's message for the fixtures 4, 5 and 6, as
  \<open>evidence/current/ownership-closure/boot.log\<close> records it for each: the alias of the released handle
  is a scalar.
\<close>

definition own_diagnosis :: string where
  "own_diagnosis = ''arg#0 pointer type STRUCT cbpf_cap_ref must point to scalar, or struct with scalar''"

text \<open>
  \<open>kern\<close> is the state of the gates, \<open>progs\<close> the programs that are loaded. A program is loaded
  when the verifier accepts it, as it does the first four fixtures, and the compiler admits
  it; a test run is an invocation of its native code.
\<close>

locale ownership_kernel =
  fixes os :: "'w own_os"
    and B :: btf_ids
    and expected_release :: string
    and K :: "'v kplatform"
    and a :: enter_args
    and prog :: u64
    and wrong :: "'v native"
    and E :: "'z jit_env_scheme"
    and kern :: "'w \<Rightarrow> 'v kernel"
    and progs :: "'w \<Rightarrow> int \<rightharpoonup> bpf_insn list"
  assumes own_pid: "ow_getpid os w = 1"
    and own_release: "ow_uname os w = Some expected_release"
    and own_accepts: "test < 4 \<Longrightarrow> admit E (fst (guest_case B test)) = Inr adm \<Longrightarrow>
      \<exists>fd log w'. ow_prog_load os (own_attr (fst (guest_case B test))) w = ((fd, log), w') \<and> 0 \<le> fd \<and>
        progs w fd = None \<and> progs w' = (progs w)(fd \<mapsto> fst (guest_case B test)) \<and> kern w' = kern w"
    and own_rejects: "4 \<le> test \<Longrightarrow> test < 7 \<Longrightarrow>
      \<exists>fd log w'. ow_prog_load os (own_attr (fst (guest_case B test))) w = ((fd, log), w') \<and> fd < 0 \<and>
        ow_errno os w' \<in> {EACCES, EINVAL} \<and> log_shows log own_diagnosis \<and>
        progs w' = progs w \<and> kern w' = kern w"
    and own_image: "progs w fd = Some insns \<Longrightarrow>
      \<exists>len words w'. ow_native_image os fd w = ((False, len, words), w') \<and> len \<noteq> 0 \<and>
        len \<le> NATIVE_BYTES \<and> len mod 4 = 0 \<and> progs w' = progs w \<and> kern w' = kern w"
    and own_test_run: "progs w fd = Some insns \<Longrightarrow>
      cbpf_test_invoke K prog True (bpf_program wrong a (kp_cheri K) E insns) (kern w) = (v, log, k') \<Longrightarrow>
      runs_once attr fd \<Longrightarrow>
      \<exists>w'. ow_test_run os attr w = ((False, v), w') \<and> progs w' = progs w \<and> kern w' = k'"
    and own_close: "progs (ow_close os fd w) = (progs w)(fd := None)" "kern (ow_close os fd w) = kern w"

text \<open>The gates before any program has run: nothing is live, and the fixtures' calls reach them.\<close>

definition gates_ready :: "btf_ids \<Rightarrow> 'v kplatform \<Rightarrow> enter_args \<Rightarrow> u64 \<Rightarrow> 'z jit_env_scheme \<Rightarrow> 'v kernel \<Rightarrow> bool" where
  "gates_ready B K a prog E k \<longleftrightarrow>
     kernel_idle K k \<and> kernel_representable K \<and> ko_value (k_object k) = 42 \<and>
     (\<forall>i < ARRAY_SIZE_cells. kp_cell K i \<noteq> - 1) \<and> enters K a prog k \<and> resolves B E"

subsection \<open>Running the cases\<close>

lemma guest_invocation:
  assumes ready: "gates_ready B K a prog E k" and test: "test < 4"
  shows "\<exists>log. cbpf_test_invoke K prog True (bpf_program wrong a (kp_cheri K) E (fst (guest_case B test))) k =
    (fst (snd (guest_case B test)), log, k)"
proof -
  obtain v log k' where run: "cbpf_test_invoke K prog True
      (bpf_program wrong a (kp_cheri K) E (fst (guest_case B test))) k = (v, log, k')" by (metis prod_cases3)
  have r: "kernel_idle K k" "kernel_representable K" "enters K a prog k" "resolves B E"
    "word_of_int (ko_value (k_object k)) = (42 :: u64)"
    "value_fits K (word_of_int (ko_value (k_object k)))"
    using ready by (simp_all add: gates_ready_def value_fits_def)
  have out: "abs_run 42 E (fst (guest_case B test)) = guest_outcome test"
    using guest_runs(1) [OF r(4), of test] test by simp
  then have "abs_run 42 E (fst (guest_case B test)) \<noteq> Wrong" by (simp add: guest_outcome_def)
  then have "v = outcome_value (guest_outcome test)"
    using invocation_outcome(1) [OF r(1,2,6,3) _ run] out unfolding r(5) by simp
  moreover have "test \<in> {0, 1, 2, 3}" using test by auto
  then have "outcome_value (guest_outcome test) = fst (snd (guest_case B test))"
    unfolding guest_expected
    by (elim insertE emptyE) (simp_all add: guest_outcome_def outcome_value_def)
  ultimately show ?thesis using run invocation_restores [OF r(1) run] by auto
qed

lemma rejection_shown:
  assumes "log_shows log own_diagnosis" and "e \<in> {EACCES, EINVAL}" and "fd < 0"
  shows "rejection_expected fd e log"
proof -
  let ?m = "''arg#0 pointer type STRUCT cbpf_cap_ref must point to scalar''"
  obtain pre post where log: "log = pre @ own_diagnosis @ post"
    using assms(1) unfolding log_shows_def by blast
  have part: "strstr log m" if "own_diagnosis = m @ rest" for m rest
    unfolding log that append_assoc by (rule strstr_within)
  have "own_diagnosis = ?m @ '', or struct with scalar''" by (simp add: own_diagnosis_def)
  from part [OF this] show ?thesis using assms(2,3) unfolding rejection_expected_def by simp
qed

context ownership_kernel
begin

lemma executed_case:
  assumes ready: "gates_ready B K a prog E (kern (gs_world g))" and test: "test < 4"
    and c: "guest_case B test = (insns, expected, reject)"
  shows "\<exists>g'. run_state (run_case os name insns expected reject) g = (False, g') \<and>
    kern (gs_world g') = kern (gs_world g)"
proof -
  have i: "insns = fst (guest_case B test)" "expected = fst (snd (guest_case B test))" "\<not> reject"
    using c test by (auto simp: guest_case_def Let_def split: if_splits)
  obtain adm where adm: "admit E insns = Inr adm"
    using guest_runs(2) [of B E test] ready test i(1) by (auto simp: gates_ready_def)
  obtain fd log w1 where w1: "ow_prog_load os (own_attr insns) (gs_world g) = ((fd, log), w1)" "0 \<le> fd"
    "progs w1 = (progs (gs_world g))(fd \<mapsto> insns)" "kern w1 = kern (gs_world g)"
    using own_accepts [OF test, of adm "gs_world g"] adm unfolding i(1) by blast
  obtain len words w2 where w2: "ow_native_image os fd w1 = ((False, len, words), w2)" "len \<noteq> 0"
    "len \<le> NATIVE_BYTES" "len mod 4 = 0" "progs w2 = progs w1" "kern w2 = kern w1"
    using own_image [of w1 fd insns] w1(3) by (metis fun_upd_same)
  obtain w3 where w3: "ow_test_run os (test_attr_of fd) w2 = ((False, expected), w3)" "kern w3 = kern (gs_world g)"
    using guest_invocation [OF ready test, of wrong] own_test_run [of w2 fd insns _ _ _ "test_attr_of fd"] w1(3,4) w2(5,6)
    unfolding i(1,2) by fastforce
  have fits: "\<not> NATIVE_BYTES < len" using w2(3) by simp
  have "\<exists>out. run_state (run_case os name insns expected reject) g =
      (False, g\<lparr>gs_log := cstring (take (LOG_SIZE - 1) log), gs_world := ow_close os fd w3, gs_out := out\<rparr>)"
    using w1(1,2) w2(1,2,4) fits w3(1) i(3)
    by (simp add: run_case_def run_loaded_case_def guest_order executed_out_def) blast
  then show ?thesis using w3(2) own_close(2) by auto
qed

lemma rejected_case:
  assumes test: "4 \<le> test" "test < 7" and c: "guest_case B test = (insns, expected, reject)"
  shows "\<exists>g'. run_state (run_case os name insns expected reject) g = (False, g') \<and>
    kern (gs_world g') = kern (gs_world g)"
proof -
  have i: "insns = fst (guest_case B test)" "reject"
    using c test by (auto simp: guest_case_def Let_def split: if_splits)
  obtain fd log w1 where w1: "ow_prog_load os (own_attr insns) (gs_world g) = ((fd, log), w1)" "fd < 0"
    "ow_errno os w1 \<in> {EACCES, EINVAL}" "log_shows log own_diagnosis" "kern w1 = kern (gs_world g)"
    using own_rejects [OF test, of "gs_world g"] unfolding i(1) by blast
  have "rejection_expected fd (ow_errno os w1) log" by (rule rejection_shown [OF w1(4,3,2)])
  then have "\<exists>out. run_state (run_case os name insns expected reject) g =
      (False, g\<lparr>gs_log := log, gs_world := w1, gs_out := out\<rparr>)"
    using w1(1,2) i(2) log_kept [OF w1(4)]
    by (simp add: run_case_def run_loaded_case_def guest_order loaded_out_def) blast
  then show ?thesis using w1(5) by auto
qed

lemma tests_pass:
  "gates_ready B K a prog E (kern (gs_world g)) \<Longrightarrow> \<forall>t \<in> set tests. t < 7 \<Longrightarrow>
   \<exists>g'. run_state (run_tests os B tests) g = (False, g') \<and> kern (gs_world g') = kern (gs_world g)"
proof (induction tests arbitrary: g)
  case (Cons test tests)
  obtain insns expected reject where c: "guest_case B test = (insns, expected, reject)" by (metis prod_cases3)
  obtain g1 where g1: "run_state (run_case os (case_names ! test) insns expected reject) g = (False, g1)"
    "kern (gs_world g1) = kern (gs_world g)"
    using executed_case [OF Cons.prems(1) _ c] rejected_case [OF _ _ c] Cons.prems(2)
    by (cases "test < 4") (fastforce simp: not_less)+
  obtain g2 where "run_state (run_tests os B tests) g1 = (False, g2)" "kern (gs_world g2) = kern (gs_world g1)"
    using Cons.IH [of g1] Cons.prems g1(2) by auto
  then show ?case using g1 c by simp
qed simp

lemma own_main_run:
  assumes ready: "gates_ready B K a prog E (kern (gs_world g))"
  shows "\<exists>g' out. run_state (own_guest_main os B expected_release) g = (Guest_Poweroff, g') \<and>
    gs_out g' = out @ ''CBPF_M3 result=PASS'' @ NL \<and> kern (gs_world g') = kern (gs_world g)"
proof -
  let ?g = "g\<lparr>gs_out := gs_out g @ ''CBPF_M3 kernel='' @ expected_release @ '' normal_verifier=1 attached=0'' @ NL\<rparr>"
  obtain g1 where g1: "run_state (run_tests os B [0..<7]) ?g = (False, g1)" "kern (gs_world g1) = kern (gs_world g)"
    using tests_pass [of ?g "[0..<7]"] ready by auto
  have "run_state (own_guest_main os B expected_release) g =
      (Guest_Poweroff, g1\<lparr>gs_out := gs_out g1 @ ''CBPF_M3 result=PASS'' @ NL\<rparr>)"
    unfolding own_guest_main_def using g1(1) own_pid own_release
    by (simp del: append.simps upt_Suc run_tests.simps)
  then show ?thesis
    using g1(2) by (intro exI [of _ "g1\<lparr>gs_out := gs_out g1 @ ''CBPF_M3 result=PASS'' @ NL\<rparr>"]
      exI [of _ "gs_out g1"]) simp
qed

end

subsection \<open>A kernel with the gates behind it\<close>

record own_machine =
  om_kern :: "swcap kernel"
  om_files :: "bpf_insn list option list"
  om_errno :: int

definition om_progs :: "own_machine \<Rightarrow> int \<rightharpoonup> bpf_insn list" where
  "om_progs w fd = (if 0 \<le> fd \<and> nat fd < length (om_files w) then om_files w ! nat fd else None)"

definition om_rejection :: "bpf_insn list \<Rightarrow> nat option" where
  "om_rejection insns = find (\<lambda>test. fst (guest_case sample_ids test) = insns) [4, 5, 6]"

definition om_prog_load :: "load_attr \<Rightarrow> own_machine \<Rightarrow> (int \<times> string) \<times> own_machine" where
  "om_prog_load attr w =
     (case om_rejection (la_insns attr) of
        Some test \<Rightarrow> ((- 1, own_diagnosis @ NL), w\<lparr>om_errno := EINVAL\<rparr>)
      | None \<Rightarrow> ((int (length (om_files w)), []), w\<lparr>om_files := om_files w @ [Some (la_insns attr)]\<rparr>))"

definition om_test_run :: "test_attr \<Rightarrow> own_machine \<Rightarrow> (bool \<times> u32) \<times> own_machine" where
  "om_test_run attr w =
     (case om_progs w (ta_prog_fd attr) of
        None \<Rightarrow> ((True, 0), w)
      | Some insns \<Rightarrow>
          (case cbpf_test_invoke sample_kplatform 7 True
                  (bpf_program (Native_Return 9) sample_enter (kp_cheri sample_kplatform) sample_env insns) (om_kern w) of
             (v, log, k') \<Rightarrow> ((False, v), w\<lparr>om_kern := k'\<rparr>)))"

definition sample_own_os :: "own_machine own_os" where
  "sample_own_os =
     \<lparr>ow_errno = om_errno, ow_getpid = (\<lambda>w. 1), ow_uname = (\<lambda>w. Some ''6.7.0-cbpf''),
      ow_prog_load = om_prog_load, ow_native_image = (\<lambda>fd w. ((False, 8, [0, 1]), w)),
      ow_test_run = om_test_run,
      ow_close = (\<lambda>fd w. if fd < 0 then w else w\<lparr>om_files := (om_files w)[nat fd := None]\<rparr>)\<rparr>"

lemma om_rejects:
  assumes "4 \<le> test" and "test < 7"
  shows "\<exists>test'. om_rejection (fst (guest_case sample_ids test)) = Some test'"
proof -
  have "test = 4 \<or> test = 5 \<or> test = 6" using assms by auto
  then show ?thesis
    by (auto simp: om_rejection_def guest_case_def guest_program_def Let_def INSN_def IMM_def COPY_def CALL_def
        NULL_TO_def SPILL_FROM_def RELOAD_TO_def EXIT_def sample_ids_def)
qed

lemma om_accepts: "test < 4 \<Longrightarrow> om_rejection (fst (guest_case sample_ids test)) = None"
proof -
  assume "test < 4"
  then have t: "test \<in> set [0, 1, 2, 3]" by auto
  have "list_all (\<lambda>t. om_rejection (fst (guest_case sample_ids t)) = None) [0, 1, 2, 3]" by code_simp
  then show ?thesis using t unfolding list_all_iff by (rule bspec)
qed

interpretation sample_own: ownership_kernel sample_own_os sample_ids "''6.7.0-cbpf''" sample_kplatform
  sample_enter 7 "Native_Return 9" sample_env om_kern om_progs
proof (unfold_locales, goal_cases)
  case (3 test adm w)
  then show ?case
    by (auto simp: sample_own_os_def om_prog_load_def own_attr_def om_accepts om_progs_def nth_append fun_eq_iff)
next
  case (4 test w)
  obtain test' where t: "om_rejection (fst (guest_case sample_ids test)) = Some test'"
    using om_rejects 4 by blast
  have "log_shows (own_diagnosis @ NL) own_diagnosis"
    unfolding log_shows_def
    by (intro conjI exI [of _ "[]"] exI [of _ NL]) (simp_all add: NL_def LOG_SIZE_def own_diagnosis_def)
  then show ?case
    using t by (simp add: sample_own_os_def om_prog_load_def own_attr_def om_progs_def fun_eq_iff)
next
  case (5 w fd insns)
  show ?case by (auto simp: sample_own_os_def NATIVE_BYTES_def)
next
  case (6 w fd insns v log k' attr)
  then show ?case by (auto simp: sample_own_os_def om_test_run_def om_progs_def runs_once_def fun_eq_iff)
qed (auto simp: sample_own_os_def om_progs_def nth_list_update fun_eq_iff)

definition own_machine_start :: own_machine where
  "own_machine_start = \<lparr>om_kern = sample_kernel, om_files = [], om_errno = 0\<rparr>"

lemma sample_gates_ready:
  "gates_ready sample_ids sample_kplatform sample_enter 7 sample_env (om_kern own_machine_start)"
proof -
  have "\<forall>i < ARRAY_SIZE_cells. kp_cell sample_kplatform i \<noteq> - 1"
    using sample_kernel_fits(3) by (simp add: value_fits_def)
  then show ?thesis
    using sample_kernel_idle sample_representable sample_kernel_fits(1) sample_enters sample_resolves
    by (simp add: gates_ready_def own_machine_start_def)
qed

subsection \<open>Theorems\<close>

text \<open>
  C32. The ownership guest on this repository's kernel: with the gates idle and reachable and
  the verifier judging as documented, all seven cases pass (the compiler admits the four that are
  loaded, and their invocations return what the guest expects, the failing one 0),
  the guest prints PASS last and powers off, and the kernel's gates are exactly as before:
  no acquisition has survived.
\<close>

theorem own_guest_passes:
  assumes "ownership_kernel os B expected_release K a prog wrong E kern progs"
    and "gates_ready B K a prog E (kern (gs_world g))"
  shows "\<exists>g' out. run_state (own_guest_main os B expected_release) g = (Guest_Poweroff, g') \<and>
    gs_out g' = out @ ''CBPF_M3 result=PASS'' @ NL \<and> kern (gs_world g') = kern (gs_world g)"
  by (rule ownership_kernel.own_main_run [OF assms])

theorem own_guest_passes_witness:
  "\<exists>g' out. run_state (own_guest_main sample_own_os sample_ids ''6.7.0-cbpf'')
      \<lparr>gs_world = own_machine_start, gs_log = [], gs_out = []\<rparr> = (Guest_Poweroff, g') \<and>
    gs_out g' = out @ ''CBPF_M3 result=PASS'' @ NL \<and> om_kern (gs_world g') = sample_kernel"
proof -
  have k: "ownership_kernel sample_own_os sample_ids ''6.7.0-cbpf'' sample_kplatform sample_enter 7
      (Native_Return 9) sample_env om_kern om_progs"
    by (rule sample_own.ownership_kernel_axioms)
  from own_guest_passes [OF k, of "\<lparr>gs_world = own_machine_start, gs_log = [], gs_out = []\<rparr>"]
  show ?thesis using sample_gates_ready by (simp add: own_machine_start_def)
qed

text \<open>
  The ownership guest's guards, on any kernel. A case that must be rejected makes no other call
  than the load, a query of \<open>errno\<close> and the close: what it does is independent of the native image and the
  test run, and when the load succeeds, the case fails. And a process that is not 1 on the expected release returns 1
  without a call that changes the kernel.
\<close>

theorem own_guest_guards:
  "run_case (os\<lparr>ow_test_run := t, ow_native_image := n\<rparr>) name insns expected True =
     run_case os name insns expected True \<and>
   (fst (run_state (run_case os name insns expected True) g) \<or>
    fst (fst (ow_prog_load os (own_attr insns) (gs_world g))) < 0) \<and>
   (if ow_getpid os (gs_world g) = 1 \<and> ow_uname os (gs_world g) = Some expected_release
    then fst (run_state (own_guest_main os B expected_release) g) = Guest_Poweroff
    else run_state (own_guest_main os B expected_release) g =
      (Guest_Returned 1, g\<lparr>gs_out := gs_out g @ ''CBPF_M3 identity=FAIL executed=0 poweroff=0'' @ NL\<rparr>))"
proof (intro conjI)
  let ?os = "os\<lparr>ow_test_run := t, ow_native_image := n\<rparr>"
  have e: "ow_prog_load ?os = ow_prog_load os" "ow_errno ?os = ow_errno os" "ow_close ?os = ow_close os"
    by simp_all
  have "run_loaded_case ?os fd le x True = run_loaded_case os fd le x True" for fd le x
    by (simp add: run_loaded_case_def)
  then show "run_case ?os name insns expected True = run_case os name insns expected True"
    unfolding run_case_def e by (simp only:)
  obtain fd log w where l: "ow_prog_load os (own_attr insns) (gs_world g) = ((fd, log), w)"
    by (metis prod.exhaust)
  show "fst (run_state (run_case os name insns expected True) g) \<or>
      fst (fst (ow_prog_load os (own_attr insns) (gs_world g))) < 0"
  proof (cases "fd < 0")
    case False
    then show ?thesis
      by (simp add: run_case_def l run_loaded_case_def loaded_out_def rejection_expected_def del: append.simps)
  qed (simp add: l)
  show "if ow_getpid os (gs_world g) = 1 \<and> ow_uname os (gs_world g) = Some expected_release
    then fst (run_state (own_guest_main os B expected_release) g) = Guest_Poweroff
    else run_state (own_guest_main os B expected_release) g =
      (Guest_Returned 1, g\<lparr>gs_out := gs_out g @ ''CBPF_M3 identity=FAIL executed=0 poweroff=0'' @ NL\<rparr>)"
    by (auto simp: own_guest_main_def split: prod.split simp del: append.simps run_tests.simps upt_Suc)
qed

end
