(* ===== verification/KernelTheorems.thy ===== *)
theory KernelTheorems
  imports KernelProps
begin

text \<open>The properties of the kernel gates, of the restricted entry and of the boot checks.\<close>

subsection \<open>Boot checks\<close>

text \<open>The state a check's first gate calls run in.\<close>

lemma check_start:
  assumes "kernel_idle K k"
  defines "k0 \<equiv> set_active (new_invocation (kp_cheri K) 0 True) k"
  shows "gate_ready K k0" and "iv_acquired (active k0) = 0" and "iv_released (active k0) = 0"
    and "iv_reads (active k0) = 0" and "iv_cleanup (active k0) = 0"
    and "length (iv_cells (active k0)) = 2" and "length (iv_views (active k0)) = 2"
    and "k_object k0 = k_object k" and "k_rddc k0 = k_rddc k" and "k_rcsp k0 = k_rcsp k"
  using new_invocation_inv [OF assms(1), of 0 True]
  by (simp_all add: k0_def gate_ready_def new_invocation_def ARRAY_SIZE_cells_def)

text \<open>The label \<open>out\<close> with nothing left to sweep: the kernel is as it was.\<close>

lemma check_out_clean:
  assumes "\<not> cheri_tag_get (kp_cheri K) (iv_cells (active k) ! 0)"
    and "\<not> cheri_tag_get (kp_cheri K) (iv_cells (active k) ! 1)"
  shows "check_out K pass k = (pass, k\<lparr>k_active := None\<rparr>)"
proof -
  have "[0..<ARRAY_SIZE_cells] = [0, 1]" by (simp add: ARRAY_SIZE_cells_def upt_rec)
  then show ?thesis using assms by (simp add: check_out_def kernel_sweep1_def)
qed

lemma kernel_back:
  assumes "kernel_idle K k" and "k_object k' = k_object k" and "k_rddc k' = k_rddc k"
    and "k_rcsp k' = k_rcsp k"
  shows "k'\<lparr>k_active := None\<rparr> = k"
  using assms by (simp add: kernel_idle_def)

text \<open>
  The state between two gate calls of a check: \<open>live\<close> says of each acquisition whether it is still
  live, \<open>released\<close> and \<open>reads\<close> count the calls; the rest is as it was in \<open>k\<close>.
\<close>

definition check_at :: "'v kplatform \<Rightarrow> 'v kernel \<Rightarrow> bool list \<Rightarrow> nat \<Rightarrow> u32 \<Rightarrow> 'v kernel \<Rightarrow> bool" where
  "check_at K k live released reads kc \<longleftrightarrow>
     counts_are (length live) released reads (1 + int (length live) - int released) kc \<and>
     k_object kc = (k_object k)\<lparr>ko_refs := 1 + int (length live) - int released\<rparr> \<and>
     k_rddc kc = k_rddc k \<and> k_rcsp kc = k_rcsp k \<and>
     length (iv_cells (active kc)) = ARRAY_SIZE_cells \<and> length (iv_views (active kc)) = ARRAY_SIZE_cells \<and>
     (\<forall>i < ARRAY_SIZE_cells. cheri_tag_get (kp_cheri K) (iv_cells (active kc) ! i) \<longleftrightarrow> i < length live \<and> live ! i) \<and>
     (\<forall>i < length live. iv_views (active kc) ! i = cell_view K i)"

lemma check_begin:
  assumes "kernel_idle K k"
  shows "gate_ready K (set_active (new_invocation (kp_cheri K) 0 True) k)"
    and "check_at K k [] 0 0 (set_active (new_invocation (kp_cheri K) 0 True) k)"
proof -
  note c0 = check_start [OF assms]
  show "gate_ready K (set_active (new_invocation (kp_cheri K) 0 True) k)" by (rule c0(1))
  then have "kernel_inv K (set_active (new_invocation (kp_cheri K) 0 True) k)" by (simp add: gate_ready_def)
  then show "check_at K k [] 0 0 (set_active (new_invocation (kp_cheri K) 0 True) k)"
    using c0 assms
    by (simp add: check_at_def counts_are_def kernel_inv_def kernel_idle_def ARRAY_SIZE_cells_def del: active_simps)
qed

lemma check_acquire:
  assumes rdy: "gate_ready K kc" and at: "check_at K k live released reads kc"
    and rep: "kernel_representable K" and room: "length live < ARRAY_SIZE_cells"
  obtains kc' where
    "cbpf_gate_impl K (cheri_from_u64 (kp_cheri K) 0) 1 pc kc = (cell_view K (length live), kc')"
    "gate_ready K kc'" "check_at K k (live @ [True]) released reads kc'"
proof -
  let ?C = "kp_cheri K"
  have n: "iv_acquired (active kc) = length live" using at by (simp add: check_at_def counts_are_def)
  then have room': "iv_acquired (active kc) < ARRAY_SIZE_cells" using room by simp
  have tags: "cheri_tag_get ?C (cell_view K (iv_acquired (active kc)))" "cheri_tag_get ?C (object_cap K)"
    using rep room n by (simp_all add: kernel_representable_def)
  have inv: "kernel_inv K kc" using rdy by (simp add: gate_ready_def)
  define kc' where "kc' = cbpf_trace ?C ''acquire'' pc (iv_acquired (active kc) + 1) (acquired_state K kc)"
  note sel = acquired_sel [OF inv room' kc'_def]
  show thesis
  proof
    show "cbpf_gate_impl K (cheri_from_u64 ?C 0) 1 pc kc = (cell_view K (length live), kc')"
      using gate_acquire_fresh [OF rdy room' tags] n by (simp add: kc'_def)
    show "gate_ready K kc'" unfolding kc'_def by (rule acquired_ready [OF rdy room' tags])
    show "check_at K k (live @ [True]) released reads kc'"
      using at sel n room tags(2)
      by (auto simp: check_at_def counts_are_def nth_append nth_list_update less_Suc_eq)
  qed
qed

lemma check_release:
  assumes rdy: "gate_ready K kc" and at: "check_at K k live released reads kc"
    and i: "i < length live" "live ! i"
  shows "gate_ready K (kernel_consume (kp_cheri K) i pc False kc)"
    and "check_at K k (live[i := False]) (released + 1) reads (kernel_consume (kp_cheri K) i pc False kc)"
    and "i < iv_acquired (active kc)" and "cheri_tag_get (kp_cheri K) (iv_cells (active kc) ! i)"
proof -
  have inv: "kernel_inv K kc" using rdy by (simp add: gate_ready_def)
  then have "cheri_laws (kp_cheri K)" by (simp add: kernel_inv_def)
  note L = cheri_lawsD(2) [OF this]
  show l: "i < iv_acquired (active kc)" using at i by (simp add: check_at_def counts_are_def)
  then have "i < ARRAY_SIZE_cells" using kernel_inv_acquired [OF inv] by simp
  then show t: "cheri_tag_get (kp_cheri K) (iv_cells (active kc) ! i)" using at i by (simp add: check_at_def)
  show "gate_ready K (kernel_consume (kp_cheri K) i pc False kc)" by (rule released_ready [OF rdy l t])
  show "check_at K k (live[i := False]) (released + 1) reads (kernel_consume (kp_cheri K) i pc False kc)"
    using at i L by (auto simp: check_at_def counts_are_def kernel_consume_sel nth_list_update)
qed

lemma check_reject:
  assumes "gate_ready K kc" and "check_at K k live released reads kc"
  shows "check_at K k live released reads (snd (cbpf_fail (kp_cheri K) pc kc))"
    and "iv_failed (active (snd (cbpf_fail (kp_cheri K) pc kc)))"
  using fail_sel [OF gate_ready_active [OF assms(1)] refl, of "kp_cheri K" pc] assms(2)
  by (simp_all add: check_at_def counts_are_def)

lemma check_end:
  assumes idle: "kernel_idle K k" and at: "check_at K k live (length live) reads kc" and dead: "True \<notin> set live"
  shows "check_out K pass kc = (pass, k)"
proof -
  have "\<not> cheri_tag_get (kp_cheri K) (iv_cells (active kc) ! i)" if "i < 2" for i
    using at dead that by (fastforce simp: check_at_def ARRAY_SIZE_cells_def in_set_conv_nth)
  then have "check_out K pass kc = (pass, kc\<lparr>k_active := None\<rparr>)" by (intro check_out_clean) simp_all
  moreover have "kc\<lparr>k_active := None\<rparr> = k"
    using at idle by (intro kernel_back [OF idle]) (simp_all add: check_at_def counts_are_def kernel_idle_def)
  ultimately show ?thesis by simp
qed

text \<open>The guard checks and the first callback check keep the alias of a released acquisition.\<close>

lemma check_alias:
  assumes "gate_ready K kc" and "check_at K k [False] released reads kc"
  shows "stale_alias (kp_cheri K) (cell_view K 0) kc" and "0 < iv_acquired (active kc)"
    and "\<not> cheri_tag_get (kp_cheri K) (iv_cells (active kc) ! 0)"
  using assms cheri_lawsD(1) [of "kp_cheri K"]
  by (simp_all add: check_at_def counts_are_def stale_alias_def gate_ready_def kernel_inv_def ARRAY_SIZE_cells_def)

lemma guard_check_passes:
  assumes idle: "kernel_idle K k" and rep: "kernel_representable K"
    and op: "operation = 2 \<or> operation = 3"
  shows "cbpf_guard_check K use_spill operation k = (True, k)"
proof -
  let ?C = "kp_cheri K" and ?v = "cell_view K 0"
  have "cheri_laws ?C" using idle by (simp add: kernel_idle_def)
  note L = cheri_lawsD(5) [OF this]
  have dist: "distinct_cells K" and tag: "cheri_tag_get ?C ?v"
    using rep by (simp_all add: kernel_representable_def ARRAY_SIZE_cells_def)
  obtain k1 where k1: "cbpf_gate_impl K (cheri_from_u64 ?C 0) 1 0 (set_active (new_invocation ?C 0 True) k) = (?v, k1)"
    "gate_ready K k1" "check_at K k [True] 0 0 k1"
    using check_acquire [OF check_begin [OF idle] rep, of 0] by (auto simp: ARRAY_SIZE_cells_def)
  define k2 where "k2 = kernel_consume ?C 0 1 False k1"
  note r = check_release(1,2) [OF k1(2,3), of 0 1, folded k2_def, simplified] and r' = check_release(3,4) [OF k1(2,3), of 0, simplified]
  have g2: "cbpf_gate_impl K ?v 3 1 k1 = (cheri_from_u64 ?C 0, k2)"
    using gate_release_live [OF k1(2) dist r'] by (simp add: k2_def)
  note al = check_alias [OF r(1,2)]
  define k3 where "k3 = snd (cbpf_fail ?C 2 k2)"
  have g3: "cbpf_gate_impl K ?v operation 2 k2 = (CBPF_FAILURE ?C, k3)"
    using gate_stale [OF r(1) dist al(2,3) op] gate_ready_active [OF r(1)] by (simp add: k3_def fail_eq)
  have a3: "check_at K k [False] 1 0 k3" "iv_failed (active k3)"
    using check_reject [OF r(1,2)] by (simp_all add: k3_def)
  have v3: "stale_alias ?C ?v k3"
    using al(1) fail_sel [OF gate_ready_active [OF r(1)] k3_def] by (simp add: stale_alias_def)
  have n: "counts_are 1 0 0 2 k1" "counts_are 1 1 0 1 k2" "counts_are 1 1 0 1 k3"
    using k1(3) r(2) a3(1) by (simp_all add: check_at_def)
  have out: "check_out K True k3 = (True, k)" using check_end [OF idle, of "[False]" 0 k3] a3(1) by simp
  have f: "\<not> iv_failed (active k1)" "\<not> iv_failed (active k2)" using k1(2) r(1) by (simp_all add: gate_ready_def)
  show ?thesis
    using k1(1) g2 g3 n f al(1) a3(2) v3 tag L out idle
    by (simp add: cbpf_guard_check_def Let_def kernel_idle_def)
qed

text \<open>One callback on an issued alias: a release, a rejection, or a read and a release.\<close>

lemma callback_release:
  assumes rdy: "gate_ready K k" and dist: "distinct_cells K" and i: "i < iv_acquired (active k)"
    and live: "cheri_tag_get (kp_cheri K) (iv_cells (active k) ! i)"
    and ctx: "i = (if cc_independent ctx then iteration else 0)" "cc_aliases ctx ! i = cell_view K i"
      "\<not> (cc_independent ctx \<and> iteration = 1)"
  shows "cbpf_ownership_callback K iteration (ctx, k) =
    (True, ctx\<lparr>cc_calls := cc_calls ctx + 1\<rparr>,
     kernel_consume (kp_cheri K) i (4 + 2 * of_nat iteration) False k)"
proof -
  let ?C = "kp_cheri K"
  have inv: "kernel_inv K k" using rdy by (simp add: gate_ready_def)
  then have laws: "cheri_laws ?C" and view: "iv_views (active k) ! i = cell_view K i"
    "cheri_tag_get ?C (cell_view K i)"
    using i by (simp_all add: kernel_inv_def)
  have nf: "\<not> iv_failed (active (kernel_consume ?C i pc False k))" for pc
    using rdy by (simp add: gate_ready_def kernel_consume_sel)
  show ?thesis
    unfolding cbpf_ownership_callback_def Let_def
    using ctx view cheri_lawsD(1) [OF laws] nf gate_release_live [OF rdy dist i live]
    by (simp add: ctx(1) [symmetric])
qed

lemma callback_reject:
  assumes rdy: "gate_ready K k" and dist: "distinct_cells K" and i: "i < iv_acquired (active k)"
    and dead: "\<not> cheri_tag_get (kp_cheri K) (iv_cells (active k) ! i)"
    and ctx: "i = 0" "\<not> cc_independent ctx" "cc_aliases ctx ! i = cell_view K i"
  shows "cbpf_ownership_callback K iteration (ctx, k) =
    (False, ctx\<lparr>cc_calls := cc_calls ctx + 1\<rparr>,
     snd (cbpf_fail (kp_cheri K) (4 + 2 * of_nat iteration) k))"
proof -
  let ?C = "kp_cheri K"
  have inv: "kernel_inv K k" using rdy by (simp add: gate_ready_def)
  then have laws: "cheri_laws ?C" and view: "iv_views (active k) ! i = cell_view K i"
    "cheri_tag_get ?C (cell_view K i)"
    using i by (simp_all add: kernel_inv_def)
  have g: "cbpf_gate_impl K (cell_view K i) 3 pc k = cbpf_fail ?C pc k" for pc
    using gate_stale [OF rdy dist i dead] by simp
  have f: "iv_failed (active (snd (cbpf_fail ?C pc k)))" for pc
    using fail_sel(1) [OF gate_ready_active [OF rdy] refl] .
  show ?thesis
    unfolding cbpf_ownership_callback_def Let_def
    using ctx view cheri_lawsD(1) [OF laws] f g
    by (simp add: split_beta)
qed

lemma callback_read_release:
  assumes rdy: "gate_ready K k" and dist: "distinct_cells K" and i: "1 < iv_acquired (active k)"
    and live: "cheri_tag_get (kp_cheri K) (iv_cells (active k) ! 1)"
    and ctx: "cc_independent ctx" "cc_aliases ctx ! 1 = cell_view K 1"
    and k1: "k1 = cbpf_trace (kp_cheri K) ''read'' 6 2
      (set_active ((active k)\<lparr>iv_reads := iv_reads (active k) + 1\<rparr>) k)"
  shows "cbpf_ownership_callback K 1 (ctx, k) =
    (True, ctx\<lparr>cc_calls := cc_calls ctx + 1, cc_value := word_of_int (ko_value (k_object k))\<rparr>,
     kernel_consume (kp_cheri K) 1 7 False k1)"
proof -
  let ?C = "kp_cheri K"
  have inv: "kernel_inv K k" using rdy by (simp add: gate_ready_def)
  then have laws: "cheri_laws ?C" and view: "iv_views (active k) ! 1 = cell_view K 1"
    "cheri_tag_get ?C (cell_view K 1)"
    using i by (simp_all add: kernel_inv_def)
  have inv1: "kernel_inv K k1"
    using read_line_inv [OF inv, of 1 6 "iv_reads (active k) + 1"] i live
    unfolding k1 by (simp add: kernel_live numeral_2_eq_2)
  have rdy1: "gate_ready K k1" using inv1 rdy by (simp add: gate_ready_def k1)
  have g1: "cbpf_gate_impl K (cell_view K 1) 2 6 k =
      (cheri_from_u64 ?C (word_of_int (ko_value (k_object k))), k1)"
    using gate_read_live [OF rdy dist i live, of 6] by (simp add: k1 numeral_2_eq_2)
  have g2: "cbpf_gate_impl K (cell_view K 1) 3 7 k1 =
      (cheri_from_u64 ?C 0, kernel_consume ?C 1 7 False k1)"
    using gate_release_live [OF rdy1 dist, of 1 7] i live by (simp add: k1)
  have nf: "\<not> iv_failed (active k1)" "\<not> iv_failed (active (kernel_consume ?C 1 7 False k1))"
    using rdy1 by (simp_all add: gate_ready_def kernel_consume_sel)
  have val: "(ucast (word_of_int z :: u64) :: u32) = word_of_int z" for z
    by transfer simp
  show ?thesis
    unfolding cbpf_ownership_callback_def Let_def
    using ctx view cheri_lawsD(1,5) [OF laws] nf g1 g2 val by simp
qed

lemma two_aliases:
  "[0..<2] = [0, 1::nat]" by (simp add: upt_rec)

lemma callback_check_retained:
  assumes idle: "kernel_idle K k" and rep: "kernel_representable K"
  shows "cbpf_callback_check K False k = (True, k)"
proof -
  let ?C = "kp_cheri K" and ?v = "cell_view K 0"
  have dist: "distinct_cells K" and tag: "cheri_tag_get ?C ?v"
    using rep by (simp_all add: kernel_representable_def ARRAY_SIZE_cells_def)
  obtain k1 where k1: "cbpf_gate_impl K (cheri_from_u64 ?C 0) 1 0 (set_active (new_invocation ?C 0 True) k) = (?v, k1)"
    "gate_ready K k1" "check_at K k [True] 0 0 k1"
    using check_acquire [OF check_begin [OF idle] rep, of 0] by (auto simp: ARRAY_SIZE_cells_def)
  define ctx where "ctx = \<lparr>cc_aliases = [?v, cheri_null ?C], cc_calls = 0, cc_completed = 0,
      cc_value = 0, cc_independent = False\<rparr>"
  have al: "callback_aliases K 0 1 (\<lparr>cc_aliases = replicate 2 (cheri_null ?C), cc_calls = 0,
      cc_completed = 0, cc_value = 0, cc_independent = False\<rparr>, set_active (new_invocation ?C 0 True) k) = Inr (ctx, k1)"
    using k1(1,2) tag
    by (simp add: callback_aliases.simps [of K 0] callback_aliases.simps [of K "Suc 0"] ctx_def
        numeral_2_eq_2 gate_ready_def)
  define k2 where "k2 = kernel_consume ?C 0 4 False k1"
  note r = check_release(1,2) [OF k1(2,3), of 0 4, folded k2_def, simplified] and r' = check_release(3,4) [OF k1(2,3), of 0, simplified]
  have cb0: "cbpf_ownership_callback K 0 (ctx, k1) = (True, ctx\<lparr>cc_calls := 1\<rparr>, k2)"
    using callback_release [OF k1(2) dist r', of ctx 0] by (simp add: ctx_def k2_def)
  note st = check_alias [OF r(1,2)]
  define k3 where "k3 = snd (cbpf_fail ?C 6 k2)"
  let ?ctx1 = "ctx\<lparr>cc_calls := 1, cc_completed := 1\<rparr>" and ?ctx2 = "ctx\<lparr>cc_calls := 2, cc_completed := 1\<rparr>"
  have cb1: "cbpf_ownership_callback K 1 (?ctx1, k2) = (False, ?ctx2, k3)"
    using callback_reject [OF r(1) dist st(2,3), of ?ctx1 1] by (simp add: ctx_def k3_def)
  have "ctx\<lparr>cc_calls := 1, cc_completed := Suc (cc_completed ctx)\<rparr> = ?ctx1" by (simp add: ctx_def)
  then have disp: "cbpf_dispatch_callbacks (cbpf_ownership_callback K) 0 3 (ctx, k1) = (False, ?ctx2, k3)"
    using cb0 cb1
    by (simp add: cbpf_dispatch_callbacks.simps [of _ 0] cbpf_dispatch_callbacks.simps [of _ "Suc 0"])
  have a3: "check_at K k [False] 1 0 k3" "iv_failed (active k3)"
    using check_reject [OF r(1,2)] by (simp_all add: k3_def)
  have v3: "stale_alias ?C ?v k3"
    using st(1) fail_sel [OF gate_ready_active [OF r(1)] k3_def] by (simp add: stale_alias_def)
  have out: "check_out K True k3 = (True, k)" using check_end [OF idle, of "[False]" 0 k3] a3(1) by simp
  have "counts_are 1 1 0 1 k3" using a3(1) by (simp add: check_at_def)
  then show ?thesis
    using al disp a3(2) v3 out idle unfolding stale_alias_def
    by (simp add: cbpf_callback_check_def Let_def kernel_idle_def) (simp add: ctx_def)
qed

text \<open>The second check: two acquisitions, the first released, the second read and released.\<close>

lemma check_read:
  assumes rdy: "gate_ready K kc" and at: "check_at K k live released reads kc" and i: "i < length live" "live ! i"
    and kc': "kc' = cbpf_trace (kp_cheri K) ''read'' pc (i + 1)
      (set_active ((active kc)\<lparr>iv_reads := iv_reads (active kc) + 1\<rparr>) kc)"
  shows "gate_ready K kc'" and "check_at K k live released (reads + 1) kc'"
proof -
  have inv: "kernel_inv K kc" using rdy by (simp add: gate_ready_def)
  have "Suc i \<in> live_ids (kernel_own K kc)" using check_release(3,4) [OF rdy at i] by (simp add: kernel_live)
  from read_line_inv [OF inv this]
  show "gate_ready K kc'" using rdy by (simp add: gate_ready_def kc')
  show "check_at K k live released (reads + 1) kc'"
    using at by (simp add: check_at_def counts_are_def kc')
qed

lemma two_aliases_acquired:
  assumes idle: "kernel_idle K k" and rep: "kernel_representable K"
  obtains k2 where "gate_ready K k2" "check_at K k [True, True] 0 0 k2"
    "callback_aliases K 0 2 (\<lparr>cc_aliases = replicate 2 (cheri_null (kp_cheri K)), cc_calls = 0,
        cc_completed = 0, cc_value = 0, cc_independent = True\<rparr>,
        set_active (new_invocation (kp_cheri K) 0 True) k) =
      Inr (\<lparr>cc_aliases = [cell_view K 0, cell_view K 1], cc_calls = 0, cc_completed = 0, cc_value = 0,
        cc_independent = True\<rparr>, k2)"
proof -
  let ?C = "kp_cheri K"
  have tags: "cheri_tag_get ?C (cell_view K 0)" "cheri_tag_get ?C (cell_view K (Suc 0))"
    using rep by (simp_all add: kernel_representable_def ARRAY_SIZE_cells_def)
  obtain k1 where k1: "cbpf_gate_impl K (cheri_from_u64 ?C 0) 1 0 (set_active (new_invocation ?C 0 True) k) =
      (cell_view K 0, k1)" "gate_ready K k1" "check_at K k [True] 0 0 k1"
    using check_acquire [OF check_begin [OF idle] rep, of 0] by (auto simp: ARRAY_SIZE_cells_def)
  obtain k2 where k2: "cbpf_gate_impl K (cheri_from_u64 ?C 0) 1 1 k1 = (cell_view K (Suc 0), k2)"
    "gate_ready K k2" "check_at K k [True, True] 0 0 k2"
    using check_acquire [OF k1(2,3) rep, of 1] by (auto simp: ARRAY_SIZE_cells_def)
  show thesis
    by (rule that [OF k2(2,3)])
      (use k1(1,2) k2(1,2) tags in \<open>simp add: callback_aliases.simps [of K 0] callback_aliases.simps [of K "Suc 0"]
        callback_aliases.simps [of K "Suc (Suc 0)"] numeral_2_eq_2 gate_ready_def\<close>)
qed

lemma callback_check_independent:
  assumes idle: "kernel_idle K k" and rep: "kernel_representable K" and val: "ko_value (k_object k) = 42"
  shows "cbpf_callback_check K True k = (True, k)"
proof -
  let ?C = "kp_cheri K"
  have "cheri_laws ?C" using idle by (simp add: kernel_idle_def)
  note L = cheri_lawsD(1) [OF this]
  have dist: "distinct_cells K" and tags: "cheri_tag_get ?C (cell_view K 0)" "cheri_tag_get ?C (cell_view K 1)"
    using rep by (simp_all add: kernel_representable_def ARRAY_SIZE_cells_def)
  define ctx where "ctx = \<lparr>cc_aliases = [cell_view K 0, cell_view K 1], cc_calls = 0,
      cc_completed = 0, cc_value = 0, cc_independent = True\<rparr>"
  obtain k2 where k2: "gate_ready K k2" "check_at K k [True, True] 0 0 k2"
    "callback_aliases K 0 2 (\<lparr>cc_aliases = replicate 2 (cheri_null ?C), cc_calls = 0,
      cc_completed = 0, cc_value = 0, cc_independent = True\<rparr>, set_active (new_invocation ?C 0 True) k) = Inr (ctx, k2)"
    using two_aliases_acquired [OF idle rep] unfolding ctx_def by blast
  define k3 where "k3 = kernel_consume ?C 0 4 False k2"
  note r3 = check_release(1,2) [OF k2(1,2), of 0 4, folded k3_def, simplified] and r3' = check_release(3,4) [OF k2(1,2), of 0, simplified]
  have cb0: "cbpf_ownership_callback K 0 (ctx, k2) = (True, ctx\<lparr>cc_calls := 1\<rparr>, k3)"
    using callback_release [OF k2(1) dist r3', of ctx 0] by (simp add: ctx_def k3_def)
  define k4 where "k4 = cbpf_trace ?C ''read'' 6 2 (set_active ((active k3)\<lparr>iv_reads := iv_reads (active k3) + 1\<rparr>) k3)"
  have r4: "gate_ready K k4" "check_at K k [False, True] 1 1 k4"
    using check_read [OF r3(1,2) _ _ refl, of 1 6] by (simp_all add: k4_def numeral_2_eq_2)
  define k5 where "k5 = kernel_consume ?C 1 7 False k4"
  have r5: "gate_ready K k5" "check_at K k [False, False] 2 1 k5"
    using check_release(1,2) [OF r4, of 1 7] by (simp_all add: k5_def numeral_2_eq_2)
  have val3: "ko_value (k_object k3) = 42" using r3(2) val by (simp add: check_at_def)
  let ?ctx1 = "ctx\<lparr>cc_calls := 1, cc_completed := 1\<rparr>" and ?ctx2 = "ctx\<lparr>cc_calls := 2, cc_completed := 2, cc_value := 42\<rparr>"
  have live3: "1 < iv_acquired (active k3)" "cheri_tag_get ?C (iv_cells (active k3) ! 1)"
    using check_release(3,4) [OF r3(1,2), of 1] by simp_all
  have cb1: "cbpf_ownership_callback K 1 (?ctx1, k3) =
      (True, ctx\<lparr>cc_calls := 2, cc_completed := 1, cc_value := 42\<rparr>, k5)"
    using callback_read_release [OF r3(1) dist live3, of ?ctx1 k4] val3 by (simp add: ctx_def k4_def k5_def)
  have "ctx\<lparr>cc_calls := 1, cc_completed := Suc (cc_completed ctx)\<rparr> = ?ctx1" by (simp add: ctx_def)
  then have disp: "cbpf_dispatch_callbacks (cbpf_ownership_callback K) 0 2 (ctx, k2) = (True, ?ctx2, k5)"
    using cb0 cb1
    by (simp add: cbpf_dispatch_callbacks.simps [of _ 0] cbpf_dispatch_callbacks.simps [of _ "Suc 0"]
        cbpf_dispatch_callbacks.simps [of _ "Suc (Suc 0)"] numeral_2_eq_2)
  have c5: "counts_are 2 2 1 1 k5" "\<not> iv_failed (active k5)"
    "\<forall>i \<in> {0, 1}. iv_views (active k5) ! i = cell_view K i \<and> \<not> cheri_tag_get ?C (iv_cells (active k5) ! i)"
    using r5 by (auto simp: check_at_def gate_ready_def ARRAY_SIZE_cells_def numeral_2_eq_2)
  have out: "check_out K True k5 = (True, k)" using check_end [OF idle, of "[False, False]" 1 k5] r5(2) by (simp add: numeral_2_eq_2)
  show ?thesis
    using k2(3) disp c5 tags L out idle
    by (simp add: cbpf_callback_check_def Let_def two_aliases kernel_idle_def) (simp add: ctx_def)
qed

lemma gate_impl_keeps: "kernel_inv K k \<Longrightarrow> kernel_inv K (snd (cbpf_gate_impl K a op pc k))"
  using gate_impl_inv [of K k a op pc] by (cases "cbpf_gate_impl K a op pc k") simp

text \<open>The provider object, the cells and the accounting are as before.\<close>

definition same_holdings :: "'v kernel \<Rightarrow> 'v kernel \<Rightarrow> bool" where
  "same_holdings k k' \<longleftrightarrow>
     k_object k' = k_object k \<and> iv_cells (active k') = iv_cells (active k) \<and>
     iv_views (active k') = iv_views (active k) \<and>
     iv_acquired (active k') = iv_acquired (active k) \<and>
     iv_released (active k') = iv_released (active k) \<and>
     iv_cleanup (active k') = iv_cleanup (active k)"

text \<open>The cell \<open>i\<close> loses its authority and one reference goes back; nothing else changes.\<close>

definition releases_only :: "nat \<Rightarrow> 'v kplatform \<Rightarrow> 'v kernel \<Rightarrow> 'v kernel \<Rightarrow> bool" where
  "releases_only i K k k' \<longleftrightarrow>
     \<not> cheri_tag_get (kp_cheri K) (iv_cells (active k') ! i) \<and>
     (\<forall>j. j \<noteq> i \<longrightarrow> iv_cells (active k') ! j = iv_cells (active k) ! j) \<and>
     iv_views (active k') = iv_views (active k) \<and>
     iv_acquired (active k') = iv_acquired (active k) \<and>
     iv_released (active k') = iv_released (active k) + 1 \<and>
     iv_cleanup (active k') = iv_cleanup (active k) \<and> iv_reads (active k') = iv_reads (active k) \<and>
     ko_refs (k_object k') = ko_refs (k_object k) - 1 \<and>
     ko_value (k_object k') = ko_value (k_object k)"

subsection \<open>Properties\<close>

text \<open>
  C11. Whatever native code a program runs, an invocation of an idle kernel returns with
  the kernel idle again: no invocation is active, the provider's reference count is back
  at 1, its value untouched and both saved capability registers restored. The printed log
  is a trace of the ownership protocol in which each acquisition is consumed exactly once,
  by a release or by the terminal sweep; and a program with a rejected gate call, or one
  that never entered, yields 0.
\<close>

theorem invocation_settles:
  assumes "kernel_idle K k" and "cbpf_test_invoke K prog gated code k = (v, log, k')"
  shows "k' = k \<and>
    (\<exists>s. replay_log own_init log = Some s \<and> live_ids s = {} \<and> issued s \<le> ARRAY_SIZE_cells \<and>
       (\<forall>i \<in> {1..issued s}. explicit s i + swept s i = 1)) \<and>
    (v \<noteq> 0 \<longrightarrow> gated \<and> l_event (last log) = ''exit'')"
proof (cases gated)
  case False
  then have "v = 0" "log = []" "k' = k"
    using assms by (simp_all add: cbpf_test_invoke_def kernel_idle_def Let_def)
  then show ?thesis by (simp add: own_init_def)
next
  case True
  have run: "cbpf_test_invoke K prog True code k = (v, log, k')" using assms(2) True by simp
  obtain kr w kf where r:
    "kernel_inv K kf" "live_ids (kernel_own K kf) = {}" "log = iv_log (active kf)"
    "k_object k' = k_object kf" "k_active k' = None" "k_rddc k' = k_rddc k" "k_rcsp k' = k_rcsp k"
    "ko_value (k_object kf) = ko_value (k_object k)" "v = (if iv_failed (active kf) then 0 else w)"
    "l_event (last log) = (if iv_failed (active kf) then ''failed'' else ''exit'')"
    using test_invoke_ran [OF assms(1) run] by metis
  have own: "own_inv ARRAY_SIZE_cells (kernel_own K kf)" using r(1) by (simp add: kernel_inv_def)
  have "k' = k" using invocation_restores [OF assms(1) run] .
  moreover have "replay_log own_init log = Some (kernel_own K kf)"
    using r(1,3) by (simp add: kernel_inv_def)
  moreover have "issued (kernel_own K kf) \<le> ARRAY_SIZE_cells" using own by (simp add: own_inv_def)
  ultimately show ?thesis
    using own_inv_settled(2) [OF own r(2)] r(2,9,10) True by (auto split: if_splits)
qed

theorem invocation_settles_witness:
  "\<exists>v log k'. cbpf_test_invoke sample_kplatform 7 True sample_code sample_kernel = (v, log, k') \<and>
     v = 42 \<and> k' = sample_kernel \<and> l_event (last log) = ''exit''"
  using sample_run_ready invocation_settles [OF sample_kernel_idle, of 7 True sample_code]
  by fastforce

text \<open>
  C12. Temporal safety of the kernel gates: in the log of every invocation, after the line
  that reports an acquisition released or cleaned up, no line reports a read, a clearing,
  a release or a cleanup of the same acquisition.
\<close>

theorem invocation_no_use_after_release:
  assumes "kernel_idle K k" and "cbpf_test_invoke K prog gated code k = (v, log, k')"
    and "i < j" and "j < length log" and "line_consumes x (log ! i)"
  shows "\<not> line_uses x (log ! j)"
proof -
  have gated: "gated"
  proof (rule ccontr)
    assume "\<not> gated"
    then have "log = []" using assms(2) by (simp add: cbpf_test_invoke_def Let_def)
    then show False using assms(4) by simp
  qed
  have run: "cbpf_test_invoke K prog True code k = (v, log, k')" using assms(2) gated by simp
  obtain kf where r: "kernel_inv K kf" "log = iv_log (active kf)"
    using test_invoke_ran [OF assms(1) run] by metis
  then have "observe line_step own_init log = Some (kernel_own K kf)"
    by (simp add: kernel_inv_def replay_log_observe)
  then show ?thesis using kernel_log.no_use_after_consume own_inv_init assms(3-5) by blast
qed

theorem invocation_no_use_after_release_witness:
  "\<exists>v log k'. cbpf_test_invoke sample_kplatform 7 True sample_code sample_kernel = (v, log, k') \<and>
     line_consumes 1 (log ! 4) \<and> \<not> line_uses 1 (log ! 6)"
proof -
  have "case cbpf_test_invoke sample_kplatform 7 True sample_code sample_kernel of (v, log, k') \<Rightarrow>
      length log = 8 \<and> line_consumes 1 (log ! 4)" by code_simp
  then obtain v log k' where
    r: "cbpf_test_invoke sample_kplatform 7 True sample_code sample_kernel = (v, log, k')"
      "length log = 8" "line_consumes 1 (log ! 4)"
    by (auto split: prod.splits)
  then show ?thesis
    using invocation_no_use_after_release [OF sample_kernel_idle r(1), of 4 6 1] by auto
qed

text \<open>Both answers of the gate to a read or a release: for a live view, and for any other argument.\<close>

lemma gate_answers_live:
  assumes rdy: "gate_ready K k" and "distinct_cells K" and op: "operation = 2 \<or> operation = 3"
    and i: "i < iv_acquired (active k)" and t: "cheri_tag_get (kp_cheri K) (iv_cells (active k) ! i)"
    and call: "cbpf_gate_impl K (cell_view K i) operation pc k = (r, k')"
  shows "\<not> iv_failed (active k') \<and>
      (operation = 2 \<longrightarrow> r = cheri_from_u64 (kp_cheri K) (word_of_int (ko_value (k_object k))) \<and>
         iv_reads (active k') = iv_reads (active k) + 1 \<and> same_holdings k k') \<and>
      (operation = 3 \<longrightarrow> r = cheri_from_u64 (kp_cheri K) 0 \<and> releases_only i K k k')"
proof (cases "operation = 2")
  case True
  then show ?thesis
    using gate_read_live [OF rdy assms(2) i t, of pc] rdy call
    by (auto simp: same_holdings_def gate_ready_def)
next
  case False
  let ?C = "kp_cheri K"
  have op3: "operation = 3" using False op by simp
  have inv: "kernel_inv K k" and nf: "\<not> iv_failed (active k)" using rdy by (simp_all add: gate_ready_def)
  have "r = cheri_from_u64 ?C 0" "k' = kernel_consume ?C i pc False k"
    using gate_release_live [OF rdy assms(2) i t, of pc] call op3 by simp_all
  moreover have "i < length (iv_cells (active k))"
    using inv i kernel_inv_acquired [OF inv] by (simp add: kernel_inv_def)
  moreover have "\<not> cheri_tag_get ?C (cheri_tag_clear ?C c)" for c
    by (rule cheri_lawsD(2)) (use inv in \<open>simp add: kernel_inv_def\<close>)
  ultimately show ?thesis
    using op3 nf by (simp add: releases_only_def kernel_consume_sel)
qed

lemma gate_answers_other:
  assumes rdy: "gate_ready K k" and op: "operation = 2 \<or> operation = 3"
    and no: "argument \<notin> cell_view K ` {i. i < iv_acquired (active k) \<and>
        cheri_tag_get (kp_cheri K) (iv_cells (active k) ! i)}"
    and call: "cbpf_gate_impl K argument operation pc k = (r, k')"
  shows "r = CBPF_FAILURE (kp_cheri K) \<and> iv_failed (active k') \<and>
      iv_reads (active k') = iv_reads (active k) \<and> same_holdings k k'"
proof -
  note act = gate_ready_active [OF rdy]
  have inv: "kernel_inv K k" using rdy by (simp add: gate_ready_def)
  have "cbpf_gate_impl K argument operation pc k = cbpf_fail (kp_cheri K) pc k"
    using inv
  proof (cases rule: gate_impl_cases [of K k argument operation pc])
    case (read i)
    then show ?thesis using no by (auto simp: kernel_live)
  next
    case (release i)
    then show ?thesis using no by (auto simp: kernel_live)
  qed (use op in auto)
  then have k': "k' = snd (cbpf_fail (kp_cheri K) pc k)" and r: "r = CBPF_FAILURE (kp_cheri K)"
    using call act by (simp_all add: fail_eq)
  note f = fail_sel [OF act k']
  show ?thesis unfolding same_holdings_def f(2-8) using f(1) r by simp
qed

text \<open>
  C14. How the gate resolves a handle while an invocation runs: for the canonical view of an
  issued cell, a read returns the provider's value and only counts it, a release consumes
  exactly that cell, and either is rejected once the cell is consumed; any other argument,
  such as a view whose tag, bounds or permissions were changed, is rejected.
\<close>

theorem gate_resolves_handle:
  assumes "kernel_inv K k" and "iv_entered (active k)" and "\<not> iv_failed (active k)"
    and "distinct_cells K" and "operation = 2 \<or> operation = 3"
    and "cbpf_gate_impl K argument operation pc k = (r, k')"
  shows "(\<forall>i < iv_acquired (active k).
      argument = cell_view K i \<and> cheri_tag_get (kp_cheri K) (iv_cells (active k) ! i) \<longrightarrow>
      \<not> iv_failed (active k') \<and>
      (operation = 2 \<longrightarrow> r = cheri_from_u64 (kp_cheri K) (word_of_int (ko_value (k_object k))) \<and>
         iv_reads (active k') = iv_reads (active k) + 1 \<and> same_holdings k k') \<and>
      (operation = 3 \<longrightarrow> r = cheri_from_u64 (kp_cheri K) 0 \<and> releases_only i K k k')) \<and>
    (argument \<notin> cell_view K ` {i. i < iv_acquired (active k) \<and>
        cheri_tag_get (kp_cheri K) (iv_cells (active k) ! i)} \<longrightarrow>
      r = CBPF_FAILURE (kp_cheri K) \<and> iv_failed (active k') \<and>
      iv_reads (active k') = iv_reads (active k) \<and> same_holdings k k')"
proof -
  have rdy: "gate_ready K k" using assms(1-3) by (simp add: gate_ready_def)
  show ?thesis
    using gate_answers_live [OF rdy assms(4,5)] gate_answers_other [OF rdy assms(5) _ assms(6)] assms(6)
    by blast
qed

definition sample_held :: "swcap kernel" where
  "sample_held =
     snd (cbpf_gate_impl sample_kplatform (sw_int 0) 1 0
       (set_active (new_invocation sample_cheri 7 True) sample_kernel))"

theorem gate_resolves_handle_witness:
  "\<exists>r k'. cbpf_gate_impl sample_kplatform (cell_view sample_kplatform 0) 3 1 sample_held = (r, k') \<and>
     r = sw_int 0 \<and> releases_only 0 sample_kplatform sample_held k'"
proof -
  have C: "kp_cheri sample_kplatform = sample_cheri" by (simp add: sample_kplatform_def)
  let ?k0 = "set_active (new_invocation sample_cheri 7 True) sample_kernel"
  have "kernel_inv sample_kplatform ?k0"
    using new_invocation_inv [OF sample_kernel_idle, of 7 True] C by simp
  then have inv: "kernel_inv sample_kplatform sample_held"
    unfolding sample_held_def by (rule gate_impl_keeps)
  have fl: "iv_entered (active sample_held) \<and> \<not> iv_failed (active sample_held) \<and>
      iv_acquired (active sample_held) = 1 \<and> sw_tag (iv_cells (active sample_held) ! 0)" by code_simp
  have dist: "distinct_cells sample_kplatform"
    using sample_representable by (simp add: kernel_representable_def)
  have get: "cheri_tag_get sample_cheri = sw_tag" "cheri_from_u64 sample_cheri = sw_int"
    by (simp_all add: sample_cheri_def)
  obtain r k' where g: "cbpf_gate_impl sample_kplatform (cell_view sample_kplatform 0) 3 1 sample_held = (r, k')"
    by fastforce
  show ?thesis
    using gate_resolves_handle [OF inv _ _ dist _ g] fl g C get by auto
qed

text \<open>
  C15. Rejection is final and destroys nothing: a gate call that fails, and every call after
  it, returns all ones and leaves the provider object, the cells, the views and the counts
  as they were; only the failure flag and the log change. Through the gateway the program
  is not resumed.
\<close>

theorem gate_rejection_final:
  assumes "kernel_inv K k" and "iv_failed (active (snd (cbpf_gate_impl K argument operation pc k)))"
    and "k' = snd (cbpf_gate_impl K argument operation pc k)"
  shows "cbpf_gateway K argument operation pc k = (None, k') \<and>
    fst (cbpf_gate_impl K argument operation pc k) = CBPF_FAILURE (kp_cheri K) \<and>
    same_holdings k k' \<and> iv_reads (active k') = iv_reads (active k) \<and>
    (\<forall>a op pc2. fst (cbpf_gate_impl K a op pc2 k') = CBPF_FAILURE (kp_cheri K) \<and>
       iv_failed (active (snd (cbpf_gate_impl K a op pc2 k'))))"
proof -
  have act: "k_active k \<noteq> None" and laws: "cheri_laws (kp_cheri K)"
    using assms(1) by (simp_all add: kernel_inv_def)
  have rej: "cbpf_gate_impl K argument operation pc k = cbpf_fail (kp_cheri K) pc k"
    using assms(1)
  proof (cases rule: gate_impl_cases [of K k argument operation pc])
    case acquire
    then show ?thesis using assms(2) by (simp add: acquired_state_def Let_def)
  next
    case (release i)
    then show ?thesis using assms(2) by (simp add: kernel_consume_sel)
  qed (use assms(2) in simp_all)
  have k': "k' = snd (cbpf_fail (kp_cheri K) pc k)" using assms(3) rej by simp
  note f = fail_sel [OF act k']
  have again: "cbpf_gate_impl K a op pc2 k' = cbpf_fail (kp_cheri K) pc2 k'" for a op pc2
    using f(1) by (auto simp: cbpf_gate_impl_def Let_def)
  have fl: "fst (cbpf_fail (kp_cheri K) pc2 k2) = CBPF_FAILURE (kp_cheri K)" for pc2 k2
    by (simp add: cbpf_fail_def)
  have "cheri_address_get (kp_cheri K) (CBPF_FAILURE (kp_cheri K)) = - 1"
    using cheri_lawsD(5) [OF laws] by (simp add: CBPF_FAILURE_def U64_MAX_def)
  then have "cbpf_gateway K argument operation pc k = (None, k')"
    using rej fl [of pc k] k' by (simp add: cbpf_gateway_def split_beta)
  then show ?thesis using rej fl f again fail_sel(1) [OF f(11) refl] by (simp add: same_holdings_def)
qed

theorem gate_rejection_final_witness:
  "iv_failed (active (snd (cbpf_gate_impl sample_kplatform (sw_int 5) 3 1 sample_held))) \<and>
   cbpf_gateway sample_kplatform (sw_int 5) 3 1 sample_held =
     (None, snd (cbpf_gate_impl sample_kplatform (sw_int 5) 3 1 sample_held))"
proof -
  have C: "kp_cheri sample_kplatform = sample_cheri" by (simp add: sample_kplatform_def)
  have "kernel_inv sample_kplatform (set_active (new_invocation sample_cheri 7 True) sample_kernel)"
    using new_invocation_inv [OF sample_kernel_idle, of 7 True] C by simp
  then have inv: "kernel_inv sample_kplatform sample_held"
    unfolding sample_held_def by (rule gate_impl_keeps)
  have f: "iv_failed (active (snd (cbpf_gate_impl sample_kplatform (sw_int 5) 3 1 sample_held)))"
    by code_simp
  show ?thesis using f gate_rejection_final [OF inv f refl] by blast
qed

text \<open>
  C17. The boot checks pass: on an idle kernel whose object and cells can be represented as
  exact capabilities at distinct addresses, every one of the five checks succeeds, so the
  initcall returns what the registration returns, and the kernel is left exactly as it was.
\<close>

theorem boot_checks_pass:
  assumes "kernel_idle K k" and "kernel_representable K" and "ko_value (k_object k) = 42"
  shows "cbpf_cap_init K registered k = (registered, k)"
  using guard_check_passes [OF assms(1,2)] callback_check_retained [OF assms(1,2)]
    callback_check_independent [OF assms]
  by (simp add: cbpf_cap_init_def)

theorem boot_checks_pass_witness:
  "cbpf_cap_init sample_kplatform 0 sample_kernel = (0, sample_kernel)"
  by (rule boot_checks_pass [OF sample_kernel_idle sample_representable])
    (simp add: sample_kernel_def)

text \<open>
  C16. What the restricted entry hands out: it succeeds once per invocation and only for its
  own program. The program then runs with a sealed code capability for exactly the range
  between the caller's return address and \<open>ret_addr\<close>, with execute, load and global
  permission and no other; with a sealed exit at \<open>ret_addr\<close> for exactly the executive return
  code, with the same permissions and executive; with a sealed gate at the gateway, derived from
  the kernel's program counter without its write permissions; with the caller, at the outer return
  address and executable, sealed in the slot above the stack; with a stack capability for exactly the
  16 bytes of the stack and a null default data capability. Of the kernel only the entered
  flag and the two registers change, and every later entry is refused.
\<close>

theorem restricted_entry:
  assumes "cheri_laws (kp_cheri K)" and "cbpf_enter K a k = Inr (en, k')"
  shows "(let C = kp_cheri K in
     k_active k \<noteq> None \<and> \<not> iv_entered (active k) \<and> \<not> iv_failed (active k) \<and>
     iv_prog (active k) = ea_prog_cookie a \<and> ea_caller_lr a < ea_ret_addr a \<and>
     cheri_tag_get C (en_code en) \<and> cheri_is_sealed C (en_code en) \<and>
     cheri_address_get C (en_code en) = ea_caller_lr a \<and>
     cheri_base_get C (en_code en) = ea_caller_lr a \<and>
     cheri_length_get C (en_code en) = ea_ret_addr a - ea_caller_lr a \<and>
     cheri_perms_get C (en_code en) =
       CHERI_PERM_EXECUTE C OR CHERI_PERM_LOAD C OR CHERI_PERM_GLOBAL C \<and>
     cheri_tag_get C (en_exit en) \<and> cheri_is_sealed C (en_exit en) \<and>
     cheri_address_get C (en_exit en) = ea_ret_addr a \<and>
     cheri_base_get C (en_exit en) = ea_ret_addr a \<and>
     cheri_length_get C (en_exit en) = ucast (ea_executive_return_size a) \<and>
     cheri_perms_get C (en_exit en) =
       CHERI_PERM_EXECUTE C OR CHERI_PERM_LOAD C OR CHERI_PERM_GLOBAL C OR CHERI_PERM_EXECUTIVE C \<and>
     cheri_tag_get C (en_gate en) \<and> cheri_is_sealed C (en_gate en) \<and>
     cheri_address_get C (en_gate en) = kp_gateway K \<and>
     en_gate en = cheri_sentry_create C
       (cheri_perms_clear C (cheri_address_set C (cheri_pcc_get C) (kp_gateway K)) (CHERI_PERMS_WRITE C)) \<and>
     cheri_tag_get C (en_caller en) \<and> cheri_is_sealed C (en_caller en) \<and>
     cheri_address_get C (en_caller en) = ea_outer_return_addr a \<and>
     cheri_perms_get C (en_caller en) AND CHERI_PERM_EXECUTE C \<noteq> 0 \<and>
     cheri_perms_get C (en_caller en) AND CHERI_PERM_EXECUTIVE C \<noteq> 0 \<and>
     en_caller_slot en = ea_stack_base a + 16 \<and>
     k_rddc k' = cheri_null C \<and> \<not> cheri_tag_get C (k_rddc k') \<and>
     cheri_tag_get C (k_rcsp k') \<and> \<not> cheri_is_sealed C (k_rcsp k') \<and>
     cheri_address_get C (k_rcsp k') = ea_stack_base a \<and>
     cheri_base_get C (k_rcsp k') = ea_stack_base a \<and> cheri_length_get C (k_rcsp k') = 16 \<and>
     cheri_perms_get C (k_rcsp k') =
       CHERI_PERM_LOAD C OR CHERI_PERM_STORE C OR CHERI_PERM_LOAD_CAP C OR CHERI_PERM_STORE_CAP C OR
       CHERI_PERM_GLOBAL C \<and>
     k_object k' = k_object k \<and> active k' = (active k)\<lparr>iv_entered := True\<rparr> \<and>
     k' = (set_active ((active k)\<lparr>iv_entered := True\<rparr>) k)\<lparr>k_rcsp := k_rcsp k', k_rddc := k_rddc k'\<rparr>) \<and>
    (\<forall>b. \<exists>e. cbpf_enter K b k' = Inl e)"
proof -
  let ?C = "kp_cheri K"
  note L = cheri_lawsD [OF assms(1)]
  have ok: "enter_args_ok K a k" using assms(2) by (auto simp: cbpf_enter_def Let_def split: if_splits)
  then have args: "k_active k \<noteq> None" "\<not> iv_entered (active k)" "\<not> iv_failed (active k)"
    "iv_prog (active k) = ea_prog_cookie a" "ea_caller_lr a < ea_ret_addr a" "ea_stack_size a = 16"
    by (auto simp: enter_args_ok_def Let_def not_le)
  let ?code = "cbpf_exact ?C (ea_caller_lr a) (ea_ret_addr a - ea_caller_lr a)
      (CHERI_PERM_EXECUTE ?C OR CHERI_PERM_LOAD ?C OR CHERI_PERM_GLOBAL ?C)"
  let ?exit = "cbpf_exact ?C (ea_ret_addr a) (ucast (ea_executive_return_size a))
      (CHERI_PERM_EXECUTE ?C OR CHERI_PERM_LOAD ?C OR CHERI_PERM_GLOBAL ?C OR CHERI_PERM_EXECUTIVE ?C)"
  let ?rcsp = "cbpf_exact ?C (ea_stack_base a) (ucast (ea_stack_size a))
      (CHERI_PERM_LOAD ?C OR CHERI_PERM_STORE ?C OR CHERI_PERM_LOAD_CAP ?C OR
       CHERI_PERM_STORE_CAP ?C OR CHERI_PERM_GLOBAL ?C)"
  let ?caller = "cheri_address_set ?C (cheri_pcc_get ?C) (ea_outer_return_addr a)"
  have tags: "cheri_tag_get ?C ?code" "cheri_tag_get ?C ?rcsp" "cheri_tag_get ?C ?exit"
    and caller: "cheri_address_get ?C ?caller = ea_outer_return_addr a"
      "cheri_perms_get ?C ?caller AND CHERI_PERM_EXECUTE ?C \<noteq> 0"
      "cheri_perms_get ?C ?caller AND CHERI_PERM_EXECUTIVE ?C \<noteq> 0"
    and en: "en_code en = cheri_sentry_create ?C ?code" "en_exit en = cheri_sentry_create ?C ?exit"
      "en_caller en = cheri_sentry_create ?C ?caller"
      "en_gate en = cheri_sentry_create ?C
        (cheri_perms_clear ?C (cheri_address_set ?C (cheri_pcc_get ?C) (kp_gateway K)) (CHERI_PERMS_WRITE ?C))"
      "en_caller_slot en = ea_stack_base a + ucast (ea_stack_size a)"
    and sealed: "cheri_tag_get ?C (en_code en)" "cheri_is_sealed ?C (en_code en)"
      "cheri_tag_get ?C (en_caller en)" "cheri_is_sealed ?C (en_caller en)"
      "cheri_tag_get ?C (en_exit en)" "cheri_is_sealed ?C (en_exit en)"
      "cheri_tag_get ?C (en_gate en)" "cheri_is_sealed ?C (en_gate en)"
      "cheri_address_get ?C (en_gate en) = kp_gateway K"
    and k': "k' = (set_active ((active k)\<lparr>iv_entered := True\<rparr>) k)
        \<lparr>k_rcsp := ?rcsp, k_rddc := cheri_null ?C\<rparr>"
    using assms(2) ok by (auto simp: cbpf_enter_def Let_def split: if_splits)
  have "cbpf_enter K b k' = Inl (- EINVAL)" for b
    by (simp add: cbpf_enter_def enter_args_ok_def Let_def k')
  then show ?thesis
    using args tags en(5) sealed caller L exact_tag [OF assms(1) tags(1)] exact_tag [OF assms(1) tags(2)]
      exact_tag [OF assms(1) tags(3)]
    by (simp add: Let_def k' en(1-4))
qed

theorem restricted_entry_witness:
  "\<exists>en k'. cbpf_enter sample_kplatform sample_enter
       (set_active (new_invocation sample_cheri 7 False) sample_kernel) = Inr (en, k') \<and>
     cheri_base_get sample_cheri (en_code en) = 0x5000 \<and>
     cheri_length_get sample_cheri (en_code en) = 0x100 \<and>
     (\<exists>e. cbpf_enter sample_kplatform sample_enter k' = Inl e)"
proof -
  let ?k = "set_active (new_invocation sample_cheri 7 False) sample_kernel"
  have laws: "cheri_laws (kp_cheri sample_kplatform)"
    by (simp add: sample_kplatform_def sample_cheri_laws)
  have "case cbpf_enter sample_kplatform sample_enter ?k of Inl e \<Rightarrow> False | Inr p \<Rightarrow> True"
    by code_simp
  then obtain en k' where r: "cbpf_enter sample_kplatform sample_enter ?k = Inr (en, k')"
    by (auto split: sum.splits)
  show ?thesis
    using r restricted_entry [OF laws r]
    by (simp add: Let_def sample_kplatform_def sample_enter_def)
qed

end
