(* ===== verification/Retained.thy ===== *)
theory Retained
  imports OwnGuestProps KernelTheorems
begin

text \<open>
  Where the retained sources of recorded runs differ in logic from the maintained ones: the first
  version of the ownership guest, \<open>src/evidence/current/ownership/source/guest.c\<close>, which loads and
  executes the first fixture only, and the initialisations of the two earlier versions of
  \<open>cbpf_runtime.c\<close>. The other retained C sources of that study are copies of the
  maintained ones, or differ in comments and names.
\<close>

subsection \<open>The first guest\<close>

definition m2_insn_line :: "nat \<Rightarrow> bpf_insn \<Rightarrow> string" where
  "m2_insn_line pc i =
     ''CBPF_M2 bpf pc='' @ decimal pc @ '' code='' @ hex_byte (i_code i) @
     '' dst='' @ decimal (unat (i_dst i)) @ '' src='' @ decimal (unat (i_src i)) @
     '' off='' @ decimal_int (sint (i_off i)) @ '' imm='' @ decimal_int (sint (i_imm i)) @ NL"

definition m2_word_line :: "nat \<Rightarrow> u32 \<Rightarrow> string" where
  "m2_word_line n w = ''CBPF_M2 word index='' @ decimal n @ '' value='' @ hex_word w @ NL"

definition m2_attr :: "bpf_insn list \<Rightarrow> load_attr" where
  "m2_attr insns =
     \<lparr>la_prog_type = BPF_PROG_TYPE_SCHED_CLS, la_insn_cnt = of_nat (length insns),
      la_insns = insns, la_license = ''GPL'', la_log_level = 2, la_log_size = LOG_SIZE,
      la_fd_array = [], la_prog_name = ''cbpf_m2_ab''\<rparr>"

text \<open>From the load to the label \<open>out\<close>: the stage, whether the program was executed, and the result.\<close>

definition m2_loaded :: "'w own_os \<Rightarrow> int \<Rightarrow> ('w, string \<times> bool \<times> bool) guest_op" where
  "m2_loaded os fd =
     (if fd < 0 then ret (''load'', False, True)
      else do {
        (failed, len, words) \<leftarrow> sys (ow_native_image os fd);
        (if failed \<or> len = 0 \<or> NATIVE_BYTES < len \<or> len mod 4 \<noteq> 0
         then ret (''native_image'', False, True)
         else do {
           say (concat (map (\<lambda>(n, w). m2_word_line n w) (enumerate 0 (take (unat len div 4) words))));
           (failed, retval) \<leftarrow> sys (ow_test_run os (test_attr_of fd));
           (if failed \<or> retval \<noteq> 42 then ret (''execute'', True, True)
            else do {
              say (''CBPF_M2 case=ab_spill executed=1 retval=42 jited_len='' @ decimal (unat len) @ NL);
              ret (''execute'', True, False)
            })
         })
      })"

definition m2_control :: "'w own_os \<Rightarrow> bpf_insn list \<Rightarrow> ('w, unit) guest_op" where
  "m2_control os insns = do {
     say (concat (map (\<lambda>(pc, i). m2_insn_line pc i) (enumerate 0 insns)));
     (fd, log) \<leftarrow> sys (ow_prog_load os (m2_attr insns));
     set_log (cstring (take (LOG_SIZE - 1) log));
     log \<leftarrow> verifier_log;
     say (''CBPF_M2 verifier_begin'' @ NL @ log @ ''CBPF_M2 verifier_end'' @ NL);
     (stage, executed, failed) \<leftarrow> m2_loaded os fd;
     (if 0 \<le> fd then change (ow_close os fd) else ret ());
     (if failed then do {
        errno \<leftarrow> query (ow_errno os);
        say (''CBPF_M2 stage='' @ stage @ '' executed='' @ (if executed then ''1'' else ''0'') @
             '' errno='' @ decimal_int errno @ '' result=FAIL'' @ NL)
      } else say (''CBPF_M2 result=PASS'' @ NL))
   }"

definition m2_main :: "'w own_os \<Rightarrow> btf_ids \<Rightarrow> string \<Rightarrow> ('w, guest_end) guest_op" where
  "m2_main os B expected_release = do {
     pid \<leftarrow> query (ow_getpid os);
     identity \<leftarrow> query (ow_uname os);
     (if pid \<noteq> 1 \<or> identity \<noteq> Some expected_release then do {
        say (''CBPF_M2 identity=FAIL executed=0 poweroff=0'' @ NL);
        ret (Guest_Returned 1)
      } else do {
        say (''CBPF_M2 kernel='' @ expected_release @ '' normal_verifier=1 attached=0'' @ NL);
        m2_control os (guest_program B);
        ret Guest_Poweroff
      })
   }"

text \<open>The kernel of the maintained guest also loads the fixture under this guest's name.\<close>

locale retained_kernel = ownership_kernel +
  assumes m2_accepts: "admit E (guest_program B) = Inr adm \<Longrightarrow>
      \<exists>fd log w'. ow_prog_load os (m2_attr (guest_program B)) w = ((fd, log), w') \<and> 0 \<le> fd \<and>
        progs w fd = None \<and> progs w' = (progs w)(fd \<mapsto> guest_program B) \<and> kern w' = kern w"
begin

lemma m2_control_passes:
  assumes ready: "gates_ready B K a prog E (kern (gs_world g))"
  shows "\<exists>g' out. run_state (m2_control os (guest_program B)) g = ((), g') \<and>
    gs_out g' = out @ ''CBPF_M2 result=PASS'' @ NL \<and> kern (gs_world g') = kern (gs_world g)"
proof -
  define insns where "insns = guest_program B"
  have i: "insns = fst (guest_case B 0)" "fst (snd (guest_case B 0)) = 42"
    by (simp_all add: insns_def guest_case_def Let_def)
  obtain adm where adm: "admit E insns = Inr adm"
    using guest_runs(2) [of B E 0] ready i(1) by (auto simp: gates_ready_def)
  obtain fd log w1 where w1: "ow_prog_load os (m2_attr insns) (gs_world g) = ((fd, log), w1)" "0 \<le> fd"
    "progs w1 = (progs (gs_world g))(fd \<mapsto> insns)" "kern w1 = kern (gs_world g)"
    using m2_accepts [of adm "gs_world g"] adm unfolding insns_def by blast
  obtain len words w2 where w2: "ow_native_image os fd w1 = ((False, len, words), w2)" "len \<noteq> 0"
    "len \<le> NATIVE_BYTES" "len mod 4 = 0" "progs w2 = progs w1" "kern w2 = kern w1"
    using own_image [of w1 fd insns] w1(3) by (metis fun_upd_same)
  obtain w3 where w3: "ow_test_run os (test_attr_of fd) w2 = ((False, 42), w3)" "kern w3 = kern (gs_world g)"
    using guest_invocation [OF ready, of 0 wrong] own_test_run [of w2 fd insns _ _ _ "test_attr_of fd"] w1(3,4) w2(5,6)
    unfolding i by fastforce
  have fits: "\<not> NATIVE_BYTES < len" using w2(3) by simp
  have "\<exists>out. run_state (m2_control os insns) g =
      ((), g\<lparr>gs_log := cstring (take (LOG_SIZE - 1) log), gs_world := ow_close os fd w3,
        gs_out := out @ ''CBPF_M2 result=PASS'' @ NL\<rparr>)"
    using w1(1,2) w2(1,2,4) fits w3(1)
    by (simp add: m2_control_def m2_loaded_def guest_order del: append.simps append_assoc) blast
  then show ?thesis using w3(2) own_close(2) unfolding insns_def by auto
qed

lemma m2_main_passes:
  assumes ready: "gates_ready B K a prog E (kern (gs_world g))"
  shows "\<exists>g' out. run_state (m2_main os B expected_release) g = (Guest_Poweroff, g') \<and>
    gs_out g' = out @ ''CBPF_M2 result=PASS'' @ NL \<and> kern (gs_world g') = kern (gs_world g)"
proof -
  let ?g = "g\<lparr>gs_out := gs_out g @ ''CBPF_M2 kernel='' @ expected_release @ '' normal_verifier=1 attached=0'' @ NL\<rparr>"
  obtain g1 out where g1: "run_state (m2_control os (guest_program B)) ?g = ((), g1)"
    "gs_out g1 = out @ ''CBPF_M2 result=PASS'' @ NL" "kern (gs_world g1) = kern (gs_world g)"
    using m2_control_passes [of ?g] ready by auto
  have "run_state (m2_main os B expected_release) g = (Guest_Poweroff, g1)"
    unfolding m2_main_def using g1(1) own_pid own_release by (simp del: append.simps)
  then show ?thesis using g1(2,3) by blast
qed

end

interpretation sample_retained: retained_kernel sample_own_os sample_ids "''6.7.0-cbpf''" sample_kplatform
  sample_enter 7 "Native_Return 9" sample_env om_kern om_progs
proof (unfold_locales, goal_cases)
  case (1 adm w)
  have "om_rejection (guest_program sample_ids) = None"
    using om_accepts [of 0] by (simp add: guest_case_def Let_def)
  then show ?case
    by (auto simp: sample_own_os_def om_prog_load_def m2_attr_def om_progs_def nth_append fun_eq_iff)
qed

lemma m2_guest_passes:
  assumes "retained_kernel os B expected_release K a prog wrong E kern progs"
    and "gates_ready B K a prog E (kern (gs_world g))"
  shows "\<exists>g' out. run_state (m2_main os B expected_release) g = (Guest_Poweroff, g') \<and>
    gs_out g' = out @ ''CBPF_M2 result=PASS'' @ NL \<and> kern (gs_world g') = kern (gs_world g)"
  by (rule retained_kernel.m2_main_passes [OF assms])

text \<open>On any kernel the guest that is not process 1 of the expected release changes nothing.\<close>

lemma m2_guest_identity:
  "ow_getpid os (gs_world g) \<noteq> 1 \<or> ow_uname os (gs_world g) \<noteq> Some expected_release \<Longrightarrow>
   run_state (m2_main os B expected_release) g =
     (Guest_Returned 1, g\<lparr>gs_out := gs_out g @ ''CBPF_M2 identity=FAIL executed=0 poweroff=0'' @ NL\<rparr>)"
  by (auto simp: m2_main_def split: prod.split simp del: append.simps)

subsection \<open>The earlier initialisations\<close>

text \<open>
  The first version (\<open>ownership\<close>) only registers the kfuncs; the second (\<open>ownership-closure\<close>)
  has the three guard checks, the maintained one the callback checks as well.
\<close>

definition cbpf_cap_init_first :: "int \<Rightarrow> 'v kernel \<Rightarrow> int \<times> 'v kernel" where
  "cbpf_cap_init_first registered k = (registered, k)"

definition cbpf_cap_init_closure :: "'v kplatform \<Rightarrow> int \<Rightarrow> 'v kernel \<Rightarrow> int \<times> 'v kernel" where
  "cbpf_cap_init_closure K registered k =
     (case cbpf_guard_check K False 2 k of (a, k) \<Rightarrow> if \<not> a then (- EINVAL, k) else
      case cbpf_guard_check K True 2 k of (b, k) \<Rightarrow> if \<not> b then (- EINVAL, k) else
      case cbpf_guard_check K False 3 k of (c, k) \<Rightarrow> if \<not> c then (- EINVAL, k)
      else (registered, k))"

text \<open>A kernel that the maintained version starts, the second one starts too; on an idle one all agree.\<close>

lemma inits_agree:
  "fst (cbpf_cap_init K 0 k) = 0 \<Longrightarrow> fst (cbpf_cap_init_closure K 0 k) = 0"
  "kernel_idle K k \<Longrightarrow> kernel_representable K \<Longrightarrow>
     cbpf_cap_init_closure K registered k = cbpf_cap_init_first registered k"
proof -
  show "fst (cbpf_cap_init K 0 k) = 0 \<Longrightarrow> fst (cbpf_cap_init_closure K 0 k) = 0"
    by (auto simp: cbpf_cap_init_def cbpf_cap_init_closure_def EINVAL_def split: prod.splits if_splits)
  assume k: "kernel_idle K k" "kernel_representable K"
  show "cbpf_cap_init_closure K registered k = cbpf_cap_init_first registered k"
    using guard_check_passes [OF k] by (simp add: cbpf_cap_init_closure_def cbpf_cap_init_first_def)
qed

end
