(* ===== verification/Reference.thy ===== *)
theory Reference
  imports Ownership
begin

text \<open>
  The host reference machine, \<open>src/cbpf.h\<close> and \<open>src/cbpf.c\<close>: the instruction format,
  the structural validator, the interpreter with its event trace, and the name tables.

  The C names are kept; a structure's fields carry the letter of the C variable they are
  read through (\<open>x.op\<close> is \<open>x_op\<close>, \<open>r->pc\<close> is \<open>r_pc\<close>, \<open>e->token\<close> is \<open>e_token\<close>).
  Counters of type \<open>unsigned\<close> are natural numbers: the bounds proved below (at most 64
  instructions, 66 events, two cells) show that none of them wraps. Register operands
  are 32-bit words, immediates 64-bit words read as two's complement.
\<close>

subsection \<open>The header\<close>

definition CBPF_CELLS :: nat where [layout_simps]: "CBPF_CELLS = 2"
definition CBPF_REGS :: nat where [layout_simps]: "CBPF_REGS = 4"
definition CBPF_SPILLS :: nat where [layout_simps]: "CBPF_SPILLS = 2"
definition CBPF_MAX_INSNS :: nat where [layout_simps]: "CBPF_MAX_INSNS = 64"
definition CBPF_MAX_EVENTS :: nat where
  [layout_simps]: "CBPF_MAX_EVENTS = CBPF_MAX_INSNS + CBPF_CELLS"

text \<open>\<open>CBPF_OTHER v\<close> is a value \<open>v\<close> of the enumeration's integer type that names no opcode.\<close>

datatype cbpf_opcode =
  CBPF_ACQUIRE | CBPF_COPY | CBPF_SPILL | CBPF_RELOAD | CBPF_READ
| CBPF_RELEASE | CBPF_BR_NULL | CBPF_RETURN | CBPF_OTHER u32

record cbpf_insn =
  x_op :: cbpf_opcode
  x_dst :: u32
  x_src :: u32
  x_imm :: u64

datatype cbpf_status = CBPF_RETURNED | CBPF_TRAPPED | CBPF_INVALID
datatype cbpf_trap = CBPF_NO_TRAP | CBPF_NULL | CBPF_STALE | CBPF_EXHAUSTED
datatype cbpf_event_kind = CBPF_STEP | CBPF_TRAP_EVENT | CBPF_CLEANUP

record cbpf_event =
  e_kind :: cbpf_event_kind
  e_op :: cbpf_opcode
  e_pc :: nat
  e_token :: nat
  e_object_refs :: int

record cbpf_result =
  r_status :: cbpf_status
  r_trap :: cbpf_trap
  r_pc :: nat
  r_returned :: u64
  r_acquired :: nat
  r_reads :: nat
  r_explicit_releases :: nat
  r_cleanup_releases :: nat
  r_last_read :: int
  r_object_refs :: int
  r_explicit_by_cell :: "nat list"
  r_cleanup_by_cell :: "nat list"
  r_event_count :: nat
  r_events :: "cbpf_event list"

text \<open>What \<open>memset(r, 0, sizeof *r)\<close> leaves: every enumeration's first constant, every count 0.\<close>

definition zero_event :: cbpf_event where
  "zero_event = \<lparr>e_kind = CBPF_STEP, e_op = CBPF_ACQUIRE, e_pc = 0, e_token = 0,
                 e_object_refs = 0\<rparr>"

definition zero_result :: cbpf_result where
  "zero_result =
     \<lparr>r_status = CBPF_RETURNED, r_trap = CBPF_NO_TRAP, r_pc = 0, r_returned = 0,
      r_acquired = 0, r_reads = 0, r_explicit_releases = 0, r_cleanup_releases = 0,
      r_last_read = 0, r_object_refs = 0,
      r_explicit_by_cell = replicate CBPF_CELLS 0,
      r_cleanup_by_cell = replicate CBPF_CELLS 0,
      r_event_count = 0, r_events = replicate CBPF_MAX_EVENTS zero_event\<rparr>"

subsection \<open>The structural validator\<close>

text \<open>The \<open>switch\<close> of \<open>cbpf_validate\<close> on the instruction \<open>x\<close> at index \<open>i\<close> of \<open>n\<close>.\<close>

definition cbpf_insn_valid :: "nat \<Rightarrow> nat \<Rightarrow> cbpf_insn \<Rightarrow> bool" where
  "cbpf_insn_valid n i x =
     (case x_op x of
        CBPF_ACQUIRE \<Rightarrow>
          \<not> (unat (x_dst x) \<ge> CBPF_REGS \<or> (x_imm x \<noteq> 0 \<and> x_imm x \<noteq> 1))
      | CBPF_COPY \<Rightarrow> \<not> (unat (x_dst x) \<ge> CBPF_REGS \<or> unat (x_src x) \<ge> CBPF_REGS)
      | CBPF_SPILL \<Rightarrow> \<not> (unat (x_dst x) \<ge> CBPF_SPILLS \<or> unat (x_src x) \<ge> CBPF_REGS)
      | CBPF_RELOAD \<Rightarrow> \<not> (unat (x_dst x) \<ge> CBPF_REGS \<or> unat (x_src x) \<ge> CBPF_SPILLS)
      | CBPF_READ \<Rightarrow> \<not> unat (x_dst x) \<ge> CBPF_REGS
      | CBPF_RELEASE \<Rightarrow> \<not> unat (x_dst x) \<ge> CBPF_REGS
      | CBPF_BR_NULL \<Rightarrow>
          \<not> (unat (x_dst x) \<ge> CBPF_REGS \<or> sint (x_imm x) \<le> int i \<or> sint (x_imm x) \<ge> int n)
      | CBPF_RETURN \<Rightarrow> True
      | CBPF_OTHER _ \<Rightarrow> False)"

function validate_from :: "cbpf_insn list \<Rightarrow> nat \<Rightarrow> nat \<Rightarrow> nat + unit" where
  "validate_from p n i =
     (if i < n
      then (if cbpf_insn_valid n i (p ! i) then validate_from p n (i + 1) else Inl i)
      else Inr ())"
  by pat_completeness auto
termination by (relation "measure (\<lambda>(p, n, i). n - i)") auto

declare validate_from.simps [simp del]

text \<open>
  \<open>Inl i\<close> is the return value 0 with \<open>*bad_pc = i\<close>, \<open>Inr ()\<close> the return value 1. The
  program pointer may be NULL, which is \<^term>\<open>None\<close>.
\<close>

definition cbpf_validate :: "cbpf_insn list option \<Rightarrow> nat \<Rightarrow> nat + unit" where
  "cbpf_validate program n =
     (case program of
        None \<Rightarrow> Inl 0
      | Some p \<Rightarrow>
          if n = 0 \<or> n > CBPF_MAX_INSNS then Inl 0
          else (case validate_from p n 0 of
                  Inl i \<Rightarrow> Inl i
                | Inr _ \<Rightarrow> if x_op (p ! (n - 1)) \<noteq> CBPF_RETURN then Inl (n - 1) else Inr ()))"

subsection \<open>The interpreter\<close>

definition record_event ::
    "cbpf_result \<Rightarrow> cbpf_event_kind \<Rightarrow> cbpf_opcode \<Rightarrow> nat \<Rightarrow> nat \<Rightarrow> cbpf_result" where
  "record_event r kind op pc token =
     r\<lparr>r_events := (r_events r)[r_event_count r :=
          \<lparr>e_kind = kind, e_op = op, e_pc = pc, e_token = token,
           e_object_refs = r_object_refs r\<rparr>],
       r_event_count := r_event_count r + 1\<rparr>"

text \<open>The locals of \<open>cbpf_run\<close> and the result it fills.\<close>

record machine =
  m_regs :: "nat list"
  m_spills :: "nat list"
  m_live :: "bool list"
  m_pc :: nat
  m_res :: cbpf_result

text \<open>The end of an iteration: record the step, set the program counter, go on.\<close>

definition cbpf_next :: "cbpf_insn \<Rightarrow> nat \<Rightarrow> nat \<Rightarrow> machine \<Rightarrow> machine + machine" where
  "cbpf_next x token next m =
     Inr (m\<lparr>m_res := record_event (m_res m) CBPF_STEP (x_op x) (m_pc m) token,
            m_pc := next\<rparr>)"

text \<open>The label \<open>trap\<close>, reached with the trap reason set.\<close>

definition cbpf_goto_trap ::
    "cbpf_insn \<Rightarrow> cbpf_trap \<Rightarrow> nat \<Rightarrow> machine \<Rightarrow> machine + machine" where
  "cbpf_goto_trap x reason token m =
     (let r = (m_res m)\<lparr>r_trap := reason, r_status := CBPF_TRAPPED\<rparr>
      in Inl (m\<lparr>m_res := record_event r CBPF_TRAP_EVENT (x_op x) (m_pc m) token\<rparr>))"

text \<open>The successful acquisition: a fresh token, its live cell, one reference more.\<close>

definition cbpf_issue :: "u32 \<Rightarrow> machine \<Rightarrow> machine" where
  "cbpf_issue dst m =
     (let token = r_acquired (m_res m) + 1
      in m\<lparr>m_res := (m_res m)\<lparr>r_acquired := token,
                              r_object_refs := r_object_refs (m_res m) + 1\<rparr>,
           m_live := (m_live m)[token - 1 := True],
           m_regs := (m_regs m)[unat dst := token]\<rparr>)"

text \<open>The release of a live token: consume the cell, then the provider effect.\<close>

definition cbpf_consume :: "nat \<Rightarrow> machine \<Rightarrow> machine" where
  "cbpf_consume token m =
     (let r = m_res m
      in m\<lparr>m_live := (m_live m)[token - 1 := False],
           m_res := r\<lparr>r_object_refs := r_object_refs r - 1,
                      r_explicit_releases := r_explicit_releases r + 1,
                      r_explicit_by_cell := (r_explicit_by_cell r)
                        [token - 1 := r_explicit_by_cell r ! (token - 1) + 1]\<rparr>\<rparr>)"

definition cbpf_step :: "cbpf_insn list \<Rightarrow> machine \<Rightarrow> machine + machine" where
  "cbpf_step p m0 =
     (let x = p ! m_pc m0;
          next = m_pc m0 + 1;
          m = m0\<lparr>m_res := (m_res m0)\<lparr>r_pc := m_pc m0\<rparr>\<rparr>;
          r = m_res m
      in case x_op x of
        CBPF_ACQUIRE \<Rightarrow>
          if x_imm x = 0 then cbpf_next x 0 next (m\<lparr>m_regs := (m_regs m)[unat (x_dst x) := 0]\<rparr>)
          else if r_acquired r = CBPF_CELLS then cbpf_goto_trap x CBPF_EXHAUSTED 0 m
          else cbpf_next x (r_acquired r + 1) next (cbpf_issue (x_dst x) m)
      | CBPF_COPY \<Rightarrow>
          (let token = m_regs m ! unat (x_src x)
           in cbpf_next x token next (m\<lparr>m_regs := (m_regs m)[unat (x_dst x) := token]\<rparr>))
      | CBPF_SPILL \<Rightarrow>
          (let token = m_regs m ! unat (x_src x)
           in cbpf_next x token next (m\<lparr>m_spills := (m_spills m)[unat (x_dst x) := token]\<rparr>))
      | CBPF_RELOAD \<Rightarrow>
          (let token = m_spills m ! unat (x_src x)
           in cbpf_next x token next (m\<lparr>m_regs := (m_regs m)[unat (x_dst x) := token]\<rparr>))
      | CBPF_READ \<Rightarrow>
          (let token = m_regs m ! unat (x_dst x)
           in if token = 0 then cbpf_goto_trap x CBPF_NULL token m
              else if \<not> m_live m ! (token - 1) then cbpf_goto_trap x CBPF_STALE token m
              else cbpf_next x token next
                     (m\<lparr>m_res := r\<lparr>r_reads := r_reads r + 1, r_last_read := 42\<rparr>\<rparr>))
      | CBPF_RELEASE \<Rightarrow>
          (let token = m_regs m ! unat (x_dst x)
           in if token = 0 then cbpf_goto_trap x CBPF_NULL token m
              else if \<not> m_live m ! (token - 1) then cbpf_goto_trap x CBPF_STALE token m
              else cbpf_next x token next (cbpf_consume token m))
      | CBPF_BR_NULL \<Rightarrow>
          (let token = m_regs m ! unat (x_dst x)
           in cbpf_next x token (if token = 0 then unat (x_imm x) else next) m)
      | CBPF_RETURN \<Rightarrow>
          Inl (m\<lparr>m_res := record_event
                   (r\<lparr>r_returned := x_imm x, r_status := CBPF_RETURNED\<rparr>)
                   CBPF_STEP (x_op x) (m_pc m) 0\<rparr>)
      | CBPF_OTHER _ \<Rightarrow> Inl (m\<lparr>m_res := r\<lparr>r_status := CBPF_INVALID\<rparr>\<rparr>))"

text \<open>The body of the loop at the label \<open>finish\<close>.\<close>

definition cbpf_cleanup1 :: "nat \<Rightarrow> machine \<Rightarrow> machine" where
  "cbpf_cleanup1 i m =
     (if \<not> m_live m ! i then m
      else let r = m_res m;
               r' = r\<lparr>r_object_refs := r_object_refs r - 1,
                      r_cleanup_releases := r_cleanup_releases r + 1,
                      r_cleanup_by_cell := (r_cleanup_by_cell r)
                        [i := r_cleanup_by_cell r ! i + 1]\<rparr>
           in m\<lparr>m_live := (m_live m)[i := False],
                m_res := record_event r' CBPF_CLEANUP CBPF_RELEASE (r_pc r') (i + 1)\<rparr>)"

definition cbpf_finish :: "machine \<Rightarrow> machine" where
  "cbpf_finish m = fold cbpf_cleanup1 [0..<r_acquired (m_res m)] m"

definition cbpf_start :: machine where
  "cbpf_start =
     \<lparr>m_regs = replicate CBPF_REGS 0, m_spills = replicate CBPF_SPILLS 0,
      m_live = replicate CBPF_CELLS False, m_pc = 0,
      m_res = zero_result\<lparr>r_object_refs := 1\<rparr>\<rparr>"

text \<open>\<^term>\<open>None\<close> would be a run that never returns; the function's value is the status field.\<close>

definition cbpf_run :: "cbpf_insn list option \<Rightarrow> nat \<Rightarrow> cbpf_result option" where
  "cbpf_run program n =
     (let r = zero_result\<lparr>r_object_refs := 1\<rparr>
      in case cbpf_validate program n of
           Inl bad \<Rightarrow> Some (r\<lparr>r_pc := bad, r_status := CBPF_INVALID\<rparr>)
         | Inr _ \<Rightarrow>
             map_option (\<lambda>m. m_res (cbpf_finish m))
               (c_loop (\<lambda>m. m_pc m < n) (cbpf_step (the program)) cbpf_start))"

subsection \<open>The name tables\<close>

fun cbpf_status_name :: "cbpf_status \<Rightarrow> string" where
  "cbpf_status_name CBPF_RETURNED = ''returned''"
| "cbpf_status_name CBPF_TRAPPED = ''trapped''"
| "cbpf_status_name CBPF_INVALID = ''invalid''"

fun cbpf_trap_name :: "cbpf_trap \<Rightarrow> string" where
  "cbpf_trap_name CBPF_NO_TRAP = ''none''"
| "cbpf_trap_name CBPF_NULL = ''null''"
| "cbpf_trap_name CBPF_STALE = ''stale''"
| "cbpf_trap_name CBPF_EXHAUSTED = ''exhausted''"

fun cbpf_opcode_name :: "cbpf_opcode \<Rightarrow> string" where
  "cbpf_opcode_name CBPF_ACQUIRE = ''acquire''"
| "cbpf_opcode_name CBPF_COPY = ''copy''"
| "cbpf_opcode_name CBPF_SPILL = ''spill''"
| "cbpf_opcode_name CBPF_RELOAD = ''reload''"
| "cbpf_opcode_name CBPF_READ = ''read''"
| "cbpf_opcode_name CBPF_RELEASE = ''release''"
| "cbpf_opcode_name CBPF_BR_NULL = ''br_null''"
| "cbpf_opcode_name CBPF_RETURN = ''return''"
| "cbpf_opcode_name (CBPF_OTHER v) = ''invalid''"

end
