(* ===== verification/Gate.thy ===== *)
theory Gate
  imports Reference Capability
begin

text \<open>
  The trusted gate, \<open>src/gate.h\<close> and \<open>src/gate.c\<close>: the interpreter of the same programs
  whose aliases are handles (pointers to private cells) instead of token numbers.

  The file is compiled twice: for the host, where a handle is an ordinary pointer, and
  with \<open>__CHERI_PURE_CAPABILITY__\<close>, where it is a capability. A \<open>platform\<close> holds what
  differs: \<open>pf_cheri\<close> is \<^term>\<open>None\<close> on the host and the intrinsics in purecap, and the
  pointer values are of a type \<open>'v\<close>. \<open>pf_cell i\<close> and \<open>pf_object\<close> are the addresses
  \<open>&state.cells[i]\<close> and \<open>&state.object\<close> of the call's own storage.
\<close>

record 'v platform =
  pf_cheri :: "'v cheri option"
  pf_null :: 'v
  pf_cell :: "nat \<Rightarrow> 'v"
  pf_object :: 'v
  pf_sizeof_cell :: u64
  pf_sizeof_handle :: u64

subsection \<open>State\<close>

record gate_object =
  go_value :: int
  go_references :: int

record 'v gate_cell =
  gc_object :: 'v

record 'v gate_state =
  s_object :: gate_object
  s_cells :: "'v gate_cell list"
  s_views :: "'v list"

datatype gate_outcome =
  GATE_OK | GATE_NULL | GATE_STALE | GATE_EXHAUSTED | GATE_REPRESENTATION

record cbpf_gate_metrics =
  gm_acquisitions :: nat
  gm_reads :: nat
  gm_releases :: nat
  gm_cleanups :: nat
  gm_restricted_handles :: nat
  gm_tag_clears :: nat
  gm_cell_bytes :: u64
  gm_handle_bytes :: u64
  gm_purecap :: bool
  gm_representation_errors :: nat

text \<open>The locals of \<open>cbpf_gate_run\<close> with the two structures it fills.\<close>

record 'v gate_run =
  g_state :: "'v gate_state"
  g_regs :: "'v list"
  g_spills :: "'v list"
  g_pc :: nat
  g_res :: cbpf_result
  g_metrics :: cbpf_gate_metrics

subsection \<open>Handles\<close>

definition view_permissions :: "'v cheri \<Rightarrow> u64" where
  "view_permissions C = CHERI_PERM_LOAD C OR CHERI_PERM_GLOBAL C"

text \<open>\<open>Some view\<close> is the return value 1 with \<open>*out = view\<close>.\<close>

definition prepare_view :: "'v platform \<Rightarrow> 'v \<Rightarrow> 'v option" where
  "prepare_view P private =
     (case pf_cheri P of
        None \<Rightarrow> Some private
      | Some C \<Rightarrow>
          (let view = cheri_perms_and C (cheri_bounds_set_exact C private (pf_sizeof_cell P))
                        (view_permissions C)
           in if \<not> cheri_tag_get C view \<or> cheri_is_sealed C view \<or>
                 cheri_address_get C view \<noteq> cheri_address_get C private \<or>
                 cheri_base_get C view \<noteq> cheri_address_get C private \<or>
                 cheri_length_get C view \<noteq> pf_sizeof_cell P \<or>
                 cheri_perms_get C view \<noteq> view_permissions C
              then None
              else Some view))"

definition same_handle :: "'v platform \<Rightarrow> 'v \<Rightarrow> 'v \<Rightarrow> bool" where
  "same_handle P a b =
     (case pf_cheri P of None \<Rightarrow> a = b | Some C \<Rightarrow> cheri_is_equal_exact C a b)"

text \<open>The loop of \<open>identify\<close>, and the function: the outcome and \<open>*token\<close>.\<close>

function identify_from ::
    "'v platform \<Rightarrow> 'v list \<Rightarrow> 'v \<Rightarrow> nat \<Rightarrow> nat \<Rightarrow> gate_outcome \<times> nat" where
  "identify_from P views view i acquired =
     (if i < acquired
      then (if \<not> same_handle P view (views ! i)
            then identify_from P views view (i + 1) acquired
            else (GATE_OK, i + 1))
      else (GATE_REPRESENTATION, 0))"
  by pat_completeness auto
termination by (relation "measure (\<lambda>(P, vs, v, i, n). n - i)") auto

declare identify_from.simps [simp del]

definition identify :: "'v platform \<Rightarrow> 'v gate_state \<Rightarrow> 'v \<Rightarrow> nat \<Rightarrow> gate_outcome \<times> nat" where
  "identify P s view acquired =
     (if same_handle P view (pf_null P) then (GATE_OK, 0)
      else identify_from P (s_views s) view 0 acquired)"

definition object_is_live :: "'v platform \<Rightarrow> 'v \<Rightarrow> bool" where
  "object_is_live P object =
     (case pf_cheri P of None \<Rightarrow> object \<noteq> pf_null P | Some C \<Rightarrow> cheri_tag_get C object)"

text \<open>What \<open>consume\<close> stores back into the cell.\<close>

definition removed_authority :: "'v platform \<Rightarrow> 'v \<Rightarrow> 'v" where
  "removed_authority P object =
     (case pf_cheri P of None \<Rightarrow> pf_null P | Some C \<Rightarrow> cheri_tag_clear C object)"

definition is_purecap :: "'v platform \<Rightarrow> bool" where
  "is_purecap P = (pf_cheri P \<noteq> None)"

subsection \<open>The gates\<close>

text \<open>
  A gate returns its outcome, the token it wrote and the changed locals. The only object a
  live cell refers to is \<open>state.object\<close> (\<open>gate_rel\<close> below keeps this), so \<open>object->value\<close>
  and \<open>object->references\<close> are that object's fields.
\<close>

definition gate_acquire ::
    "'v platform \<Rightarrow> bool \<Rightarrow> nat \<Rightarrow> 'v gate_run \<Rightarrow> gate_outcome \<times> nat \<times> 'v gate_run" where
  "gate_acquire P success out g0 =
     (let m = g_metrics g0;
          g = g0\<lparr>g_metrics := m\<lparr>gm_acquisitions := gm_acquisitions m + 1\<rparr>\<rparr>;
          s = g_state g;
          r = g_res g;
          n = r_acquired r
      in if \<not> success then (GATE_OK, 0, g\<lparr>g_regs := (g_regs g)[out := pf_null P]\<rparr>)
         else if n = CBPF_CELLS then (GATE_EXHAUSTED, 0, g)
         else case prepare_view P (pf_cell P n) of
                None \<Rightarrow> (GATE_REPRESENTATION, 0, g)
              | Some view \<Rightarrow>
                  let object = (s_object s)\<lparr>go_references := go_references (s_object s) + 1\<rparr>;
                      m = g_metrics g
                  in (GATE_OK, n + 1,
                      g\<lparr>g_state := s\<lparr>s_cells := (s_cells s)[n := \<lparr>gc_object = pf_object P\<rparr>],
                                      s_object := object,
                                      s_views := (s_views s)[n := view]\<rparr>,
                        g_res := r\<lparr>r_object_refs := go_references object,
                                   r_acquired := n + 1\<rparr>,
                        g_regs := (g_regs g)[out := view],
                        g_metrics := (if is_purecap P
                          then m\<lparr>gm_restricted_handles := gm_restricted_handles m + 1\<rparr>
                          else m)\<rparr>))"

definition gate_read_field ::
    "'v platform \<Rightarrow> 'v \<Rightarrow> 'v gate_run \<Rightarrow> gate_outcome \<times> nat \<times> 'v gate_run" where
  "gate_read_field P view g0 =
     (let m = g_metrics g0;
          g = g0\<lparr>g_metrics := m\<lparr>gm_reads := gm_reads m + 1\<rparr>\<rparr>;
          s = g_state g;
          r = g_res g
      in case identify P s view (r_acquired r) of
           (outcome, token) \<Rightarrow>
             if outcome \<noteq> GATE_OK then (outcome, token, g)
             else if token = 0 then (GATE_NULL, token, g)
             else let object = gc_object (s_cells s ! (token - 1))
                  in if \<not> object_is_live P object then (GATE_STALE, token, g)
                     else (GATE_OK, token,
                           g\<lparr>g_res := r\<lparr>r_last_read := go_value (s_object s),
                                        r_reads := r_reads r + 1\<rparr>\<rparr>))"

text \<open>
  \<open>consume\<close> on \<open>&state.cells[token - 1]\<close>: whether a cell was consumed, and the locals.
\<close>

definition gate_consume ::
    "'v platform \<Rightarrow> nat \<Rightarrow> bool \<Rightarrow> 'v gate_run \<Rightarrow> bool \<times> 'v gate_run" where
  "gate_consume P token cleanup g =
     (let s = g_state g;
          r = g_res g;
          m = g_metrics g;
          object = gc_object (s_cells s ! (token - 1))
      in if \<not> object_is_live P object then (False, g)
         else
           let s = s\<lparr>s_cells := (s_cells s)[token - 1 := \<lparr>gc_object = removed_authority P object\<rparr>]\<rparr>;
               m = (if is_purecap P then m\<lparr>gm_tag_clears := gm_tag_clears m + 1\<rparr> else m);
               refs = go_references (s_object s) - 1;
               s = s\<lparr>s_object := (s_object s)\<lparr>go_references := refs\<rparr>\<rparr>;
               r = r\<lparr>r_object_refs := refs\<rparr>
           in if cleanup
              then (True, g\<lparr>g_state := s,
                            g_metrics := m\<lparr>gm_cleanups := gm_cleanups m + 1\<rparr>,
                            g_res := r\<lparr>r_cleanup_releases := r_cleanup_releases r + 1,
                                       r_cleanup_by_cell := (r_cleanup_by_cell r)
                                         [token - 1 := r_cleanup_by_cell r ! (token - 1) + 1]\<rparr>\<rparr>)
              else (True, g\<lparr>g_state := s,
                            g_metrics := m,
                            g_res := r\<lparr>r_explicit_releases := r_explicit_releases r + 1,
                                       r_explicit_by_cell := (r_explicit_by_cell r)
                                         [token - 1 := r_explicit_by_cell r ! (token - 1) + 1]\<rparr>\<rparr>))"

definition gate_release ::
    "'v platform \<Rightarrow> 'v \<Rightarrow> 'v gate_run \<Rightarrow> gate_outcome \<times> nat \<times> 'v gate_run" where
  "gate_release P view g0 =
     (let m = g_metrics g0;
          g = g0\<lparr>g_metrics := m\<lparr>gm_releases := gm_releases m + 1\<rparr>\<rparr>
      in case identify P (g_state g) view (r_acquired (g_res g)) of
           (outcome, token) \<Rightarrow>
             if outcome \<noteq> GATE_OK then (outcome, token, g)
             else if token = 0 then (GATE_NULL, token, g)
             else case gate_consume P token False g of
                    (taken, g) \<Rightarrow> (if taken then GATE_OK else GATE_STALE, token, g))"

subsection \<open>The interpreter\<close>

text \<open>The end of an iteration, after the \<open>switch\<close>.\<close>

definition gate_settle ::
    "cbpf_insn \<Rightarrow> nat \<Rightarrow> gate_outcome \<times> nat \<times> 'v gate_run \<Rightarrow> 'v gate_run + 'v gate_run" where
  "gate_settle x next out =
     (case out of (outcome, token, g) \<Rightarrow>
       let r = g_res g; m = g_metrics g
       in if outcome = GATE_REPRESENTATION
          then Inl (g\<lparr>g_metrics := m\<lparr>gm_representation_errors := gm_representation_errors m + 1\<rparr>,
                      g_res := r\<lparr>r_status := CBPF_INVALID\<rparr>\<rparr>)
          else if outcome \<noteq> GATE_OK
          then Inl (g\<lparr>g_res := record_event
                        (r\<lparr>r_status := CBPF_TRAPPED,
                           r_trap := (if outcome = GATE_NULL then CBPF_NULL
                                      else if outcome = GATE_STALE then CBPF_STALE
                                      else CBPF_EXHAUSTED)\<rparr>)
                        CBPF_TRAP_EVENT (x_op x) (g_pc g) token\<rparr>)
          else Inr (g\<lparr>g_res := record_event r CBPF_STEP (x_op x) (g_pc g) token,
                      g_pc := next\<rparr>))"

text \<open>An instruction that moves a handle and only identifies it.\<close>

definition gate_identify ::
    "'v platform \<Rightarrow> 'v \<Rightarrow> 'v gate_run \<Rightarrow> gate_outcome \<times> nat \<times> 'v gate_run" where
  "gate_identify P view g =
     (case identify P (g_state g) view (r_acquired (g_res g)) of
        (outcome, token) \<Rightarrow> (outcome, token, g))"

definition gate_step :: "'v platform \<Rightarrow> cbpf_insn list \<Rightarrow> 'v gate_run \<Rightarrow> 'v gate_run + 'v gate_run" where
  "gate_step P p g0 =
     (let x = p ! g_pc g0;
          next = g_pc g0 + 1;
          g = g0\<lparr>g_res := (g_res g0)\<lparr>r_pc := g_pc g0\<rparr>\<rparr>;
          dst = unat (x_dst x);
          src = unat (x_src x)
      in case x_op x of
        CBPF_ACQUIRE \<Rightarrow>
          gate_settle x next (gate_acquire P ((ucast (x_imm x) :: u32) \<noteq> 0) dst g)
      | CBPF_COPY \<Rightarrow>
          (let g = g\<lparr>g_regs := (g_regs g)[dst := g_regs g ! src]\<rparr>
           in gate_settle x next (gate_identify P (g_regs g ! dst) g))
      | CBPF_SPILL \<Rightarrow>
          (let g = g\<lparr>g_spills := (g_spills g)[dst := g_regs g ! src]\<rparr>
           in gate_settle x next (gate_identify P (g_spills g ! dst) g))
      | CBPF_RELOAD \<Rightarrow>
          (let g = g\<lparr>g_regs := (g_regs g)[dst := g_spills g ! src]\<rparr>
           in gate_settle x next (gate_identify P (g_regs g ! dst) g))
      | CBPF_READ \<Rightarrow> gate_settle x next (gate_read_field P (g_regs g ! dst) g)
      | CBPF_RELEASE \<Rightarrow> gate_settle x next (gate_release P (g_regs g ! dst) g)
      | CBPF_BR_NULL \<Rightarrow>
          (case gate_identify P (g_regs g ! dst) g of
             (outcome, token, g) \<Rightarrow>
               gate_settle x (if outcome = GATE_OK \<and> token = 0 then unat (x_imm x) else next)
                 (outcome, token, g))
      | CBPF_RETURN \<Rightarrow>
          Inl (g\<lparr>g_res := record_event
                   ((g_res g)\<lparr>r_returned := x_imm x, r_status := CBPF_RETURNED\<rparr>)
                   CBPF_STEP (x_op x) (g_pc g) 0\<rparr>)
      | CBPF_OTHER _ \<Rightarrow> Inl (g\<lparr>g_res := (g_res g)\<lparr>r_status := CBPF_INVALID\<rparr>\<rparr>))"

definition gate_cleanup1 :: "'v platform \<Rightarrow> nat \<Rightarrow> 'v gate_run \<Rightarrow> 'v gate_run" where
  "gate_cleanup1 P i g =
     (case gate_consume P (i + 1) True g of
        (taken, g) \<Rightarrow>
          if taken
          then g\<lparr>g_res := record_event (g_res g) CBPF_CLEANUP CBPF_RELEASE (r_pc (g_res g)) (i + 1)\<rparr>
          else g)"

definition gate_finish :: "'v platform \<Rightarrow> 'v gate_run \<Rightarrow> 'v gate_run" where
  "gate_finish P g = fold (gate_cleanup1 P) [0..<r_acquired (g_res g)] g"

definition gate_metrics_start :: "'v platform \<Rightarrow> cbpf_gate_metrics" where
  "gate_metrics_start P =
     \<lparr>gm_acquisitions = 0, gm_reads = 0, gm_releases = 0, gm_cleanups = 0,
      gm_restricted_handles = 0, gm_tag_clears = 0, gm_cell_bytes = pf_sizeof_cell P,
      gm_handle_bytes = pf_sizeof_handle P, gm_purecap = is_purecap P,
      gm_representation_errors = 0\<rparr>"

text \<open>
  The locals before the loop. \<open>views\<close> of cells not yet acquired are never read; they are
  zeroed like every member the initializer of \<open>state\<close> does not name.
\<close>

definition gate_start :: "'v platform \<Rightarrow> 'v gate_run" where
  "gate_start P =
     \<lparr>g_state = \<lparr>s_object = \<lparr>go_value = 42, go_references = 1\<rparr>,
                 s_cells = replicate CBPF_CELLS \<lparr>gc_object = pf_null P\<rparr>,
                 s_views = replicate CBPF_CELLS (pf_null P)\<rparr>,
      g_regs = replicate CBPF_REGS (pf_null P), g_spills = replicate CBPF_SPILLS (pf_null P),
      g_pc = 0, g_res = zero_result\<lparr>r_object_refs := 1\<rparr>, g_metrics = gate_metrics_start P\<rparr>"

text \<open>The result and the metrics. Metrics with a NULL argument are computed and dropped.\<close>

definition cbpf_gate_run ::
    "'v platform \<Rightarrow> cbpf_insn list option \<Rightarrow> nat \<Rightarrow> (cbpf_result \<times> cbpf_gate_metrics) option" where
  "cbpf_gate_run P program n =
     (let r = zero_result\<lparr>r_object_refs := 1\<rparr>
      in case cbpf_validate program n of
           Inl bad \<Rightarrow> Some (r\<lparr>r_pc := bad, r_status := CBPF_INVALID\<rparr>, gate_metrics_start P)
         | Inr _ \<Rightarrow>
             map_option (\<lambda>g. (g_res (gate_finish P g), g_metrics (gate_finish P g)))
               (c_loop (\<lambda>g. g_pc g < n) (gate_step P (the program)) (gate_start P)))"

subsection \<open>The host build\<close>

text \<open>The addresses of the call's own storage, as C pointer values.\<close>

datatype host_pointer = Host_NULL | Host_Cell nat | Host_Object

definition host_platform :: "host_pointer platform" where
  "host_platform =
     \<lparr>pf_cheri = None, pf_null = Host_NULL, pf_cell = Host_Cell, pf_object = Host_Object,
      pf_sizeof_cell = 8, pf_sizeof_handle = 8\<rparr>"

end
