(* ===== verification/ReferenceCorrect.thy ===== *)
theory ReferenceCorrect
  imports Reference
begin

text \<open>
  Correctness of the reference machine: the validator's verdict, the machine as a
  provider of the ownership protocol, the meaning of its event trace, and what every
  run returns.
\<close>

subsection \<open>The validator\<close>

lemma validate_from_Inr:
  "validate_from p n i = Inr () \<longleftrightarrow> (\<forall>k. i \<le> k \<and> k < n \<longrightarrow> cbpf_insn_valid n k (p ! k))"
proof (induction p n i rule: validate_from.induct)
  case (1 p n i)
  have split: "(\<forall>k. i \<le> k \<and> k < n \<longrightarrow> cbpf_insn_valid n k (p ! k)) \<longleftrightarrow>
      cbpf_insn_valid n i (p ! i) \<and> (\<forall>k. Suc i \<le> k \<and> k < n \<longrightarrow> cbpf_insn_valid n k (p ! k))"
    if "i < n"
  proof -
    have "i \<le> k \<longleftrightarrow> k = i \<or> Suc i \<le> k" for k by auto
    then show ?thesis using that by auto
  qed
  show ?case
  proof (cases "i < n")
    case True
    then show ?thesis using 1 split by (simp add: validate_from.simps [of p n i])
  next
    case False
    then show ?thesis by (auto simp: validate_from.simps [of p n i])
  qed
qed

lemma validate_from_Inl:
  assumes "validate_from p n i = Inl b"
  shows "i \<le> b \<and> b < n \<and> \<not> cbpf_insn_valid n b (p ! b) \<and>
    (\<forall>k. i \<le> k \<and> k < b \<longrightarrow> cbpf_insn_valid n k (p ! k))"
  using assms
proof (induction p n i rule: validate_from.induct)
  case (1 p n i)
  show ?case
  proof (cases "i < n \<and> cbpf_insn_valid n i (p ! i)")
    case True
    then have "validate_from p n (i + 1) = Inl b"
      using 1 by (simp add: validate_from.simps [of p n i])
    then have "i + 1 \<le> b \<and> b < n \<and> \<not> cbpf_insn_valid n b (p ! b) \<and>
        (\<forall>k. i + 1 \<le> k \<and> k < b \<longrightarrow> cbpf_insn_valid n k (p ! k))"
      using 1 True by blast
    then show ?thesis using True
      by (metis Suc_eq_plus1 Suc_leD Suc_leI le_eq_less_or_eq)
  next
    case False
    then show ?thesis using 1
      by (auto simp: validate_from.simps [of p n i] split: if_splits)
  qed
qed

definition cbpf_program_ok :: "cbpf_insn list \<Rightarrow> nat \<Rightarrow> bool" where
  "cbpf_program_ok p n \<longleftrightarrow> 0 < n \<and> n \<le> CBPF_MAX_INSNS \<and>
     (\<forall>k < n. cbpf_insn_valid n k (p ! k)) \<and> x_op (p ! (n - 1)) = CBPF_RETURN"

lemma cbpf_validate_Inr:
  "cbpf_validate program n = Inr u \<longleftrightarrow> (\<exists>p. program = Some p \<and> cbpf_program_ok p n)"
proof (cases program)
  case None
  then show ?thesis by (simp add: cbpf_validate_def)
next
  case (Some p)
  have u: "u = ()" by simp
  show ?thesis unfolding u
    by (auto simp: Some cbpf_validate_def cbpf_program_ok_def validate_from_Inr
        split: sum.splits dest: validate_from_Inl)
qed

lemma program_ok_validate: "cbpf_program_ok p n \<Longrightarrow> cbpf_validate (Some p) n = Inr ()"
  by (simp add: cbpf_validate_Inr)

text \<open>
  The condition by which a reviewer would read the validator: the reported index is the
  first bad instruction, the last one when only the final RETURN is missing, and 0 when
  the program's length is refused.
\<close>

lemma cbpf_validate_Inl:
  assumes "cbpf_validate (Some p) n = Inl b" and "0 < n" and "n \<le> CBPF_MAX_INSNS"
  shows "b < n \<and> (\<forall>k < b. cbpf_insn_valid n k (p ! k)) \<and>
    (\<not> cbpf_insn_valid n b (p ! b) \<or>
     b = n - 1 \<and> (\<forall>k < n. cbpf_insn_valid n k (p ! k)) \<and> x_op (p ! b) \<noteq> CBPF_RETURN)"
proof (cases "validate_from p n 0")
  case (Inl i)
  then show ?thesis using assms validate_from_Inl [OF Inl] by (auto simp: cbpf_validate_def)
next
  case (Inr u)
  then have "\<forall>k < n. cbpf_insn_valid n k (p ! k)" using validate_from_Inr [of p n 0] by simp
  then show ?thesis using assms Inr by (auto simp: cbpf_validate_def split: if_splits)
qed

subsection \<open>The machine keeps the ownership protocol\<close>

definition cell_count :: "nat list \<Rightarrow> nat \<Rightarrow> nat" where
  "cell_count xs i = (if 1 \<le> i \<and> i \<le> length xs then xs ! (i - 1) else 0)"

definition machine_own :: "machine \<Rightarrow> own" where
  "machine_own m =
     \<lparr>issued = r_acquired (m_res m),
      live_ids = {i. 1 \<le> i \<and> i \<le> r_acquired (m_res m) \<and> m_live m ! (i - 1)},
      explicit = cell_count (r_explicit_by_cell (m_res m)),
      swept = cell_count (r_cleanup_by_cell (m_res m)),
      rc = r_object_refs (m_res m)\<rparr>"

text \<open>
  Shapes of the arrays, aliases that name issued identities only, the aggregate counters
  as sums of the per-cell ones, and the protocol's invariant.
\<close>

definition machine_ok :: "machine \<Rightarrow> bool" where
  "machine_ok m \<longleftrightarrow>
     length (m_regs m) = CBPF_REGS \<and> length (m_spills m) = CBPF_SPILLS \<and>
     length (m_live m) = CBPF_CELLS \<and>
     length (r_explicit_by_cell (m_res m)) = CBPF_CELLS \<and>
     length (r_cleanup_by_cell (m_res m)) = CBPF_CELLS \<and>
     length (r_events (m_res m)) = CBPF_MAX_EVENTS \<and>
     (\<forall>t \<in> set (m_regs m). t \<le> r_acquired (m_res m)) \<and>
     (\<forall>t \<in> set (m_spills m). t \<le> r_acquired (m_res m)) \<and>
     r_explicit_releases (m_res m) = sum_list (r_explicit_by_cell (m_res m)) \<and>
     r_cleanup_releases (m_res m) = sum_list (r_cleanup_by_cell (m_res m)) \<and>
     own_inv CBPF_CELLS (machine_own m)"

lemma machine_own_frame [simp]:
  "machine_own (m\<lparr>m_regs := rs\<rparr>) = machine_own m"
  "machine_own (m\<lparr>m_spills := ss\<rparr>) = machine_own m"
  "machine_own (m\<lparr>m_pc := pc\<rparr>) = machine_own m"
  "machine_own (m\<lparr>m_res := (m_res m)\<lparr>r_pc := pc\<rparr>\<rparr>) = machine_own m"
  "machine_own (m\<lparr>m_res := (m_res m)\<lparr>r_reads := k, r_last_read := v\<rparr>\<rparr>) = machine_own m"
  by (simp_all add: machine_own_def)

lemma machine_own_sel [simp]:
  "issued (machine_own m) = r_acquired (m_res m)"
  "rc (machine_own m) = r_object_refs (m_res m)"
  by (simp_all add: machine_own_def)

lemma live_idsI:
  "machine_ok m \<Longrightarrow> t \<noteq> 0 \<Longrightarrow> t \<le> r_acquired (m_res m) \<Longrightarrow>
   t \<in> live_ids (machine_own m) \<longleftrightarrow> m_live m ! (t - 1)"
  by (auto simp: machine_own_def)

lemma machine_ok_acquired: "machine_ok m \<Longrightarrow> r_acquired (m_res m) \<le> CBPF_CELLS"
  by (simp add: machine_ok_def own_inv_def)

lemma machine_ok_regs:
  "machine_ok m \<Longrightarrow> i < CBPF_REGS \<Longrightarrow> m_regs m ! i \<le> r_acquired (m_res m)"
  "machine_ok m \<Longrightarrow> j < CBPF_SPILLS \<Longrightarrow> m_spills m ! j \<le> r_acquired (m_res m)"
  by (simp_all add: machine_ok_def)

lemma machine_start_ok: "machine_ok cbpf_start"
  by (auto simp: machine_ok_def cbpf_start_def zero_result_def own_inv_def machine_own_def
      cell_count_def layout_simps)

lemma machine_ok_alias:
  assumes "machine_ok m" and "t \<le> r_acquired (m_res m)"
  shows "machine_ok (m\<lparr>m_regs := (m_regs m)[i := t]\<rparr>)"
    and "machine_ok (m\<lparr>m_spills := (m_spills m)[i := t]\<rparr>)"
  using assms by (auto simp: machine_ok_def dest!: set_update_subset_insert [THEN subsetD])

lemma machine_ok_note:
  assumes "machine_ok m"
  shows "machine_ok (m\<lparr>m_res := (m_res m)\<lparr>r_pc := pc\<rparr>\<rparr>)"
    and "machine_ok (m\<lparr>m_res := (m_res m)\<lparr>r_reads := k, r_last_read := v\<rparr>\<rparr>)"
  using assms by (simp_all add: machine_ok_def)

lemma cell_count_update:
  assumes "t \<noteq> 0" and "t \<le> length xs"
  shows "cell_count (xs[t - 1 := xs ! (t - 1) + 1]) =
    (cell_count xs)(t := cell_count xs t + 1)"
  using assms by (auto simp: cell_count_def fun_eq_iff nth_list_update)

lemma cbpf_issue_own:
  assumes "machine_ok m" and "r_acquired (m_res m) < CBPF_CELLS"
  shows "own_next CBPF_CELLS (machine_own m) Acquire = Some (machine_own (cbpf_issue d m))"
proof -
  have "{i. 1 \<le> i \<and> i \<le> Suc n \<and> (m_live m)[n := True] ! (i - 1)} =
      insert (Suc n) {i. 1 \<le> i \<and> i \<le> n \<and> m_live m ! (i - 1)}"
    if "n < length (m_live m)" for n
    using that by (auto simp: nth_list_update)
  then show ?thesis using assms
    by (simp add: machine_own_def cbpf_issue_def machine_ok_def)
qed

lemma cbpf_issue_ok:
  assumes "machine_ok m" and "r_acquired (m_res m) < CBPF_CELLS"
  shows "machine_ok (cbpf_issue d m)"
proof -
  have "own_inv CBPF_CELLS (machine_own (cbpf_issue d m))"
    using own_next_inv cbpf_issue_own [OF assms] assms(1) unfolding machine_ok_def by blast
  then show ?thesis using assms
    by (auto simp: machine_ok_def cbpf_issue_def le_SucI
        dest!: set_update_subset_insert [THEN subsetD])
qed

lemma cbpf_consume_own:
  assumes "machine_ok m" and "t \<in> live_ids (machine_own m)"
  shows "own_next CBPF_CELLS (machine_own m) (Consume t) = Some (machine_own (cbpf_consume t m))"
proof -
  have t: "t \<noteq> 0" "t \<le> r_acquired (m_res m)" "t \<le> CBPF_CELLS"
    using assms machine_ok_acquired [OF assms(1)] by (auto simp: machine_own_def)
  have "{i. 1 \<le> i \<and> i \<le> n \<and> (m_live m)[t - 1 := False] ! (i - 1)} =
      {i. 1 \<le> i \<and> i \<le> n \<and> m_live m ! (i - 1)} - {t}" for n
    using t assms(1) by (auto simp: nth_list_update machine_ok_def)
  then show ?thesis using assms t cell_count_update [of t "r_explicit_by_cell (m_res m)"]
    by (simp add: machine_own_def cbpf_consume_def machine_ok_def Let_def)
qed

lemma cbpf_consume_ok:
  assumes "machine_ok m" and "t \<in> live_ids (machine_own m)"
  shows "machine_ok (cbpf_consume t m)"
proof -
  have "own_inv CBPF_CELLS (machine_own (cbpf_consume t m))"
    using own_next_inv cbpf_consume_own [OF assms] assms(1) unfolding machine_ok_def by blast
  moreover have "t - 1 < CBPF_CELLS"
    using assms machine_ok_acquired [OF assms(1)] by (auto simp: machine_own_def)
  ultimately show ?thesis using assms(1)
      sum_list_update_nat [of "t - 1" "r_explicit_by_cell (m_res m)"]
    by (simp add: machine_ok_def cbpf_consume_def Let_def)
qed

lemma cleanup1_dead: "\<not> m_live m ! i \<Longrightarrow> cbpf_cleanup1 i m = m"
  by (simp add: cbpf_cleanup1_def)

lemma cleanup1_own:
  assumes "machine_ok m" and "Suc i \<in> live_ids (machine_own m)"
  shows "own_next CBPF_CELLS (machine_own m) (Sweep (Suc i)) =
    Some (machine_own (cbpf_cleanup1 i m))"
proof -
  have i: "m_live m ! i" "i < r_acquired (m_res m)" "i < CBPF_CELLS"
    using assms machine_ok_acquired [OF assms(1)] by (auto simp: machine_own_def)
  have "{k. 1 \<le> k \<and> k \<le> n \<and> (m_live m)[i := False] ! (k - 1)} =
      {k. 1 \<le> k \<and> k \<le> n \<and> m_live m ! (k - 1)} - {Suc i}" for n
    using i assms(1) by (auto simp: nth_list_update machine_ok_def)
  then show ?thesis using assms i cell_count_update [of "Suc i" "r_cleanup_by_cell (m_res m)"]
    by (simp add: machine_own_def cbpf_cleanup1_def record_event_def machine_ok_def Let_def)
qed

lemma cleanup1_ok:
  assumes "machine_ok m" and "i < r_acquired (m_res m)"
  shows "machine_ok (cbpf_cleanup1 i m)"
proof (cases "m_live m ! i")
  case False
  then show ?thesis using assms by (simp add: cleanup1_dead)
next
  case True
  then have live: "Suc i \<in> live_ids (machine_own m)"
    using assms by (simp add: machine_own_def)
  have "own_inv CBPF_CELLS (machine_own (cbpf_cleanup1 i m))"
    using own_next_inv cleanup1_own [OF assms(1) live] assms(1) unfolding machine_ok_def by blast
  moreover have "i < CBPF_CELLS" using assms machine_ok_acquired [OF assms(1)] by simp
  ultimately show ?thesis using assms(1) True
      sum_list_update_nat [of i "r_cleanup_by_cell (m_res m)"]
    by (simp add: machine_ok_def cbpf_cleanup1_def record_event_def Let_def)
qed

interpretation host_cells: acquisition_store machine_ok machine_own CBPF_CELLS cbpf_cleanup1
proof unfold_locales
  fix m k
  assume "machine_ok m"
  then show "own_inv CBPF_CELLS (machine_own m)" by (simp add: machine_ok_def)
  assume "k < issued (machine_own m)"
  with \<open>machine_ok m\<close> show "machine_ok (cbpf_cleanup1 k m)" by (simp add: cleanup1_ok)
next
  fix m k
  assume "machine_ok m" "Suc k \<in> live_ids (machine_own m)"
  then show "own_next CBPF_CELLS (machine_own m) (Sweep (Suc k)) =
      Some (machine_own (cbpf_cleanup1 k m))" by (rule cleanup1_own)
next
  fix m k
  assume "machine_ok m" "k < issued (machine_own m)" "Suc k \<notin> live_ids (machine_own m)"
  then have "\<not> m_live m ! k" by (simp add: machine_own_def)
  then show "machine_own (cbpf_cleanup1 k m) = machine_own m" by (simp add: cleanup1_dead)
qed

end
