(* ===== verification/ReferenceTrace.thy ===== *)
theory ReferenceTrace
  imports ReferenceCorrect
begin

text \<open>
  What the event trace of a run means. An observer that knows the ownership protocol and
  nothing of the machine replays the recorded events: every successful acquisition,
  read, release and cleanup is a protocol step of the recorded token, every trap is a
  refused one, and each event's reference count is the protocol's. The main lemma,
  \<open>cbpf_run_describes\<close>, says what every run of a valid program returns.
\<close>

subsection \<open>The observer\<close>

fun event_own :: "own \<Rightarrow> cbpf_event_kind \<Rightarrow> cbpf_opcode \<Rightarrow> nat \<Rightarrow> own option" where
  "event_own s CBPF_STEP CBPF_ACQUIRE t =
     (if t = 0 then Some s
      else if t = issued s + 1 then own_next CBPF_CELLS s Acquire else None)"
| "event_own s CBPF_STEP CBPF_READ t = own_next CBPF_CELLS s (Use t)"
| "event_own s CBPF_STEP CBPF_RELEASE t = own_next CBPF_CELLS s (Consume t)"
| "event_own s CBPF_STEP CBPF_RETURN t = (if t = 0 then Some s else None)"
| "event_own s CBPF_STEP (CBPF_OTHER v) t = None"
| "event_own s CBPF_STEP _ t = (if t \<le> issued s then Some s else None)"
| "event_own s CBPF_TRAP_EVENT CBPF_ACQUIRE t =
     (if issued s = CBPF_CELLS \<and> t = 0 then Some s else None)"
| "event_own s CBPF_TRAP_EVENT CBPF_READ t =
     (if t \<le> issued s \<and> t \<notin> live_ids s then Some s else None)"
| "event_own s CBPF_TRAP_EVENT CBPF_RELEASE t =
     (if t \<le> issued s \<and> t \<notin> live_ids s then Some s else None)"
| "event_own s CBPF_TRAP_EVENT _ t = None"
| "event_own s CBPF_CLEANUP CBPF_RELEASE t = own_next CBPF_CELLS s (Sweep t)"
| "event_own s CBPF_CLEANUP _ t = None"

fun replay :: "own \<Rightarrow> cbpf_event list \<Rightarrow> own option" where
  "replay s [] = Some s"
| "replay s (e # es) =
     (case event_own s (e_kind e) (e_op e) (e_token e) of
        None \<Rightarrow> None
      | Some t \<Rightarrow> if rc t = e_object_refs e then replay t es else None)"

lemma replay_append:
  "replay s (xs @ ys) = (case replay s xs of None \<Rightarrow> None | Some t \<Rightarrow> replay t ys)"
  by (induction xs arbitrary: s) (auto split: option.splits)

lemma replay_snoc:
  "replay s xs = Some t \<Longrightarrow> event_own t (e_kind e) (e_op e) (e_token e) = Some u \<Longrightarrow>
   rc u = e_object_refs e \<Longrightarrow> replay s (xs @ [e]) = Some u"
  by (simp add: replay_append)

definition trace :: "cbpf_result \<Rightarrow> cbpf_event list" where
  "trace r = take (r_event_count r) (r_events r)"

lemma trace_record_event:
  assumes "r_event_count r < length (r_events r)"
  shows "trace (record_event r k op pc t) =
    trace r @ [\<lparr>e_kind = k, e_op = op, e_pc = pc, e_token = t, e_object_refs = r_object_refs r\<rparr>]"
  using assms by (simp add: trace_def record_event_def take_list_update_Suc)

lemma trace_cong:
  "r_events r' = r_events r \<Longrightarrow> r_event_count r' = r_event_count r \<Longrightarrow> trace r' = trace r"
  by (simp add: trace_def)

lemma record_event_sel [simp]:
  "r_event_count (record_event r k op pc t) = r_event_count r + 1"
  "r_status (record_event r k op pc t) = r_status r"
  "r_trap (record_event r k op pc t) = r_trap r"
  "r_pc (record_event r k op pc t) = r_pc r"
  "r_acquired (record_event r k op pc t) = r_acquired r"
  "r_reads (record_event r k op pc t) = r_reads r"
  "r_last_read (record_event r k op pc t) = r_last_read r"
  "r_returned (record_event r k op pc t) = r_returned r"
  "r_object_refs (record_event r k op pc t) = r_object_refs r"
  "r_explicit_releases (record_event r k op pc t) = r_explicit_releases r"
  "r_cleanup_releases (record_event r k op pc t) = r_cleanup_releases r"
  "r_explicit_by_cell (record_event r k op pc t) = r_explicit_by_cell r"
  "r_cleanup_by_cell (record_event r k op pc t) = r_cleanup_by_cell r"
  "length (r_events (record_event r k op pc t)) = length (r_events r)"
  by (simp_all add: record_event_def)

lemma machine_own_record [simp]:
  "machine_own (m\<lparr>m_res := record_event (m_res m) k op pc t\<rparr>) = machine_own m"
  by (simp add: machine_own_def)

lemma machine_ok_record:
  "machine_ok m \<Longrightarrow> machine_ok (m\<lparr>m_res := record_event (m_res m) k op pc t\<rparr>)"
  by (simp add: machine_ok_def)

subsection \<open>What one instruction does\<close>

text \<open>\<open>m1\<close> is \<open>m\<close> after the effect of its instruction, before the step is recorded.\<close>

definition quiet :: "machine \<Rightarrow> machine \<Rightarrow> bool" where
  "quiet m m1 \<longleftrightarrow>
     m_pc m1 = m_pc m \<and> r_pc (m_res m1) = m_pc m \<and>
     r_events (m_res m1) = r_events (m_res m) \<and>
     r_event_count (m_res m1) = r_event_count (m_res m) \<and>
     r_status (m_res m1) = r_status (m_res m) \<and> r_trap (m_res m1) = r_trap (m_res m) \<and>
     r_cleanup_by_cell (m_res m1) = r_cleanup_by_cell (m_res m) \<and>
     (r_reads (m_res m) \<noteq> 0 \<longrightarrow> r_reads (m_res m1) \<noteq> 0) \<and>
     (r_last_read (m_res m) = (if r_reads (m_res m) = 0 then 0 else 42) \<longrightarrow>
      r_last_read (m_res m1) = (if r_reads (m_res m1) = 0 then 0 else 42))"

definition trap_reason :: "cbpf_opcode \<Rightarrow> nat \<Rightarrow> cbpf_trap" where
  "trap_reason op t =
     (if op = CBPF_ACQUIRE then CBPF_EXHAUSTED else if t = 0 then CBPF_NULL else CBPF_STALE)"

lemma trap_reason_traps [simp]: "trap_reason op t \<noteq> CBPF_NO_TRAP"
  by (simp add: trap_reason_def)

definition at_pc :: "machine \<Rightarrow> machine" where
  "at_pc m = m\<lparr>m_res := (m_res m)\<lparr>r_pc := m_pc m\<rparr>\<rparr>"

lemma at_pc_own [simp]: "machine_own (at_pc m) = machine_own m"
  by (simp add: at_pc_def)

lemma at_pc_quiet: "quiet m (at_pc m)"
  by (simp add: quiet_def at_pc_def)

lemma at_pc_ok: "machine_ok m \<Longrightarrow> machine_ok (at_pc m)"
  by (simp add: at_pc_def machine_ok_note)

lemma branch_target:
  assumes "cbpf_insn_valid n i x" and "x_op x = CBPF_BR_NULL"
  shows "i < unat (x_imm x) \<and> unat (x_imm x) < n"
proof -
  have s: "int i < sint (x_imm x)" "sint (x_imm x) < int n"
    using assms by (auto simp: cbpf_insn_valid_def)
  have "sint (x_imm x) = uint (x_imm x)"
    using s(1) by (intro sint_nonneg_uint) simp
  then have "int i < int (unat (x_imm x))" "int (unat (x_imm x)) < int n"
    using s by simp_all
  then show ?thesis by (simp only: of_nat_less_iff)
qed

text \<open>The three ways an iteration ends, with the protocol step that its event reports.\<close>

text \<open>The two ways an instruction other than RETURN ends: at the end of the iteration, or at the label trap.\<close>

definition goes_on :: "cbpf_insn list \<Rightarrow> nat \<Rightarrow> machine \<Rightarrow> bool" where
  "goes_on p n m \<longleftrightarrow>
     (\<exists>m1 token nxt. cbpf_step p m = cbpf_next (p ! m_pc m) token nxt m1 \<and> machine_ok m1 \<and> quiet m m1 \<and>
        x_op (p ! m_pc m) \<noteq> CBPF_RETURN \<and> m_pc m < nxt \<and> nxt < n \<and>
        event_own (machine_own m) CBPF_STEP (x_op (p ! m_pc m)) token = Some (machine_own m1))"

definition traps_at :: "cbpf_insn list \<Rightarrow> machine \<Rightarrow> bool" where
  "traps_at p m \<longleftrightarrow>
     (\<exists>token. cbpf_step p m = cbpf_goto_trap (p ! m_pc m) (trap_reason (x_op (p ! m_pc m)) token) token (at_pc m) \<and>
        event_own (machine_own m) CBPF_TRAP_EVENT (x_op (p ! m_pc m)) token = Some (machine_own m))"

lemma goes_onI:
  "cbpf_step p m = cbpf_next (p ! m_pc m) token nxt m1 \<Longrightarrow> machine_ok m1 \<Longrightarrow> quiet m m1 \<Longrightarrow>
   x_op (p ! m_pc m) \<noteq> CBPF_RETURN \<Longrightarrow> m_pc m < nxt \<Longrightarrow> nxt < n \<Longrightarrow>
   event_own (machine_own m) CBPF_STEP (x_op (p ! m_pc m)) token = Some (machine_own m1) \<Longrightarrow> goes_on p n m"
  by (auto simp: goes_on_def)

lemma traps_atI:
  "cbpf_step p m = cbpf_goto_trap (p ! m_pc m) (trap_reason (x_op (p ! m_pc m)) token) token (at_pc m) \<Longrightarrow>
   event_own (machine_own m) CBPF_TRAP_EVENT (x_op (p ! m_pc m)) token = Some (machine_own m) \<Longrightarrow> traps_at p m"
  by (auto simp: traps_at_def)

lemma at_pc_sel:
  "m_regs (at_pc m) = m_regs m" "m_spills (at_pc m) = m_spills m" "m_live (at_pc m) = m_live m"
  "r_acquired (m_res (at_pc m)) = r_acquired (m_res m)" "m_pc (at_pc m) = m_pc m"
  "r_pc (m_res (at_pc m)) = m_pc m" "r_reads (m_res (at_pc m)) = r_reads (m_res m)"
  "r_last_read (m_res (at_pc m)) = r_last_read (m_res m)"
  by (simp_all add: at_pc_def)

lemma valid_at:
  assumes "cbpf_program_ok p n" and "m_pc m < n"
  shows "cbpf_insn_valid n (m_pc m) (p ! m_pc m)"
    and "x_op (p ! m_pc m) \<noteq> CBPF_RETURN \<Longrightarrow> m_pc m + 1 < n"
proof -
  show "cbpf_insn_valid n (m_pc m) (p ! m_pc m)" using assms by (simp add: cbpf_program_ok_def)
  show "m_pc m + 1 < n" if "x_op (p ! m_pc m) \<noteq> CBPF_RETURN"
    using that assms by (cases "m_pc m = n - 1") (auto simp: cbpf_program_ok_def)
qed

lemma acquire_kinds:
  assumes ok: "machine_ok m" and p: "cbpf_program_ok p n" and pc: "m_pc m < n"
    and op: "x_op (p ! m_pc m) = CBPF_ACQUIRE"
  shows "goes_on p n m \<or> traps_at p m"
proof -
  note [simp] = at_pc_def [symmetric]
  let ?x = "p ! m_pc m" and ?m = "at_pc m"
  have ok': "machine_ok ?m" using ok by (rule at_pc_ok)
  have pc: "m_pc m + 1 < n" using valid_at(2) [OF p pc] op by simp
  consider (null) "x_imm ?x = 0"
    | (full) "x_imm ?x \<noteq> 0" "r_acquired (m_res m) = CBPF_CELLS"
    | (fresh) "x_imm ?x \<noteq> 0" "r_acquired (m_res m) < CBPF_CELLS"
    using machine_ok_acquired [OF ok] by linarith
  then show ?thesis
  proof cases
    case null
    have "goes_on p n m"
      by (rule goes_onI [of _ _ 0 "m_pc m + 1" "?m\<lparr>m_regs := (m_regs m)[unat (x_dst ?x) := 0]\<rparr>"])
        (use op null pc at_pc_quiet [of m] machine_ok_alias(1) [OF ok', of 0] in
          \<open>auto simp: cbpf_step_def Let_def quiet_def at_pc_sel\<close>)
    then show ?thesis ..
  next
    case full
    have "traps_at p m"
      by (rule traps_atI [of _ _ 0])
        (use op full in \<open>auto simp: cbpf_step_def Let_def trap_reason_def at_pc_sel\<close>)
    then show ?thesis ..
  next
    case fresh
    have "goes_on p n m"
      by (rule goes_onI [of _ _ "r_acquired (m_res m) + 1" "m_pc m + 1" "cbpf_issue (x_dst ?x) ?m"])
        (use op fresh ok' pc at_pc_quiet [of m]
           cbpf_issue_ok [OF ok', of "x_dst ?x"] cbpf_issue_own [OF ok', of "x_dst ?x"] in
          \<open>auto simp: cbpf_step_def Let_def quiet_def cbpf_issue_def at_pc_sel\<close>)
    then show ?thesis ..
  qed
qed

lemma move_kinds:
  assumes ok: "machine_ok m" and p: "cbpf_program_ok p n" and pc: "m_pc m < n"
    and op: "x_op (p ! m_pc m) \<in> {CBPF_COPY, CBPF_SPILL, CBPF_RELOAD}"
  shows "goes_on p n m"
proof -
  note [simp] = at_pc_def [symmetric]
  let ?x = "p ! m_pc m" and ?m = "at_pc m"
  define t where "t = (if x_op ?x = CBPF_RELOAD then m_spills m else m_regs m) ! unat (x_src ?x)"
  have ok': "machine_ok ?m" using ok by (rule at_pc_ok)
  have v: "cbpf_insn_valid n (m_pc m) ?x" using valid_at(1) [OF p pc] .
  have pc: "m_pc m + 1 < n" using valid_at(2) [OF p pc] op by auto
  have t: "t \<le> r_acquired (m_res ?m)"
    using v op machine_ok_regs [OF ok, of "unat (x_src ?x)"] unfolding t_def
    by (auto simp: cbpf_insn_valid_def at_pc_sel)
  define m1 where "m1 =
    (if x_op ?x = CBPF_SPILL then ?m\<lparr>m_spills := (m_spills m)[unat (x_dst ?x) := t]\<rparr>
     else ?m\<lparr>m_regs := (m_regs m)[unat (x_dst ?x) := t]\<rparr>)"
  have "machine_ok m1" "quiet m m1" "machine_own m1 = machine_own m"
    using machine_ok_alias [OF ok' t] at_pc_quiet [of m] by (auto simp: m1_def quiet_def at_pc_sel)
  then show ?thesis
    using op pc t by (intro goes_onI [of _ _ t "m_pc m + 1" m1])
      (auto simp: cbpf_step_def Let_def at_pc_sel m1_def t_def)
qed

lemma use_kinds:
  assumes ok: "machine_ok m" and p: "cbpf_program_ok p n" and pc: "m_pc m < n"
    and op: "x_op (p ! m_pc m) \<in> {CBPF_READ, CBPF_RELEASE}"
  shows "goes_on p n m \<or> traps_at p m"
proof -
  note [simp] = at_pc_def [symmetric]
  let ?x = "p ! m_pc m" and ?m = "at_pc m"
  let ?t = "m_regs m ! unat (x_dst ?x)"
  have ok': "machine_ok ?m" using ok by (rule at_pc_ok)
  have t: "?t \<le> r_acquired (m_res m)"
    using valid_at(1) [OF p pc] op machine_ok_regs(1) [OF ok, of "unat (x_dst ?x)"]
    by (auto simp: cbpf_insn_valid_def)
  have pc: "m_pc m + 1 < n" using valid_at(2) [OF p pc] op by auto
  show ?thesis
  proof (cases "?t \<in> live_ids (machine_own m)")
    case True
    then have l: "?t \<noteq> 0" "m_live m ! (?t - 1)" by (auto simp: machine_own_def)
    define m1 where "m1 = (if x_op ?x = CBPF_READ
      then ?m\<lparr>m_res := (m_res ?m)\<lparr>r_reads := r_reads (m_res ?m) + 1, r_last_read := 42\<rparr>\<rparr>
      else cbpf_consume ?t ?m)"
    have L: "?t \<in> live_ids (machine_own ?m)" using True by simp
    have "quiet m (cbpf_consume ?t ?m)"
      using at_pc_quiet [of m] by (simp add: quiet_def cbpf_consume_def Let_def)
    then have m1: "machine_ok m1" "quiet m m1"
      "event_own (machine_own m) CBPF_STEP (x_op ?x) ?t = Some (machine_own m1)"
      using op True machine_ok_note [OF ok'] at_pc_quiet [of m] cbpf_consume_ok [OF ok' L] cbpf_consume_own [OF ok' L]
      by (auto simp: m1_def quiet_def)
    have "goes_on p n m"
      by (rule goes_onI [OF _ m1(1,2) _ _ _ m1(3), where nxt = "m_pc m + 1"])
        (use op pc l in \<open>auto simp: cbpf_step_def Let_def at_pc_sel m1_def\<close>)
    then show ?thesis ..
  next
    case False
    then have l: "?t = 0 \<or> \<not> m_live m ! (?t - 1)" using live_idsI [OF ok _ t] by auto
    have "traps_at p m"
      by (rule traps_atI [of _ _ ?t])
        (use op l t False in \<open>auto simp: cbpf_step_def Let_def trap_reason_def at_pc_sel\<close>)
    then show ?thesis ..
  qed
qed

lemma branch_kinds:
  assumes ok: "machine_ok m" and p: "cbpf_program_ok p n" and pc: "m_pc m < n"
    and op: "x_op (p ! m_pc m) = CBPF_BR_NULL"
  shows "goes_on p n m"
proof -
  note [simp] = at_pc_def [symmetric]
  let ?x = "p ! m_pc m"
  let ?t = "m_regs m ! unat (x_dst ?x)"
  have v: "cbpf_insn_valid n (m_pc m) ?x" using valid_at(1) [OF p pc] .
  have t: "?t \<le> r_acquired (m_res m)"
    using v op machine_ok_regs(1) [OF ok, of "unat (x_dst ?x)"] by (simp add: cbpf_insn_valid_def)
  have pc: "m_pc m + 1 < n" using valid_at(2) [OF p pc] op by simp
  show ?thesis
    by (rule goes_onI [of _ _ ?t "if ?t = 0 then unat (x_imm ?x) else m_pc m + 1" "at_pc m"])
      (use op pc at_pc_quiet [of m] t at_pc_ok [OF ok] branch_target [OF v] in
        \<open>auto simp: cbpf_step_def Let_def at_pc_sel\<close>)
qed

lemma cbpf_step_kinds:
  assumes ok: "machine_ok m" and p: "cbpf_program_ok p n" and pc: "m_pc m < n"
  defines "x \<equiv> p ! m_pc m"
  obtains
    (next_insn) m1 token nxt where
      "cbpf_step p m = cbpf_next x token nxt m1" "machine_ok m1" "quiet m m1"
      "x_op x \<noteq> CBPF_RETURN" "m_pc m < nxt" "nxt < n"
      "event_own (machine_own m) CBPF_STEP (x_op x) token = Some (machine_own m1)"
  | (trap) token where
      "cbpf_step p m = cbpf_goto_trap x (trap_reason (x_op x) token) token (at_pc m)"
      "event_own (machine_own m) CBPF_TRAP_EVENT (x_op x) token = Some (machine_own m)"
  | (leave) "x_op x = CBPF_RETURN"
      "cbpf_step p m = Inl (at_pc m\<lparr>m_res := record_event
         ((m_res (at_pc m))\<lparr>r_returned := x_imm x, r_status := CBPF_RETURNED\<rparr>)
         CBPF_STEP CBPF_RETURN (m_pc m) 0\<rparr>)"
proof (cases "x_op x")
  case CBPF_RETURN
  show ?thesis
    by (rule leave) (use CBPF_RETURN in \<open>auto simp: cbpf_step_def Let_def x_def at_pc_sel at_pc_def [symmetric]\<close>)
next
  case (CBPF_OTHER v)
  then show ?thesis using valid_at(1) [OF p pc] by (simp add: cbpf_insn_valid_def x_def)
qed (use acquire_kinds [OF ok p pc] move_kinds [OF ok p pc] use_kinds [OF ok p pc] branch_kinds [OF ok p pc]
    next_insn trap in \<open>unfold goes_on_def traps_at_def x_def, blast+\<close>)

subsection \<open>The loop\<close>

definition read_value_ok :: "cbpf_result \<Rightarrow> bool" where
  "read_value_ok r \<longleftrightarrow> r_last_read r = (if r_reads r = 0 then 0 else 42)"

definition steps_of :: "cbpf_insn list \<Rightarrow> cbpf_event list \<Rightarrow> bool" where
  "steps_of p es \<longleftrightarrow>
     (\<forall>e \<in> set es. e_kind e = CBPF_STEP \<and> e_op e = x_op (p ! e_pc e) \<and> e_op e \<noteq> CBPF_RETURN) \<and>
     sorted_wrt (<) (map e_pc es)"

text \<open>Before every iteration: one recorded step per executed instruction, in program order.\<close>

definition loop_inv :: "cbpf_insn list \<Rightarrow> nat \<Rightarrow> machine \<Rightarrow> bool" where
  "loop_inv p n m \<longleftrightarrow>
     cbpf_program_ok p n \<and> machine_ok m \<and> m_pc m < n \<and>
     r_event_count (m_res m) \<le> m_pc m \<and>
     r_status (m_res m) = CBPF_RETURNED \<and> r_trap (m_res m) = CBPF_NO_TRAP \<and>
     read_value_ok (m_res m) \<and> r_cleanup_by_cell (m_res m) = replicate CBPF_CELLS 0 \<and>
     replay own_init (trace (m_res m)) = Some (machine_own m) \<and>
     steps_of p (trace (m_res m)) \<and> (\<forall>e \<in> set (trace (m_res m)). e_pc e < m_pc m)"

text \<open>
  After the loop: the steps, then the one event that ended the run, a RETURN or a trap
  whose reason its operation and token explain.
\<close>

definition last_event_ok :: "cbpf_insn list \<Rightarrow> cbpf_result \<Rightarrow> cbpf_event \<Rightarrow> bool" where
  "last_event_ok p r e \<longleftrightarrow>
     e_pc e = r_pc r \<and> e_op e = x_op (p ! r_pc r) \<and>
     (r_status r = CBPF_RETURNED \<and> r_trap r = CBPF_NO_TRAP \<and>
        e_kind e = CBPF_STEP \<and> e_op e = CBPF_RETURN \<and> r_returned r = x_imm (p ! r_pc r) \<or>
      r_status r = CBPF_TRAPPED \<and> e_kind e = CBPF_TRAP_EVENT \<and>
        r_trap r = trap_reason (e_op e) (e_token e))"

definition left_loop :: "cbpf_insn list \<Rightarrow> nat \<Rightarrow> machine \<Rightarrow> bool" where
  "left_loop p n m \<longleftrightarrow>
     machine_ok m \<and> r_event_count (m_res m) \<le> n \<and> r_pc (m_res m) < n \<and>
     read_value_ok (m_res m) \<and>
     replay own_init (trace (m_res m)) = Some (machine_own m) \<and>
     (\<exists>ss t. trace (m_res m) = ss @ [t] \<and> steps_of p ss \<and>
        (\<forall>e \<in> set ss. e_pc e < e_pc t) \<and> last_event_ok p (m_res m) t)"

lemma loop_inv_start: "cbpf_program_ok p n \<Longrightarrow> loop_inv p n cbpf_start"
  using machine_start_ok
  by (auto simp: loop_inv_def cbpf_start_def zero_result_def read_value_ok_def trace_def
      steps_of_def own_init_def machine_own_def cell_count_def layout_simps cbpf_program_ok_def
      fun_eq_iff)

lemma loop_room:
  assumes "loop_inv p n m"
  shows "r_event_count (m_res m) < length (r_events (m_res m))"
  using assms by (simp add: loop_inv_def machine_ok_def cbpf_program_ok_def layout_simps)

lemma quiet_trace: "quiet m m1 \<Longrightarrow> trace (m_res m1) = trace (m_res m)"
  by (simp add: quiet_def trace_def)

lemma loop_next:
  assumes inv: "loop_inv p n m" and m1: "machine_ok m1" "quiet m m1"
    and op: "x_op (p ! m_pc m) \<noteq> CBPF_RETURN" and nxt: "m_pc m < nxt" "nxt < n"
    and own: "event_own (machine_own m) CBPF_STEP (x_op (p ! m_pc m)) token = Some (machine_own m1)"
    and res: "cbpf_next (p ! m_pc m) token nxt m1 = Inr m'"
  shows "loop_inv p n m' \<and> m_pc m' = nxt"
proof -
  let ?e = "\<lparr>e_kind = CBPF_STEP, e_op = x_op (p ! m_pc m), e_pc = m_pc m, e_token = token,
             e_object_refs = r_object_refs (m_res m1)\<rparr>"
  have m': "m' = m1\<lparr>m_res := record_event (m_res m1) CBPF_STEP (x_op (p ! m_pc m)) (m_pc m) token,
                     m_pc := nxt\<rparr>"
    using res m1 by (simp add: cbpf_next_def quiet_def)
  have room: "r_event_count (m_res m1) < length (r_events (m_res m1))"
    using loop_room [OF inv] m1 by (simp add: quiet_def)
  have tr: "trace (m_res m') = trace (m_res m) @ [?e]"
    using trace_record_event [OF room] quiet_trace [OF m1(2)] m' by simp
  have own': "machine_own m' = machine_own m1" by (simp add: m' machine_own_def)
  have "replay own_init (trace (m_res m')) = Some (machine_own m')"
    using inv own unfolding tr own' by (intro replay_snoc) (simp_all add: loop_inv_def)
  moreover have "steps_of p (trace (m_res m'))"
    using inv op unfolding tr by (auto simp: loop_inv_def steps_of_def sorted_wrt_append)
  moreover have "\<forall>e \<in> set (trace (m_res m')). e_pc e < nxt"
    using inv nxt unfolding tr by (auto simp: loop_inv_def)
  moreover have "machine_ok m'"
    using m1(1) by (simp add: m' machine_ok_def machine_own_def)
  moreover have "read_value_ok (m_res m')"
    using inv m1 by (auto simp: m' loop_inv_def read_value_ok_def quiet_def split: if_splits)
  ultimately show ?thesis
    using inv m1 nxt by (simp add: loop_inv_def m' quiet_def)
qed

lemma left_trap:
  assumes inv: "loop_inv p n m"
    and own: "event_own (machine_own m) CBPF_TRAP_EVENT (x_op (p ! m_pc m)) token =
      Some (machine_own m)"
    and res: "cbpf_goto_trap (p ! m_pc m) (trap_reason (x_op (p ! m_pc m)) token) token (at_pc m) =
      Inl m'"
  shows "left_loop p n m'"
proof -
  let ?x = "p ! m_pc m"
  let ?r = "(m_res (at_pc m))\<lparr>r_trap := trap_reason (x_op ?x) token, r_status := CBPF_TRAPPED\<rparr>"
  let ?e = "\<lparr>e_kind = CBPF_TRAP_EVENT, e_op = x_op ?x, e_pc = m_pc m, e_token = token,
             e_object_refs = r_object_refs (m_res m)\<rparr>"
  have m': "m' = (at_pc m)\<lparr>m_res := record_event ?r CBPF_TRAP_EVENT (x_op ?x) (m_pc m) token\<rparr>"
    using res by (simp add: cbpf_goto_trap_def Let_def at_pc_def)
  have "trace ?r = trace (m_res m)" by (rule trace_cong) (simp_all add: at_pc_def)
  moreover have "r_event_count ?r < length (r_events ?r)"
    using loop_room [OF inv] by (simp add: at_pc_def)
  ultimately have tr: "trace (m_res m') = trace (m_res m) @ [?e]"
    using trace_record_event [of ?r] m' by (simp add: at_pc_def)
  have own': "machine_own m' = machine_own m" by (simp add: m' machine_own_def at_pc_def)
  have "replay own_init (trace (m_res m')) = Some (machine_own m')"
    using inv own unfolding tr own' by (intro replay_snoc) (simp_all add: loop_inv_def)
  moreover have "machine_ok m'"
    using inv own' by (simp add: m' loop_inv_def machine_ok_def at_pc_def)
  moreover have "read_value_ok (m_res m')"
    using inv by (simp add: m' loop_inv_def read_value_ok_def at_pc_def)
  moreover have "last_event_ok p (m_res m') ?e"
    by (simp add: last_event_ok_def m' at_pc_def)
  ultimately show ?thesis
    using inv unfolding left_loop_def tr
    by (auto simp: loop_inv_def m' at_pc_def)
qed

lemma left_return:
  assumes inv: "loop_inv p n m" and op: "x_op (p ! m_pc m) = CBPF_RETURN"
    and res: "m' = at_pc m\<lparr>m_res := record_event
         ((m_res (at_pc m))\<lparr>r_returned := x_imm (p ! m_pc m), r_status := CBPF_RETURNED\<rparr>)
         CBPF_STEP CBPF_RETURN (m_pc m) 0\<rparr>"
  shows "left_loop p n m'"
proof -
  let ?r = "(m_res (at_pc m))\<lparr>r_returned := x_imm (p ! m_pc m), r_status := CBPF_RETURNED\<rparr>"
  let ?e = "\<lparr>e_kind = CBPF_STEP, e_op = CBPF_RETURN, e_pc = m_pc m, e_token = 0,
             e_object_refs = r_object_refs (m_res m)\<rparr>"
  have "trace ?r = trace (m_res m)" by (rule trace_cong) (simp_all add: at_pc_def)
  moreover have "r_event_count ?r < length (r_events ?r)"
    using loop_room [OF inv] by (simp add: at_pc_def)
  ultimately have tr: "trace (m_res m') = trace (m_res m) @ [?e]"
    using trace_record_event [of ?r] res by (simp add: at_pc_def)
  have own': "machine_own m' = machine_own m" by (simp add: res machine_own_def at_pc_def)
  have "replay own_init (trace (m_res m')) = Some (machine_own m')"
    using inv unfolding tr own' by (intro replay_snoc) (simp_all add: loop_inv_def)
  moreover have "machine_ok m'"
    using inv own' by (simp add: res loop_inv_def machine_ok_def at_pc_def)
  moreover have "read_value_ok (m_res m')"
    using inv by (simp add: res loop_inv_def read_value_ok_def at_pc_def)
  moreover have "last_event_ok p (m_res m') ?e"
    using inv op by (simp add: last_event_ok_def loop_inv_def res at_pc_def)
  ultimately show ?thesis
    using inv unfolding left_loop_def tr
    by (auto simp: loop_inv_def res at_pc_def)
qed

text \<open>The interpreter's loop makes progress: the program counter only grows.\<close>

lemma cbpf_step_inv:
  assumes "loop_inv p n m"
  shows "cbpf_step p m = Inr m' \<Longrightarrow> loop_inv p n m' \<and> m_pc m < m_pc m'"
    and "cbpf_step p m = Inl m' \<Longrightarrow> left_loop p n m'"
proof -
  have ok: "machine_ok m" "cbpf_program_ok p n" "m_pc m < n"
    using assms by (simp_all add: loop_inv_def)
  show "loop_inv p n m' \<and> m_pc m < m_pc m'" if "cbpf_step p m = Inr m'"
    using ok
  proof (cases rule: cbpf_step_kinds)
    case (next_insn m1 token nxt)
    then show ?thesis using loop_next [OF assms, of m1 nxt token m'] that by simp
  qed (use that in \<open>simp_all add: cbpf_goto_trap_def Let_def\<close>)
  show "left_loop p n m'" if "cbpf_step p m = Inl m'"
    using ok
  proof (cases rule: cbpf_step_kinds)
    case (next_insn m1 token nxt)
    then show ?thesis using that by (simp add: cbpf_next_def)
  next
    case (trap token)
    then show ?thesis using left_trap [OF assms, of token m'] that by simp
  next
    case leave
    then show ?thesis using left_return [OF assms, of m'] that by simp
  qed
qed

lemma loop_inv_pc: "loop_inv p n m \<Longrightarrow> m_pc m < n"
  by (simp add: loop_inv_def)

interpretation host_loop: bounded_loop "\<lambda>m. m_pc m < n" "cbpf_step p" "loop_inv p n"
    "\<lambda>m. n - m_pc m" for p n
  by unfold_locales (use cbpf_step_inv(1) in \<open>force dest: loop_inv_pc\<close>)+

lemma cbpf_loop_left:
  assumes "cbpf_program_ok p n"
  shows "\<exists>m. c_loop (\<lambda>m. m_pc m < n) (cbpf_step p) cbpf_start = Some m \<and> left_loop p n m"
  by (rule host_loop.loop_rule [OF loop_inv_start [OF assms]])
    (auto dest: cbpf_step_inv(2) loop_inv_pc)

subsection \<open>The cleanup\<close>

definition cleanup_events :: "nat \<Rightarrow> cbpf_event list \<Rightarrow> bool" where
  "cleanup_events pc es \<longleftrightarrow>
     (\<forall>e \<in> set es. e_kind e = CBPF_CLEANUP \<and> e_op e = CBPF_RELEASE \<and> e_pc e = pc) \<and>
     sorted_wrt (<) (map e_token es)"

lemma cleanup_events_append:
  "cleanup_events pc (xs @ ys) \<longleftrightarrow> cleanup_events pc xs \<and> cleanup_events pc ys \<and>
     (\<forall>x \<in> set xs. \<forall>y \<in> set ys. e_token x < e_token y)"
  by (auto simp: cleanup_events_def sorted_wrt_append)

lemma cleanup_events_one:
  "length es \<le> 1 \<Longrightarrow>
   \<forall>e \<in> set es. e_kind e = CBPF_CLEANUP \<and> e_op e = CBPF_RELEASE \<and> e_pc e = pc \<Longrightarrow>
   cleanup_events pc es"
  by (cases es) (simp_all add: cleanup_events_def)

text \<open>Fields the cleanup does not write.\<close>

definition same_outcome :: "cbpf_result \<Rightarrow> cbpf_result \<Rightarrow> bool" where
  "same_outcome r s \<longleftrightarrow>
     r_status r = r_status s \<and> r_trap r = r_trap s \<and> r_pc r = r_pc s \<and>
     r_returned r = r_returned s \<and> r_acquired r = r_acquired s \<and> r_reads r = r_reads s \<and>
     r_last_read r = r_last_read s \<and>
     r_explicit_releases r = r_explicit_releases s \<and>
     r_explicit_by_cell r = r_explicit_by_cell s"

lemma cleanup1_step:
  assumes ok: "machine_ok m" and k: "k < r_acquired (m_res m)"
    and room: "r_event_count (m_res m) < CBPF_MAX_EVENTS"
    and rep: "replay own_init (trace (m_res m)) = Some (machine_own m)"
  defines "m' \<equiv> cbpf_cleanup1 k m"
  obtains es where "trace (m_res m') = trace (m_res m) @ es"
    "\<forall>e \<in> set es. e_kind e = CBPF_CLEANUP \<and> e_op e = CBPF_RELEASE \<and>
        e_pc e = r_pc (m_res m) \<and> e_token e = Suc k"
    "length es \<le> 1" "r_event_count (m_res m') = r_event_count (m_res m) + length es"
    "replay own_init (trace (m_res m')) = Some (machine_own m')"
    "same_outcome (m_res m') (m_res m)"
proof (cases "m_live m ! k")
  case False
  then have "m' = m" by (simp add: m'_def cleanup1_dead)
  then show ?thesis using rep that [of "[]"] by (simp add: same_outcome_def)
next
  case True
  let ?e = "\<lparr>e_kind = CBPF_CLEANUP, e_op = CBPF_RELEASE, e_pc = r_pc (m_res m),
             e_token = Suc k, e_object_refs = r_object_refs (m_res m) - 1\<rparr>"
  have live: "Suc k \<in> live_ids (machine_own m)" using True k by (simp add: machine_own_def)
  let ?r = "(m_res m)\<lparr>r_object_refs := r_object_refs (m_res m) - 1,
                      r_cleanup_releases := r_cleanup_releases (m_res m) + 1,
                      r_cleanup_by_cell := (r_cleanup_by_cell (m_res m))
                        [k := r_cleanup_by_cell (m_res m) ! k + 1]\<rparr>"
  have m': "m_res m' = record_event ?r CBPF_CLEANUP CBPF_RELEASE (r_pc (m_res m)) (Suc k)"
    using True by (simp add: m'_def cbpf_cleanup1_def Let_def)
  have "trace ?r = trace (m_res m)" by (rule trace_cong) simp_all
  moreover have "r_event_count ?r < length (r_events ?r)"
    using room ok by (simp add: machine_ok_def)
  ultimately have tr: "trace (m_res m') = trace (m_res m) @ [?e]"
    using trace_record_event [of ?r] m' by simp
  have own: "own_next CBPF_CELLS (machine_own m) (Sweep (Suc k)) = Some (machine_own m')"
    using cleanup1_own [OF ok live] by (simp add: m'_def)
  have refs: "r_object_refs (m_res m') = r_object_refs (m_res m) - 1" by (simp add: m')
  have "replay own_init (trace (m_res m')) = Some (machine_own m')"
    using rep own refs unfolding tr by (intro replay_snoc) simp_all
  then show ?thesis using that [of "[?e]"] tr by (simp add: m' same_outcome_def)
qed

lemma cleanup_all:
  assumes "machine_ok m" and "set ks \<subseteq> {..<r_acquired (m_res m)}" and "sorted_wrt (<) ks"
    and "r_event_count (m_res m) + length ks \<le> CBPF_MAX_EVENTS"
    and "replay own_init (trace (m_res m)) = Some (machine_own m)"
  defines "m' \<equiv> fold cbpf_cleanup1 ks m"
  obtains es where "trace (m_res m') = trace (m_res m) @ es"
    "cleanup_events (r_pc (m_res m)) es" "e_token ` set es \<subseteq> Suc ` set ks"
    "r_event_count (m_res m') \<le> r_event_count (m_res m) + length ks"
    "replay own_init (trace (m_res m')) = Some (machine_own m')"
    "same_outcome (m_res m') (m_res m)"
  using assms(1-5) unfolding m'_def
proof (induction ks arbitrary: m thesis)
  case Nil
  then show ?case using Nil.prems(1) [of "[]"] by (simp add: cleanup_events_def same_outcome_def)
next
  case (Cons k ks)
  have k: "k < r_acquired (m_res m)" and room: "r_event_count (m_res m) < CBPF_MAX_EVENTS"
    using Cons.prems by simp_all
  obtain es where es: "trace (m_res (cbpf_cleanup1 k m)) = trace (m_res m) @ es"
    "\<forall>e \<in> set es. e_kind e = CBPF_CLEANUP \<and> e_op e = CBPF_RELEASE \<and>
        e_pc e = r_pc (m_res m) \<and> e_token e = Suc k"
    "length es \<le> 1"
    "r_event_count (m_res (cbpf_cleanup1 k m)) = r_event_count (m_res m) + length es"
    "replay own_init (trace (m_res (cbpf_cleanup1 k m))) = Some (machine_own (cbpf_cleanup1 k m))"
    "same_outcome (m_res (cbpf_cleanup1 k m)) (m_res m)"
    using cleanup1_step [OF Cons.prems(2) k room Cons.prems(6)] by blast
  let ?m = "cbpf_cleanup1 k m"
  have ok: "machine_ok ?m" using Cons.prems(2) k by (rule cleanup1_ok)
  have set_ks: "set ks \<subseteq> {..<r_acquired (m_res ?m)}"
    and srt: "sorted_wrt (<) ks"
    and room': "r_event_count (m_res ?m) + length ks \<le> CBPF_MAX_EVENTS"
    using Cons.prems es by (auto simp: same_outcome_def)
  obtain fs where fs: "trace (m_res (fold cbpf_cleanup1 ks ?m)) = trace (m_res ?m) @ fs"
    "cleanup_events (r_pc (m_res ?m)) fs" "e_token ` set fs \<subseteq> Suc ` set ks"
    "r_event_count (m_res (fold cbpf_cleanup1 ks ?m)) \<le> r_event_count (m_res ?m) + length ks"
    "replay own_init (trace (m_res (fold cbpf_cleanup1 ks ?m))) =
       Some (machine_own (fold cbpf_cleanup1 ks ?m))"
    "same_outcome (m_res (fold cbpf_cleanup1 ks ?m)) (m_res ?m)"
    using Cons.IH [OF _ ok set_ks srt room' es(5)] by blast
  have ev: "cleanup_events (r_pc (m_res m)) (es @ fs)"
  proof -
    have "\<forall>e \<in> set fs. Suc k < e_token e" using fs(3) Cons.prems(4) by auto
    moreover have "cleanup_events (r_pc (m_res m)) es"
      using es(2,3) by (intro cleanup_events_one) simp_all
    moreover have "r_pc (m_res ?m) = r_pc (m_res m)"
      using es(6) by (simp add: same_outcome_def)
    ultimately show ?thesis using es(2) fs(2) by (simp add: cleanup_events_append)
  qed
  have out: "same_outcome (m_res (fold cbpf_cleanup1 ks ?m)) (m_res m)"
    using es(6) fs(6) by (simp add: same_outcome_def)
  have toks: "e_token ` set (es @ fs) \<subseteq> Suc ` set (k # ks)"
    using es(2) fs(3) by auto
  have cnt: "r_event_count (m_res (fold cbpf_cleanup1 ks ?m))
      \<le> r_event_count (m_res m) + length (k # ks)"
    using es(3,4) fs(4) by simp
  show ?case
    by (rule Cons.prems(1) [of "es @ fs"])
      (use es(1) fs(1,5) ev toks cnt out in simp_all)
qed

end
