(* ===== verification/ReferenceProps.thy ===== *)
theory ReferenceProps
  imports ReferenceTrace
begin

text \<open>
  What every run of the reference machine returns, for every program and every length,
  valid or not.
\<close>

definition result_own :: "cbpf_result \<Rightarrow> own" where
  "result_own r =
     \<lparr>issued = r_acquired r, live_ids = {},
      explicit = cell_count (r_explicit_by_cell r), swept = cell_count (r_cleanup_by_cell r),
      rc = r_object_refs r\<rparr>"

definition run_trace_shape :: "cbpf_insn list \<Rightarrow> cbpf_result \<Rightarrow> bool" where
  "run_trace_shape p r \<longleftrightarrow>
     (\<exists>ss t cs. trace r = ss @ t # cs \<and> steps_of p ss \<and> (\<forall>e \<in> set ss. e_pc e < e_pc t) \<and>
        last_event_ok p r t \<and> cleanup_events (r_pc r) cs)"

definition run_describes :: "cbpf_insn list \<Rightarrow> nat \<Rightarrow> cbpf_result \<Rightarrow> bool" where
  "run_describes p n r \<longleftrightarrow>
     run_trace_shape p r \<and>
     replay own_init (trace r) = Some (result_own r) \<and>
     own_inv CBPF_CELLS (result_own r) \<and>
     r_pc r < n \<and> read_value_ok r \<and>
     r_event_count r \<le> n + r_acquired r \<and>
     length (r_events r) = CBPF_MAX_EVENTS \<and>
     length (r_explicit_by_cell r) = CBPF_CELLS \<and>
     length (r_cleanup_by_cell r) = CBPF_CELLS \<and>
     r_explicit_releases r = sum_list (r_explicit_by_cell r) \<and>
     r_cleanup_releases r = sum_list (r_cleanup_by_cell r)"

lemma finish_describes:
  assumes p: "cbpf_program_ok p n" and m: "left_loop p n m"
  shows "run_describes p n (m_res (cbpf_finish m))"
proof -
  let ?A = "r_acquired (m_res m)" and ?m = "cbpf_finish m"
  have ok: "machine_ok m" and room: "r_event_count (m_res m) \<le> n"
    and rep: "replay own_init (trace (m_res m)) = Some (machine_own m)"
    using m by (simp_all add: left_loop_def)
  have A: "?A \<le> CBPF_CELLS" using ok by (rule machine_ok_acquired)
  have cap: "r_event_count (m_res m) + length [0..<?A] \<le> CBPF_MAX_EVENTS"
    using room p A by (simp add: cbpf_program_ok_def CBPF_MAX_EVENTS_def)
  obtain es where es: "trace (m_res ?m) = trace (m_res m) @ es"
    "cleanup_events (r_pc (m_res m)) es"
    "r_event_count (m_res ?m) \<le> r_event_count (m_res m) + length [0..<?A]"
    "replay own_init (trace (m_res ?m)) = Some (machine_own ?m)"
    "same_outcome (m_res ?m) (m_res m)"
    using cleanup_all [OF ok _ _ cap rep] unfolding cbpf_finish_def
    by (metis atLeast_upt set_upt order_refl sorted_wrt_upt)
  have fin: "machine_ok ?m" "live_ids (machine_own ?m) = {}"
    using host_cells.sweep_all [OF ok] by (simp_all add: cbpf_finish_def)
  have own: "machine_own ?m = result_own (m_res ?m)"
    using fin(2) by (simp add: machine_own_def result_own_def)
  have "run_trace_shape p (m_res ?m)"
  proof -
    obtain ss t where st: "trace (m_res m) = ss @ [t]" "steps_of p ss"
      "\<forall>e \<in> set ss. e_pc e < e_pc t" "last_event_ok p (m_res m) t"
      using m by (auto simp: left_loop_def)
    have "last_event_ok p (m_res ?m) t"
      using st(4) es(5) by (auto simp: last_event_ok_def same_outcome_def)
    then show ?thesis using st es by (auto simp: run_trace_shape_def same_outcome_def)
  qed
  moreover have "own_inv CBPF_CELLS (result_own (m_res ?m))"
    using fin(1) own by (simp add: machine_ok_def)
  moreover have "read_value_ok (m_res ?m)" "r_pc (m_res ?m) < n"
    using m es(5) by (simp_all add: left_loop_def read_value_ok_def same_outcome_def)
  moreover have "r_event_count (m_res ?m) \<le> n + r_acquired (m_res ?m)"
    using es(3,5) room by (simp add: same_outcome_def)
  ultimately show ?thesis
    using es(4) own fin(1) by (simp add: run_describes_def machine_ok_def)
qed

lemma cbpf_run_valid:
  assumes "cbpf_program_ok p n"
  shows "\<exists>r. cbpf_run (Some p) n = Some r \<and> run_describes p n r"
proof -
  obtain m where "c_loop (\<lambda>m. m_pc m < n) (cbpf_step p) cbpf_start = Some m" "left_loop p n m"
    using cbpf_loop_left [OF assms] by blast
  then show ?thesis
    using finish_describes [OF assms] program_ok_validate [OF assms]
    by (simp add: cbpf_run_def)
qed

text \<open>A refused program: the result of the \<open>memset\<close>, the index and the status.\<close>

definition refused :: "nat \<Rightarrow> cbpf_result" where
  "refused bad = zero_result\<lparr>r_object_refs := 1, r_pc := bad, r_status := CBPF_INVALID\<rparr>"

lemma cbpf_run_invalid:
  "cbpf_validate program n = Inl bad \<Longrightarrow> cbpf_run program n = Some (refused bad)"
  by (simp add: cbpf_run_def refused_def)

lemma cbpf_run_cases:
  obtains (invalid) bad where "cbpf_validate program n = Inl bad"
      "cbpf_run program n = Some (refused bad)"
  | (valid) p r where "program = Some p" "cbpf_program_ok p n"
      "cbpf_run program n = Some r" "run_describes p n r"
proof (cases "cbpf_validate program n")
  case (Inl bad)
  then show ?thesis using invalid cbpf_run_invalid by blast
next
  case (Inr u)
  then obtain p where p: "program = Some p" "cbpf_program_ok p n"
    using cbpf_validate_Inr by blast
  then show ?thesis using valid cbpf_run_valid [OF p(2)] by blast
qed

lemma refused_sel [simp]:
  "r_status (refused b) = CBPF_INVALID" "r_pc (refused b) = b" "r_acquired (refused b) = 0"
  "r_object_refs (refused b) = 1" "r_event_count (refused b) = 0" "r_reads (refused b) = 0"
  "r_trap (refused b) = CBPF_NO_TRAP" "r_last_read (refused b) = 0"
  "r_explicit_by_cell (refused b) = [0, 0]" "r_cleanup_by_cell (refused b) = [0, 0]"
  "r_explicit_releases (refused b) = 0" "r_cleanup_releases (refused b) = 0"
  "trace (refused b) = []"
  by (simp_all add: refused_def zero_result_def trace_def CBPF_CELLS_def numeral_2_eq_2)

lemma describes_cell_effects:
  assumes "run_describes p n r" and "i < r_acquired r"
  shows "r_explicit_by_cell r ! i + r_cleanup_by_cell r ! i = 1"
proof -
  have "r_acquired r \<le> CBPF_CELLS"
    using assms(1) by (simp add: run_describes_def own_inv_def result_own_def)
  moreover have "explicit (result_own r) (Suc i) + swept (result_own r) (Suc i) = 1"
    using assms own_inv_settled(2) [of CBPF_CELLS "result_own r" "Suc i"]
    by (simp add: run_describes_def result_own_def)
  ultimately show ?thesis
    using assms by (simp add: result_own_def cell_count_def run_describes_def)
qed

lemma describes_unissued:
  assumes "run_describes p n r" and "r_acquired r \<le> i" and "i < CBPF_CELLS"
  shows "r_explicit_by_cell r ! i = 0 \<and> r_cleanup_by_cell r ! i = 0"
proof -
  have "Suc i \<notin> {1..issued (result_own r)}" using assms(2) by (simp add: result_own_def)
  then have "explicit (result_own r) (Suc i) = 0 \<and> swept (result_own r) (Suc i) = 0"
    using assms(1) unfolding run_describes_def own_inv_def by blast
  then show ?thesis
    using assms by (simp add: result_own_def cell_count_def run_describes_def)
qed

lemma two_cells: "length xs = CBPF_CELLS \<Longrightarrow> \<exists>a b. xs = [a, b]"
  by (auto simp: CBPF_CELLS_def length_Suc_conv numeral_2_eq_2)

lemma describes_totals:
  assumes "run_describes p n r"
  shows "r_object_refs r = 1" and "r_acquired r \<le> CBPF_CELLS"
    and "r_explicit_releases r + r_cleanup_releases r = r_acquired r"
proof -
  have inv: "own_inv CBPF_CELLS (result_own r)" using assms by (simp add: run_describes_def)
  then show refs: "r_object_refs r = 1" and A: "r_acquired r \<le> CBPF_CELLS"
    by (simp_all add: own_inv_def result_own_def)
  obtain a b c d where l: "r_explicit_by_cell r = [a, b]" "r_cleanup_by_cell r = [c, d]"
    using assms two_cells unfolding run_describes_def by metis
  have E: "i < r_acquired r \<Longrightarrow> [a, b] ! i + [c, d] ! i = 1"
    and Z: "r_acquired r \<le> i \<Longrightarrow> i < 2 \<Longrightarrow> [a, b] ! i = 0 \<and> [c, d] ! i = 0" for i
    using describes_cell_effects [OF assms, of i] describes_unissued [OF assms, of i] l
    by (simp_all add: CBPF_CELLS_def)
  have "r_acquired r = 0 \<or> r_acquired r = 1 \<or> r_acquired r = 2"
    using A by (auto simp: CBPF_CELLS_def)
  then have "a + b + (c + d) = r_acquired r"
    using E [of 0] E [of 1] Z [of 0] Z [of 1] by (elim disjE) simp_all
  then show "r_explicit_releases r + r_cleanup_releases r = r_acquired r"
    using assms l by (simp add: run_describes_def)
qed

subsection \<open>Consumed tokens stay consumed\<close>

lemma event_own_consumed:
  "event_own s k op t = Some u \<Longrightarrow> consumed s i \<Longrightarrow> consumed u i"
  by (induction s k op t rule: event_own.induct) (auto simp: consumed_def split: if_splits)

text \<open>An event that used the acquisition \<open>k\<close>, and one that consumed it.\<close>

definition uses_token :: "nat \<Rightarrow> cbpf_event \<Rightarrow> bool" where
  "uses_token k e \<longleftrightarrow> e_token e = k \<and>
     (e_kind e = CBPF_STEP \<and> (e_op e = CBPF_READ \<or> e_op e = CBPF_RELEASE) \<or>
      e_kind e = CBPF_CLEANUP)"

definition consumes_token :: "nat \<Rightarrow> cbpf_event \<Rightarrow> bool" where
  "consumes_token k e \<longleftrightarrow> e_token e = k \<and> e_op e = CBPF_RELEASE \<and>
     (e_kind e = CBPF_STEP \<or> e_kind e = CBPF_CLEANUP)"

definition issues_token :: "nat \<Rightarrow> cbpf_event \<Rightarrow> bool" where
  "issues_token k e \<longleftrightarrow> e_token e = k \<and> k \<noteq> 0 \<and> e_op e = CBPF_ACQUIRE \<and> e_kind e = CBPF_STEP"

lemma consumes_consumed:
  assumes "event_own s (e_kind e) (e_op e) (e_token e) = Some u" and "consumes_token k e"
    and "own_inv CBPF_CELLS s"
  shows "consumed u k"
  using assms own_inv_live [OF assms(3), of k]
  by (auto simp: consumes_token_def consumed_def split: if_splits)

lemma uses_not_consumed:
  assumes "event_own s (e_kind e) (e_op e) (e_token e) = Some u" and "uses_token k e"
  shows "\<not> consumed s k"
proof -
  consider "e_kind e = CBPF_STEP" "e_op e = CBPF_READ" | "e_kind e = CBPF_STEP" "e_op e = CBPF_RELEASE"
    | "e_kind e = CBPF_CLEANUP" using assms(2) by (auto simp: uses_token_def)
  then show ?thesis
  proof cases
    case 3
    then show ?thesis using assms
      by (cases "e_op e") (auto simp: uses_token_def consumed_def split: if_splits)
  qed (use assms in \<open>auto simp: uses_token_def consumed_def split: if_splits\<close>)
qed

lemma event_own_inv:
  "event_own s k op t = Some u \<Longrightarrow> own_inv CBPF_CELLS s \<Longrightarrow> own_inv CBPF_CELLS u"
  by (induction s k op t rule: event_own.induct) (auto split: if_splits dest: own_next_inv simp del: own_next.simps)

definition event_step :: "own \<Rightarrow> cbpf_event \<Rightarrow> own option" where
  "event_step s e =
     (case event_own s (e_kind e) (e_op e) (e_token e) of
        None \<Rightarrow> None
      | Some t \<Rightarrow> if rc t = e_object_refs e then Some t else None)"

lemma event_step_own:
  "event_step s e = Some t \<Longrightarrow> event_own s (e_kind e) (e_op e) (e_token e) = Some t"
  by (auto simp: event_step_def split: option.splits if_splits)

lemma replay_observe: "replay s es = observe event_step s es"
  by (induction es arbitrary: s) (auto simp: event_step_def split: option.splits)

lemma event_own_taken:
  "event_own s k op t = Some u \<Longrightarrow> i \<in> live_ids s \<Longrightarrow> i \<notin> live_ids u \<Longrightarrow>
   t = i \<and> op = CBPF_RELEASE \<and> (k = CBPF_STEP \<or> k = CBPF_CLEANUP)"
  by (induction s k op t rule: event_own.induct) (auto split: if_splits)

interpretation host_trace: acquisition_observer event_step uses_token consumes_token CBPF_CELLS issues_token
proof unfold_locales
  fix s e t i
  assume "event_step s e = Some t"
  then have own: "event_own s (e_kind e) (e_op e) (e_token e) = Some t" by (rule event_step_own)
  show "own_inv CBPF_CELLS t" if "own_inv CBPF_CELLS s" using event_own_inv [OF own that] .
  show "consumed t i" if "consumed s i" using event_own_consumed [OF own that] .
  show "consumed t i" if "own_inv CBPF_CELLS s" "consumes_token i e" using consumes_consumed [OF own that(2,1)] .
  show "\<not> consumed s i" if "uses_token i e" using uses_not_consumed [OF own that] .
  show "i \<in> live_ids t" if "issues_token i e" using own that by (auto simp: issues_token_def split: if_splits)
  show "consumes_token i e" if "i \<in> live_ids s" "i \<notin> live_ids t"
    using event_own_taken [OF own that] by (simp add: consumes_token_def)
next
  show "uses_token i e" if "consumes_token i e" for i e
    using that by (auto simp: uses_token_def consumes_token_def)
qed

lemma event_own_bounds:
  assumes "event_own s k op t = Some u" and "own_inv CBPF_CELLS s"
  shows "t \<le> CBPF_CELLS"
proof -
  have "own_inv CBPF_CELLS u" using event_own_inv assms .
  then have iss: "issued s \<le> CBPF_CELLS" "issued u \<le> CBPF_CELLS"
    using assms(2) by (simp_all add: own_inv_def)
  have live: "t \<in> live_ids s \<Longrightarrow> t \<le> CBPF_CELLS"
    using own_inv_live [OF assms(2)] iss(1) by fastforce
  show ?thesis using assms(1) iss live
    by (induction s k op t rule: event_own.induct) (auto split: if_splits)
qed

lemma own_inv_rc: "own_inv K s \<Longrightarrow> 1 \<le> rc s \<and> rc s \<le> 1 + int K"
  using card_mono [of "{1..issued s}" "live_ids s"] by (auto simp: own_inv_def)

lemma replay_event_bounds:
  "replay s es = Some u \<Longrightarrow> own_inv CBPF_CELLS s \<Longrightarrow>
   \<forall>e \<in> set es. e_token e \<le> CBPF_CELLS \<and> 1 \<le> e_object_refs e \<and>
     e_object_refs e \<le> 1 + int CBPF_CELLS"
proof (induction es arbitrary: s)
  case (Cons e es)
  then obtain t where t: "event_own s (e_kind e) (e_op e) (e_token e) = Some t"
    "rc t = e_object_refs e" "replay t es = Some u"
    by (auto split: option.splits if_splits)
  have "own_inv CBPF_CELLS t" using event_own_inv [OF t(1)] Cons.prems(2) .
  then show ?case
    using Cons.IH [OF t(3)] own_inv_rc [of CBPF_CELLS t] event_own_bounds [OF t(1) Cons.prems(2)]
      t(2) by auto
qed simp

lemma cbpf_run_event_room:
  "\<exists>r. cbpf_run program n = Some r \<and> length (r_events r) = CBPF_MAX_EVENTS \<and>
     r_event_count r \<le> CBPF_MAX_EVENTS"
proof (cases rule: cbpf_run_cases [of program n])
  case (invalid bad)
  then show ?thesis by (simp add: refused_def zero_result_def)
next
  case (valid p r)
  then show ?thesis using describes_totals(2) [OF valid(4)]
    by (simp add: run_describes_def cbpf_program_ok_def CBPF_MAX_EVENTS_def)
qed

lemma run_accounting:
  "\<exists>r. cbpf_run program n = Some r \<and>
     r_object_refs r = 1 \<and> r_acquired r \<le> CBPF_CELLS \<and>
     r_explicit_releases r + r_cleanup_releases r = r_acquired r \<and>
     (\<forall>i < CBPF_CELLS. r_explicit_by_cell r ! i + r_cleanup_by_cell r ! i =
        (if i < r_acquired r then 1 else 0))"
proof (cases rule: cbpf_run_cases [of program n])
  case (invalid bad)
  then show ?thesis by (auto simp: CBPF_CELLS_def less_2_cases_iff)
next
  case (valid p r)
  then show ?thesis
    using describes_totals [OF valid(4)] describes_cell_effects [OF valid(4)]
      describes_unissued [OF valid(4)] by (auto simp: not_less)
qed

lemma run_replay:
  "\<exists>r. cbpf_run program n = Some r \<and> replay own_init (trace r) = Some (result_own r)"
proof (cases rule: cbpf_run_cases [of program n])
  case (invalid bad)
  have "result_own (refused bad) = own_init"
    by (auto simp: result_own_def own_init_def cell_count_def fun_eq_iff numeral_2_eq_2
        le_Suc_eq)
  with invalid show ?thesis by simp
next
  case (valid p r)
  then show ?thesis by (simp add: run_describes_def)
qed

subsection \<open>The number of reads\<close>

lemma step_reads:
  "cbpf_step p m = Inl v \<Longrightarrow> r_reads (m_res v) = r_reads (m_res m) \<and> m_pc v = m_pc m"
  "cbpf_step p m = Inr v \<Longrightarrow> r_reads (m_res v) \<le> r_reads (m_res m) + 1"
  by (auto simp: cbpf_step_def cbpf_next_def cbpf_goto_trap_def cbpf_issue_def cbpf_consume_def
      record_event_def Let_def split: cbpf_opcode.splits if_splits)

lemma cleanup_reads: "r_reads (m_res (cbpf_finish m)) = r_reads (m_res m)"
proof -
  have "r_reads (m_res (fold cbpf_cleanup1 is m)) = r_reads (m_res m)" for "is"
    by (induction "is" arbitrary: m) (simp_all add: cbpf_cleanup1_def record_event_def Let_def)
  then show ?thesis by (simp add: cbpf_finish_def)
qed

lemma loop_reads:
  assumes "cbpf_program_ok p n"
  shows "\<exists>m. c_loop (\<lambda>m. m_pc m < n) (cbpf_step p) cbpf_start = Some m \<and>
    r_reads (m_res m) \<le> m_pc m \<and> m_pc m < n"
proof -
  let ?R = "\<lambda>s t :: machine. s = t \<and> r_reads (m_res s) \<le> m_pc s \<and> m_pc s < n"
  have "\<exists>v. c_loop (\<lambda>m. m_pc m < n) (cbpf_step p) cbpf_start = Some v \<and>
    ((\<exists>u. c_loop (\<lambda>m. m_pc m < n) (cbpf_step p) cbpf_start = Some u \<and> ?R u v) \<or>
     (\<exists>u. loop_inv p n u \<and> m_pc u < n \<and> False))"
  proof (rule host_loop.lockstep [where A = "\<lambda>_ _. False"])
    show "loop_inv p n cbpf_start" using assms by (rule loop_inv_start)
    then show "?R cbpf_start cbpf_start"
      by (simp add: cbpf_start_def zero_result_def loop_inv_def)
    show "m_pc t < n \<longleftrightarrow> m_pc s < n" if "?R s t" for s t using that by simp
  next
    fix s t v assume "?R s t" and "cbpf_step p t = Inl v"
    then show "False \<or> (\<exists>u. cbpf_step p s = Inl u \<and> ?R u v)"
      using step_reads(1) [of p t v] by auto
  next
    fix s t v assume inv: "loop_inv p n s" and R: "?R s t" and st: "cbpf_step p t = Inr v"
    then have "loop_inv p n v" "m_pc s < m_pc v"
      using host_loop.next_inv [of p n s v] host_loop.next_meas [of p n s v] by auto
    then show "\<exists>u. cbpf_step p s = Inr u \<and> ?R u v"
      using R st step_reads(2) [OF st] by (auto simp: loop_inv_def)
  qed
  then show ?thesis by auto
qed

lemma run_reads:
  "\<exists>r. cbpf_run program n = Some r \<and> r_reads r \<le> CBPF_MAX_INSNS"
proof (cases "cbpf_validate program n")
  case (Inl bad)
  then show ?thesis by (simp add: cbpf_run_def zero_result_def)
next
  case (Inr u)
  then obtain p where p: "program = Some p" "cbpf_program_ok p n"
    using cbpf_validate_Inr by blast
  then show ?thesis
    using loop_reads [OF p(2)] program_ok_validate [OF p(2)]
    by (auto simp: cbpf_run_def cleanup_reads cbpf_program_ok_def)
qed

subsection \<open>The properties of a run\<close>

text \<open>A program with both ends of a run: a stale read after a release, with B cleaned up.\<close>

definition insn :: "cbpf_opcode \<Rightarrow> u32 \<Rightarrow> u32 \<Rightarrow> u64 \<Rightarrow> cbpf_insn" where
  "insn op dst src imm = \<lparr>x_op = op, x_dst = dst, x_src = src, x_imm = imm\<rparr>"

definition stale_a_live_b :: "cbpf_insn list" where
  "stale_a_live_b =
     [insn CBPF_ACQUIRE 0 0 1, insn CBPF_ACQUIRE 1 0 1, insn CBPF_RELEASE 0 0 0,
      insn CBPF_READ 1 0 0, insn CBPF_READ 0 0 0, insn CBPF_RELEASE 1 0 0,
      insn CBPF_RETURN 0 0 0]"

lemma stale_a_live_b_valid: "cbpf_validate (Some stale_a_live_b) 7 = Inr ()"
  by code_simp

text \<open>
  C1. Every run of the reference machine gives each acquisition exactly one release
  effect, explicit or by the terminal cleanup, restores the baseline reference count 1,
  and makes at most two acquisitions; the aggregate counters add up. This holds for every
  program and length, whatever the program does and however the run ends, and includes
  that the run returns.
\<close>

theorem cbpf_run_consumes_once:
  "\<exists>r. cbpf_run program n = Some r \<and>
     r_object_refs r = 1 \<and> r_acquired r \<le> CBPF_CELLS \<and>
     r_explicit_releases r + r_cleanup_releases r = r_acquired r \<and>
     (\<forall>i < CBPF_CELLS. r_explicit_by_cell r ! i + r_cleanup_by_cell r ! i =
        (if i < r_acquired r then 1 else 0))"
  by (rule run_accounting)

theorem cbpf_run_consumes_once_witness:
  "\<exists>r. cbpf_run (Some stale_a_live_b) 7 = Some r \<and>
     r_object_refs r = 1 \<and> r_acquired r \<le> CBPF_CELLS \<and>
     r_explicit_releases r + r_cleanup_releases r = r_acquired r \<and>
     (\<forall>i < CBPF_CELLS. r_explicit_by_cell r ! i + r_cleanup_by_cell r ! i =
        (if i < r_acquired r then 1 else 0))"
  by (rule cbpf_run_consumes_once)

text \<open>
  C2. The recorded trace of every run refines the abstract ownership protocol: an
  observer that replays the events against the protocol accepts each of them, with the
  protocol's reference count in every event, and arrives at the result's own counts.
\<close>

theorem cbpf_run_refines_protocol:
  "\<exists>r. cbpf_run program n = Some r \<and>
     replay own_init (take (r_event_count r) (r_events r)) = Some (result_own r)"
  using run_replay [of program n] by (simp add: trace_def)

text \<open>
  C3. Temporal safety of every run: once an event consumed an acquisition (a release
  step or a cleanup), no later event reads, releases or cleans up the same acquisition.
\<close>

theorem cbpf_run_no_use_after_release:
  "\<exists>r. cbpf_run program n = Some r \<and>
     (\<forall>i j k. i < j \<and> j < r_event_count r \<and> consumes_token k (r_events r ! i) \<longrightarrow>
        \<not> uses_token k (r_events r ! j))"
proof -
  obtain r where r: "cbpf_run program n = Some r"
    and rep: "replay own_init (trace r) = Some (result_own r)"
    using run_replay [of program n] by blast
  have len: "length (trace r) = r_event_count r"
    using cbpf_run_event_room [of program n] r by (auto simp: trace_def)
  have "\<not> uses_token k (r_events r ! j)"
    if "i < j" "j < r_event_count r" "consumes_token k (r_events r ! i)" for i j k
    using host_trace.no_use_after_consume [OF rep [unfolded replay_observe] own_inv_init, of i j k]
      that len by (simp add: trace_def)
  with r show ?thesis by blast
qed

theorem cbpf_run_no_use_after_release_witness:
  "\<exists>r. cbpf_run (Some stale_a_live_b) 7 = Some r \<and>
     (\<forall>i j k. i < j \<and> j < r_event_count r \<and> consumes_token k (r_events r ! i) \<longrightarrow>
        \<not> uses_token k (r_events r ! j))"
  by (rule cbpf_run_no_use_after_release)

text \<open>
  C4. How a run of a valid program is structured: the executed instructions in strictly
  increasing program order, then exactly one event that ends the run (a RETURN step with
  the returned immediate, or a trap with the reason its operation and token explain),
  then only cleanup releases in token order. In particular no instruction runs after a
  trap, and a read's value is always 42.
\<close>

theorem cbpf_run_structure:
  assumes "cbpf_validate (Some p) n = Inr ()"
  shows "\<exists>r ss t cs. cbpf_run (Some p) n = Some r \<and>
     take (r_event_count r) (r_events r) = ss @ t # cs \<and>
     steps_of p ss \<and> (\<forall>e \<in> set ss. e_pc e < e_pc t) \<and> e_pc t < n \<and>
     last_event_ok p r t \<and> cleanup_events (r_pc r) cs \<and>
     r_last_read r = (if r_reads r = 0 then 0 else 42)"
proof -
  have "cbpf_program_ok p n" using assms by (simp add: cbpf_validate_Inr)
  then obtain r where r: "cbpf_run (Some p) n = Some r" "run_describes p n r"
    using cbpf_run_valid by blast
  then obtain ss t cs where "trace r = ss @ t # cs" "steps_of p ss"
    "\<forall>e \<in> set ss. e_pc e < e_pc t" "last_event_ok p r t" "cleanup_events (r_pc r) cs"
    unfolding run_describes_def run_trace_shape_def by blast
  moreover from this have "e_pc t < n"
    using r(2) by (simp add: last_event_ok_def run_describes_def)
  ultimately show ?thesis
    using r unfolding run_describes_def trace_def read_value_ok_def by blast
qed

theorem cbpf_run_structure_witness:
  "\<exists>r ss t cs. cbpf_run (Some stale_a_live_b) 7 = Some r \<and>
     take (r_event_count r) (r_events r) = ss @ t # cs \<and>
     steps_of stale_a_live_b ss \<and> (\<forall>e \<in> set ss. e_pc e < e_pc t) \<and> e_pc t < 7 \<and>
     last_event_ok stale_a_live_b r t \<and> cleanup_events (r_pc r) cs \<and>
     r_last_read r = (if r_reads r = 0 then 0 else 42)"
  by (rule cbpf_run_structure [OF stale_a_live_b_valid])

text \<open>
  C5. The event array never overflows: a run writes at most one event per instruction
  and one per acquisition, so at most \<open>CBPF_MAX_EVENTS\<close>, and every counter of the result
  stays far below the range of its C type.
\<close>

theorem cbpf_run_bounds:
  "\<exists>r. cbpf_run program n = Some r \<and>
     length (r_events r) = CBPF_MAX_EVENTS \<and> r_event_count r \<le> CBPF_MAX_EVENTS \<and>
     r_event_count r \<le> n + r_acquired r \<and>
     r_acquired r \<le> CBPF_CELLS \<and> r_reads r \<le> CBPF_MAX_INSNS \<and>
     r_explicit_releases r \<le> CBPF_CELLS \<and> r_cleanup_releases r \<le> CBPF_CELLS \<and>
     (\<forall>e \<in> set (take (r_event_count r) (r_events r)).
        e_token e \<le> CBPF_CELLS \<and> 1 \<le> e_object_refs e \<and> e_object_refs e \<le> 1 + int CBPF_CELLS)"
proof -
  obtain r where r: "cbpf_run program n = Some r" "r_acquired r \<le> CBPF_CELLS"
    "r_explicit_releases r + r_cleanup_releases r = r_acquired r"
    using run_accounting [of program n] by blast
  have rep: "replay own_init (trace r) = Some (result_own r)"
    using run_replay [of program n] r(1) by auto
  have "r_event_count r \<le> n + r_acquired r"
    using cbpf_run_cases [of program n] r(1) by (cases rule: cbpf_run_cases [of program n])
      (auto simp: run_describes_def)
  moreover have "\<forall>e \<in> set (trace r). e_token e \<le> CBPF_CELLS \<and> 1 \<le> e_object_refs e \<and>
      e_object_refs e \<le> 1 + int CBPF_CELLS"
    using replay_event_bounds [OF rep own_inv_init] .
  ultimately show ?thesis
    using r cbpf_run_event_room [of program n] run_reads [of program n] by (auto simp: trace_def)
qed

theorem cbpf_run_bounds_witness:
  "\<exists>r. cbpf_run (Some stale_a_live_b) 7 = Some r \<and>
     length (r_events r) = CBPF_MAX_EVENTS \<and> r_event_count r \<le> CBPF_MAX_EVENTS \<and>
     r_event_count r \<le> 7 + r_acquired r \<and>
     r_acquired r \<le> CBPF_CELLS \<and> r_reads r \<le> CBPF_MAX_INSNS \<and>
     r_explicit_releases r \<le> CBPF_CELLS \<and> r_cleanup_releases r \<le> CBPF_CELLS \<and>
     (\<forall>e \<in> set (take (r_event_count r) (r_events r)).
        e_token e \<le> CBPF_CELLS \<and> 1 \<le> e_object_refs e \<and> e_object_refs e \<le> 1 + int CBPF_CELLS)"
  by (rule cbpf_run_bounds)

text \<open>
  C6. Structural validation precedes every effect: a run of a refused program is exactly
  the zeroed result with the baseline reference count, the index the validator reports
  and the status INVALID; and INVALID is returned for refused programs only.
\<close>

theorem cbpf_run_invalid_iff:
  "\<exists>r. cbpf_run program n = Some r \<and>
     (r_status r = CBPF_INVALID \<longleftrightarrow> (\<exists>bad. cbpf_validate program n = Inl bad)) \<and>
     (\<forall>bad. cbpf_validate program n = Inl bad \<longrightarrow>
        r = zero_result\<lparr>r_object_refs := 1, r_pc := bad, r_status := CBPF_INVALID\<rparr>)"
proof (cases rule: cbpf_run_cases [of program n])
  case (invalid bad)
  then show ?thesis by (simp add: refused_def)
next
  case (valid p r)
  then have "r_status r \<noteq> CBPF_INVALID"
    by (auto simp: run_describes_def run_trace_shape_def last_event_ok_def)
  with valid show ?thesis using program_ok_validate by auto
qed

theorem cbpf_run_invalid_iff_witness:
  "\<exists>r. cbpf_run (Some stale_a_live_b) 6 = Some r \<and>
     (r_status r = CBPF_INVALID \<longleftrightarrow> (\<exists>bad. cbpf_validate (Some stale_a_live_b) 6 = Inl bad)) \<and>
     (\<forall>bad. cbpf_validate (Some stale_a_live_b) 6 = Inl bad \<longrightarrow>
        r = zero_result\<lparr>r_object_refs := 1, r_pc := bad, r_status := CBPF_INVALID\<rparr>)"
  by (rule cbpf_run_invalid_iff)

text \<open>
  The validator's verdict: it accepts exactly the non-NULL programs of 1 to 64
  instructions in which every instruction, reachable or not, has operands in range and
  forward branches, and the last one is RETURN; and the index it reports for a refused
  program of such a length is that of the first bad instruction, or of the missing RETURN.
\<close>

theorem cbpf_validate_verdict:
  "(cbpf_validate program n = Inr () \<longleftrightarrow>
      (\<exists>p. program = Some p \<and> 0 < n \<and> n \<le> CBPF_MAX_INSNS \<and>
         (\<forall>k < n. cbpf_insn_valid n k (p ! k)) \<and> x_op (p ! (n - 1)) = CBPF_RETURN)) \<and>
   (\<forall>p bad. program = Some p \<and> 0 < n \<and> n \<le> CBPF_MAX_INSNS \<and>
      cbpf_validate program n = Inl bad \<longrightarrow>
      bad < n \<and> (\<forall>k < bad. cbpf_insn_valid n k (p ! k)) \<and>
      (\<not> cbpf_insn_valid n bad (p ! bad) \<or> bad = n - 1 \<and> x_op (p ! bad) \<noteq> CBPF_RETURN))"
  using cbpf_validate_Inr [of program n "()"] cbpf_validate_Inl [of _ n]
  unfolding cbpf_program_ok_def by blast

theorem cbpf_validate_verdict_witness:
  "cbpf_validate (Some stale_a_live_b) 6 = Inl 5 \<and>
   cbpf_insn_valid 6 4 (stale_a_live_b ! 4) \<and> x_op (stale_a_live_b ! 5) \<noteq> CBPF_RETURN"
proof -
  have v: "cbpf_validate (Some stale_a_live_b) 6 = Inl 5" by code_simp
  have "(\<forall>k < 5. cbpf_insn_valid 6 k (stale_a_live_b ! k)) \<and>
      (\<not> cbpf_insn_valid 6 5 (stale_a_live_b ! 5) \<or> x_op (stale_a_live_b ! 5) \<noteq> CBPF_RETURN)"
    using cbpf_validate_verdict [of "Some stale_a_live_b" 6] v by (auto simp: CBPF_MAX_INSNS_def)
  moreover have "cbpf_insn_valid 6 5 (stale_a_live_b ! 5)" by code_simp
  ultimately show ?thesis using v by simp
qed

end
