(* ===== verification/GateCorrect.thy ===== *)
theory GateCorrect
  imports Gate ReferenceProps
begin

text \<open>
  The trusted gate refines the reference machine. The interface \<open>gate_platform\<close> is what
  the gate needs of a platform; the host provides it outright and every purecap platform
  whose intrinsics satisfy \<open>cheri_laws\<close> provides it. Inside the interface the gate's
  loop runs in lockstep with the reference interpreter.
\<close>

subsection \<open>The relation\<close>

definition handle_of :: "'v platform \<Rightarrow> 'v list \<Rightarrow> nat \<Rightarrow> 'v" where
  "handle_of P views t = (if t = 0 then pf_null P else views ! (t - 1))"

definition events_of :: "cbpf_opcode \<Rightarrow> cbpf_result \<Rightarrow> nat" where
  "events_of op r =
     length (filter (\<lambda>e. e_op e = op \<and> e_kind e \<noteq> CBPF_CLEANUP) (trace r))"

text \<open>The metrics are a function of the result: what a run counts is what it records.\<close>

definition metrics_of :: "'v platform \<Rightarrow> cbpf_result \<Rightarrow> cbpf_gate_metrics" where
  "metrics_of P r =
     (gate_metrics_start P)
       \<lparr>gm_acquisitions := events_of CBPF_ACQUIRE r,
        gm_reads := events_of CBPF_READ r,
        gm_releases := events_of CBPF_RELEASE r,
        gm_cleanups := r_cleanup_releases r,
        gm_restricted_handles := (if is_purecap P then r_acquired r else 0),
        gm_tag_clears :=
          (if is_purecap P then r_explicit_releases r + r_cleanup_releases r else 0)\<rparr>"

definition storage_rel :: "'v platform \<Rightarrow> machine \<Rightarrow> 'v gate_run \<Rightarrow> bool" where
  "storage_rel P m g \<longleftrightarrow>
     g_pc g = m_pc m \<and> g_res g = m_res m \<and>
     g_regs g = map (handle_of P (s_views (g_state g))) (m_regs m) \<and>
     g_spills g = map (handle_of P (s_views (g_state g))) (m_spills m) \<and>
     length (s_cells (g_state g)) = CBPF_CELLS \<and> length (s_views (g_state g)) = CBPF_CELLS \<and>
     (\<forall>i < r_acquired (m_res m).
        prepare_view P (pf_cell P i) = Some (s_views (g_state g) ! i) \<and>
        gc_object (s_cells (g_state g) ! i) =
          (if m_live m ! i then pf_object P else removed_authority P (pf_object P))) \<and>
     s_object (g_state g) = \<lparr>go_value = 42, go_references = r_object_refs (m_res m)\<rparr>"

definition gate_rel :: "'v platform \<Rightarrow> machine \<Rightarrow> 'v gate_run \<Rightarrow> bool" where
  "gate_rel P m g \<longleftrightarrow> storage_rel P m g \<and> g_metrics g = metrics_of P (m_res m)"

subsection \<open>Metrics and steps\<close>

lemma trace_update [simp]:
  "trace (r\<lparr>r_pc := pc\<rparr>) = trace r"
  "trace (r\<lparr>r_status := st\<rparr>) = trace r"
  "trace (r\<lparr>r_trap := tr\<rparr>) = trace r"
  "trace (r\<lparr>r_returned := v\<rparr>) = trace r"
  "trace (r\<lparr>r_acquired := n\<rparr>) = trace r"
  "trace (r\<lparr>r_reads := n\<rparr>) = trace r"
  "trace (r\<lparr>r_last_read := z\<rparr>) = trace r"
  "trace (r\<lparr>r_object_refs := z\<rparr>) = trace r"
  "trace (r\<lparr>r_explicit_releases := n\<rparr>) = trace r"
  "trace (r\<lparr>r_explicit_by_cell := ns\<rparr>) = trace r"
  "trace (r\<lparr>r_cleanup_releases := n\<rparr>) = trace r"
  "trace (r\<lparr>r_cleanup_by_cell := ns\<rparr>) = trace r"
  by (simp_all add: trace_def)

definition has_room :: "cbpf_result \<Rightarrow> bool" where
  "has_room r \<longleftrightarrow> r_event_count r < length (r_events r)"

text \<open>The attempt counters an instruction moves, counted before its gate runs.\<close>

definition attempt :: "cbpf_opcode \<Rightarrow> cbpf_gate_metrics \<Rightarrow> cbpf_gate_metrics" where
  "attempt op M =
     M\<lparr>gm_acquisitions := gm_acquisitions M + of_bool (op = CBPF_ACQUIRE),
       gm_reads := gm_reads M + of_bool (op = CBPF_READ),
       gm_releases := gm_releases M + of_bool (op = CBPF_RELEASE)\<rparr>"

lemma metrics_of_record:
  assumes "has_room r" and "k \<noteq> CBPF_CLEANUP"
  shows "metrics_of P (record_event r k op pc t) = attempt op (metrics_of P r)"
  using assms by (simp add: metrics_of_def events_of_def attempt_def has_room_def trace_record_event)

lemma metrics_of_record_cleanup:
  assumes "has_room r"
  shows "metrics_of P (record_event r CBPF_CLEANUP op pc t) = metrics_of P r"
  using assms by (simp add: metrics_of_def events_of_def has_room_def trace_record_event)

lemma metrics_of_update:
  "metrics_of P (r\<lparr>r_pc := pc\<rparr>) = metrics_of P r"
  "metrics_of P (r\<lparr>r_status := st\<rparr>) = metrics_of P r"
  "metrics_of P (r\<lparr>r_trap := tr\<rparr>) = metrics_of P r"
  "metrics_of P (r\<lparr>r_returned := v\<rparr>) = metrics_of P r"
  "metrics_of P (r\<lparr>r_reads := k\<rparr>) = metrics_of P r"
  "metrics_of P (r\<lparr>r_last_read := z\<rparr>) = metrics_of P r"
  "metrics_of P (r\<lparr>r_object_refs := z\<rparr>) = metrics_of P r"
  "metrics_of P (r\<lparr>r_explicit_by_cell := ns\<rparr>) = metrics_of P r"
  "metrics_of P (r\<lparr>r_cleanup_by_cell := ns\<rparr>) = metrics_of P r"
  by (simp_all add: metrics_of_def events_of_def)

text \<open>Two iterations that end alike.\<close>

definition agree :: "'v platform \<Rightarrow> machine + machine \<Rightarrow> 'v gate_run + 'v gate_run \<Rightarrow> bool" where
  "agree P a b \<longleftrightarrow>
     (case a of
        Inl u \<Rightarrow> (\<exists>v. b = Inl v \<and> gate_rel P u v)
      | Inr u \<Rightarrow> (\<exists>v. b = Inr v \<and> gate_rel P u v))"

lemma settle_next:
  assumes "storage_rel P m g" and "g_metrics g = attempt (x_op x) (metrics_of P (m_res m))"
    and "has_room (m_res m)"
  shows "agree P (cbpf_next x t nxt m) (gate_settle x nxt (GATE_OK, t, g))"
  using assms metrics_of_record [OF assms(3), of CBPF_STEP P]
  by (simp add: agree_def cbpf_next_def gate_settle_def Let_def gate_rel_def storage_rel_def)

lemma settle_trap:
  assumes "storage_rel P m g" and "g_metrics g = attempt (x_op x) (metrics_of P (m_res m))"
    and "has_room (m_res m)"
    and "outcome = GATE_NULL \<and> reason = CBPF_NULL \<or> outcome = GATE_STALE \<and> reason = CBPF_STALE \<or>
      outcome = GATE_EXHAUSTED \<and> reason = CBPF_EXHAUSTED"
  shows "agree P (cbpf_goto_trap x reason t m) (gate_settle x nxt (outcome, t, g))"
proof -
  let ?r = "(m_res m)\<lparr>r_trap := reason, r_status := CBPF_TRAPPED\<rparr>"
  let ?r' = "record_event ?r CBPF_TRAP_EVENT (x_op x) (m_pc m) t"
  have res: "g_res g = m_res m" "g_pc g = m_pc m"
    using assms(1) by (simp_all add: storage_rel_def)
  have "has_room ?r" using assms(3) by (simp add: has_room_def)
  then have met: "metrics_of P ?r' = attempt (x_op x) (metrics_of P (m_res m))"
    by (simp add: metrics_of_record metrics_of_update)
  have eq: "(m_res m)\<lparr>r_status := CBPF_TRAPPED, r_trap := reason\<rparr> = ?r" by simp
  have "gate_settle x nxt (outcome, t, g) = Inl (g\<lparr>g_res := record_event
      ((m_res m)\<lparr>r_status := CBPF_TRAPPED, r_trap := reason\<rparr>)
      CBPF_TRAP_EVENT (x_op x) (m_pc m) t\<rparr>)"
    using assms(4) by (elim disjE conjE) (simp_all add: gate_settle_def Let_def res)
  then have "gate_settle x nxt (outcome, t, g) = Inl (g\<lparr>g_res := ?r'\<rparr>)" unfolding eq .
  moreover have "cbpf_goto_trap x reason t m = Inl (m\<lparr>m_res := ?r'\<rparr>)"
    by (simp add: cbpf_goto_trap_def)
  moreover have "gate_rel P (m\<lparr>m_res := ?r'\<rparr>) (g\<lparr>g_res := ?r'\<rparr>)"
    using assms(1,2) met by (simp add: gate_rel_def storage_rel_def)
  ultimately show ?thesis by (simp add: agree_def)
qed

lemma attempt_none:
  "op \<noteq> CBPF_ACQUIRE \<Longrightarrow> op \<noteq> CBPF_READ \<Longrightarrow> op \<noteq> CBPF_RELEASE \<Longrightarrow> attempt op M = M"
  by (simp add: attempt_def)

text \<open>
  The only early end: the representation of a view failed. The provider state is that
  before the acquisition, the failed attempt and the error are counted.
\<close>

definition aborted ::
    "'v platform \<Rightarrow> cbpf_insn list \<Rightarrow> machine \<Rightarrow> 'v gate_run \<Rightarrow> bool" where
  "aborted P p m v \<longleftrightarrow>
     x_op (p ! m_pc m) = CBPF_ACQUIRE \<and> x_imm (p ! m_pc m) = 1 \<and>
     r_acquired (m_res m) < CBPF_CELLS \<and>
     prepare_view P (pf_cell P (r_acquired (m_res m))) = None \<and>
     (let m' = m\<lparr>m_res := (m_res m)\<lparr>r_pc := m_pc m, r_status := CBPF_INVALID\<rparr>\<rparr>
      in storage_rel P m' v \<and>
         g_metrics v = (attempt CBPF_ACQUIRE (metrics_of P (m_res m')))
           \<lparr>gm_representation_errors := 1\<rparr>)"


definition gate_at_pc :: "'v gate_run \<Rightarrow> 'v gate_run" where
  "gate_at_pc g = g\<lparr>g_res := (g_res g)\<lparr>r_pc := g_pc g\<rparr>\<rparr>"

lemma storage_at_pc: "gate_rel P m g \<Longrightarrow> storage_rel P (at_pc m) (gate_at_pc g)"
  by (simp add: gate_rel_def storage_rel_def at_pc_def gate_at_pc_def)

lemma metrics_at_pc:
  "gate_rel P m g \<Longrightarrow> g_metrics (gate_at_pc g) = metrics_of P (m_res (at_pc m))"
  by (simp add: gate_rel_def gate_at_pc_def at_pc_def metrics_of_update)

lemma room_at_pc: "loop_inv p n m \<Longrightarrow> has_room (m_res (at_pc m))"
  using loop_room by (simp add: has_room_def at_pc_def)

lemma acquire_success:
  assumes "cbpf_insn_valid n i x" and "x_op x = CBPF_ACQUIRE"
  shows "(ucast (x_imm x) :: u32) \<noteq> 0 \<longleftrightarrow> x_imm x \<noteq> 0" and "x_imm x \<noteq> 0 \<longleftrightarrow> x_imm x = 1"
  using assms by (auto simp: cbpf_insn_valid_def)

definition keeps_cleanup_metrics :: "(cbpf_gate_metrics \<Rightarrow> cbpf_gate_metrics) \<Rightarrow> bool" where
  "keeps_cleanup_metrics f \<longleftrightarrow>
     (\<forall>M a b. f (M\<lparr>gm_cleanups := a, gm_tag_clears := b\<rparr>) =
                (f M)\<lparr>gm_cleanups := a, gm_tag_clears := b\<rparr> \<and>
              gm_cleanups (f M) = gm_cleanups M \<and> gm_tag_clears (f M) = gm_tag_clears M)"

text \<open>
  The result of a run that a representation error ended: INVALID without a trap, the
  failed acquisition as the only effect-free attempt, nothing recorded for it, and the
  earlier acquisitions settled.
\<close>

definition representation_failure ::
    "'v platform \<Rightarrow> cbpf_insn list \<Rightarrow> cbpf_result \<Rightarrow> cbpf_gate_metrics \<Rightarrow> bool" where
  "representation_failure P p r M \<longleftrightarrow>
     r_status r = CBPF_INVALID \<and> r_trap r = CBPF_NO_TRAP \<and>
     x_op (p ! r_pc r) = CBPF_ACQUIRE \<and> x_imm (p ! r_pc r) = 1 \<and>
     r_acquired r < CBPF_CELLS \<and> prepare_view P (pf_cell P (r_acquired r)) = None \<and>
     r_object_refs r = 1 \<and>
     (\<forall>i < r_acquired r. r_explicit_by_cell r ! i + r_cleanup_by_cell r ! i = 1) \<and>
     (\<forall>e \<in> set (trace r). e_kind e \<noteq> CBPF_CLEANUP \<longrightarrow> e_pc e < r_pc r) \<and>
     replay own_init (trace r) = Some (result_own r) \<and>
     M = (attempt CBPF_ACQUIRE (metrics_of P r))\<lparr>gm_representation_errors := 1\<rparr>"

text \<open>The states the gate's loop passes through.\<close>

inductive gate_reach :: "'v platform \<Rightarrow> cbpf_insn list \<Rightarrow> nat \<Rightarrow> 'v gate_run \<Rightarrow> bool" for P p n where
  start: "gate_reach P p n (gate_start P)"
| step: "gate_reach P p n g \<Longrightarrow> g_pc g < n \<Longrightarrow> gate_step P p g = Inr g' \<Longrightarrow> gate_reach P p n g'"

subsection \<open>What the gate needs of a platform\<close>

locale gate_platform =
  fixes P :: "'v platform"
  assumes same: "same_handle P a b \<longleftrightarrow> a = b"
    and view_nonnull: "prepare_view P (pf_cell P i) = Some v \<Longrightarrow> i < CBPF_CELLS \<Longrightarrow> v \<noteq> pf_null P"
    and views_differ: "prepare_view P (pf_cell P i) = Some v \<Longrightarrow>
          prepare_view P (pf_cell P j) = Some v \<Longrightarrow> i < CBPF_CELLS \<Longrightarrow> j < CBPF_CELLS \<Longrightarrow> i = j"
    and object_live: "object_is_live P (pf_object P)"
    and removed_dead: "\<not> object_is_live P (removed_authority P (pf_object P))"
begin

lemma identify_from_finds:
  assumes "t < n" and "i \<le> t" and "\<And>k. k < t \<Longrightarrow> vs ! k \<noteq> vs ! t"
  shows "identify_from P vs (vs ! t) i n = (GATE_OK, t + 1)"
  using assms(2)
proof (induction "t - i" arbitrary: i)
  case 0
  then show ?case using assms by (simp add: identify_from.simps [of P vs _ i] same)
next
  case (Suc d)
  then have "i < t" "d = t - (i + 1)" "i + 1 \<le> t" by simp_all
  then show ?case
    using Suc.hyps(1) [of "i + 1"] assms(1) assms(3) [of i]
    by (simp add: identify_from.simps [of P vs _ i] same)
qed

text \<open>Trusted table membership recovers the identity of every alias, consumed or not.\<close>

lemma identify_alias:
  assumes rel: "storage_rel P m g" and A: "r_acquired (m_res m) \<le> CBPF_CELLS"
    and t: "t \<le> r_acquired (m_res m)"
  shows "identify P (g_state g) (handle_of P (s_views (g_state g)) t) (r_acquired (m_res m)) =
    (GATE_OK, t)"
proof (cases "t = 0")
  case True
  then show ?thesis by (simp add: identify_def handle_of_def same)
next
  case False
  let ?vs = "s_views (g_state g)"
  have pv: "prepare_view P (pf_cell P i) = Some (?vs ! i)" if "i < t" for i
    using rel t that by (simp add: storage_rel_def)
  have "?vs ! k \<noteq> ?vs ! (t - 1)" if "k < t - 1" for k
  proof
    assume eq: "?vs ! k = ?vs ! (t - 1)"
    have "k < t" "t - 1 < t" "k < CBPF_CELLS" "t - 1 < CBPF_CELLS" using that t A by linarith+
    then have "k = t - 1" using pv eq views_differ [of k "?vs ! k" "t - 1"] by simp
    with that show False by simp
  qed
  moreover have "?vs ! (t - 1) \<noteq> pf_null P"
    using pv [of "t - 1"] view_nonnull [of "t - 1"] False t A by simp
  ultimately show ?thesis
    using identify_from_finds [of "t - 1" "r_acquired (m_res m)" 0 ?vs] False t
    by (simp add: identify_def handle_of_def same)
qed

lemma cell_liveness:
  assumes "storage_rel P m g" and "i < r_acquired (m_res m)"
  shows "object_is_live P (gc_object (s_cells (g_state g) ! i)) \<longleftrightarrow> m_live m ! i"
  using assms object_live removed_dead by (simp add: storage_rel_def)


subsection \<open>The simulation\<close>


lemma handle_alias:
  assumes "storage_rel P m g" and "machine_ok m"
  shows "i < CBPF_REGS \<Longrightarrow> g_regs g ! i = handle_of P (s_views (g_state g)) (m_regs m ! i)"
    and "i < CBPF_SPILLS \<Longrightarrow> g_spills g ! i = handle_of P (s_views (g_state g)) (m_spills m ! i)"
  using assms by (simp_all add: storage_rel_def machine_ok_def)

lemma identify_moved:
  assumes "storage_rel P m g" and "machine_ok m" and "t \<le> r_acquired (m_res m)"
    and "v = handle_of P (s_views (g_state g)) t"
    and "g_state g' = g_state g" and "g_res g' = m_res m"
  shows "gate_identify P v g' = (GATE_OK, t, g')"
  using assms identify_alias [OF assms(1) machine_ok_acquired [OF assms(2)] assms(3)]
  by (simp add: gate_identify_def)

text \<open>COPY, SPILL and RELOAD move a whole handle and identify it afterwards.\<close>

lemma move_agrees:
  assumes st: "storage_rel P m g" and met: "g_metrics g = metrics_of P (m_res m)"
    and ok: "machine_ok m" and room: "has_room (m_res m)"
    and op: "x_op x \<in> {CBPF_COPY, CBPF_SPILL, CBPF_RELOAD, CBPF_BR_NULL}"
    and t: "t \<le> r_acquired (m_res m)" and v: "v = handle_of P (s_views (g_state g)) t"
  shows "unat (x_dst x) < CBPF_REGS \<Longrightarrow>
      agree P (cbpf_next x t nxt (m\<lparr>m_regs := (m_regs m)[unat (x_dst x) := t]\<rparr>))
        (gate_settle x nxt (gate_identify P v (g\<lparr>g_regs := (g_regs g)[unat (x_dst x) := v]\<rparr>)))"
    and "unat (x_dst x) < CBPF_SPILLS \<Longrightarrow>
      agree P (cbpf_next x t nxt (m\<lparr>m_spills := (m_spills m)[unat (x_dst x) := t]\<rparr>))
        (gate_settle x nxt (gate_identify P v (g\<lparr>g_spills := (g_spills g)[unat (x_dst x) := v]\<rparr>)))"
    and "agree P (cbpf_next x t nxt m) (gate_settle x nxt (gate_identify P v g))"
proof -
  have a: "attempt (x_op x) M = M" for M using op by (auto intro: attempt_none)
  have id: "gate_identify P v g' = (GATE_OK, t, g')"
    if "g_state g' = g_state g" "g_res g' = g_res g" for g'
    using identify_moved [OF st ok t v that(1)] that(2) st by (simp add: storage_rel_def)
  show "agree P (cbpf_next x t nxt (m\<lparr>m_regs := (m_regs m)[unat (x_dst x) := t]\<rparr>))
        (gate_settle x nxt (gate_identify P v (g\<lparr>g_regs := (g_regs g)[unat (x_dst x) := v]\<rparr>)))"
    using st met room v by (subst id) (auto intro!: settle_next simp: a storage_rel_def map_update)
  show "agree P (cbpf_next x t nxt (m\<lparr>m_spills := (m_spills m)[unat (x_dst x) := t]\<rparr>))
        (gate_settle x nxt (gate_identify P v (g\<lparr>g_spills := (g_spills g)[unat (x_dst x) := v]\<rparr>)))"
    using st met room v by (subst id) (auto intro!: settle_next simp: a storage_rel_def map_update)
  show "agree P (cbpf_next x t nxt m) (gate_settle x nxt (gate_identify P v g))"
    using st met room by (subst id) (auto intro!: settle_next simp: a)
qed

lemma read_agrees:
  assumes st: "storage_rel P m g" and met: "g_metrics g = metrics_of P (m_res m)"
    and ok: "machine_ok m" and room: "has_room (m_res m)"
    and op: "x_op x = CBPF_READ" and t: "t \<le> r_acquired (m_res m)"
    and v: "v = handle_of P (s_views (g_state g)) t"
  shows "agree P
      (if t = 0 then cbpf_goto_trap x CBPF_NULL t m
       else if \<not> m_live m ! (t - 1) then cbpf_goto_trap x CBPF_STALE t m
       else cbpf_next x t nxt (m\<lparr>m_res := (m_res m)\<lparr>r_reads := r_reads (m_res m) + 1,
              r_last_read := 42\<rparr>\<rparr>))
      (gate_settle x nxt (gate_read_field P v g))"
proof -
  have res: "g_res g = m_res m" using st by (simp add: storage_rel_def)
  have id: "identify P (g_state g) v (r_acquired (m_res m)) = (GATE_OK, t)"
    using identify_alias [OF st machine_ok_acquired [OF ok] t] v by simp
  let ?g = "g\<lparr>g_metrics := attempt (x_op x) (g_metrics g)\<rparr>"
  have g: "g\<lparr>g_metrics := (g_metrics g)\<lparr>gm_reads := gm_reads (g_metrics g) + 1\<rparr>\<rparr> = ?g"
    by (simp add: attempt_def op)
  have st': "storage_rel P m ?g" using st by (simp add: storage_rel_def)
  have live: "object_is_live P (gc_object (s_cells (g_state g) ! (t - 1))) \<longleftrightarrow> m_live m ! (t - 1)"
    if "t \<noteq> 0" using cell_liveness [OF st, of "t - 1"] that t by simp
  have val: "go_value (s_object (g_state g)) = 42" using st by (simp add: storage_rel_def)
  consider (null) "t = 0" | (stale) "t \<noteq> 0" "\<not> m_live m ! (t - 1)" | (live) "t \<noteq> 0" "m_live m ! (t - 1)"
    by blast
  then show ?thesis
  proof cases
    case null
    then have "gate_read_field P v g = (GATE_NULL, t, ?g)"
      using id by (simp add: gate_read_field_def Let_def res op attempt_def)
    then show ?thesis using null settle_trap [OF st'] met room by simp
  next
    case stale
    then have "gate_read_field P v g = (GATE_STALE, t, ?g)"
      using id live by (simp add: gate_read_field_def Let_def res op attempt_def)
    then show ?thesis using stale settle_trap [OF st'] met room by simp
  next
    case live': live
    let ?r = "(m_res m)\<lparr>r_reads := r_reads (m_res m) + 1, r_last_read := 42\<rparr>"
    have "gate_read_field P v g = (GATE_OK, t, ?g\<lparr>g_res := ?r\<rparr>)"
      using live' id live val by (simp add: gate_read_field_def Let_def res op attempt_def)
    moreover have "storage_rel P (m\<lparr>m_res := ?r\<rparr>) (?g\<lparr>g_res := ?r\<rparr>)"
      using st by (simp add: storage_rel_def)
    ultimately show ?thesis
      using live' met room
      by (simp add: settle_next metrics_of_update has_room_def)
  qed
qed

text \<open>Consuming a live cell, explicitly or by the cleanup.\<close>

lemma storage_consume:
  assumes st: "storage_rel P m g" and ok: "machine_ok m"
    and t: "t \<noteq> 0" "t \<le> r_acquired (m_res m)" and live: "m_live m ! (t - 1)"
  shows "\<exists>g1. gate_consume P t False g = (True, g1) \<and> storage_rel P (cbpf_consume t m) g1 \<and>
    g_metrics g1 = (g_metrics g)\<lparr>gm_tag_clears := gm_tag_clears (g_metrics g) + of_bool (is_purecap P)\<rparr>"
proof -
  have cell: "gc_object (s_cells (g_state g) ! (t - 1)) = pf_object P"
    using st t live by (auto simp: storage_rel_def)
  have len: "length (m_live m) = CBPF_CELLS" "t - 1 < CBPF_CELLS"
    using ok t machine_ok_acquired [OF ok] by (auto simp: machine_ok_def)
  show ?thesis
    using st t len object_live live
    by (auto simp: gate_consume_def cell Let_def storage_rel_def cbpf_consume_def nth_list_update)
qed

lemma release_agrees:
  assumes st: "storage_rel P m g" and met: "g_metrics g = metrics_of P (m_res m)"
    and ok: "machine_ok m" and room: "has_room (m_res m)"
    and op: "x_op x = CBPF_RELEASE" and t: "t \<le> r_acquired (m_res m)"
    and v: "v = handle_of P (s_views (g_state g)) t"
  shows "agree P
      (if t = 0 then cbpf_goto_trap x CBPF_NULL t m
       else if \<not> m_live m ! (t - 1) then cbpf_goto_trap x CBPF_STALE t m
       else cbpf_next x t nxt (cbpf_consume t m))
      (gate_settle x nxt (gate_release P v g))"
proof -
  have res: "g_res g = m_res m" using st by (simp add: storage_rel_def)
  have id: "identify P (g_state g) v (r_acquired (m_res m)) = (GATE_OK, t)"
    using identify_alias [OF st machine_ok_acquired [OF ok] t] v by simp
  let ?g = "g\<lparr>g_metrics := attempt (x_op x) (g_metrics g)\<rparr>"
  have st': "storage_rel P m ?g" using st by (simp add: storage_rel_def)
  have live: "object_is_live P (gc_object (s_cells (g_state g) ! (t - 1))) \<longleftrightarrow> m_live m ! (t - 1)"
    if "t \<noteq> 0" using cell_liveness [OF st, of "t - 1"] that t by simp
  have rel: "gate_release P v g =
      (if t = 0 then (GATE_NULL, t, ?g)
       else case gate_consume P t False ?g of (c, g') \<Rightarrow> (if c then GATE_OK else GATE_STALE, t, g'))"
    using id by (simp add: gate_release_def Let_def res op attempt_def)
  consider (null) "t = 0" | (stale) "t \<noteq> 0" "\<not> m_live m ! (t - 1)" | (live) "t \<noteq> 0" "m_live m ! (t - 1)"
    by blast
  then show ?thesis
  proof cases
    case null
    then show ?thesis using rel settle_trap [OF st'] met room by simp
  next
    case stale
    then have "gate_consume P t False ?g = (False, ?g)"
      using live by (simp add: gate_consume_def Let_def)
    then have "gate_release P v g = (GATE_STALE, t, ?g)" using rel stale by simp
    then show ?thesis using stale settle_trap [OF st'] met room by simp
  next
    case live': live
    obtain g1 where g1: "gate_consume P t False ?g = (True, g1)"
      "storage_rel P (cbpf_consume t m) g1"
      "g_metrics g1 = (g_metrics ?g)\<lparr>gm_tag_clears := gm_tag_clears (g_metrics ?g) + of_bool (is_purecap P)\<rparr>"
      using storage_consume [OF st' ok live'(1) t live'(2)] by blast
    have "g_metrics g1 = attempt (x_op x) (metrics_of P (m_res (cbpf_consume t m)))"
      using g1(3) met
      by (simp add: attempt_def metrics_of_def events_of_def cbpf_consume_def Let_def)
    moreover have "has_room (m_res (cbpf_consume t m))"
      using room by (simp add: has_room_def cbpf_consume_def Let_def)
    ultimately show ?thesis
      using live' rel g1(1) settle_next [OF g1(2)] by simp
  qed
qed

lemma acquire_fresh:
  assumes st: "storage_rel P m g" and met: "g_metrics g = metrics_of P (m_res m)"
    and ok: "machine_ok m" and op: "x_op x = CBPF_ACQUIRE" and dst: "unat (x_dst x) < CBPF_REGS"
    and fresh: "r_acquired (m_res m) < CBPF_CELLS" "prepare_view P (pf_cell P (r_acquired (m_res m))) = Some v"
  obtains g1 where "gate_acquire P True (unat (x_dst x)) g = (GATE_OK, r_acquired (m_res m) + 1, g1)"
    "storage_rel P (cbpf_issue (x_dst x) m) g1"
    "g_metrics g1 = attempt (x_op x) (metrics_of P (m_res (cbpf_issue (x_dst x) m)))"
proof -
  have res: "g_res g = m_res m" using st by (simp add: storage_rel_def)
  let ?n = "r_acquired (m_res m)"
  let ?g = "g\<lparr>g_metrics := attempt (x_op x) (g_metrics g)\<rparr>"
  have swap: "(m_res m)\<lparr>r_object_refs := r_object_refs (m_res m) + 1, r_acquired := ?n + 1\<rparr> =
      (m_res m)\<lparr>r_acquired := ?n + 1, r_object_refs := r_object_refs (m_res m) + 1\<rparr>" by simp
  let ?g1 = "snd (snd (gate_acquire P True (unat (x_dst x)) g))"
  have acq: "gate_acquire P True (unat (x_dst x)) g = (GATE_OK, ?n + 1, ?g1)"
    using fresh by (simp add: gate_acquire_def Let_def res)
  have g1: "?g1 = ?g\<lparr>g_state := (g_state g)
        \<lparr>s_cells := (s_cells (g_state g))[?n := \<lparr>gc_object = pf_object P\<rparr>],
         s_object := \<lparr>go_value = 42, go_references = r_object_refs (m_res m) + 1\<rparr>,
         s_views := (s_views (g_state g))[?n := v]\<rparr>,
      g_res := (m_res m)\<lparr>r_object_refs := r_object_refs (m_res m) + 1, r_acquired := ?n + 1\<rparr>,
      g_regs := (g_regs g)[unat (x_dst x) := v],
      g_metrics := (attempt (x_op x) (g_metrics g))
        \<lparr>gm_restricted_handles := gm_restricted_handles (g_metrics g) + of_bool (is_purecap P)\<rparr>\<rparr>"
    using fresh st by (simp add: gate_acquire_def Let_def res op attempt_def storage_rel_def)
  have old: "handle_of P ((s_views (g_state g))[?n := v]) t = handle_of P (s_views (g_state g)) t"
    if "t \<le> ?n" for t using that by (simp add: handle_of_def)
  have regs:
    "map (handle_of P ((s_views (g_state g))[?n := v])) (m_regs m) =
       map (handle_of P (s_views (g_state g))) (m_regs m)"
    "map (handle_of P ((s_views (g_state g))[?n := v])) (m_spills m) =
       map (handle_of P (s_views (g_state g))) (m_spills m)"
    using ok old by (simp_all add: machine_ok_def)
  have new: "handle_of P ((s_views (g_state g))[?n := v]) (Suc ?n) = v"
    using st fresh by (simp add: handle_of_def storage_rel_def)
  have aliases:
    "(g_regs g)[unat (x_dst x) := v] =
       map (handle_of P ((s_views (g_state g))[?n := v])) ((m_regs m)[unat (x_dst x) := ?n + 1])"
    "g_spills g = map (handle_of P ((s_views (g_state g))[?n := v])) (m_spills m)"
    using st unfolding map_update regs
    by (simp_all add: storage_rel_def new)
  have cells: "prepare_view P (pf_cell P i) = Some ((s_views (g_state g))[?n := v] ! i) \<and>
      gc_object ((s_cells (g_state g))[?n := \<lparr>gc_object = pf_object P\<rparr>] ! i) =
        (if (m_live m)[?n := True] ! i then pf_object P else removed_authority P (pf_object P))"
    if "i < ?n + 1" for i
    using st ok fresh that by (auto simp: storage_rel_def machine_ok_def nth_list_update)
  have basics: "g_pc g = m_pc m" "length (s_cells (g_state g)) = CBPF_CELLS"
    "length (s_views (g_state g)) = CBPF_CELLS"
    using st by (simp_all add: storage_rel_def)
  have "storage_rel P (cbpf_issue (x_dst x) m) ?g1"
    unfolding g1 swap storage_rel_def cbpf_issue_def Let_def using basics aliases cells
    by simp
  moreover have "g_metrics ?g1 = attempt (x_op x) (metrics_of P (m_res (cbpf_issue (x_dst x) m)))"
    unfolding g1 using met
    by (simp add: attempt_def metrics_of_def events_of_def cbpf_issue_def Let_def gate_metrics_start_def)
  ultimately show thesis using that [OF acq] by blast
qed

lemma acquire_agrees:
  assumes st: "storage_rel P m g" and met: "g_metrics g = metrics_of P (m_res m)"
    and ok: "machine_ok m" and room: "has_room (m_res m)"
    and op: "x_op x = CBPF_ACQUIRE" and dst: "unat (x_dst x) < CBPF_REGS"
  shows "agree P
      (if \<not> success then cbpf_next x 0 nxt (m\<lparr>m_regs := (m_regs m)[unat (x_dst x) := 0]\<rparr>)
       else if r_acquired (m_res m) = CBPF_CELLS then cbpf_goto_trap x CBPF_EXHAUSTED 0 m
       else cbpf_next x (r_acquired (m_res m) + 1) nxt (cbpf_issue (x_dst x) m))
      (gate_settle x nxt (gate_acquire P success (unat (x_dst x)) g)) \<or>
    success \<and> r_acquired (m_res m) < CBPF_CELLS \<and>
    prepare_view P (pf_cell P (r_acquired (m_res m))) = None \<and>
    gate_settle x nxt (gate_acquire P success (unat (x_dst x)) g) =
      Inl (g\<lparr>g_metrics := (attempt CBPF_ACQUIRE (g_metrics g))\<lparr>gm_representation_errors := 1\<rparr>,
            g_res := (m_res m)\<lparr>r_status := CBPF_INVALID\<rparr>\<rparr>)"
proof -
  have res: "g_res g = m_res m" using st by (simp add: storage_rel_def)
  let ?n = "r_acquired (m_res m)"
  let ?g = "g\<lparr>g_metrics := attempt (x_op x) (g_metrics g)\<rparr>"
  have st': "storage_rel P m ?g" using st by (simp add: storage_rel_def)
  note A = machine_ok_acquired [OF ok]
  have acq: "gate_acquire P success (unat (x_dst x)) g =
     (if \<not> success then (GATE_OK, 0, ?g\<lparr>g_regs := (g_regs g)[unat (x_dst x) := pf_null P]\<rparr>)
      else if ?n = CBPF_CELLS then (GATE_EXHAUSTED, 0, ?g)
      else snd (0, gate_acquire P success (unat (x_dst x)) g))"
    by (simp add: gate_acquire_def Let_def res op attempt_def)
  consider (null) "\<not> success" | (full) "success" "?n = CBPF_CELLS"
    | (fail) "success" "?n < CBPF_CELLS" "prepare_view P (pf_cell P ?n) = None"
    | (fresh) v where "success" "?n < CBPF_CELLS" "prepare_view P (pf_cell P ?n) = Some v"
    using A by fastforce
  then show ?thesis
  proof cases
    case null
    have "storage_rel P (m\<lparr>m_regs := (m_regs m)[unat (x_dst x) := 0]\<rparr>)
        (?g\<lparr>g_regs := (g_regs g)[unat (x_dst x) := pf_null P]\<rparr>)"
      using st by (simp add: storage_rel_def map_update handle_of_def)
    from settle_next [OF this, of x 0 nxt] show ?thesis using null acq met room by simp
  next
    case full
    then show ?thesis using acq settle_trap [OF st'] met room by simp
  next
    case fail
    have "gm_representation_errors (attempt CBPF_ACQUIRE (g_metrics g)) = 0"
      using met by (simp add: attempt_def metrics_of_def gate_metrics_start_def)
    with fail show ?thesis
      by (simp add: gate_acquire_def gate_settle_def Let_def res op attempt_def)
  next
    case fresh
    obtain g1 where g1: "gate_acquire P True (unat (x_dst x)) g = (GATE_OK, ?n + 1, g1)"
      "storage_rel P (cbpf_issue (x_dst x) m) g1"
      "g_metrics g1 = attempt (x_op x) (metrics_of P (m_res (cbpf_issue (x_dst x) m)))"
      using acquire_fresh [OF st met ok op dst fresh(2,3)] by blast
    have "has_room (m_res (cbpf_issue (x_dst x) m))"
      using room by (simp add: has_room_def cbpf_issue_def Let_def)
    from settle_next [OF g1(2,3) this]
    have ag: "agree P (cbpf_next x (?n + 1) nxt (cbpf_issue (x_dst x) m))
        (gate_settle x nxt (GATE_OK, ?n + 1, g1))" .
    show ?thesis using ag fresh g1(1) by simp
  qed
qed

lemma gate_step_frame:
  assumes inv: "loop_inv p n m" and rel: "gate_rel P m g"
  shows "g_pc g = m_pc m" and "machine_ok (at_pc m)" and "cbpf_insn_valid n (m_pc m) (p ! m_pc m)"
    and "length (g_regs g) = CBPF_REGS" and "length (g_spills g) = CBPF_SPILLS"
    and "m\<lparr>m_res := (m_res m)\<lparr>r_pc := m_pc m\<rparr>\<rparr> = at_pc m"
    and "g\<lparr>g_res := (g_res g)\<lparr>r_pc := m_pc m\<rparr>\<rparr> = gate_at_pc g" and "g_pc (gate_at_pc g) = m_pc m"
proof -
  show pc: "g_pc g = m_pc m" using rel by (simp add: gate_rel_def storage_rel_def)
  show "machine_ok (at_pc m)" using inv by (simp add: loop_inv_def at_pc_ok)
  then show "length (g_regs g) = CBPF_REGS" "length (g_spills g) = CBPF_SPILLS"
    using rel by (simp_all add: gate_rel_def storage_rel_def machine_ok_def at_pc_def)
  show "cbpf_insn_valid n (m_pc m) (p ! m_pc m)"
    using inv by (simp add: loop_inv_def cbpf_program_ok_def)
  show "m\<lparr>m_res := (m_res m)\<lparr>r_pc := m_pc m\<rparr>\<rparr> = at_pc m"
    "g\<lparr>g_res := (g_res g)\<lparr>r_pc := m_pc m\<rparr>\<rparr> = gate_at_pc g" "g_pc (gate_at_pc g) = m_pc m"
    by (simp_all add: at_pc_def gate_at_pc_def pc)
qed

lemma at_pc_selectors:
  "m_regs (at_pc m) = m_regs m" "m_spills (at_pc m) = m_spills m" "m_pc (at_pc m) = m_pc m"
  "m_live (at_pc m) = m_live m" "m_res (at_pc m) = (m_res m)\<lparr>r_pc := m_pc m\<rparr>"
  "g_regs (gate_at_pc g) = g_regs g" "g_spills (gate_at_pc g) = g_spills g" "g_state (gate_at_pc g) = g_state g"
  by (simp_all add: at_pc_def gate_at_pc_def)

lemma acquire_sim:
  assumes inv: "loop_inv p n m" and rel: "gate_rel P m g" and op: "x_op (p ! m_pc m) = CBPF_ACQUIRE"
  shows "agree P (cbpf_step p m) (gate_step P p g) \<or>
    (\<exists>v. gate_step P p g = Inl v \<and> aborted P p m v)"
proof -
  let ?x = "p ! m_pc m" and ?m = "at_pc m" and ?g = "gate_at_pc g"
  note fr = gate_step_frame [OF inv rel] and sel = at_pc_selectors
  note st = storage_at_pc [OF rel] and met = metrics_at_pc [OF rel] and room = room_at_pc [OF inv]
  have imm: "x_imm ?x \<noteq> 0 \<longleftrightarrow> x_imm ?x = 1" "((ucast (x_imm ?x) :: u32) \<noteq> 0) \<longleftrightarrow> x_imm ?x \<noteq> 0"
    using acquire_success [OF fr(3) op] by blast+
  have dst: "unat (x_dst ?x) < CBPF_REGS" using fr(3) op by (simp add: cbpf_insn_valid_def)
  have steps: "cbpf_step p m =
      (if \<not> x_imm ?x \<noteq> 0 then cbpf_next ?x 0 (m_pc m + 1) (?m\<lparr>m_regs := (m_regs ?m)[unat (x_dst ?x) := 0]\<rparr>)
       else if r_acquired (m_res ?m) = CBPF_CELLS then cbpf_goto_trap ?x CBPF_EXHAUSTED 0 ?m
       else cbpf_next ?x (r_acquired (m_res ?m) + 1) (m_pc m + 1) (cbpf_issue (x_dst ?x) ?m))"
    "gate_step P p g = gate_settle ?x (m_pc m + 1) (gate_acquire P (x_imm ?x \<noteq> 0) (unat (x_dst ?x)) ?g)"
    unfolding cbpf_step_def gate_step_def Let_def fr(1,6,7) using op imm(2) by simp_all
  from acquire_agrees [OF st met fr(2) room op dst, of "x_imm ?x \<noteq> 0" "m_pc m + 1"]
  show ?thesis
    unfolding steps [symmetric]
  proof (elim disjE conjE)
    let ?v = "?g\<lparr>g_metrics := (attempt CBPF_ACQUIRE (g_metrics ?g))\<lparr>gm_representation_errors := 1\<rparr>,
          g_res := (m_res ?m)\<lparr>r_status := CBPF_INVALID\<rparr>\<rparr>"
    assume f: "x_imm ?x \<noteq> 0" "r_acquired (m_res ?m) < CBPF_CELLS"
      "prepare_view P (pf_cell P (r_acquired (m_res ?m))) = None" "gate_step P p g = Inl ?v"
    have "storage_rel P (m\<lparr>m_res := (m_res m)\<lparr>r_pc := m_pc m, r_status := CBPF_INVALID\<rparr>\<rparr>) ?v"
      using st by (simp add: storage_rel_def sel)
    then have "aborted P p m ?v"
      using f op imm met by (simp add: aborted_def Let_def sel metrics_of_update)
    then show ?thesis using f(4) by blast
  qed simp
qed

lemma move_sim:
  assumes inv: "loop_inv p n m" and rel: "gate_rel P m g"
    and op: "x_op (p ! m_pc m) \<in> {CBPF_COPY, CBPF_SPILL, CBPF_RELOAD}"
  shows "agree P (cbpf_step p m) (gate_step P p g)"
proof -
  let ?x = "p ! m_pc m"
  note fr = gate_step_frame [OF inv rel] and sel = at_pc_selectors
  note ctx = storage_at_pc [OF rel] metrics_at_pc [OF rel] fr(2) room_at_pc [OF inv]
  note hd = handle_alias [OF ctx(1,3)] and tok = machine_ok_regs [OF ctx(3)]
  note unfold = cbpf_step_def gate_step_def Let_def fr(1,4-8) sel
  from op consider (copy) "x_op ?x = CBPF_COPY" | (spill) "x_op ?x = CBPF_SPILL" | (reload) "x_op ?x = CBPF_RELOAD"
    by blast
  then show ?thesis
  proof cases
    case copy
    then have b: "unat (x_dst ?x) < CBPF_REGS" "unat (x_src ?x) < CBPF_REGS"
      using fr(3) by (simp_all add: cbpf_insn_valid_def)
    show ?thesis
      using move_agrees(1) [OF ctx, of ?x "m_regs m ! unat (x_src ?x)" "g_regs g ! unat (x_src ?x)" "m_pc m + 1"]
        copy b hd(1) [OF b(2)] tok(1) [OF b(2)] by (simp add: unfold)
  next
    case spill
    then have b: "unat (x_dst ?x) < CBPF_SPILLS" "unat (x_src ?x) < CBPF_REGS"
      using fr(3) by (simp_all add: cbpf_insn_valid_def)
    show ?thesis
      using move_agrees(2) [OF ctx, of ?x "m_regs m ! unat (x_src ?x)" "g_regs g ! unat (x_src ?x)" "m_pc m + 1"]
        spill b hd(1) [OF b(2)] tok(1) [OF b(2)] by (simp add: unfold)
  next
    case reload
    then have b: "unat (x_dst ?x) < CBPF_REGS" "unat (x_src ?x) < CBPF_SPILLS"
      using fr(3) by (simp_all add: cbpf_insn_valid_def)
    show ?thesis
      using move_agrees(1) [OF ctx, of ?x "m_spills m ! unat (x_src ?x)" "g_spills g ! unat (x_src ?x)" "m_pc m + 1"]
        reload b hd(2) [OF b(2)] tok(2) [OF b(2)] by (simp add: unfold)
  qed
qed

lemma gate_step_sim:
  assumes inv: "loop_inv p n m" and rel: "gate_rel P m g"
  shows "agree P (cbpf_step p m) (gate_step P p g) \<or>
    (\<exists>v. gate_step P p g = Inl v \<and> aborted P p m v)"
proof -
  let ?x = "p ! m_pc m" and ?m = "at_pc m" and ?g = "gate_at_pc g"
  note fr = gate_step_frame [OF inv rel] and sel = at_pc_selectors
  note ctx = storage_at_pc [OF rel] metrics_at_pc [OF rel] fr(2) room_at_pc [OF inv]
  note hd = handle_alias [OF ctx(1,3)] and tok = machine_ok_regs [OF ctx(3)]
  note unfold = cbpf_step_def gate_step_def Let_def fr(1,6-8)
  have b: "x_op ?x \<in> {CBPF_READ, CBPF_RELEASE, CBPF_BR_NULL} \<Longrightarrow> unat (x_dst ?x) < CBPF_REGS"
    using fr(3) by (auto simp: cbpf_insn_valid_def)
  show ?thesis
  proof (cases "x_op ?x")
    case CBPF_READ
    then have b: "unat (x_dst ?x) < CBPF_REGS" using b by simp
    show ?thesis
      using read_agrees [OF ctx CBPF_READ tok(1) [OF b] hd(1) [OF b], of "m_pc m + 1"]
        CBPF_READ by (simp add: unfold sel cong: if_cong split del: if_split)
  next
    case CBPF_RELEASE
    then have b: "unat (x_dst ?x) < CBPF_REGS" using b by simp
    show ?thesis
      using release_agrees [OF ctx CBPF_RELEASE tok(1) [OF b] hd(1) [OF b], of "m_pc m + 1"]
        CBPF_RELEASE by (simp add: unfold sel cong: if_cong split del: if_split)
  next
    case CBPF_BR_NULL
    then have b: "unat (x_dst ?x) < CBPF_REGS" using b by simp
    let ?t = "m_regs ?m ! unat (x_dst ?x)"
    have id: "gate_identify P (g_regs ?g ! unat (x_dst ?x)) ?g = (GATE_OK, ?t, ?g)"
      using identify_moved [OF ctx(1,3) tok(1) [OF b] hd(1) [OF b] refl] ctx(1) by (simp add: storage_rel_def)
    show ?thesis
      using move_agrees(3) [OF ctx _ tok(1) [OF b] hd(1) [OF b],
          of ?x "if ?t = 0 then unat (x_imm ?x) else m_pc m + 1"] CBPF_BR_NULL id
      by (simp add: unfold sel cong: if_cong split del: if_split)
  next
    case CBPF_RETURN
    let ?r = "(m_res ?m)\<lparr>r_returned := x_imm ?x, r_status := CBPF_RETURNED\<rparr>"
    have "has_room ?r" using ctx(4) by (simp add: has_room_def)
    then have "metrics_of P (record_event ?r CBPF_STEP CBPF_RETURN (m_pc m) 0) = metrics_of P (m_res ?m)"
      by (simp add: metrics_of_record metrics_of_update attempt_none)
    then show ?thesis
      using ctx(1,2) CBPF_RETURN by (simp add: unfold agree_def gate_rel_def storage_rel_def sel)
  next
    case (CBPF_OTHER v)
    then show ?thesis using fr(3) by (simp add: cbpf_insn_valid_def)
  qed (use acquire_sim [OF inv rel] move_sim [OF inv rel] in simp_all)
qed

text \<open>The interpreter's loop, left in agreement or by a representation error.\<close>

lemma gate_loop_sim:
  assumes "cbpf_program_ok p n"
  shows "\<exists>v. c_loop (\<lambda>g. g_pc g < n) (gate_step P p) (gate_start P) = Some v \<and>
    ((\<exists>u. c_loop (\<lambda>m. m_pc m < n) (cbpf_step p) cbpf_start = Some u \<and> gate_rel P u v) \<or>
     (\<exists>u. loop_inv p n u \<and> m_pc u < n \<and> aborted P p u v))"
proof (rule host_loop.lockstep [where R = "gate_rel P" and A = "aborted P p"])
  show "loop_inv p n cbpf_start" using assms by (rule loop_inv_start)
  show "gate_rel P cbpf_start (gate_start P)"
    by (simp add: gate_rel_def storage_rel_def cbpf_start_def gate_start_def zero_result_def
        metrics_of_def events_of_def trace_def gate_metrics_start_def handle_of_def)
  show "g_pc t < n \<longleftrightarrow> m_pc s < n" if "gate_rel P s t" for s t
    using that by (simp add: gate_rel_def storage_rel_def)
next
  fix s t v
  assume inv: "loop_inv p n s" and rel: "gate_rel P s t" and step: "gate_step P p t = Inl v"
  from gate_step_sim [OF inv rel] step
  show "aborted P p s v \<or> (\<exists>u. cbpf_step p s = Inl u \<and> gate_rel P u v)"
    by (auto simp: agree_def split: sum.splits)
next
  fix s t v
  assume inv: "loop_inv p n s" and rel: "gate_rel P s t" and step: "gate_step P p t = Inr v"
  from gate_step_sim [OF inv rel] step
  show "\<exists>u. cbpf_step p s = Inr u \<and> gate_rel P u v"
    by (auto simp: agree_def split: sum.splits)
qed

text \<open>The cleanup, with the metrics up to a function that leaves its counters alone.\<close>

lemma cleanup1_sim:
  assumes st: "storage_rel P m g" and ok: "machine_ok m" and i: "i < r_acquired (m_res m)"
    and room: "has_room (m_res m)"
    and met: "g_metrics g = f (metrics_of P (m_res m))" and f: "keeps_cleanup_metrics f"
  shows "storage_rel P (cbpf_cleanup1 i m) (gate_cleanup1 P i g) \<and>
    g_metrics (gate_cleanup1 P i g) = f (metrics_of P (m_res (cbpf_cleanup1 i m)))"
proof (cases "m_live m ! i")
  case False
  then have "gate_cleanup1 P i g = g"
    using cell_liveness [OF st i] by (simp add: gate_cleanup1_def gate_consume_def Let_def)
  with False st met show ?thesis by (simp add: cleanup1_dead)
next
  case True
  have cell: "gc_object (s_cells (g_state g) ! i) = pf_object P"
    using st i True by (simp add: storage_rel_def)
  have len: "length (m_live m) = CBPF_CELLS" "i < CBPF_CELLS"
    using ok i machine_ok_acquired [OF ok] by (auto simp: machine_ok_def)
  let ?r = "(m_res m)\<lparr>r_object_refs := r_object_refs (m_res m) - 1,
                      r_cleanup_releases := r_cleanup_releases (m_res m) + 1,
                      r_cleanup_by_cell := (r_cleanup_by_cell (m_res m))
                        [i := r_cleanup_by_cell (m_res m) ! i + 1]\<rparr>"
  have "has_room ?r" using room by (simp add: has_room_def)
  then have "metrics_of P (m_res (cbpf_cleanup1 i m)) = metrics_of P ?r"
    using True by (simp add: cbpf_cleanup1_def Let_def metrics_of_record_cleanup)
  also have "\<dots> = (metrics_of P (m_res m))
      \<lparr>gm_cleanups := gm_cleanups (metrics_of P (m_res m)) + 1,
       gm_tag_clears := gm_tag_clears (metrics_of P (m_res m)) + of_bool (is_purecap P)\<rparr>"
    by (simp add: metrics_of_def events_of_def)
  finally have M: "f (metrics_of P (m_res (cbpf_cleanup1 i m))) = (g_metrics g)
      \<lparr>gm_cleanups := gm_cleanups (g_metrics g) + 1,
       gm_tag_clears := gm_tag_clears (g_metrics g) + of_bool (is_purecap P)\<rparr>"
    using f met by (simp add: keeps_cleanup_metrics_def)
  have "storage_rel P (cbpf_cleanup1 i m) (gate_cleanup1 P i g)"
    using st i len object_live True
    by (auto simp: gate_cleanup1_def gate_consume_def cell Let_def storage_rel_def cbpf_cleanup1_def
        nth_list_update)
  moreover have "g_metrics (gate_cleanup1 P i g) = (g_metrics g)
      \<lparr>gm_cleanups := gm_cleanups (g_metrics g) + 1,
       gm_tag_clears := gm_tag_clears (g_metrics g) + of_bool (is_purecap P)\<rparr>"
    using object_live by (simp add: gate_cleanup1_def gate_consume_def cell Let_def)
  ultimately show ?thesis using M by simp
qed

lemma finish_sim:
  assumes "storage_rel P m g" and "machine_ok m" and "set ks \<subseteq> {..<r_acquired (m_res m)}"
    and "r_event_count (m_res m) + length ks \<le> CBPF_MAX_EVENTS"
    and "g_metrics g = f (metrics_of P (m_res m))" and "keeps_cleanup_metrics f"
  shows "storage_rel P (fold cbpf_cleanup1 ks m) (fold (gate_cleanup1 P) ks g) \<and>
    g_metrics (fold (gate_cleanup1 P) ks g) = f (metrics_of P (m_res (fold cbpf_cleanup1 ks m)))"
  using assms(1-5)
proof (induction ks arbitrary: m g)
  case (Cons k ks)
  have k: "k < r_acquired (m_res m)" using Cons.prems by simp
  have room: "has_room (m_res m)"
    using Cons.prems by (simp add: has_room_def machine_ok_def)
  have "storage_rel P (cbpf_cleanup1 k m) (gate_cleanup1 P k g) \<and>
      g_metrics (gate_cleanup1 P k g) = f (metrics_of P (m_res (cbpf_cleanup1 k m)))"
    using cleanup1_sim [OF Cons.prems(1,2) k room Cons.prems(5) assms(6)] .
  moreover have "machine_ok (cbpf_cleanup1 k m)" using Cons.prems k by (simp add: cleanup1_ok)
  moreover have "r_acquired (m_res (cbpf_cleanup1 k m)) = r_acquired (m_res m)"
    "r_event_count (m_res (cbpf_cleanup1 k m)) \<le> r_event_count (m_res m) + 1"
    by (simp_all add: cbpf_cleanup1_def Let_def)
  ultimately show ?case using Cons.IH [of "cbpf_cleanup1 k m" "gate_cleanup1 P k g"] Cons.prems
    by simp
qed simp

text \<open>What a representation error leaves behind.\<close>

lemma aborted_result:
  assumes inv: "loop_inv p n m" and ab: "aborted P p m v"
  shows "representation_failure P p (g_res (gate_finish P v)) (g_metrics (gate_finish P v))"
proof -
  define m' where "m' = m\<lparr>m_res := (m_res m)\<lparr>r_pc := m_pc m, r_status := CBPF_INVALID\<rparr>\<rparr>"
  define f where "f M = (attempt CBPF_ACQUIRE M)\<lparr>gm_representation_errors := 1\<rparr>" for M
  let ?A = "r_acquired (m_res m)" and ?u = "cbpf_finish m'"
  have st: "storage_rel P m' v" "g_metrics v = f (metrics_of P (m_res m'))"
    using ab by (simp_all add: aborted_def Let_def m'_def f_def)
  have f: "keeps_cleanup_metrics f"
    by (simp add: keeps_cleanup_metrics_def f_def attempt_def)
  have own: "machine_own m' = machine_own m" by (simp add: m'_def machine_own_def)
  have ok: "machine_ok m'"
    using inv own by (simp add: loop_inv_def machine_ok_def m'_def)
  have tr: "trace (m_res m') = trace (m_res m)" by (simp add: m'_def)
  have rep: "replay own_init (trace (m_res m')) = Some (machine_own m')"
    using inv tr own by (simp add: loop_inv_def)
  have A: "r_acquired (m_res m') = ?A" "?A \<le> CBPF_CELLS"
    using ab by (simp_all add: m'_def aborted_def)
  have cap: "r_event_count (m_res m') + length [0..<?A] \<le> CBPF_MAX_EVENTS"
    using inv A by (simp add: m'_def loop_inv_def cbpf_program_ok_def CBPF_MAX_EVENTS_def)
  have set_ks: "set [0..<?A] \<subseteq> {..<r_acquired (m_res m')}" using A by auto
  obtain es where es: "trace (m_res ?u) = trace (m_res m') @ es"
    "cleanup_events (r_pc (m_res m')) es"
    "replay own_init (trace (m_res ?u)) = Some (machine_own ?u)"
    "same_outcome (m_res ?u) (m_res m')"
    using cleanup_all [OF ok set_ks _ cap rep] A unfolding cbpf_finish_def by (metis sorted_wrt_upt)
  have fin: "machine_ok ?u" "live_ids (machine_own ?u) = {}"
    using host_cells.sweep_all [OF ok] by (simp_all add: cbpf_finish_def)
  have res: "machine_own ?u = result_own (m_res ?u)"
    using fin(2) by (simp add: machine_own_def result_own_def)
  have sim: "storage_rel P ?u (gate_finish P v)" "g_metrics (gate_finish P v) = f (metrics_of P (m_res ?u))"
    using finish_sim [OF st(1) ok set_ks cap st(2) f] st(1) A
    by (simp_all add: cbpf_finish_def gate_finish_def storage_rel_def)
  have r: "g_res (gate_finish P v) = m_res ?u" using sim(1) by (simp add: storage_rel_def)
  have out: "r_status (m_res ?u) = CBPF_INVALID" "r_trap (m_res ?u) = CBPF_NO_TRAP"
    "r_pc (m_res ?u) = m_pc m" "r_acquired (m_res ?u) = ?A"
    using es(4) inv by (simp_all add: same_outcome_def m'_def loop_inv_def)
  have steps: "\<forall>e \<in> set (trace (m_res ?u)). e_kind e \<noteq> CBPF_CLEANUP \<longrightarrow> e_pc e < m_pc m"
    using es(1,2) tr inv by (auto simp: loop_inv_def cleanup_events_def)
  have acc: "r_object_refs (m_res ?u) = 1"
    "\<forall>i < ?A. r_explicit_by_cell (m_res ?u) ! i + r_cleanup_by_cell (m_res ?u) ! i = 1"
  proof -
    have inv': "own_inv CBPF_CELLS (result_own (m_res ?u))" using fin(1) res by (simp add: machine_ok_def)
    then show "r_object_refs (m_res ?u) = 1" by (simp add: own_inv_def result_own_def)
    have "explicit (result_own (m_res ?u)) (Suc i) + swept (result_own (m_res ?u)) (Suc i) = 1" if "i < ?A" for i
      using own_inv_settled(2) [OF inv', of "Suc i"] that out(4) by (simp add: result_own_def)
    then show "\<forall>i < ?A. r_explicit_by_cell (m_res ?u) ! i + r_cleanup_by_cell (m_res ?u) ! i = 1"
      using fin(1) A by (simp add: result_own_def cell_count_def machine_ok_def)
  qed
  show ?thesis
    unfolding representation_failure_def r sim(2)
    using ab out acc steps es(3) res
    by (simp add: aborted_def f_def)
qed

lemma gate_run_outcome:
  assumes "cbpf_program_ok p n"
  shows "\<exists>r M. cbpf_gate_run P (Some p) n = Some (r, M) \<and>
    (cbpf_run (Some p) n = Some r \<and> M = metrics_of P r \<or> representation_failure P p r M)"
proof -
  note val = program_ok_validate [OF assms]
  obtain v where v: "c_loop (\<lambda>g. g_pc g < n) (gate_step P p) (gate_start P) = Some v"
    and alt: "(\<exists>u. c_loop (\<lambda>m. m_pc m < n) (cbpf_step p) cbpf_start = Some u \<and> gate_rel P u v) \<or>
     (\<exists>u. loop_inv p n u \<and> m_pc u < n \<and> aborted P p u v)"
    using gate_loop_sim [OF assms] by blast
  have run: "cbpf_gate_run P (Some p) n = Some (g_res (gate_finish P v), g_metrics (gate_finish P v))"
    using val v by (simp add: cbpf_gate_run_def)
  from alt show ?thesis
  proof (elim disjE exE conjE)
    fix u
    assume u: "c_loop (\<lambda>m. m_pc m < n) (cbpf_step p) cbpf_start = Some u" and rel: "gate_rel P u v"
    then have left: "left_loop p n u" using cbpf_loop_left [OF assms] by auto
    then have ok: "machine_ok u" by (simp add: left_loop_def)
    have cap: "r_event_count (m_res u) + length [0..<r_acquired (m_res u)] \<le> CBPF_MAX_EVENTS"
      using left assms machine_ok_acquired [OF ok]
      by (simp add: left_loop_def cbpf_program_ok_def CBPF_MAX_EVENTS_def)
    have st: "storage_rel P u v" "g_metrics v = (\<lambda>M. M) (metrics_of P (m_res u))"
      using rel by (simp_all add: gate_rel_def)
    have acq: "r_acquired (g_res v) = r_acquired (m_res u)" using st(1) by (simp add: storage_rel_def)
    have "keeps_cleanup_metrics (\<lambda>M. M)" by (simp add: keeps_cleanup_metrics_def)
    from finish_sim [OF st(1) ok _ cap st(2) this]
    have "storage_rel P (cbpf_finish u) (gate_finish P v) \<and>
        g_metrics (gate_finish P v) = metrics_of P (m_res (cbpf_finish u))"
      unfolding cbpf_finish_def gate_finish_def acq by fastforce
    moreover have "cbpf_run (Some p) n = Some (m_res (cbpf_finish u))"
      using val u by (simp add: cbpf_run_def)
    ultimately have "cbpf_run (Some p) n = Some (m_res (cbpf_finish u))"
      "g_res (gate_finish P v) = m_res (cbpf_finish u)"
      "g_metrics (gate_finish P v) = metrics_of P (m_res (cbpf_finish u))"
      by (simp_all add: storage_rel_def)
    then show ?thesis using run by metis
  next
    fix u
    assume "loop_inv p n u" "aborted P p u v"
    then show ?thesis using run aborted_result by blast
  qed
qed

lemma gate_reach_rel:
  assumes "gate_reach P p n g" and "cbpf_program_ok p n"
  shows "\<exists>m. loop_inv p n m \<and> gate_rel P m g"
  using assms(1)
proof (induction rule: gate_reach.induct)
  case start
  have "gate_rel P cbpf_start (gate_start P)"
    by (simp add: gate_rel_def storage_rel_def cbpf_start_def gate_start_def zero_result_def
        metrics_of_def events_of_def trace_def gate_metrics_start_def handle_of_def)
  then show ?case using loop_inv_start [OF assms(2)] by blast
next
  case (step g g')
  then obtain m where m: "loop_inv p n m" "gate_rel P m g" by blast
  obtain u where "cbpf_step p m = Inr u" "gate_rel P u g'"
    using gate_step_sim [OF m] step.hyps by (auto simp: agree_def split: sum.splits)
  then show ?case using cbpf_step_inv(1) [OF m(1)] by blast
qed

end

end
