(* ===== verification/GateProps.thy ===== *)
theory GateProps
  imports GateCorrect
begin

text \<open>
  The two builds of the trusted gate as platforms of its refinement, and what every run
  of the gate returns and every state of its loop exposes.
\<close>

subsection \<open>The platforms\<close>

interpretation host_gate: gate_platform host_platform
  by unfold_locales
    (auto simp: host_platform_def same_handle_def prepare_view_def object_is_live_def
      removed_authority_def)

text \<open>
  A purecap platform: intrinsics that keep \<open>cheri_laws\<close>, storage of the call at distinct
  addresses, a tagged capability for the object, and NULL as the null capability.
\<close>

definition purecap_platform :: "'v cheri \<Rightarrow> 'v platform \<Rightarrow> bool" where
  "purecap_platform C P \<longleftrightarrow>
     cheri_laws C \<and> pf_cheri P = Some C \<and> pf_null P = cheri_null C \<and>
     cheri_tag_get C (pf_object P) \<and>
     (\<forall>i < CBPF_CELLS. \<forall>j < CBPF_CELLS.
        cheri_address_get C (pf_cell P i) = cheri_address_get C (pf_cell P j) \<longrightarrow> i = j)"

text \<open>A prepared view is restricted to its cell whatever the narrowing intrinsics do.\<close>

definition restricted_view :: "'v cheri \<Rightarrow> 'v platform \<Rightarrow> nat \<Rightarrow> 'v \<Rightarrow> bool" where
  "restricted_view C P i v \<longleftrightarrow>
     cheri_tag_get C v \<and> \<not> cheri_is_sealed C v \<and>
     cheri_address_get C v = cheri_address_get C (pf_cell P i) \<and>
     cheri_base_get C v = cheri_address_get C (pf_cell P i) \<and>
     cheri_length_get C v = pf_sizeof_cell P \<and>
     cheri_perms_get C v = CHERI_PERM_LOAD C OR CHERI_PERM_GLOBAL C"

lemma prepared_restricted:
  "pf_cheri P = Some C \<Longrightarrow> prepare_view P (pf_cell P i) = Some v \<Longrightarrow> restricted_view C P i v"
  by (auto simp: prepare_view_def restricted_view_def view_permissions_def Let_def split: if_splits)

lemma purecap_gate_platform:
  assumes "purecap_platform C P"
  shows "gate_platform P"
proof -
  have C: "cheri_laws C" "pf_cheri P = Some C" "pf_null P = cheri_null C"
    "cheri_tag_get C (pf_object P)"
    and dist: "\<And>i j. i < CBPF_CELLS \<Longrightarrow> j < CBPF_CELLS \<Longrightarrow>
      cheri_address_get C (pf_cell P i) = cheri_address_get C (pf_cell P j) \<Longrightarrow> i = j"
    using assms by (auto simp: purecap_platform_def)
  note laws = cheri_lawsD [OF C(1)]
  show ?thesis
  proof unfold_locales
    show "same_handle P a b \<longleftrightarrow> a = b" for a b by (simp add: same_handle_def C laws)
    show "object_is_live P (pf_object P)" "\<not> object_is_live P (removed_authority P (pf_object P))"
      by (simp_all add: object_is_live_def removed_authority_def C laws)
    show "v \<noteq> pf_null P" if "prepare_view P (pf_cell P i) = Some v" for i v
      using prepared_restricted [OF C(2) that] C(3) laws(6) by (auto simp: restricted_view_def)
    show "i = j" if "prepare_view P (pf_cell P i) = Some v" "prepare_view P (pf_cell P j) = Some v"
      "i < CBPF_CELLS" "j < CBPF_CELLS" for i j v
      using prepared_restricted [OF C(2) that(1)] prepared_restricted [OF C(2) that(2)]
        dist [OF that(3,4)] by (simp add: restricted_view_def)
  qed
qed

lemma gate_run_refused:
  "cbpf_validate program n = Inl bad \<Longrightarrow>
   cbpf_gate_run P program n = Some (refused bad, metrics_of P (refused bad))"
  by (simp add: cbpf_gate_run_def refused_def [symmetric] metrics_of_def events_of_def
      gate_metrics_start_def)

lemma host_prepares: "prepare_view host_platform c = Some c"
  by (simp add: prepare_view_def host_platform_def)

lemma no_representation_failure:
  assumes "\<And>i. i < CBPF_CELLS \<Longrightarrow> prepare_view P (pf_cell P i) \<noteq> None"
  shows "\<not> representation_failure P p r M"
  using assms [of "r_acquired r"] unfolding representation_failure_def by blast

lemma total_gate_run:
  assumes "gate_platform P" and "\<And>i. i < CBPF_CELLS \<Longrightarrow> prepare_view P (pf_cell P i) \<noteq> None"
  shows "\<exists>r. cbpf_run program n = Some r \<and> cbpf_gate_run P program n = Some (r, metrics_of P r)"
proof (cases rule: cbpf_run_cases [of program n])
  case (invalid bad)
  then show ?thesis using gate_run_refused by blast
next
  case (valid p r)
  from gate_platform.gate_run_outcome [OF assms(1) valid(2)]
  show ?thesis using no_representation_failure [OF assms(2)] valid(1) by blast
qed

subsection \<open>A software instance for the examples\<close>

definition sample_cap :: "u64 \<Rightarrow> u64 \<Rightarrow> swcap" where
  "sample_cap a n = \<lparr>sw_tag = True, sw_sealed = False, sw_address = a, sw_base = a,
                     sw_length = n, sw_perms = 0xff\<rparr>"

text \<open>The cells at 0x100 and 0x110; with \<open>slip\<close> the second one is one byte too short.\<close>

definition sample_platform :: "u64 \<Rightarrow> swcap platform" where
  "sample_platform slip =
     \<lparr>pf_cheri = Some sample_cheri, pf_null = cheri_null sample_cheri,
      pf_cell = (\<lambda>i. sample_cap (0x100 + 16 * of_nat i) (16 - (if i = 1 then slip else 0))),
      pf_object = sample_cap 0x80 8, pf_sizeof_cell = 16, pf_sizeof_handle = 16\<rparr>"

lemma sample_purecap: "purecap_platform sample_cheri (sample_platform slip)"
  using sample_cheri_laws
  by (auto simp: purecap_platform_def sample_platform_def sample_cap_def sample_cheri_def
      CBPF_CELLS_def less_2_cases_iff)

subsection \<open>Properties\<close>

text \<open>
  C7. The host build of the trusted gate is equivalent to the reference machine: for every
  program and length it returns the same result, field by field and event by event, and
  its metrics are the numbers of attempts and cleanups that result records.
\<close>

theorem host_gate_equals_reference:
  "\<exists>r. cbpf_run program n = Some r \<and>
     cbpf_gate_run host_platform program n = Some (r, metrics_of host_platform r)"
  by (rule total_gate_run [OF host_gate.gate_platform_axioms]) (simp add: host_prepares)

text \<open>
  C8. The purecap build: for every valid program the run returns, and either its result is
  the reference machine's, with one restricted handle per acquisition and one cleared tag
  per release, or the representation of a new view failed. Then the result is INVALID
  without a trap, nothing is recorded for the failed acquisition, and all earlier ones
  are settled with the baseline reference restored. Where both views can be represented
  the first case holds.
\<close>

theorem purecap_gate_outcome:
  assumes "purecap_platform C P" and "cbpf_validate (Some p) n = Inr ()"
  shows "\<exists>r M. cbpf_gate_run P (Some p) n = Some (r, M) \<and>
    (cbpf_run (Some p) n = Some r \<and> M = metrics_of P r \<or> representation_failure P p r M) \<and>
    ((\<forall>i < CBPF_CELLS. prepare_view P (pf_cell P i) \<noteq> None) \<longrightarrow>
       cbpf_run (Some p) n = Some r \<and> gm_restricted_handles M = r_acquired r \<and>
       gm_tag_clears M = r_acquired r)"
proof -
  have p: "cbpf_program_ok p n" using assms(2) by (simp add: cbpf_validate_Inr)
  have G: "gate_platform P" using purecap_gate_platform [OF assms(1)] .
  obtain r M where r: "cbpf_gate_run P (Some p) n = Some (r, M)"
    "cbpf_run (Some p) n = Some r \<and> M = metrics_of P r \<or> representation_failure P p r M"
    using gate_platform.gate_run_outcome [OF G p] by blast
  have "cbpf_run (Some p) n = Some r \<and> gm_restricted_handles M = r_acquired r \<and>
       gm_tag_clears M = r_acquired r"
    if "\<forall>i < CBPF_CELLS. prepare_view P (pf_cell P i) \<noteq> None"
  proof -
    have "cbpf_run (Some p) n = Some r" "M = metrics_of P r"
      using r(2) no_representation_failure [of P p r M] that by blast+
    moreover have "is_purecap P" using assms(1) by (simp add: purecap_platform_def is_purecap_def)
    moreover have "r_explicit_releases r + r_cleanup_releases r = r_acquired r"
      using run_accounting [of "Some p" n] \<open>cbpf_run (Some p) n = Some r\<close> by auto
    ultimately show ?thesis by (simp add: metrics_of_def)
  qed
  with r show ?thesis by blast
qed

theorem purecap_gate_outcome_witness:
  "\<exists>r M. cbpf_gate_run (sample_platform 1) (Some stale_a_live_b) 7 = Some (r, M) \<and>
     representation_failure (sample_platform 1) stale_a_live_b r M \<and>
     r_acquired r = 1 \<and> r_cleanup_releases r = 1"
proof -
  obtain r M where r: "cbpf_gate_run (sample_platform 1) (Some stale_a_live_b) 7 = Some (r, M)"
    "cbpf_run (Some stale_a_live_b) 7 = Some r \<or>
     representation_failure (sample_platform 1) stale_a_live_b r M"
    using purecap_gate_outcome [OF sample_purecap stale_a_live_b_valid] by blast
  have "map_option (\<lambda>(r, M). (r_status r, r_acquired r, r_cleanup_releases r))
      (cbpf_gate_run (sample_platform 1) (Some stale_a_live_b) 7) = Some (CBPF_INVALID, 1, 1)"
    by code_simp
  then have c: "r_status r = CBPF_INVALID" "r_acquired r = 1" "r_cleanup_releases r = 1"
    using r(1) by simp_all
  have "map_option r_status (cbpf_run (Some stale_a_live_b) 7) = Some CBPF_TRAPPED"
    by code_simp
  then have "cbpf_run (Some stale_a_live_b) 7 \<noteq> Some r" using c(1) by auto
  then show ?thesis using r c by blast
qed

text \<open>
  C9. Authority containment of the purecap build: in every state of the loop, every alias
  a program holds in a register or a spill slot is NULL or an unsealed view of exactly one
  issued cell with permissions LOAD and GLOBAL only; and an issued cell holds the object
  capability, or an untagged value once it is consumed.
\<close>

theorem purecap_aliases_restricted:
  assumes "purecap_platform C P" and "cbpf_validate (Some p) n = Inr ()"
    and "gate_reach P p n g"
  shows "(\<forall>v \<in> set (g_regs g) \<union> set (g_spills g).
       v = pf_null P \<or> (\<exists>i < r_acquired (g_res g). restricted_view C P i v)) \<and>
     (\<forall>i < r_acquired (g_res g).
       gc_object (s_cells (g_state g) ! i) = pf_object P \<or>
       \<not> cheri_tag_get C (gc_object (s_cells (g_state g) ! i)))"
proof -
  have p: "cbpf_program_ok p n" using assms(2) by (simp add: cbpf_validate_Inr)
  have C: "pf_cheri P = Some C" "cheri_laws C" using assms(1) by (simp_all add: purecap_platform_def)
  obtain m where m: "loop_inv p n m" "gate_rel P m g"
    using gate_platform.gate_reach_rel [OF purecap_gate_platform [OF assms(1)] assms(3) p] by blast
  then have ok: "machine_ok m" and st: "storage_rel P m g"
    by (simp_all add: loop_inv_def gate_rel_def)
  have res: "g_res g = m_res m" using st by (simp add: storage_rel_def)
  have al: "handle_of P (s_views (g_state g)) t = pf_null P \<or>
      (\<exists>i < r_acquired (g_res g). restricted_view C P i (handle_of P (s_views (g_state g)) t))"
    if "t \<le> r_acquired (m_res m)" for t
  proof (cases "t = 0")
    case False
    then have "t - 1 < r_acquired (m_res m)" using that by simp
    moreover from this have "restricted_view C P (t - 1) (s_views (g_state g) ! (t - 1))"
      using st by (intro prepared_restricted [OF C(1)]) (simp add: storage_rel_def)
    ultimately show ?thesis using False res by (auto simp: handle_of_def)
  qed (simp add: handle_of_def)
  have "\<forall>t \<in> set (m_regs m) \<union> set (m_spills m). t \<le> r_acquired (m_res m)"
    using ok by (auto simp: machine_ok_def)
  moreover have "set (g_regs g) \<union> set (g_spills g) =
      handle_of P (s_views (g_state g)) ` (set (m_regs m) \<union> set (m_spills m))"
    using st by (simp add: storage_rel_def image_Un)
  moreover have "gc_object (s_cells (g_state g) ! i) = pf_object P \<or>
      \<not> cheri_tag_get C (gc_object (s_cells (g_state g) ! i))" if "i < r_acquired (g_res g)" for i
    using st that res cheri_lawsD(2) [OF C(2)] C(1)
    by (simp add: storage_rel_def removed_authority_def split: if_splits)
  ultimately show ?thesis using al by auto
qed

theorem purecap_aliases_restricted_witness:
  "\<exists>g. gate_reach (sample_platform 0) stale_a_live_b 7 g \<and>
     restricted_view sample_cheri (sample_platform 0) 0 (g_regs g ! 0)"
proof -
  let ?P = "sample_platform 0"
  have "case gate_step ?P stale_a_live_b (gate_start ?P) of
      Inl g \<Rightarrow> False
    | Inr g \<Rightarrow> r_acquired (g_res g) = 1 \<and> sw_tag (g_regs g ! 0) \<and> length (g_regs g) = 4"
    by code_simp
  then obtain g where step: "gate_step ?P stale_a_live_b (gate_start ?P) = Inr g"
    and g: "r_acquired (g_res g) = 1" "sw_tag (g_regs g ! 0)" "length (g_regs g) = 4"
    by (auto split: sum.splits)
  have reach: "gate_reach ?P stale_a_live_b 7 g"
    using gate_reach.step [OF gate_reach.start _ step] by (simp add: gate_start_def)
  have "g_regs g ! 0 \<in> set (g_regs g)" using g(3) by simp
  moreover have "g_regs g ! 0 \<noteq> pf_null ?P"
    using g(2) by (auto simp: sample_platform_def sample_cheri_def sw_int_def)
  ultimately have "restricted_view sample_cheri ?P 0 (g_regs g ! 0)"
    using purecap_aliases_restricted [OF sample_purecap stale_a_live_b_valid reach] g(1) by auto
  with reach show ?thesis by blast
qed

end
