(* ===== verification/Liveness.thy ===== *)
theory Liveness
  imports KernelTheorems GateProps
begin

text \<open>
  Nothing that is acquired stays live: whatever a program does with its handle, and however the
  run ends, a later event of the same run consumes the acquisition, and only that one does. The
  argument is that of \<open>acquisition_observer\<close> (theory \<open>Ownership\<close>), for the events of the reference
  machine and of the trusted gate, and for the lines a kernel invocation logs.
\<close>

subsection \<open>Events\<close>

definition acquisitions_end :: "cbpf_event list \<Rightarrow> bool" where
  "acquisitions_end es \<longleftrightarrow>
     (\<forall>i < length es. \<forall>k. issues_token k (es ! i) \<longrightarrow>
        (\<exists>j > i. j < length es \<and> consumes_token k (es ! j) \<and>
           (\<forall>j' < length es. consumes_token k (es ! j') \<longrightarrow> j' = j)))"

lemma replay_acquisitions_end:
  assumes "replay own_init es = Some (result_own r)"
  shows "acquisitions_end es"
  unfolding acquisitions_end_def
  using host_trace.issued_consumed_later [OF assms [unfolded replay_observe] own_inv_init]
  by (simp add: result_own_def)

lemma run_acquisitions_end: "\<exists>r. cbpf_run program n = Some r \<and> acquisitions_end (trace r)"
  using run_replay [of program n] replay_acquisitions_end by blast

lemma gate_platform_acquisitions_end:
  assumes "gate_platform P"
  shows "\<exists>r M. cbpf_gate_run P program n = Some (r, M) \<and> acquisitions_end (trace r)"
proof (cases rule: cbpf_run_cases [of program n])
  case (invalid bad)
  then have "cbpf_gate_run P program n = Some (refused bad, metrics_of P (refused bad))"
    by (intro gate_run_refused) simp
  then show ?thesis by (simp add: acquisitions_end_def)
next
  case (valid p r)
  obtain r' M where "cbpf_gate_run P (Some p) n = Some (r', M)"
    and "cbpf_run (Some p) n = Some r' \<or> representation_failure P p r' M"
    using gate_platform.gate_run_outcome [OF assms valid(2)] by blast
  then show ?thesis
    using run_acquisitions_end [of "Some p" n] replay_acquisitions_end [of "trace r'" r'] valid(1)
    by (auto simp: representation_failure_def)
qed

text \<open>
  C10. Every acquisition of a run ends: on every purecap platform, for every program and length,
  the trusted gate returns, and each event of its trace that issues a token is followed by an
  event that consumes it (a release step or a cleanup), the only one of the trace that does.
  This includes the runs that a trap ends, and those where the view of a later cell cannot be
  represented.
\<close>

theorem gate_acquisitions_end:
  assumes "purecap_platform C P"
  shows "\<exists>r M. cbpf_gate_run P program n = Some (r, M) \<and>
    (\<forall>i < length (trace r). \<forall>k. issues_token k (trace r ! i) \<longrightarrow>
        (\<exists>j > i. j < length (trace r) \<and> consumes_token k (trace r ! j) \<and>
           (\<forall>j' < length (trace r). consumes_token k (trace r ! j') \<longrightarrow> j' = j)))"
  using gate_platform_acquisitions_end [OF purecap_gate_platform [OF assms]]
  unfolding acquisitions_end_def .

text \<open>The second acquisition of the sample cannot be represented; the first one is cleaned up.\<close>

theorem gate_acquisitions_end_witness:
  "\<exists>r M. cbpf_gate_run (sample_platform 1) (Some stale_a_live_b) 7 = Some (r, M) \<and>
     length (trace r) = 2 \<and> issues_token 1 (trace r ! 0) \<and> consumes_token 1 (trace r ! 1)"
proof -
  obtain r M where r: "cbpf_gate_run (sample_platform 1) (Some stale_a_live_b) 7 = Some (r, M)"
    and ends: "\<forall>i < length (trace r). \<forall>k. issues_token k (trace r ! i) \<longrightarrow>
        (\<exists>j > i. j < length (trace r) \<and> consumes_token k (trace r ! j) \<and>
           (\<forall>j' < length (trace r). consumes_token k (trace r ! j') \<longrightarrow> j' = j))"
    using gate_acquisitions_end [OF sample_purecap] by blast
  have "case cbpf_gate_run (sample_platform 1) (Some stale_a_live_b) 7 of
      Some (r, M) \<Rightarrow> length (trace r) = 2 \<and> issues_token 1 (trace r ! 0) | None \<Rightarrow> False"
    by code_simp
  then have t: "length (trace r) = 2" "issues_token 1 (trace r ! 0)" using r by simp_all
  moreover have "consumes_token 1 (trace r ! 1)"
    using ends [rule_format, of 0 1] t by (auto simp: less_2_cases_iff)
  ultimately show ?thesis using r by blast
qed

subsection \<open>Lines\<close>

lemma last_not_consuming:
  assumes "l_event (last ls) = (if f then ''failed'' else ''exit'')"
    and "j < length ls" and "line_consumes i (ls ! j)"
  shows "j < length ls - 1"
proof -
  have "\<not> line_consumes i (last ls)" using assms(1) by (simp add: line_consumes_def split: if_splits)
  moreover have "last ls = ls ! (length ls - 1)" using assms(2) by (intro last_conv_nth) auto
  ultimately have "j \<noteq> length ls - 1" using assms(3) by metis
  then show ?thesis using assms(2) by linarith
qed

text \<open>
  C13. Every acquisition of a kernel invocation ends: whatever native code runs, each line of
  the log that issues an acquisition is followed, before the closing line, by the line that
  consumes it, the only one of the log that does: the code's release, or the sweep that the
  invocation makes when the code returned, was rejected by the gate or never entered it. The
  closing line, which reports how the invocation ended, is always there.
\<close>

theorem invocation_acquisitions_end:
  assumes "kernel_idle K k" and "cbpf_test_invoke K prog gated code k = (v, log, k')"
    and "i < length log" and "line_issues x (log ! i)"
  shows "\<exists>j > i. j < length log - 1 \<and> line_consumes x (log ! j) \<and>
    (\<forall>j' < length log. line_consumes x (log ! j') \<longrightarrow> j' = j) \<and>
    l_event (last log) \<in> {''exit'', ''failed''}"
proof -
  have gated: "gated"
    using assms(2,3) by (cases gated) (auto simp: cbpf_test_invoke_def Let_def)
  have run: "cbpf_test_invoke K prog True code k = (v, log, k')" using assms(2) gated by simp
  obtain kf where r: "kernel_inv K kf" "live_ids (kernel_own K kf) = {}" "log = iv_log (active kf)"
    "l_event (last log) = (if iv_failed (active kf) then ''failed'' else ''exit'')"
    using test_invoke_ran [OF assms(1) run] by metis
  have "observe line_step own_init log = Some (kernel_own K kf)"
    using r(1,3) by (simp add: kernel_inv_def replay_log_observe)
  from kernel_log.issued_consumed_later [OF this own_inv_init r(2) assms(3,4)]
  obtain j where j: "i < j" "j < length log" "line_consumes x (log ! j)"
    "\<forall>j' < length log. line_consumes x (log ! j') \<longrightarrow> j' = j" by blast
  moreover have "l_event (last log) \<in> {''exit'', ''failed''}" using r(4) by simp
  ultimately show ?thesis using last_not_consuming [OF r(4) j(2,3)] by blast
qed

text \<open>The sample code releases its first acquisition and leaves the second to the sweep.\<close>

theorem invocation_acquisitions_end_witness:
  "\<exists>v log k'. cbpf_test_invoke sample_kplatform 7 True sample_code sample_kernel = (v, log, k') \<and>
     (\<exists>j > 1. line_issues 2 (log ! 1) \<and> j < length log - 1 \<and> line_consumes 2 (log ! j))"
proof -
  have "case cbpf_test_invoke sample_kplatform 7 True sample_code sample_kernel of (v, log, k') \<Rightarrow>
      length log = 8 \<and> line_issues 2 (log ! 1)" by code_simp
  then obtain v log k' where
    r: "cbpf_test_invoke sample_kplatform 7 True sample_code sample_kernel = (v, log, k')"
      "length log = 8" "line_issues 2 (log ! 1)"
    by (auto split: prod.splits)
  have "1 < length log" using r(2) by simp
  from invocation_acquisitions_end [OF sample_kernel_idle r(1) this r(3)] r(1,3)
  show ?thesis by blast
qed

end
