(* ===== verification/Exceptions.thy ===== *)
theory Exceptions
  imports KernelGate
begin

text \<open>
  The save areas of \<open>src/linux/ownership/platform.patch\<close>. The restricted entry (\<open>cbpf_enter\<close>,
  theory \<open>KernelGate\<close>) leaves a program's stack in RCSP and NULL in RDDC. An exception may
  interrupt the program at any instruction, and the code it runs (handlers, other tasks, nested
  exceptions) may write both registers. The patch keeps them in the exception's frame.
\<close>

subsection \<open>Registers and frames\<close>

record 'v sysregs =
  sr_rddc :: 'v
  sr_rcsp :: 'v
  sr_celr :: 'v
  sr_ctpidr :: 'v
  sr_rctpidr :: 'v
  sr_ddc :: 'v
  sr_cid :: 'v
  sr_cvbar :: 'v
  sr_cctlr :: u64

text \<open>
  A frame is memory above the stack pointer. \<open>csp\<close> is the offset of that member of
  \<open>pt_regs\<close>; the patch shows the order of the members after it, each 16 bytes.
\<close>

type_synonym 'v frame = "nat \<Rightarrow> 'v"

definition sizeof_uintcap :: nat where "sizeof_uintcap = 16"
definition S_RCSP :: "nat \<Rightarrow> nat" where "S_RCSP csp = csp + sizeof_uintcap"
definition S_PCC :: "nat \<Rightarrow> nat" where "S_PCC csp = S_RCSP csp + sizeof_uintcap"
definition S_RDDC :: "nat \<Rightarrow> nat" where "S_RDDC csp = S_PCC csp + sizeof_uintcap"

lemma slots [simp]: "S_RCSP csp \<noteq> S_PCC csp" "S_RCSP csp \<noteq> S_RDDC csp" "S_PCC csp \<noteq> S_RDDC csp"
  by (simp_all add: S_RCSP_def S_PCC_def S_RDDC_def sizeof_uintcap_def)

text \<open>The parts of the entry from exception level \<open>el\<close> and of the return to it that the patch shows.\<close>

definition kernel_entry :: "nat \<Rightarrow> nat \<Rightarrow> 'v sysregs \<Rightarrow> 'v frame \<Rightarrow> 'v frame" where
  "kernel_entry csp el r f =
     (let f = f(S_PCC csp := sr_celr r);
          f = f(S_RDDC csp := sr_rddc r)
      in if el = 0 then f else f(csp + 16 := sr_rcsp r))"

definition kernel_exit :: "nat \<Rightarrow> nat \<Rightarrow> 'v frame \<Rightarrow> 'v sysregs \<Rightarrow> 'v sysregs" where
  "kernel_exit csp el f r =
     (let r = (if el = 0 then r else r\<lparr>sr_rcsp := f (csp + 16)\<rparr>)
      in r\<lparr>sr_rddc := f (S_RDDC csp)\<rparr>)"

text \<open>Exceptions of the restricted stack pointer's vectors are those of the ordinary one.\<close>

datatype el1_vector = El1_sync | El1_irq | El1_fiq | El1_error

fun el1t_64_handler :: "(el1_vector \<Rightarrow> 'v frame \<Rightarrow> 's \<Rightarrow> 's) \<Rightarrow> el1_vector \<Rightarrow> 'v frame \<Rightarrow> 's \<Rightarrow> 's" where
  "el1t_64_handler el1h_64 El1_sync regs = el1h_64 El1_sync regs"
| "el1t_64_handler el1h_64 El1_irq regs = el1h_64 El1_irq regs"
| "el1t_64_handler el1h_64 El1_fiq regs = el1h_64 El1_fiq regs"
| "el1t_64_handler el1h_64 El1_error regs = el1h_64 El1_error regs"

subsection \<open>Threads\<close>

text \<open>\<open>morello_state\<close> no longer has RDDC; its thread pointers are saved by code the patch does not show.\<close>

record 'v morello_state =
  ms_ddc :: 'v
  ms_cid :: 'v
  ms_cctlr :: u64

definition morello_thread_init_user ::
    "'v cheri \<Rightarrow> 'v \<Rightarrow> 'v sysregs \<times> 'v morello_state \<Rightarrow> 'v sysregs \<times> 'v morello_state" where
  "morello_thread_init_user C ddc rs =
     (case rs of (r, ms) \<Rightarrow>
        (let r = r\<lparr>sr_rctpidr := cheri_null C\<rparr>;
             r = r\<lparr>sr_ddc := ddc\<rparr>;
             ms = ms\<lparr>ms_ddc := ddc\<rparr>;
             r = r\<lparr>sr_cid := cheri_null C\<rparr>
         in (r, ms\<lparr>ms_cid := cheri_null C\<rparr>)))"

definition morello_thread_save_user_state :: "'v sysregs \<Rightarrow> 'v morello_state \<Rightarrow> 'v morello_state" where
  "morello_thread_save_user_state r ms =
     ms\<lparr>ms_ddc := sr_ddc r, ms_cid := sr_cid r, ms_cctlr := sr_cctlr r\<rparr>"

definition morello_thread_restore_user_state :: "'v morello_state \<Rightarrow> 'v sysregs \<Rightarrow> 'v sysregs" where
  "morello_thread_restore_user_state ms r =
     r\<lparr>sr_ddc := ms_ddc ms, sr_cid := ms_cid ms, sr_cctlr := ms_cctlr ms\<rparr>"

text \<open>
  What a debugger reads as RCSP and RDDC, and where it writes them: the frame of the task's entry
  from user space. The two values are those that the code around the patch builds of the request.
\<close>

definition morello_get :: "nat \<Rightarrow> 'v frame \<Rightarrow> 'v \<times> 'v" where
  "morello_get csp regs = (regs (S_RCSP csp), regs (S_RDDC csp))"

definition morello_set :: "nat \<Rightarrow> 'v \<times> 'v \<Rightarrow> 'v frame \<Rightarrow> 'v frame" where
  "morello_set csp new_state regs =
     (case new_state of (rcsp, rddc) \<Rightarrow> regs(S_RCSP csp := rcsp, S_RDDC csp := rddc))"

lemma set_get: "morello_get csp (morello_set csp new_state regs) = new_state"
  by (cases new_state) (simp add: morello_get_def morello_set_def)

subsection \<open>Suspending\<close>

definition NR_CTX_CREGS :: nat where "NR_CTX_CREGS = 5"

text \<open>
  The capabilities of the suspend context, by their offset from \<open>CPU_CTX_CREGS\<close>. The load of
  CTPIDR on resume is outside of what the patch shows.
\<close>

definition cpu_do_suspend :: "'v sysregs \<Rightarrow> 'v frame \<Rightarrow> 'v frame" where
  "cpu_do_suspend r ctx =
     ctx(0 := sr_ctpidr r, 16 := sr_rctpidr r, 32 := sr_ddc r, 48 := sr_cid r, 64 := sr_cvbar r)"

definition cpu_do_resume :: "'v frame \<Rightarrow> 'v sysregs \<Rightarrow> 'v sysregs" where
  "cpu_do_resume ctx r =
     r\<lparr>sr_rctpidr := ctx 16, sr_ddc := ctx 32, sr_cid := ctx 48, sr_cvbar := ctx 64\<rparr>"

lemma suspend_resume:
  "cpu_do_resume (cpu_do_suspend r ctx) r' =
     r'\<lparr>sr_rctpidr := sr_rctpidr r, sr_ddc := sr_ddc r, sr_cid := sr_cid r, sr_cvbar := sr_cvbar r\<rparr>"
  "off \<ge> NR_CTX_CREGS * sizeof_uintcap \<Longrightarrow> cpu_do_suspend r ctx off = ctx off"
  by (simp_all add: cpu_do_suspend_def cpu_do_resume_def NR_CTX_CREGS_def sizeof_uintcap_def)

subsection \<open>One processor\<close>

text \<open>
  A processor that runs tasks: the running one, its registers, and for each task the frames on
  its kernel stack, innermost first with the level they came from, and its saved thread state.
\<close>

record ('t, 'v) cpu =
  c_task :: 't
  c_regs :: "'v sysregs"
  c_frames :: "'t \<Rightarrow> (nat \<times> 'v frame) list"
  c_threads :: "'t \<Rightarrow> 'v morello_state"

definition take_exception :: "nat \<Rightarrow> nat \<Rightarrow> 'v frame \<Rightarrow> ('t, 'v) cpu \<Rightarrow> ('t, 'v) cpu" where
  "take_exception csp el f c =
     c\<lparr>c_frames := (c_frames c)(c_task c := (el, kernel_entry csp el (c_regs c) f) # c_frames c (c_task c))\<rparr>"

definition exception_return :: "nat \<Rightarrow> ('t, 'v) cpu \<Rightarrow> ('t, 'v) cpu option" where
  "exception_return csp c =
     (case c_frames c (c_task c) of
        [] \<Rightarrow> None
      | (el, f) # fs \<Rightarrow>
          Some (c\<lparr>c_regs := kernel_exit csp el f (c_regs c), c_frames := (c_frames c)(c_task c := fs)\<rparr>))"

definition switch_task :: "'t \<Rightarrow> ('t, 'v) cpu \<Rightarrow> ('t, 'v) cpu" where
  "switch_task t c =
     (let prev = c_task c;
          threads = (c_threads c)(prev := morello_thread_save_user_state (c_regs c) (c_threads c prev))
      in c\<lparr>c_task := t, c_threads := threads,
           c_regs := morello_thread_restore_user_state (threads t) (c_regs c)\<rparr>)"

text \<open>
  A store into the two slots of a frame: by a handler or by a debugger, the task, the number of
  frames below, and the values the slots then hold.
\<close>

datatype storer = By_Handler | By_Debugger

datatype ('t, 'v) store = Store storer 't nat "'v \<times> 'v"

text \<open>
  What may happen, with the store it makes: code writes registers as it likes; a handler changes
  the frame it runs on, in the two slots too; a debugger sets the two values of any task that
  entered from user space; an exception is taken, from any level and nested to any depth, or
  returned from; another task is scheduled.
\<close>

inductive cpu_step :: "nat \<Rightarrow> ('t, 'v) cpu \<Rightarrow> ('t, 'v) store option \<Rightarrow> ('t, 'v) cpu \<Rightarrow> bool" for csp where
  code: "cpu_step csp c None (c\<lparr>c_regs := r\<rparr>)"
| handler: "c_frames c (c_task c) = (el, f) # fs \<Longrightarrow>
    cpu_step csp c (Some (Store By_Handler (c_task c) (length fs) (morello_get csp f')))
      (c\<lparr>c_frames := (c_frames c)(c_task c := (el, f') # fs)\<rparr>)"
| debugger: "c_frames c t = fs @ [(0, f)] \<Longrightarrow>
    cpu_step csp c (Some (Store By_Debugger t 0 new_state))
      (c\<lparr>c_frames := (c_frames c)(t := fs @ [(0, morello_set csp new_state f)])\<rparr>)"
| taken: "cpu_step csp c None (take_exception csp el f c)"
| returned: "exception_return csp c = Some c' \<Longrightarrow> cpu_step csp c None c'"
| switched: "cpu_step csp c None (switch_task t c)"

text \<open>Steps during which task \<open>t\<close> never has fewer than \<open>n + 1\<close> frames, with their stores.\<close>

inductive held ::
    "nat \<Rightarrow> 't \<Rightarrow> nat \<Rightarrow> ('t, 'v) cpu \<Rightarrow> ('t, 'v) store option list \<Rightarrow> ('t, 'v) cpu \<Rightarrow> bool" for csp t n c where
  refl: "held csp t n c [] c"
| step: "held csp t n c es c1 \<Longrightarrow> cpu_step csp c1 e c2 \<Longrightarrow> n < length (c_frames c2 t) \<Longrightarrow> held csp t n c (es @ [e]) c2"

text \<open>The last values stored into the frame of task \<open>t\<close> with \<open>n\<close> frames below, \<open>v\<close> when there are none.\<close>

definition stored :: "'t \<Rightarrow> nat \<Rightarrow> 'v \<times> 'v \<Rightarrow> ('t, 'v) store option \<Rightarrow> 'v \<times> 'v" where
  "stored t n v e = (case e of Some (Store by t' n' w) \<Rightarrow> if t' = t \<and> n' = n then w else v | None \<Rightarrow> v)"

definition last_store :: "'t \<Rightarrow> nat \<Rightarrow> ('t, 'v) store option list \<Rightarrow> 'v \<times> 'v \<Rightarrow> 'v \<times> 'v" where
  "last_store t n es v = foldl (stored t n) v es"

definition no_store :: "'t \<Rightarrow> nat \<Rightarrow> ('t, 'v) store option list \<Rightarrow> bool" where
  "no_store t n es \<longleftrightarrow> (\<forall>by w. Some (Store by t n w) \<notin> set es)"

lemma last_store_none: "no_store t n es \<Longrightarrow> last_store t n es v = v"
proof (induction es arbitrary: v)
  case (Cons e es)
  then have "stored t n v e = v"
    by (auto simp: no_store_def stored_def simp del: split_paired_All split: option.split store.split)
  then show ?case using Cons by (simp add: last_store_def no_store_def)
qed (simp add: last_store_def)

lemma last_store_snd: "snd (last_store t n es (a, b)) = snd (last_store t n es (a', b))"
proof (induction es arbitrary: a a' b)
  case (Cons e es)
  have "(\<exists>w. stored t n (a, b) e = w \<and> stored t n (a', b) e = w) \<or>
      stored t n (a, b) e = (a, b) \<and> stored t n (a', b) e = (a', b)"
    by (auto simp: stored_def split: option.split store.split)
  then show ?case using Cons.IH by (auto simp: last_store_def)
qed (simp add: last_store_def)

text \<open>
  The frame of task \<open>t\<close> above \<open>n\<close> others, after the stores \<open>es\<close>: it holds what was stored last, the
  frames below are still \<open>fs\<close> unless a debugger has set the outermost, and when the frame is of an entry from the
  kernel no debugger has set it.
\<close>

definition keeps_frame ::
    "nat \<Rightarrow> 't \<Rightarrow> nat \<Rightarrow> 'v \<times> 'v \<Rightarrow> (nat \<times> 'v frame) list \<Rightarrow> ('t, 'v) store option list \<Rightarrow> ('t, 'v) cpu \<Rightarrow> bool" where
  "keeps_frame csp t el v fs es c \<longleftrightarrow>
     (\<exists>gs f fs'. c_frames c t = gs @ (el, f) # fs' \<and> length fs' = length fs \<and>
        morello_get csp f = last_store t (length fs) es v \<and> (no_store t 0 es \<longrightarrow> fs' = fs)) \<and>
     (el \<noteq> 0 \<longrightarrow> (\<forall>w. Some (Store By_Debugger t (length fs) w) \<notin> set es))"

lemma last_store_step: "last_store t n (es @ [e]) v = stored t n (last_store t n es v) e"
  by (simp add: last_store_def)

lemma no_store_step: "no_store t n (es @ [e]) \<longleftrightarrow> no_store t n es \<and> (\<forall>by w. e \<noteq> Some (Store by t n w))"
  by (auto simp: no_store_def)

lemma step_keeps_frame:
  assumes "cpu_step csp c e c'" and "keeps_frame csp t el v fs es c" and "length fs < length (c_frames c' t)"
  shows "keeps_frame csp t el v fs (es @ [e]) c'"
proof -
  obtain gs f fs' where k: "c_frames c t = gs @ (el, f) # fs'" "length fs' = length fs"
    "morello_get csp f = last_store t (length fs) es v" "no_store t 0 es \<longrightarrow> fs' = fs"
    and debug: "el \<noteq> 0 \<longrightarrow> (\<forall>w. Some (Store By_Debugger t (length fs) w) \<notin> set es)"
    using assms(2) by (auto simp: keeps_frame_def)
  have frame: ?thesis
    if "c_frames c' t = gs' @ (el, f) # fs'" "stored t (length fs) (morello_get csp f) e = morello_get csp f"
      "\<forall>by w. e \<noteq> Some (Store by t 0 w) \<or> length fs = 0"
      "el \<noteq> 0 \<longrightarrow> (\<forall>w. e \<noteq> Some (Store By_Debugger t (length fs) w))" for gs'
    using that k debug unfolding keeps_frame_def last_store_step no_store_step
    by (intro conjI exI [of _ gs'] exI [of _ f] exI [of _ fs']) auto
  show ?thesis
    using assms(1)
  proof cases
    case (handler el1 f1 fs1 f2)
    show ?thesis
    proof (cases "t = c_task c \<and> gs = []")
      case True
      then have "fs1 = fs'" "el1 = el" using handler(3) k(1) by simp_all
      then show ?thesis
        using True handler k debug unfolding keeps_frame_def last_store_step no_store_step
        by (intro conjI exI [of _ "[]"] exI [of _ f2] exI [of _ fs']) (auto simp: stored_def)
    next
      case False
      obtain gs' where "c_frames c' t = gs' @ (el, f) # fs'" "t = c_task c \<Longrightarrow> length fs < length fs1"
      proof (cases "t = c_task c")
        case True
        with False k(1,2) handler(2,3) show ?thesis by (cases gs) (auto intro: that [of "(el1, f2) # tl gs"])
      next
        case other: False
        then show ?thesis using handler(2) k(1) by (intro that [of gs]) simp_all
      qed
      then show ?thesis using handler(1) by (intro frame [of gs']) (auto simp: stored_def)
    qed
  next
    case (debugger t1 fs1 f1 new_state)
    show ?thesis
    proof (cases "t = t1")
      case False
      then show ?thesis using debugger k(1) by (intro frame [of gs]) (auto simp: stored_def)
    next
      case True
      show ?thesis
      proof (cases fs' rule: rev_cases)
        case Nil
        then have "fs1 = gs" "el = 0" "f1 = f" "length fs = 0" using True debugger(3) k(1,2) by auto
        then show ?thesis
          using True Nil debugger(1,2) debug unfolding keeps_frame_def last_store_step no_store_step
          by (intro conjI exI [of _ gs] exI [of _ "morello_set csp new_state f"] exI [of _ "[]"])
            (auto simp: stored_def set_get)
      next
        case (snoc fs2 g)
        then have "fs1 = gs @ (el, f) # fs2" "length fs \<noteq> 0" using True debugger(3) k(1,2) by auto
        then show ?thesis
          using True snoc debugger(1,2) k debug unfolding keeps_frame_def last_store_step no_store_step
          by (intro conjI exI [of _ gs] exI [of _ f] exI [of _ "fs2 @ [(0, morello_set csp new_state f1)]"])
            (auto simp: stored_def)
      qed
    qed
  next
    case (taken el1 f1)
    then show ?thesis
      using k(1) by (intro frame [of "(if t = c_task c then [(el1, kernel_entry csp el1 (c_regs c) f1)] else []) @ gs"])
        (auto simp: take_exception_def stored_def)
  next
    case returned
    obtain gs' where "c_frames c' t = gs' @ (el, f) # fs'"
    proof (cases "t = c_task c")
      case True
      then have "c_frames c' t = tl (c_frames c t)"
        using returned(2) by (auto simp: exception_return_def split: list.splits)
      then show ?thesis using k(1,2) assms(3) by (cases gs) (auto intro: that)
    next
      case False
      then have "c_frames c' t = c_frames c t"
        using returned(2) by (auto simp: exception_return_def split: list.splits)
      then show ?thesis using k(1) by (intro that [of gs]) simp
    qed
    then show ?thesis using returned(1) by (intro frame [of gs']) (simp_all add: stored_def)
  next
    case (code r)
    then show ?thesis using k(1) by (intro frame [of gs]) (simp_all add: stored_def)
  next
    case (switched t1)
    then show ?thesis using k(1) by (intro frame [of gs]) (simp_all add: stored_def switch_task_def Let_def)
  qed
qed

lemma held_keeps_frame:
  "held csp t (length fs) c es c' \<Longrightarrow> keeps_frame csp t el v fs [] c \<Longrightarrow> keeps_frame csp t el v fs es c'"
  by (induction rule: held.induct) (auto intro: step_keeps_frame)

lemma entry_get:
  "snd (morello_get csp (kernel_entry csp el r f)) = sr_rddc r"
  "el \<noteq> 0 \<Longrightarrow> fst (morello_get csp (kernel_entry csp el r f)) = sr_rcsp r"
  by (simp_all add: morello_get_def kernel_entry_def Let_def S_RCSP_def S_PCC_def S_RDDC_def sizeof_uintcap_def)

lemma exit_get:
  "sr_rddc (kernel_exit csp el f r) = snd (morello_get csp f)"
  "el \<noteq> 0 \<Longrightarrow> sr_rcsp (kernel_exit csp el f r) = fst (morello_get csp f)"
  by (simp_all add: morello_get_def kernel_exit_def S_RCSP_def sizeof_uintcap_def)

subsection \<open>A task that is not running\<close>

text \<open>Steps of other tasks, until \<open>t\<close> is scheduled again, with their stores.\<close>

inductive away :: "nat \<Rightarrow> 't \<Rightarrow> ('t, 'v) cpu \<Rightarrow> ('t, 'v) store option list \<Rightarrow> ('t, 'v) cpu \<Rightarrow> bool" for csp t c where
  refl: "c_task c \<noteq> t \<Longrightarrow> away csp t c [] c"
| step: "away csp t c es c1 \<Longrightarrow> cpu_step csp c1 e c2 \<Longrightarrow> c_task c2 \<noteq> t \<Longrightarrow> away csp t c (es @ [e]) c2"

lemma step_away:
  "cpu_step csp c e c' \<Longrightarrow> c_task c \<noteq> t \<Longrightarrow>
     c_threads c' t = c_threads c t \<and> ((\<forall>by w. e \<noteq> Some (Store by t 0 w)) \<longrightarrow> c_frames c' t = c_frames c t)"
  by (induction rule: cpu_step.induct)
    (auto simp: take_exception_def exception_return_def switch_task_def Let_def split: list.splits)

lemma away_keeps:
  "away csp t c es c' \<Longrightarrow>
     c_task c' \<noteq> t \<and> c_threads c' t = c_threads c t \<and> (no_store t 0 es \<longrightarrow> c_frames c' t = c_frames c t)"
proof (induction rule: away.induct)
  case (step es c1 e c2)
  then show ?case using step_away [OF step(2), of t] by (simp add: no_store_step)
qed simp

lemma switched_back:
  assumes "t' \<noteq> c_task c" and "away csp (c_task c) (switch_task t' c) es c1"
  shows "sr_ddc (c_regs (switch_task (c_task c) c1)) = sr_ddc (c_regs c)"
    and "sr_cid (c_regs (switch_task (c_task c) c1)) = sr_cid (c_regs c)"
    and "sr_cctlr (c_regs (switch_task (c_task c) c1)) = sr_cctlr (c_regs c)"
    and "no_store (c_task c) 0 es \<Longrightarrow> c_frames (switch_task (c_task c) c1) (c_task c) = c_frames c (c_task c)"
  using away_keeps [OF assms(2)] assms(1)
  by (auto simp: switch_task_def Let_def morello_thread_save_user_state_def
      morello_thread_restore_user_state_def)

subsection \<open>Properties\<close>

text \<open>
  C40. The restricted registers survive every exception. Between an exception and the return
  from it, code may write the registers, exceptions may nest to any depth, other tasks may run
  with exceptions of their own, handlers may store into the frames they run on and debuggers into
  the frames of user entries. The return gives RDDC, and RCSP when the exception came from the
  kernel's level, where programs run, the value last stored into the exception's own frame, and the value at the
  exception when nothing was stored there. A debugger never stores into the frame of an
  exception from the kernel's level, and unless one has set the task's user frame the task's
  outer frames are as before.
\<close>

theorem restricted_registers_survive:
  fixes c :: "('t, 'v) cpu"
  defines "t \<equiv> c_task c" and "n \<equiv> length (c_frames c (c_task c))"
    and "saved \<equiv> (sr_rcsp (c_regs c), sr_rddc (c_regs c))"
  assumes "held csp t n (take_exception csp el f c) es c1"
    and "c_task c1 = t" and "length (c_frames c1 t) = n + 1"
  shows "\<exists>c2. exception_return csp c1 = Some c2 \<and>
    sr_rddc (c_regs c2) = snd (last_store t n es saved) \<and>
    (el \<noteq> 0 \<longrightarrow> sr_rcsp (c_regs c2) = fst (last_store t n es saved)) \<and>
    (no_store t n es \<longrightarrow> sr_rddc (c_regs c2) = sr_rddc (c_regs c) \<and>
       (el \<noteq> 0 \<longrightarrow> sr_rcsp (c_regs c2) = sr_rcsp (c_regs c))) \<and>
    (el \<noteq> 0 \<longrightarrow> (\<forall>w. Some (Store By_Debugger t n w) \<notin> set es)) \<and>
    (no_store t 0 es \<longrightarrow> c_frames c2 t = c_frames c t)"
proof -
  let ?f = "kernel_entry csp el (c_regs c) f" and ?fs = "c_frames c t"
  have n: "n = length ?fs" by (simp add: n_def t_def)
  have "keeps_frame csp t el (morello_get csp ?f) ?fs [] (take_exception csp el f c)"
    by (simp add: keeps_frame_def take_exception_def t_def last_store_def no_store_def)
  then have "keeps_frame csp t el (morello_get csp ?f) ?fs es c1"
    by (rule held_keeps_frame [OF assms(4) [unfolded n]])
  then obtain f' fs' where k: "c_frames c1 t = (el, f') # fs'" "no_store t 0 es \<longrightarrow> fs' = ?fs"
    "morello_get csp f' = last_store t n es (morello_get csp ?f)"
    "el \<noteq> 0 \<longrightarrow> (\<forall>w. Some (Store By_Debugger t n w) \<notin> set es)"
    using assms(6) unfolding keeps_frame_def n by auto
  have entry: "morello_get csp ?f = (fst (morello_get csp ?f), snd saved)" "el \<noteq> 0 \<Longrightarrow> morello_get csp ?f = saved"
    by (simp_all add: prod_eq_iff saved_def entry_get)
  have "snd (morello_get csp f') = snd (last_store t n es saved)"
    using last_store_snd [of t n es _ "snd saved" "fst saved"] k(3) entry(1) by (metis prod.collapse)
  moreover have "el \<noteq> 0 \<Longrightarrow> fst (morello_get csp f') = fst (last_store t n es saved)"
    using k(3) entry(2) by simp
  ultimately show ?thesis
    using assms(5) k(1,2,4) last_store_none [of t n es saved]
    by (auto simp: exception_return_def exit_get saved_def)
qed

text \<open>
  A program in restricted mode is interrupted; the handler installs the executive's registers, a
  nested interrupt is taken and returned from, and another task runs with registers of its own.
\<close>

definition sample_regs :: "u64 \<Rightarrow> swcap sysregs" where
  "sample_regs n =
     \<lparr>sr_rddc = sw_int n, sr_rcsp = sw_int (n + 1), sr_celr = sw_int 0, sr_ctpidr = sw_int 0,
      sr_rctpidr = sw_int 0, sr_ddc = sw_int 0, sr_cid = sw_int 0, sr_cvbar = sw_int 0, sr_cctlr = 0\<rparr>"

definition sample_cpu :: "(nat, swcap) cpu" where
  "sample_cpu =
     \<lparr>c_task = 0, c_regs = sample_regs 0, c_frames = (\<lambda>_. []),
      c_threads = (\<lambda>_. \<lparr>ms_ddc = sw_int 0, ms_cid = sw_int 0, ms_cctlr = 0\<rparr>)\<rparr>"

theorem restricted_registers_survive_witness:
  "\<exists>(c1 :: (nat, swcap) cpu) c2. c_regs c1 = sample_regs 7 \<and> exception_return 256 c1 = Some c2 \<and>
     sr_rddc (c_regs c2) = sw_int 0 \<and> sr_rcsp (c_regs c2) = sw_int 1 \<and> c_frames c2 0 = []"
proof -
  let ?z = "\<lambda>_ :: nat. sw_int 0"
  define a0 where "a0 = take_exception 256 1 ?z sample_cpu"
  define a1 where "a1 = a0\<lparr>c_regs := sample_regs 3\<rparr>"
  define a2 where "a2 = take_exception 256 1 ?z a1"
  define a3 where "a3 = switch_task 1 a2"
  define a4 where "a4 = a3\<lparr>c_regs := sample_regs 5\<rparr>"
  define a5 where "a5 = switch_task 0 a4"
  define a6 where "a6 = the (exception_return 256 a5)"
  define a7 where "a7 = a6\<lparr>c_regs := sample_regs 7\<rparr>"
  note steps = a0_def a1_def a2_def a3_def a4_def a5_def a6_def a7_def
  have f: "length (c_frames a1 0) = 1" "length (c_frames a2 0) = 2" "length (c_frames a3 0) = 2"
    "length (c_frames a4 0) = 2" "length (c_frames a5 0) = 2" "c_task a5 = 0"
    by (simp_all add: steps take_exception_def switch_task_def Let_def sample_cpu_def)
  have r: "exception_return 256 a5 = Some a6" "length (c_frames a6 0) = 1" "c_task a6 = 0"
    by (simp_all add: steps take_exception_def switch_task_def Let_def sample_cpu_def exception_return_def)
  have s: "cpu_step 256 a0 None a1" "cpu_step 256 a1 None a2" "cpu_step 256 a2 None a3"
    "cpu_step 256 a3 None a4" "cpu_step 256 a4 None a5" "cpu_step 256 a5 None a6" "cpu_step 256 a6 None a7"
    using r(1) by (simp_all add: a1_def a2_def a3_def a4_def a5_def a7_def cpu_step.intros)
  have "held 256 0 0 a0 [None] a1" using held.step [OF held.refl s(1)] f(1) by simp
  from held.step [OF this s(2)] have "held 256 0 0 a0 (replicate 2 None) a2" using f(2) by (simp add: numeral_2_eq_2)
  from held.step [OF this s(3)] have "held 256 0 0 a0 (replicate 3 None) a3" using f(3) by (simp add: eval_nat_numeral)
  from held.step [OF this s(4)] have "held 256 0 0 a0 (replicate 4 None) a4" using f(4) by (simp add: eval_nat_numeral)
  from held.step [OF this s(5)] have "held 256 0 0 a0 (replicate 5 None) a5" using f(5) by (simp add: eval_nat_numeral)
  from held.step [OF this s(6)] have "held 256 0 0 a0 (replicate 6 None) a6" using r(2) by (simp add: eval_nat_numeral)
  from held.step [OF this s(7)] have "held 256 0 0 a0 (replicate 7 None) a7" using r(2)
    by (simp add: a7_def eval_nat_numeral)
  then have "held 256 (c_task sample_cpu) (length (c_frames sample_cpu (c_task sample_cpu)))
      (take_exception 256 1 ?z sample_cpu) (replicate 7 None) a7"
    by (simp add: a0_def sample_cpu_def)
  from restricted_registers_survive [OF this]
  obtain c2 where "exception_return 256 a7 = Some c2" "sr_rddc (c_regs c2) = sw_int 0"
    "sr_rcsp (c_regs c2) = sw_int 1" "c_frames c2 0 = []"
    using r(2,3) by (auto simp: a7_def sample_cpu_def sample_regs_def no_store_def)
  moreover have "c_regs a7 = sample_regs 7" by (simp add: a7_def)
  ultimately show ?thesis by blast
qed

end
