(* ===== verification/OrdinaryCalls.thy ===== *)
theory OrdinaryCalls
  imports BpfLift
begin

text \<open>
  The bodies of the three kfuncs of \<open>src/linux/ownership/cbpf_runtime.c\<close>, which an ordinary
  native call would reach. They have no effects: only the calls the compiler lowers to the
  gateway acquire anything. An admitted program that made its calls to these bodies instead
  would fail closed: every acquisition is NULL, so no handle exists to be read or released.
\<close>

subsection \<open>The bodies\<close>

text \<open>A \<open>struct cbpf_cap_ref *\<close> is an address, NULL is 0; an \<open>int\<close> is its 32 bits.\<close>

definition cbpf_cap_acquire :: "u32 \<Rightarrow> u64" where
  "cbpf_cap_acquire want_null = 0"

definition cbpf_cap_read :: "u64 \<Rightarrow> u32" where
  "cbpf_cap_read ref = 0"

definition cbpf_cap_release :: "u64 \<Rightarrow> unit" where
  "cbpf_cap_release ref = ()"

subsection \<open>Programs on the bodies\<close>

text \<open>An ordinary call: the argument in R1, the result in R0, and the calls made so far.\<close>

primrec register_word :: "u64 bval \<Rightarrow> u64" where
  "register_word (Num n) = n"
| "register_word (Cap a) = a"
| "register_word Uninit = 0"

definition pointer_result :: "u64 \<Rightarrow> u64 bval" where
  "pointer_result p = (if p = 0 then Num 0 else Cap p)"

definition ordinary_gate :: "(u64, u8 list) gate" where
  "ordinary_gate op arg pc calls =
     (let r1 = register_word arg
      in (Some (if op = CBPF_OP_ACQUIRE then pointer_result (cbpf_cap_acquire (ucast r1))
                else if op = CBPF_OP_READ then Num (scast (cbpf_cap_read r1))
                else case cbpf_cap_release r1 of () \<Rightarrow> Num 0),
          calls @ [op]))"

text \<open>Numbered handles, of which none is ever issued; a use of one has no result.\<close>

definition closed_gate :: "(nat, u8 list) gate" where
  "closed_gate op arg pc calls =
     (if op = CBPF_OP_ACQUIRE then (Some (Num 0), calls @ [op]) else (None, calls))"

interpretation closed_gates: gate_runtime closed_gate "\<lambda>calls. set calls \<subseteq> {CBPF_OP_ACQUIRE}"
  by unfold_locales (auto simp: closed_gate_def result_ok_def split: if_splits)

interpretation ordinary_calls: gate_refinement closed_gate ordinary_gate "\<lambda>_. 0" "\<lambda>_ a c. a = c" True "\<lambda>_. False"
proof
  fix f :: "nat \<Rightarrow> u64" and a c a' :: "u8 list" and op arg pc v
  assume rel: "a = c" and call: "gate_call op arg" "known 0 arg"
  then have acq: "op = CBPF_OP_ACQUIRE" by (auto simp: gate_call_def)
  show "\<exists>c'. ordinary_gate op (map_bval f arg) pc c = (None, c') \<and> False"
    if "closed_gate op arg pc a = (None, a')" using that acq by (simp add: closed_gate_def)
  show "\<exists>f' c'. ordinary_gate op (map_bval f arg) pc c = (Some (map_bval f' v), c') \<and> a' = c' \<and>
      0 \<le> (0 :: nat) \<and> known 0 v \<and> (\<forall>i < 0. f' i = f i)"
    if "closed_gate op arg pc a = (Some v, a')"
    using that acq rel
    by (auto simp: closed_gate_def ordinary_gate_def pointer_result_def cbpf_cap_acquire_def Let_def)
qed

lemma ordinary_calls_inert:
  assumes "admit E insnsi = Inr a" and "length insnsi \<le> JIT_MAX_INSNS"
  shows "\<exists>n calls. bpf_exec (length insnsi) E insnsi ordinary_gate bpf_start [] = (Finished n, calls) \<and>
    set calls \<subseteq> {CBPF_OP_ACQUIRE}"
proof -
  obtain out calls where r: "bpf_exec (length insnsi) E insnsi closed_gate bpf_start [] = (out, calls)"
    by fastforce
  have "out \<noteq> Wrong"
    using closed_gates.exec_not_wrong [OF assms bpf_reach.start, of "length insnsi" "[]"] r by simp
  moreover have "bpf_exec (length insnsi) E insnsi ordinary_gate bpf_start [] = (out, calls) \<and> out \<noteq> Aborted"
    using ordinary_calls.exec_refines [OF state_known_start refl r] by (auto simp: lift_start split: if_split_asm)
  moreover have "set calls \<subseteq> {CBPF_OP_ACQUIRE}" using closed_gates.exec_keeps [OF _ r] by simp
  ultimately show ?thesis by (cases out) auto
qed

lemma guest_ordinary_calls:
  "\<exists>n calls. bpf_exec 26 sample_env (guest_program sample_ids) ordinary_gate bpf_start [] = (Finished n, calls) \<and>
     set calls \<subseteq> {CBPF_OP_ACQUIRE}"
proof -
  have "length (guest_program sample_ids) = 26" by (simp add: guest_program_def)
  then show ?thesis
    using ordinary_calls_inert [of sample_env "guest_program sample_ids"] guest_admitted
    by (auto simp: JIT_MAX_INSNS_def)
qed

end
