(* ===== verification/GateTotal.thy ===== *)
theory GateTotal
  imports GateCorrect
begin

text \<open>
  The trusted gate returns on every platform, whatever its intrinsics answer: nothing here
  rests on the laws of the capability machine, only on the validated program and the counters
  the loop of \<open>cbpf_gate_run\<close> itself keeps.
\<close>

subsection \<open>What an iteration keeps\<close>

text \<open>
  At most one event for each instruction passed, no more acquisitions than cells, and at most
  one gate call for each instruction.
\<close>

definition gate_calls :: "cbpf_gate_metrics \<Rightarrow> nat" where
  "gate_calls m = gm_acquisitions m + gm_reads m + gm_releases m"

definition within :: "nat \<Rightarrow> nat \<Rightarrow> 'v gate_run \<Rightarrow> bool" where
  "within e c g \<longleftrightarrow>
     r_event_count (g_res g) \<le> e \<and> gate_calls (g_metrics g) \<le> c \<and> r_acquired (g_res g) \<le> CBPF_CELLS"

lemma within_pc [simp]: "within e c (g\<lparr>g_res := (g_res g)\<lparr>r_pc := pc\<rparr>\<rparr>) \<longleftrightarrow> within e c g"
  "within e c (g\<lparr>g_pc := pc\<rparr>) \<longleftrightarrow> within e c g"
  "within e c (g\<lparr>g_regs := rs\<rparr>) \<longleftrightarrow> within e c g"
  "within e c (g\<lparr>g_spills := rs\<rparr>) \<longleftrightarrow> within e c g"
  by (simp_all add: within_def)

lemma consume_within: "gate_consume P token cleanup g = (taken, g') \<Longrightarrow>
    g_pc g' = g_pc g \<and> r_acquired (g_res g') = r_acquired (g_res g) \<and>
    r_event_count (g_res g') = r_event_count (g_res g) \<and> gate_calls (g_metrics g') = gate_calls (g_metrics g)"
  by (auto simp: gate_consume_def Let_def gate_calls_def split: if_splits)

text \<open>Every gate is one call, and leaves the program counter and the trace alone.\<close>

lemma gates_within:
  assumes "within e c g"
  shows "gate_acquire P success out g = (outcome, token, g') \<Longrightarrow> within e (c + 1) g' \<and> g_pc g' = g_pc g"
    and "gate_read_field P view g = (outcome, token, g') \<Longrightarrow> within e (c + 1) g' \<and> g_pc g' = g_pc g"
    and "gate_release P view g = (outcome, token, g') \<Longrightarrow> within e (c + 1) g' \<and> g_pc g' = g_pc g"
    and "gate_identify P view g = (outcome, token, g') \<Longrightarrow> within e (c + 1) g' \<and> g_pc g' = g_pc g"
  using assms
  by (auto simp: gate_acquire_def gate_read_field_def gate_release_def gate_identify_def within_def Let_def
      gate_calls_def is_purecap_def split: if_splits option.splits prod.splits dest!: consume_within)

lemma settle_within:
  assumes "within e c g"
  shows "gate_settle x nxt (outcome, token, g) = Inr g' \<Longrightarrow> within (e + 1) c g' \<and> g_pc g' = nxt"
    and "gate_settle x nxt (outcome, token, g) = Inl g' \<Longrightarrow> within (e + 1) c g'"
  using assms by (auto simp: gate_settle_def within_def gate_calls_def record_event_def Let_def split: if_splits)


text \<open>The two ways an iteration ends: at the common end, or by leaving at once.\<close>

lemma gate_step_ends:
  assumes ok: "cbpf_program_ok p n" "g_pc g < n" and g: "within e c g"
  obtains (settled) nxt outcome token h where "gate_step P p g = gate_settle (p ! g_pc g) nxt (outcome, token, h)"
      "within e (c + 1) h" "g_pc g < nxt" "nxt < n"
  | (left) h where "gate_step P p g = Inl h" "within (e + 1) (c + 1) h"
proof -
  define x where "x = p ! g_pc g"
  have valid: "cbpf_insn_valid n (g_pc g) x" using ok by (simp add: cbpf_program_ok_def x_def)
  have nxt: "g_pc g + 1 < n" if "x_op x \<noteq> CBPF_RETURN"
    using that ok by (cases "g_pc g = n - 1") (auto simp: cbpf_program_ok_def x_def)
  let ?g = "g\<lparr>g_res := (g_res g)\<lparr>r_pc := g_pc g\<rparr>\<rparr>"
  have g: "within e c ?g" using g by simp
  have call: thesis if "gate_step P p g = gate_settle x pc out" "g_pc g < pc" "pc < n"
    and "\<And>outcome token h. out = (outcome, token, h) \<Longrightarrow> within e (c + 1) h" for pc out
    using that settled [of pc "fst out" "fst (snd out)" "snd (snd out)"] by (cases out) (auto simp: x_def)
  have move: "within e c (?g\<lparr>g_regs := rs\<rparr>)" "within e c (?g\<lparr>g_spills := rs\<rparr>)" for rs
    using g by simp_all
  note step = gate_step_def Let_def x_def [symmetric]
  show thesis
  proof (cases "x_op x")
    case CBPF_ACQUIRE
    show thesis by (rule call [of "g_pc g + 1"])
        (use CBPF_ACQUIRE nxt gates_within(1) [OF g] in \<open>auto simp: step\<close>)
  next
    case CBPF_COPY
    show thesis by (rule call [of "g_pc g + 1"])
        (use CBPF_COPY nxt gates_within(4) [OF move(1)] in \<open>auto simp: step\<close>)
  next
    case CBPF_SPILL
    show thesis by (rule call [of "g_pc g + 1"])
        (use CBPF_SPILL nxt gates_within(4) [OF move(2)] in \<open>auto simp: step\<close>)
  next
    case CBPF_RELOAD
    show thesis by (rule call [of "g_pc g + 1"])
        (use CBPF_RELOAD nxt gates_within(4) [OF move(1)] in \<open>auto simp: step\<close>)
  next
    case CBPF_READ
    show thesis by (rule call [of "g_pc g + 1"])
        (use CBPF_READ nxt gates_within(2) [OF g] in \<open>auto simp: step\<close>)
  next
    case CBPF_RELEASE
    show thesis by (rule call [of "g_pc g + 1"])
        (use CBPF_RELEASE nxt gates_within(3) [OF g] in \<open>auto simp: step\<close>)
  next
    case CBPF_BR_NULL
    obtain outcome token h where h: "gate_identify P (g_regs g ! unat (x_dst x)) ?g = (outcome, token, h)"
      by (metis prod.exhaust)
    have "g_pc g < unat (x_imm x)" "unat (x_imm x) < n"
      using valid CBPF_BR_NULL branch_target by (auto simp: cbpf_insn_valid_def)
    then show thesis
      by (intro call [of "if outcome = GATE_OK \<and> token = 0 then unat (x_imm x) else g_pc g + 1" "(outcome, token, h)"])
        (use CBPF_BR_NULL nxt h gates_within(4) [OF g h] in \<open>auto simp: step\<close>)
  next
    case CBPF_RETURN
    show thesis by (rule left, simp add: step CBPF_RETURN)
        (use g in \<open>auto simp: within_def record_event_def\<close>)
  next
    case (CBPF_OTHER k)
    then show thesis using valid by (simp add: cbpf_insn_valid_def)
  qed
qed

lemma step_within:
  assumes "cbpf_program_ok p n" "g_pc g < n" "within e c g"
  shows "gate_step P p g = Inr g' \<Longrightarrow> within (e + 1) (c + 1) g' \<and> g_pc g < g_pc g' \<and> g_pc g' < n"
    and "gate_step P p g = Inl g' \<Longrightarrow> within (e + 1) (c + 1) g'"
  by (cases rule: gate_step_ends [OF assms, of P]; use settle_within in fastforce)+

subsection \<open>The loop\<close>

definition gate_progress :: "cbpf_insn list \<Rightarrow> nat \<Rightarrow> 'v gate_run \<Rightarrow> bool" where
  "gate_progress p n g \<longleftrightarrow> cbpf_program_ok p n \<and> g_pc g < n \<and> within (g_pc g) (g_pc g) g"

lemma within_mono: "within e c g \<Longrightarrow> e \<le> e' \<Longrightarrow> c \<le> c' \<Longrightarrow> within e' c' g"
  by (auto simp: within_def)

interpretation gate_loop: bounded_loop "\<lambda>g. g_pc g < n" "gate_step P p" "gate_progress p n"
    "\<lambda>g. n - g_pc g" for P p n
  by unfold_locales
    (auto simp: gate_progress_def dest!: step_within(1) elim!: within_mono)

lemma gate_loop_within:
  assumes "cbpf_program_ok p n"
  shows "\<exists>g. c_loop (\<lambda>g. g_pc g < n) (gate_step P p) (gate_start P) = Some g \<and> within n n g"
proof (rule gate_loop.loop_rule)
  show "gate_progress p n (gate_start P)"
    using assms by (simp add: gate_progress_def within_def gate_start_def gate_metrics_start_def gate_calls_def
        zero_result_def cbpf_program_ok_def)
  show "within n n t" if "gate_progress p n s" "g_pc s < n" "gate_step P p s = Inl t" for s t
    using that step_within(2) [of p n s "g_pc s" "g_pc s" P t]
    by (auto simp: gate_progress_def elim!: within_mono)
qed (auto simp: gate_progress_def)

lemma cleanup_within:
  "within e c g \<Longrightarrow> within (e + length is) c (fold (gate_cleanup1 P) is g) \<and>
     r_acquired (g_res (fold (gate_cleanup1 P) is g)) = r_acquired (g_res g)"
proof (induction "is" arbitrary: e g)
  case (Cons i "is")
  have "within (e + 1) c (gate_cleanup1 P i g) \<and> r_acquired (g_res (gate_cleanup1 P i g)) = r_acquired (g_res g)"
    using Cons.prems
    by (auto simp: gate_cleanup1_def within_def record_event_def split: prod.split dest!: consume_within)
  then show ?case using Cons.IH [of "e + 1" "gate_cleanup1 P i g"] by simp
qed simp

subsection \<open>Every run returns\<close>

text \<open>
  C36. The trusted gate returns on every platform, for every program and length: on any
  capability machine, also one whose intrinsics answer arbitrarily, the run ends, makes at
  most one gate call for each instruction of the program, acquires no more than there are
  cells, and records at most one event per instruction and one per acquisition, all of which
  fit the event array.
\<close>

theorem gate_run_returns:
  "\<exists>r m. cbpf_gate_run P program n = Some (r, m) \<and> gate_calls m \<le> n \<and> r_acquired r \<le> CBPF_CELLS \<and>
     r_event_count r \<le> n + r_acquired r \<and> r_event_count r \<le> CBPF_MAX_EVENTS"
proof (cases "cbpf_validate program n")
  case (Inl bad)
  then show ?thesis
    by (simp add: cbpf_gate_run_def zero_result_def gate_calls_def gate_metrics_start_def)
next
  case (Inr u)
  then obtain p where p: "program = Some p" "cbpf_program_ok p n" by (auto simp: cbpf_validate_Inr)
  then obtain g where g: "c_loop (\<lambda>g. g_pc g < n) (gate_step P p) (gate_start P) = Some g" "within n n g"
    using gate_loop_within by blast
  have "within (n + r_acquired (g_res g)) n (gate_finish P g)" "r_acquired (g_res (gate_finish P g)) = r_acquired (g_res g)"
    using cleanup_within [OF g(2), of "[0..<r_acquired (g_res g)]" P] by (simp_all add: gate_finish_def)
  moreover have "n \<le> CBPF_MAX_INSNS" using p by (simp add: cbpf_program_ok_def)
  ultimately show ?thesis using p g Inr
    by (simp add: cbpf_gate_run_def within_def CBPF_MAX_EVENTS_def)
qed

end
