(* ===== verification/ArrayAuthority.thy ===== *)
theory ArrayAuthority
  imports Capability
begin

text \<open>
  The retained authority of plain array maps, \<open>src/linux/spatial/array-authority.patch\<close>: the
  root capability made when a map's memory is allocated, the lookup that narrows it to one
  value, and its end when the map is freed.

  The patch extends functions of the kernel whose text is not in the repository. Of
  \<open>array_map_alloc\<close> and \<open>array_map_free\<close> the model has what the patch shows, every branch of
  it; the area of an mmapable map and the per-CPU values come from functions that the patch
  does not show and are parameters. The size of the array, its index mask and what
  \<open>bpf_map_init_from_attr\<close> fills in are computed by the rest and are arguments here.
  The observation overlay \<open>native-observation.patch\<close> only logs.
\<close>

subsection \<open>Maps\<close>

definition BPF_MAP_TYPE_ARRAY :: u32 where "BPF_MAP_TYPE_ARRAY = 2"

definition BPF_MAP_TYPE_PERCPU_ARRAY :: u32 where "BPF_MAP_TYPE_PERCPU_ARRAY = 6"

definition BPF_F_MMAPABLE :: u32 where "BPF_F_MMAPABLE = 0x400"

text \<open>\<open>struct bpf_map\<close>: \<open>bm_array_ops\<close> is \<open>map->ops == &array_map_ops\<close>, \<open>bm_record\<close> is \<open>map->record\<close> not NULL.\<close>

record bpf_map =
  bm_type :: u32
  bm_flags :: u32
  bm_value_size :: u32
  bm_max_entries :: u32
  bm_array_ops :: bool
  bm_record :: bool

record 'c cbpf_array_authority =
  aa_address :: u64
  aa_root :: 'c
  aa_size :: u64

text \<open>\<open>struct bpf_array\<close> at its address; \<open>ba_aux\<close> is the authority that contains \<open>array->aux\<close>.\<close>

record 'c bpf_array =
  ba_map :: bpf_map
  ba_address :: u64
  ba_elem_size :: u32
  ba_index_mask :: u32
  ba_aux :: "'c cbpf_array_authority option"

text \<open>
  What the compiler and the kernel's memory provide. \<open>al_value\<close> is \<open>offsetof(struct bpf_array,
  value)\<close>, \<open>al_authority\<close> and \<open>al_align\<close> are size and alignment of the descriptor; the
  allocators return an address or \<^term>\<open>None\<close>. \<open>al_mmapable_area\<close> is the branch of
  \<open>array_map_alloc\<close> that makes the array of an mmapable map and \<open>al_vmalloc_addr\<close> the address
  of its area; \<open>al_alloc_percpu\<close> tells whether it failed.
\<close>

record 'w array_layout =
  al_sizeof_array :: u64
  al_value :: u64
  al_authority :: u64
  al_align :: u64
  al_area_alloc :: "u64 \<Rightarrow> int \<Rightarrow> 'w \<Rightarrow> u64 option \<times> 'w"
  al_area_free :: "u64 \<Rightarrow> 'w \<Rightarrow> 'w"
  al_kzalloc :: "u64 \<Rightarrow> 'w \<Rightarrow> u64 option \<times> 'w"
  al_kfree :: "u64 option \<Rightarrow> 'w \<Rightarrow> 'w"
  al_mmapable_area :: "u64 \<Rightarrow> int \<Rightarrow> 'w \<Rightarrow> u64 option \<times> 'w"
  al_vmalloc_addr :: "u64 \<Rightarrow> u64"
  al_alloc_percpu :: "u64 \<Rightarrow> 'w \<Rightarrow> bool \<times> 'w"
  al_free_percpu :: "u64 \<Rightarrow> 'w \<Rightarrow> 'w"

subsection \<open>The root\<close>

definition CBPF_ARRAY_DATA_PERMS :: "'c cheri \<Rightarrow> u64" where
  "CBPF_ARRAY_DATA_PERMS C = CHERI_PERM_LOAD C OR CHERI_PERM_STORE C OR CHERI_PERM_GLOBAL C"

text \<open>The tests of a capability that the patch spells out three times.\<close>

definition exact_data_cap :: "'c cheri \<Rightarrow> 'c \<Rightarrow> u64 \<Rightarrow> u64 \<Rightarrow> bool" where
  "exact_data_cap C cap address len \<longleftrightarrow>
     \<not> (\<not> cheri_tag_get C cap \<or> cheri_is_sealed C cap \<or>
        cheri_base_get C cap \<noteq> address \<or> cheri_address_get C cap \<noteq> address \<or>
        cheri_length_get C cap \<noteq> len \<or> cheri_perms_get C cap \<noteq> CBPF_ARRAY_DATA_PERMS C)"

definition allocation_root :: "'c cheri \<Rightarrow> u64 \<Rightarrow> u64 \<Rightarrow> 'c" where
  "allocation_root C area len =
     cheri_perms_and C
       (cheri_bounds_set_exact C (cheri_address_set C (cheri_ddc_get C) area) len)
       (CBPF_ARRAY_DATA_PERMS C)"

text \<open>The address and \<open>*allocation_cap\<close>; \<open>out\<close> tells whether \<open>allocation_cap\<close> is not NULL.\<close>

definition cbpf_map_area_alloc ::
    "'c cheri \<Rightarrow> 'w array_layout \<Rightarrow> u64 \<Rightarrow> int \<Rightarrow> bool \<Rightarrow> 'w \<Rightarrow> (u64 option \<times> 'c) \<times> 'w" where
  "cbpf_map_area_alloc C L len numa_node out w =
     (if \<not> out then ((None, cheri_null C), w)
      else case al_area_alloc L len numa_node w of
        (None, w) \<Rightarrow> ((None, cheri_null C), w)
      | (Some area, w) \<Rightarrow>
          (let cap = allocation_root C area len
           in if \<not> exact_data_cap C cap area len
              then ((None, cheri_null C), al_area_free L area w)
              else ((Some area, cap), w)))"

subsection \<open>Creation\<close>

record alloc_attr =
  at_type :: u32
  at_flags :: u32
  at_value_size :: u32
  at_max_entries :: u32

definition round_up8 :: "u32 \<Rightarrow> u32" where "round_up8 n = ((n - 1) OR 7) + 1"

definition plain_array :: "alloc_attr \<Rightarrow> bool" where
  "plain_array attr \<longleftrightarrow> at_type attr = BPF_MAP_TYPE_ARRAY \<and> at_flags attr = 0"

definition is_aligned :: "u64 \<Rightarrow> u64 \<Rightarrow> bool" where "is_aligned x a \<longleftrightarrow> x AND (a - 1) = 0"

text \<open>The memory of the array, with the root of a plain array. \<^term>\<open>None\<close> is \<open>ERR_PTR(-ENOMEM)\<close>.\<close>

definition array_area ::
    "'c cheri \<Rightarrow> 'w array_layout \<Rightarrow> alloc_attr \<Rightarrow> u64 \<Rightarrow> int \<Rightarrow> 'w \<Rightarrow> (u64 option \<times> 'c) \<times> 'w" where
  "array_area C L attr array_size numa_node w =
     (if at_flags attr AND BPF_F_MMAPABLE \<noteq> 0
      then case al_mmapable_area L array_size numa_node w of (area, w) \<Rightarrow> ((area, cheri_null C), w)
      else if plain_array attr then cbpf_map_area_alloc C L array_size numa_node True w
      else case al_area_alloc L array_size numa_node w of (area, w) \<Rightarrow> ((area, cheri_null C), w))"

definition percpu_values ::
    "'w array_layout \<Rightarrow> alloc_attr \<Rightarrow> 'c bpf_array \<Rightarrow> 'w \<Rightarrow> 'c bpf_array option \<times> 'w" where
  "percpu_values L attr array w =
     (if at_type attr = BPF_MAP_TYPE_PERCPU_ARRAY
      then case al_alloc_percpu L (ba_address array) w of (failed, w) \<Rightarrow>
             (if failed then (None, al_area_free L (ba_address array) w) else (Some array, w))
      else (Some array, w))"

definition array_map_alloc ::
    "'c cheri \<Rightarrow> 'w array_layout \<Rightarrow> alloc_attr \<Rightarrow> bpf_map \<Rightarrow> u64 \<Rightarrow> u32 \<Rightarrow> int \<Rightarrow> 'w \<Rightarrow>
     'c bpf_array option \<times> 'w" where
  "array_map_alloc C L attr bm array_size index_mask numa_node w =
     (let elem_size = round_up8 (at_value_size attr)
      in case array_area C L attr array_size numa_node w of
        ((None, _), w) \<Rightarrow> (None, w)
      | ((Some area, allocation_cap), w) \<Rightarrow>
          (let array = \<lparr>ba_map = bm, ba_address = area, ba_elem_size = elem_size,
                        ba_index_mask = index_mask, ba_aux = None\<rparr>
           in if \<not> plain_array attr then percpu_values L attr array w
              else case al_kzalloc L (al_authority L) w of
                (authority, w) \<Rightarrow>
                  (case authority of
                     Some address \<Rightarrow>
                       if is_aligned address (al_align L)
                       then percpu_values L attr
                              (array\<lparr>ba_aux := Some \<lparr>aa_address = address, aa_root = allocation_cap,
                                                     aa_size = array_size\<rparr>\<rparr>) w
                       else (None, al_area_free L area (al_kfree L authority w))
                   | None \<Rightarrow> (None, al_area_free L area (al_kfree L authority w)))))"

lemma plain_array_simps:
  assumes "plain_array attr"
  shows "array_area C L attr n node w = cbpf_map_area_alloc C L n node True w"
    and "percpu_values L attr array w = (Some array, w)"
  using assms by (simp_all add: plain_array_def array_area_def percpu_values_def BPF_MAP_TYPE_ARRAY_def
      BPF_MAP_TYPE_PERCPU_ARRAY_def)

subsection \<open>Lookup\<close>

text \<open>The address of a value: \<open>array->value + elem_size * (index & index_mask)\<close>.\<close>

definition value_address :: "'w array_layout \<Rightarrow> 'c bpf_array \<Rightarrow> u32 \<Rightarrow> u64" where
  "value_address L a index =
     ba_address a + al_value L + ucast (ba_elem_size a) * ucast (index AND ba_index_mask a)"

text \<open>The condition on the map, and on its retained root.\<close>

definition supported_map :: "bpf_map \<Rightarrow> bool" where
  "supported_map bm \<longleftrightarrow>
     bm_type bm = BPF_MAP_TYPE_ARRAY \<and> bm_array_ops bm \<and> bm_flags bm = 0 \<and> \<not> bm_record bm"

definition root_ok :: "'c cheri \<Rightarrow> 'w array_layout \<Rightarrow> 'c bpf_array \<Rightarrow> 'c cbpf_array_authority \<Rightarrow> bool" where
  "root_ok C L a authority \<longleftrightarrow>
     exact_data_cap C (aa_root authority) (ba_address a) (aa_size authority) \<and>
     \<not> aa_size authority < al_sizeof_array L + ucast (bm_max_entries (ba_map a)) * ucast (ba_elem_size a)"

text \<open>A NULL map, or a NULL key, is \<^term>\<open>None\<close>; the key otherwise is the number it points to.\<close>

definition cbpf_array_value_cap ::
    "'c cheri \<Rightarrow> 'w array_layout \<Rightarrow> 'c bpf_array option \<Rightarrow> u32 option \<Rightarrow> 'c" where
  "cbpf_array_value_cap C L array key =
     (case (array, key) of
        (Some a, Some index) \<Rightarrow>
          if \<not> supported_map (ba_map a) then cheri_null C
          else (case ba_aux a of
             None \<Rightarrow> cheri_null C
           | Some authority \<Rightarrow>
               if \<not> root_ok C L a authority then cheri_null C
               else if bm_max_entries (ba_map a) \<le> index then cheri_null C
               else
                 let v = value_address L a index;
                     len = ucast (bm_value_size (ba_map a));
                     cap = cheri_bounds_set_exact C (cheri_address_set C (aa_root authority) v) len
                 in if \<not> exact_data_cap C cap v len then cheri_null C else cap)
      | _ \<Rightarrow> cheri_null C)"

text \<open>
  The gateway's lookup. The map table and \<open>cheri_check_cap\<close> are parameters; \<open>memory\<close> reads the
  key at the address of the key capability, where the address 0 is NULL.
\<close>

definition bpf_cheri_map_lookup_impl ::
    "'c cheri \<Rightarrow> 'w array_layout \<Rightarrow> (u64 \<Rightarrow> 'c \<Rightarrow> 'c bpf_array option) \<Rightarrow> ('c \<Rightarrow> u64 \<Rightarrow> u64 \<Rightarrow> bool) \<Rightarrow>
     (u64 \<Rightarrow> u32) \<Rightarrow> u64 \<Rightarrow> 'c \<Rightarrow> 'c \<Rightarrow> 'c" where
  "bpf_cheri_map_lookup_impl C L map_from_token check_cap memory map_token key_cap map_table_cap =
     (let array = map_from_token map_token map_table_cap
      in if array = None \<or> \<not> check_cap key_cap 4 (CHERI_PERM_LOAD C) then cheri_null C
         else cbpf_array_value_cap C L array
           (let key = cheri_address_get C key_cap in if key = 0 then None else Some (memory key)))"

subsection \<open>The end of a map\<close>

text \<open>The array, the descriptor as it is left in the memory that is freed, and the memory.\<close>

definition array_map_free ::
    "'c cheri \<Rightarrow> 'w array_layout \<Rightarrow> 'c bpf_array \<Rightarrow> 'w \<Rightarrow>
     'c bpf_array \<times> 'c cbpf_array_authority option \<times> 'w" where
  "array_map_free C L a w =
     (let w = (if bm_type (ba_map a) = BPF_MAP_TYPE_PERCPU_ARRAY then al_free_percpu L (ba_address a) w else w);
          base = (if bm_flags (ba_map a) AND BPF_F_MMAPABLE \<noteq> 0 then al_vmalloc_addr L (ba_address a)
                  else ba_address a)
      in if bm_type (ba_map a) = BPF_MAP_TYPE_ARRAY then
           (case ba_aux a of
              Some authority \<Rightarrow>
                (a\<lparr>ba_aux := None\<rparr>, Some (authority\<lparr>aa_root := cheri_tag_clear C (aa_root authority)\<rparr>),
                 al_area_free L base (al_kfree L (Some (aa_address authority)) w))
            | None \<Rightarrow> (a, None, al_area_free L base w))
         else (a, None, al_area_free L base w))"

text \<open>The part of \<open>array_map_mem_usage\<close> that the patch adds to the ordinary \<open>usage\<close>.\<close>

definition array_map_mem_usage :: "'w array_layout \<Rightarrow> 'c bpf_array \<Rightarrow> u64 \<Rightarrow> u64" where
  "array_map_mem_usage L a usage =
     (if bm_type (ba_map a) = BPF_MAP_TYPE_ARRAY \<and> ba_aux a \<noteq> None then usage + al_authority L else usage)"

end
