(* ===== verification/ArrayProps.thy ===== *)
theory ArrayProps
  imports ArrayAuthority
begin

text \<open>
  What a lookup of a plain array map authorizes: exactly the bytes of the selected value, for
  the returned capability and for everything derived from it.
\<close>

subsection \<open>The capability machine\<close>

text \<open>
  Derivation never adds authority: a tagged result has a tagged source, its bounds lie within
  the source's and its permissions among the source's.
\<close>

definition within_cap :: "'c cheri \<Rightarrow> 'c \<Rightarrow> 'c \<Rightarrow> bool" where
  "within_cap C d c \<longleftrightarrow>
     (cheri_tag_get C d \<longrightarrow>
        cheri_tag_get C c \<and> uint (cheri_base_get C c) \<le> uint (cheri_base_get C d) \<and>
        uint (cheri_base_get C d) + uint (cheri_length_get C d) \<le>
          uint (cheri_base_get C c) + uint (cheri_length_get C c) \<and>
        cheri_perms_get C d AND cheri_perms_get C c = cheri_perms_get C d)"

definition cheri_monotone :: "'c cheri \<Rightarrow> bool" where
  "cheri_monotone C \<longleftrightarrow>
     (\<forall>c a. within_cap C (cheri_address_set C c a) c) \<and>
     (\<forall>c n. within_cap C (cheri_bounds_set_exact C c n) c) \<and>
     (\<forall>c p. within_cap C (cheri_perms_and C c p) c) \<and>
     (\<forall>c p. within_cap C (cheri_perms_clear C c p) c) \<and>
     (\<forall>c. within_cap C (cheri_tag_clear C c) c) \<and>
     (\<forall>c. within_cap C (cheri_sentry_create C c) c)"

text \<open>What a program can make of a capability.\<close>

inductive derived :: "'c cheri \<Rightarrow> 'c \<Rightarrow> 'c \<Rightarrow> bool" for C c where
  derived_refl: "derived C c c"
| derived_address: "derived C c d \<Longrightarrow> derived C c (cheri_address_set C d a)"
| derived_bounds: "derived C c d \<Longrightarrow> derived C c (cheri_bounds_set_exact C d n)"
| derived_perms: "derived C c d \<Longrightarrow> derived C c (cheri_perms_and C d p)"
| derived_clear: "derived C c d \<Longrightarrow> derived C c (cheri_perms_clear C d p)"
| derived_tag: "derived C c d \<Longrightarrow> derived C c (cheri_tag_clear C d)"
| derived_sentry: "derived C c d \<Longrightarrow> derived C c (cheri_sentry_create C d)"



lemma and_trans: "a AND b = a \<Longrightarrow> b AND c = b \<Longrightarrow> a AND c = (a :: u64)"
  by (metis and.assoc)

lemma within_trans: "within_cap C d c \<Longrightarrow> within_cap C e d \<Longrightarrow> within_cap C e c"
  unfolding within_cap_def using and_trans by (smt (verit))

lemma derived_within:
  assumes "cheri_monotone C" and "derived C c d"
  shows "within_cap C d c"
  using assms(2)
proof induction
  case derived_refl
  show ?case by (simp add: within_cap_def)
qed (use assms(1) in \<open>auto simp: cheri_monotone_def intro: within_trans\<close>)

lemma derived_access:
  assumes "cheri_monotone C" "derived C c d" "access_permitted C d perm x w"
  shows "cheri_tag_get C c" "uint (cheri_base_get C c) \<le> x"
    "x + w \<le> uint (cheri_base_get C c) + uint (cheri_length_get C c)"
    "perm AND cheri_perms_get C c = perm"
proof -
  have w: "within_cap C d c" by (rule derived_within [OF assms(1,2)])
  then show "cheri_tag_get C c" "uint (cheri_base_get C c) \<le> x"
    "x + w \<le> uint (cheri_base_get C c) + uint (cheri_length_get C c)"
    using assms(3) by (auto simp: within_cap_def access_permitted_def)
  show "perm AND cheri_perms_get C c = perm"
    using w assms(3) and_trans [of perm "cheri_perms_get C d" "cheri_perms_get C c"]
    by (auto simp: within_cap_def access_permitted_def and.commute)
qed

subsection \<open>The geometry of an array\<close>

text \<open>
  What the rest of \<open>array_map_alloc\<close> provides: values of at least one byte, an index mask that
  covers every index, and an array that ends below the top of the address space.
\<close>

definition array_geometry :: "'w array_layout \<Rightarrow> u64 \<Rightarrow> u32 \<Rightarrow> u32 \<Rightarrow> u32 \<Rightarrow> bool" where
  "array_geometry L base value_size max_entries index_mask \<longleftrightarrow>
     0 < value_size \<and> uint value_size \<le> 2 ^ 32 - 8 \<and>
     (\<forall>i < max_entries. i AND index_mask = i) \<and> al_value L \<le> al_sizeof_array L \<and>
     uint base + uint (al_sizeof_array L) + uint max_entries * uint (round_up8 value_size) < 2 ^ 64"

definition array_ok :: "'w array_layout \<Rightarrow> 'c bpf_array \<Rightarrow> bool" where
  "array_ok L a \<longleftrightarrow>
     ba_elem_size a = round_up8 (bm_value_size (ba_map a)) \<and>
     array_geometry L (ba_address a) (bm_value_size (ba_map a)) (bm_max_entries (ba_map a)) (ba_index_mask a)"

lemma or_seven: "(x :: int) OR 7 = 8 * (x div 8) + 7"
proof -
  have seven: "(7 :: int) = mask 3" by (simp add: mask_eq_exp_minus_1)
  have "x OR 7 = push_bit 3 (drop_bit 3 x) OR 7"
    unfolding seven by (rule bit_eqI) (auto simp: bit_simps)
  also have "\<dots> = push_bit 3 (drop_bit 3 x) + 7"
    unfolding seven by (rule disjunctive_add [symmetric]) (auto simp: bit_simps)
  finally show ?thesis by (simp add: push_bit_eq_mult drop_bit_eq_div)
qed

lemma round_up8_bound:
  assumes "0 < n" "uint n \<le> 2 ^ 32 - 8"
  shows "uint n \<le> uint (round_up8 n)"
proof -
  have pos: "1 \<le> uint n" using assms(1) by (simp add: word_less_def)
  then have u: "uint (n - 1) = uint n - 1" using uint_lt2p [of n] by (simp add: uint_word_arith_bintrs take_bit_int_eq_self_iff)
  have o: "uint ((n - 1) OR 7) = 8 * ((uint n - 1) div 8) + 7"
    by (simp add: uint_or u or_seven)
  have "8 * ((uint n - 1) div 8) + 8 < 2 ^ 32" using assms(2) by presburger
  then have "uint (round_up8 n) = 8 * ((uint n - 1) div 8) + 8"
    unfolding round_up8_def using pos
    by (simp add: uint_word_arith_bintrs o take_bit_int_eq_self)
  then show ?thesis by presburger
qed

lemma uint_u32_u64: "take_bit 64 (uint (x :: u32)) = uint x"
  using uint_lt2p [of x] by (intro take_bit_int_eq_self) auto

lemma uint_product: "uint (ucast a * ucast b :: u64) = uint (a :: u32) * uint (b :: u32)"
proof -
  have "uint a * uint b \<le> (2 ^ 32 - 1) * (2 ^ 32 - 1)"
    using uint_lt2p [of a] uint_lt2p [of b] by (intro mult_mono) auto
  then have "uint a * uint b < 2 ^ 64" by simp
  then show ?thesis by (simp add: uint_word_arith_bintrs unsigned_ucast_eq uint_u32_u64 take_bit_int_eq_self)
qed

lemma array_bytes:
  "uint l + uint m * uint e < 2 ^ 64 \<Longrightarrow>
     uint (l + ucast m * ucast e :: u64) = uint l + uint (m :: u32) * uint (e :: u32)"
  unfolding uint_word_ariths(1) uint_product by (intro mod_pos_pos_trivial) auto

lemma value_address_uint:
  assumes "array_ok L a" "i < bm_max_entries (ba_map a)"
  shows "uint (value_address L a i) = uint (ba_address a) + uint (al_value L) + uint (ba_elem_size a) * uint i"
    and "uint (value_address L a i) + uint (bm_value_size (ba_map a)) \<le>
      uint (ba_address a) + uint (al_value L) + uint (ba_elem_size a) * (uint i + 1)"
    and "uint (value_address L a i) + uint (bm_value_size (ba_map a)) \<le>
      uint (ba_address a) + uint (al_sizeof_array L) + uint (bm_max_entries (ba_map a)) * uint (ba_elem_size a)"
proof -
  let ?e = "uint (ba_elem_size a)" and ?n = "uint (bm_max_entries (ba_map a))"
  have geo: "array_geometry L (ba_address a) (bm_value_size (ba_map a)) (bm_max_entries (ba_map a)) (ba_index_mask a)"
    and e: "ba_elem_size a = round_up8 (bm_value_size (ba_map a))"
    using assms(1) by (simp_all add: array_ok_def)
  have v: "uint (bm_value_size (ba_map a)) \<le> ?e" unfolding e
    by (rule round_up8_bound) (use geo in \<open>auto simp: array_geometry_def\<close>)
  have i: "uint i + 1 \<le> ?n" using assms(2) by (simp add: word_less_def)
  have "?e * (uint i + 1) \<le> ?e * ?n" by (rule mult_left_mono [OF i]) simp
  then have room: "?e * (uint i + 1) \<le> ?n * ?e" by (simp add: mult.commute)
  have m: "i AND ba_index_mask a = i" using geo assms(2) by (simp add: array_geometry_def)
  have o: "uint (al_value L) \<le> uint (al_sizeof_array L)" using geo by (simp add: array_geometry_def word_le_def)
  have top: "uint (ba_address a) + uint (al_sizeof_array L) + ?n * ?e < 2 ^ 64"
    using geo by (simp add: array_geometry_def e)
  have pos: "0 < ?e" using v geo by (auto simp: array_geometry_def word_less_def)
  have fits: "uint (ba_address a) + uint (al_value L) + ?e * uint i < 2 ^ 64"
    using room o top pos by (simp add: distrib_left)
  have small: "uint (ba_address a) + uint (al_value L) < 2 ^ 64" by (rule le_less_trans [OF _ fits]) simp
  have "uint (ba_address a + al_value L) = uint (ba_address a) + uint (al_value L)"
    unfolding uint_word_ariths(1)
    by (rule mod_pos_pos_trivial) (use small in simp_all)
  then show u: "uint (value_address L a i) = uint (ba_address a) + uint (al_value L) + ?e * uint i"
    unfolding value_address_def m uint_word_ariths(1) uint_product using fits by simp
  show "uint (value_address L a i) + uint (bm_value_size (ba_map a)) \<le>
      uint (ba_address a) + uint (al_value L) + ?e * (uint i + 1)"
    unfolding u using v by (simp add: distrib_left)
  then show "uint (value_address L a i) + uint (bm_value_size (ba_map a)) \<le>
      uint (ba_address a) + uint (al_sizeof_array L) + ?n * ?e"
    using room o by simp
qed

subsection \<open>What a lookup returns\<close>

text \<open>NULL, or a capability that passed the tests for the selected value.\<close>

lemma value_cap_cases:
  obtains (null) "cbpf_array_value_cap C L array key = cheri_null C"
  | (exact) a i authority where "array = Some a" "key = Some i" "supported_map (ba_map a)"
      "ba_aux a = Some authority" "root_ok C L a authority" "i < bm_max_entries (ba_map a)"
      "exact_data_cap C (cbpf_array_value_cap C L array key) (value_address L a i) (ucast (bm_value_size (ba_map a)))"
proof (cases "cbpf_array_value_cap C L array key = cheri_null C")
  case False
  then obtain a i where ai: "array = Some a" "key = Some i"
    by (auto simp: cbpf_array_value_cap_def split: option.splits)
  note d = False [unfolded ai cbpf_array_value_cap_def]
  obtain authority where "ba_aux a = Some authority" using d by (auto split: option.splits if_splits)
  with d ai show ?thesis
    by (intro exact [of a i authority]) (auto simp: cbpf_array_value_cap_def Let_def not_le split: if_splits)
qed


lemma exact_data_capD:
  assumes "exact_data_cap C cap v n"
  shows "cheri_tag_get C cap" "\<not> cheri_is_sealed C cap" "cheri_base_get C cap = v" "cheri_address_get C cap = v"
    "cheri_length_get C cap = n" "cheri_perms_get C cap = CBPF_ARRAY_DATA_PERMS C"
  using assms by (auto simp: exact_data_cap_def)

lemma value_cap_tagged:
  assumes "\<not> cheri_tag_get C (cheri_null C)" "cheri_tag_get C (cbpf_array_value_cap C L (Some a) (Some i))"
  shows "i < bm_max_entries (ba_map a)" "supported_map (ba_map a)"
    "exact_data_cap C (cbpf_array_value_cap C L (Some a) (Some i)) (value_address L a i) (ucast (bm_value_size (ba_map a)))"
  using assms by (cases rule: value_cap_cases [of C L "Some a" "Some i"]; auto)+

lemma value_cap_contained:
  assumes "cheri_monotone C" "\<not> cheri_tag_get C (cheri_null C)" "array_ok L a"
    and "derived C (cbpf_array_value_cap C L (Some a) (Some i)) d" "access_permitted C d perm x w" "0 < w"
  defines "v j \<equiv> uint (value_address L a j)" and "n \<equiv> uint (bm_value_size (ba_map a))"
  shows "i < bm_max_entries (ba_map a) \<and> v i \<le> x \<and> x + w \<le> v i + n \<and>
    uint (ba_address a) + uint (al_value L) \<le> x \<and>
    x + w \<le> uint (ba_address a) + uint (al_sizeof_array L) +
      uint (bm_max_entries (ba_map a)) * uint (ba_elem_size a) \<and>
    (\<forall>j < bm_max_entries (ba_map a). j \<noteq> i \<longrightarrow> x + w \<le> v j \<or> v j + n \<le> x) \<and>
    perm AND CBPF_ARRAY_DATA_PERMS C = perm"
proof -
  let ?cap = "cbpf_array_value_cap C L (Some a) (Some i)"
  note access = derived_access [OF assms(1,4,5)]
  note found = value_cap_tagged [OF assms(2) access(1)]
  note exact = exact_data_capD [OF found(3)]
  have n: "uint (ucast (bm_value_size (ba_map a)) :: u64) = n" by (simp add: n_def unsigned_ucast_eq uint_u32_u64)
  have inside: "v i \<le> x" "x + w \<le> v i + n" using access(2,3) by (simp_all add: exact v_def n)
  note place = value_address_uint [OF assms(3) found(1)]
  have apart: "x + w \<le> v j \<or> v j + n \<le> x" if j: "j < bm_max_entries (ba_map a)" "j \<noteq> i" for j
  proof -
    note placej = value_address_uint [OF assms(3) j(1)]
    have "uint j + 1 \<le> uint i \<or> uint i + 1 \<le> uint j" using j(2) word_uint_eqI [of j i] by linarith
    then have "uint (ba_elem_size a) * (uint j + 1) \<le> uint (ba_elem_size a) * uint i \<or>
      uint (ba_elem_size a) * (uint i + 1) \<le> uint (ba_elem_size a) * uint j"
      by (metis mult_left_mono unsigned_greater_eq)
    then show ?thesis using inside place(1,2) placej(1,2) unfolding v_def n_def by linarith
  qed
  have "0 \<le> uint (ba_elem_size a) * uint i" by simp
  then have "uint (ba_address a) + uint (al_value L) \<le> x"
    using inside(1) place(1) unfolding v_def by linarith
  moreover have "x + w \<le> uint (ba_address a) + uint (al_sizeof_array L) +
      uint (bm_max_entries (ba_map a)) * uint (ba_elem_size a)"
    using inside(2) place(3) unfolding v_def n_def by linarith
  moreover have "perm AND CBPF_ARRAY_DATA_PERMS C = perm" using access(4) exact(6) by simp
  ultimately show ?thesis using inside found(1) apart by blast
qed


text \<open>
  C37. The capability that the lookup gateway returns, and everything a program derives from it,
  authorizes nothing but the bytes of the value of the key that was passed. On every monotone
  capability machine, whatever the map table, the key's check and the key are: when an access
  is permitted, the token named a map, the key capability was checked and not NULL, its key is
  below \<open>max_entries\<close>, and the access lies within that value, so within the array's own memory
  behind its header and outside every other value; it needs no permission beyond load,
  store and global.
\<close>

theorem lookup_contained:
  assumes "cheri_monotone C" "\<not> cheri_tag_get C (cheri_null C)"
    and "\<forall>a. map_from_token token table = Some a \<longrightarrow> array_ok L a"
    and "derived C (bpf_cheri_map_lookup_impl C L map_from_token check_cap memory token key_cap table) d"
    and "access_permitted C d perm x w" "0 < w"
  shows "\<exists>a. map_from_token token table = Some a \<and> check_cap key_cap 4 (CHERI_PERM_LOAD C) \<and>
    cheri_address_get C key_cap \<noteq> 0 \<and>
    (let i = memory (cheri_address_get C key_cap); n = uint (bm_value_size (ba_map a));
         v = (\<lambda>j. uint (value_address L a j))
     in i < bm_max_entries (ba_map a) \<and> v i \<le> x \<and> x + w \<le> v i + n \<and>
        uint (ba_address a) + uint (al_value L) \<le> x \<and>
        x + w \<le> uint (ba_address a) + uint (al_sizeof_array L) +
          uint (bm_max_entries (ba_map a)) * uint (ba_elem_size a) \<and>
        (\<forall>j < bm_max_entries (ba_map a). j \<noteq> i \<longrightarrow> x + w \<le> v j \<or> v j + n \<le> x) \<and>
        perm AND CBPF_ARRAY_DATA_PERMS C = perm)"
proof -
  let ?cap = "bpf_cheri_map_lookup_impl C L map_from_token check_cap memory token key_cap table"
  have "cheri_tag_get C ?cap" using derived_access(1) [OF assms(1,4,5)] .
  then have "?cap \<noteq> cheri_null C" using assms(2) by auto
  then obtain a where a: "map_from_token token table = Some a" "check_cap key_cap 4 (CHERI_PERM_LOAD C)"
    "cheri_address_get C key_cap \<noteq> 0"
    "?cap = cbpf_array_value_cap C L (Some a) (Some (memory (cheri_address_get C key_cap)))"
    by (auto simp: bpf_cheri_map_lookup_impl_def Let_def cbpf_array_value_cap_def split: if_splits)
  have "array_ok L a" using assms(3) a(1) by blast
  from value_cap_contained [OF assms(1,2) this assms(4) [unfolded a(4)] assms(5,6)] a(1-3)
  show ?thesis by (auto simp: Let_def)
qed

subsection \<open>Narrowing\<close>

text \<open>
  A tagged, unsealed capability narrows exactly to bounds inside its own that the encoding
  can represent, and masking permissions changes nothing else.
\<close>

definition cheri_narrows :: "'c cheri \<Rightarrow> (u64 \<Rightarrow> u64 \<Rightarrow> bool) \<Rightarrow> bool" where
  "cheri_narrows C representable \<longleftrightarrow>
     (\<forall>c a n. cheri_tag_get C c \<and> \<not> cheri_is_sealed C c \<and> uint (cheri_base_get C c) \<le> uint a \<and>
        uint a + uint n \<le> uint (cheri_base_get C c) + uint (cheri_length_get C c) \<and> representable a n \<longrightarrow>
        (let d = cheri_bounds_set_exact C (cheri_address_set C c a) n
         in cheri_tag_get C d \<and> \<not> cheri_is_sealed C d \<and> cheri_base_get C d = a \<and> cheri_address_get C d = a \<and>
            cheri_length_get C d = n \<and> cheri_perms_get C d = cheri_perms_get C c))"

text \<open>Bounds that the encoding cannot represent give no tagged capability.\<close>

definition cheri_exact :: "'c cheri \<Rightarrow> (u64 \<Rightarrow> u64 \<Rightarrow> bool) \<Rightarrow> bool" where
  "cheri_exact C representable \<longleftrightarrow>
     (\<forall>c a n. cheri_tag_get C (cheri_bounds_set_exact C (cheri_address_set C c a) n) \<longrightarrow> representable a n)"

lemma value_cap_inexact:
  assumes "cheri_exact C representable" "\<not> representable (value_address L a i) (ucast (bm_value_size (ba_map a)))"
  shows "cbpf_array_value_cap C L (Some a) (Some i) = cheri_null C"
  using assms by (auto simp: cheri_exact_def cbpf_array_value_cap_def Let_def exact_data_cap_def split: option.split)

text \<open>The lookup of an index that is there: the root covers the value, so narrowing succeeds.\<close>

lemma value_cap_exact:
  assumes "cheri_narrows C representable" "array_ok L a" "supported_map (ba_map a)"
    and "ba_aux a = Some authority" "root_ok C L a authority" "i < bm_max_entries (ba_map a)"
    and "representable (value_address L a i) (ucast (bm_value_size (ba_map a)))"
  shows "exact_data_cap C (cbpf_array_value_cap C L (Some a) (Some i)) (value_address L a i)
    (ucast (bm_value_size (ba_map a)))"
proof -
  let ?r = "aa_root authority" and ?n = "uint (bm_max_entries (ba_map a)) * uint (ba_elem_size a)"
  have root: "exact_data_cap C ?r (ba_address a) (aa_size authority)" using assms(5) by (simp add: root_ok_def)
  note place = value_address_uint [OF assms(2,6)]
  note cap = exact_data_capD [OF root]
  have "uint (ba_address a) + uint (al_sizeof_array L) + ?n < 2 ^ 64"
    using assms(2) by (auto simp: array_ok_def array_geometry_def)
  moreover have "0 \<le> uint (ba_address a)" by simp
  ultimately have room: "uint (al_sizeof_array L) + ?n < 2 ^ 64" by linarith
  note bytes = array_bytes [OF this]
  then have total: "uint (al_sizeof_array L) + ?n \<le> uint (aa_size authority)"
    using assms(5) bytes by (simp add: root_ok_def word_less_def not_less)
  have n: "uint (ucast (bm_value_size (ba_map a)) :: u64) = uint (bm_value_size (ba_map a))"
    by (simp add: unsigned_ucast_eq uint_u32_u64)
  have "0 \<le> uint (ba_elem_size a) * uint i" by simp
  then have "uint (ba_address a) \<le> uint (value_address L a i)"
    using place(1) uint_ge_0 [of "al_value L"] by linarith
  moreover have "uint (value_address L a i) + uint (ucast (bm_value_size (ba_map a)) :: u64) \<le>
      uint (ba_address a) + uint (aa_size authority)"
    using place(3) total unfolding n by linarith
  ultimately have "exact_data_cap C (cheri_bounds_set_exact C (cheri_address_set C ?r (value_address L a i))
      (ucast (bm_value_size (ba_map a)))) (value_address L a i) (ucast (bm_value_size (ba_map a)))"
    using assms(1,7) cap by (auto simp: cheri_narrows_def Let_def exact_data_cap_def)
  then show ?thesis
    using assms(3-6) by (simp add: cbpf_array_value_cap_def Let_def linorder_not_le [symmetric])
qed


subsection \<open>The life of a map\<close>

text \<open>
  The kernel's memory: \<open>owned\<close> are the addresses it has given out. An allocator gives a fresh
  address or nothing, an area is not at NULL and lies below the top of the address space, and freeing returns it.
\<close>

definition allocator_laws :: "'w array_layout \<Rightarrow> ('w \<Rightarrow> u64 set) \<Rightarrow> bool" where
  "allocator_laws L owned \<longleftrightarrow>
     (\<forall>n node w x w'. al_area_alloc L n node w = (x, w') \<longrightarrow>
        (case x of None \<Rightarrow> owned w' = owned w
         | Some a \<Rightarrow> a \<noteq> 0 \<and> a \<notin> owned w \<and> owned w' = insert a (owned w) \<and> uint a + uint n < 2 ^ 64)) \<and>
     (\<forall>n w x w'. al_kzalloc L n w = (x, w') \<longrightarrow>
        (case x of None \<Rightarrow> owned w' = owned w | Some a \<Rightarrow> a \<notin> owned w \<and> owned w' = insert a (owned w))) \<and>
     (\<forall>a w. owned (al_area_free L a w) = owned w - {a}) \<and>
     (\<forall>a w. owned (al_kfree L (Some a) w) = owned w - {a}) \<and>
     (\<forall>w. owned (al_kfree L None w) = owned w)"

lemma allocatorD:
  assumes "allocator_laws L owned"
  shows "al_area_alloc L n node w = (None, w') \<Longrightarrow> owned w' = owned w"
    and "al_area_alloc L n node w = (Some a, w') \<Longrightarrow>
      a \<noteq> 0 \<and> a \<notin> owned w \<and> owned w' = insert a (owned w) \<and> uint a + uint n < 2 ^ 64"
    and "al_kzalloc L m w = (None, w') \<Longrightarrow> owned w' = owned w"
    and "al_kzalloc L m w = (Some a, w') \<Longrightarrow> a \<notin> owned w \<and> owned w' = insert a (owned w)"
    and "owned (al_area_free L a w) = owned w - {a}" "owned (al_kfree L (Some a) w) = owned w - {a}"
    and "owned (al_kfree L None w) = owned w"
  using assms unfolding allocator_laws_def by (fastforce split: option.splits)+

lemma area_alloc_cases:
  assumes "allocator_laws L owned" "cbpf_map_area_alloc C L n node True w = ((area, cap), w')"
  shows "case area of None \<Rightarrow> owned w' = owned w
    | Some a \<Rightarrow> a \<noteq> 0 \<and> a \<notin> owned w \<and> owned w' = insert a (owned w) \<and> uint a + uint n < 2 ^ 64 \<and> exact_data_cap C cap a n"
  using assms(2)
  by (auto simp: cbpf_map_area_alloc_def Let_def allocatorD(5) [OF assms(1)] split: prod.splits option.splits if_splits
      dest: allocatorD(1,2) [OF assms(1)])

lemma array_alloc_cases:
  assumes "allocator_laws L owned" "plain_array attr"
    and "array_map_alloc C L attr bm n index_mask node w = (r, w')"
  shows "case r of None \<Rightarrow> owned w' = owned w
    | Some a \<Rightarrow> \<exists>authority. a = \<lparr>ba_map = bm, ba_address = ba_address a, ba_elem_size = round_up8 (at_value_size attr),
          ba_index_mask = index_mask, ba_aux = Some authority\<rparr> \<and> aa_size authority = n \<and>
        exact_data_cap C (aa_root authority) (ba_address a) n \<and> uint (ba_address a) + uint n < 2 ^ 64 \<and>
        ba_address a \<noteq> 0 \<and> ba_address a \<notin> owned w \<and> aa_address authority \<notin> owned w \<and>
        owned w' = owned w \<union> {ba_address a, aa_address authority}"
proof (cases "cbpf_map_area_alloc C L n node True w")
  case (Pair first w1)
  obtain area cap where first: "first = (area, cap)" by (cases first)
  note area = area_alloc_cases [OF assms(1) Pair [unfolded first]]
  note alloc = assms(3) [unfolded array_map_alloc_def Let_def plain_array_simps [OF assms(2)] Pair first]
  show ?thesis
  proof (cases area)
    case None
    then show ?thesis using alloc area by auto
  next
    case (Some a)
    obtain authority w2 where auth: "al_kzalloc L (al_authority L) w1 = (authority, w2)"
      by (cases "al_kzalloc L (al_authority L) w1")
    show ?thesis
    proof (cases authority)
      case None
      then show ?thesis
        using alloc area Some auth allocatorD(3,5,7) [OF assms(1)] assms(2) by (auto split: option.splits)
    next
      case (Some d)
      note d = allocatorD(4) [OF assms(1) auth [unfolded Some]]
      show ?thesis
        using alloc area \<open>area = Some a\<close> auth Some d allocatorD(5,6) [OF assms(1)] assms(2)
        by (auto split: if_splits)
    qed
  qed
qed

text \<open>
  A request for a plain array with what the rest of \<open>array_map_alloc\<close> makes of it: the map as
  \<open>bpf_map_init_from_attr\<close> and the caller fill it in, the array's size and the index mask.
\<close>

definition array_request ::
    "'w array_layout \<Rightarrow> alloc_attr \<Rightarrow> bpf_map \<Rightarrow> u64 \<Rightarrow> u32 \<Rightarrow> bool" where
  "array_request L attr bm n index_mask \<longleftrightarrow>
     plain_array attr \<and>
     bm = \<lparr>bm_type = at_type attr, bm_flags = at_flags attr, bm_value_size = at_value_size attr,
           bm_max_entries = at_max_entries attr, bm_array_ops = True, bm_record = False\<rparr> \<and>
     array_geometry L 0 (at_value_size attr) (at_max_entries attr) index_mask \<and>
     uint n = uint (al_sizeof_array L) + uint (at_max_entries attr) * uint (round_up8 (at_value_size attr))"

text \<open>What a lookup gives for a key: the exact capability of a value, or NULL.\<close>

definition key_usable :: "'w array_layout \<Rightarrow> (u64 \<Rightarrow> u64 \<Rightarrow> bool) \<Rightarrow> alloc_attr \<Rightarrow> 'c bpf_array \<Rightarrow> u32 \<Rightarrow> bool" where
  "key_usable L representable attr a key \<longleftrightarrow>
     key < at_max_entries attr \<and> representable (value_address L a key) (ucast (at_value_size attr))"

lemma created_array:
  assumes "allocator_laws L owned" "cheri_narrows C representable" "cheri_exact C representable"
    and "array_request L attr bm n index_mask"
    and "array_map_alloc C L attr bm n index_mask node w = (Some a, w')"
  obtains authority where
    "array_ok L a" "ba_address a \<noteq> 0" "ba_map a = bm" "ba_aux a = Some authority" "supported_map bm"
    "bm_value_size bm = at_value_size attr" "bm_max_entries bm = at_max_entries attr"
    "\<forall>key. if key_usable L representable attr a key
       then exact_data_cap C (cbpf_array_value_cap C L (Some a) (Some key)) (value_address L a key) (ucast (at_value_size attr))
       else cbpf_array_value_cap C L (Some a) (Some key) = cheri_null C"
    "ba_address a \<notin> owned w" "aa_address authority \<notin> owned w"
    "owned w' = owned w \<union> {ba_address a, aa_address authority}"
proof -
  note req = assms(4) [unfolded array_request_def]
  have plain: "plain_array attr" using req by simp
  from array_alloc_cases [OF assms(1) plain assms(5)] obtain authority where
    a: "a = \<lparr>ba_map = bm, ba_address = ba_address a, ba_elem_size = round_up8 (at_value_size attr),
      ba_index_mask = index_mask, ba_aux = Some authority\<rparr>"
    and root: "aa_size authority = n" "exact_data_cap C (aa_root authority) (ba_address a) n"
    and place: "uint (ba_address a) + uint n < 2 ^ 64" "ba_address a \<noteq> 0"
    and mem: "ba_address a \<notin> owned w" "aa_address authority \<notin> owned w"
      "owned w' = owned w \<union> {ba_address a, aa_address authority}" by auto
  note sel = a [THEN arg_cong, of ba_map, simplified] a [THEN arg_cong, of ba_elem_size, simplified]
    a [THEN arg_cong, of ba_index_mask, simplified] a [THEN arg_cong, of ba_aux, simplified]
  have bm: "bm_value_size bm = at_value_size attr" "bm_max_entries bm = at_max_entries attr" "supported_map bm"
    using req by (auto simp: supported_map_def plain_array_def)
  have ok: "array_ok L a"
    using req place(1) unfolding array_ok_def array_geometry_def sel bm by simp
  have "uint (al_sizeof_array L + ucast (at_max_entries attr) * ucast (round_up8 (at_value_size attr))) = uint n"
    using req array_bytes by (simp add: array_geometry_def)
  then have "root_ok C L a authority"
    using root by (simp add: root_ok_def sel bm word_less_def)
  note looked = value_cap_exact [OF assms(2) ok _ sel(4) this, unfolded sel bm]
  have "cbpf_array_value_cap C L (Some a) (Some key) = cheri_null C" if "\<not> key < at_max_entries attr" for key
    using that bm(2) sel(1) by (simp add: cbpf_array_value_cap_def not_less split: option.split)
  then have "\<forall>key. if key_usable L representable attr a key
       then exact_data_cap C (cbpf_array_value_cap C L (Some a) (Some key)) (value_address L a key) (ucast (at_value_size attr))
       else cbpf_array_value_cap C L (Some a) (Some key) = cheri_null C"
    using looked value_cap_inexact [OF assms(3), of L a] bm sel(1) by (auto simp: key_usable_def)
  then show thesis using that ok place(2) sel(1,4) bm mem by blast
qed

text \<open>
  C38. The life of a plain array map, with the kernel's allocators, on a machine that narrows
  exactly to the bounds its encoding can represent and to no others: a failed creation gives back
  everything it took. After a successful one a lookup yields the exact capability of the key's value
  when the key is below \<open>max_entries\<close> and the bounds of that value are representable, and NULL for every other key;
  freeing the map returns all its memory, leaves no tagged root in the freed descriptor, and
  makes every later lookup yield NULL.
\<close>

theorem array_lifecycle:
  assumes "allocator_laws L owned" "cheri_laws C" "cheri_narrows C representable" "cheri_exact C representable"
    and "array_request L attr bm n index_mask"
    and "array_map_alloc C L attr bm n index_mask node w = (r, w')"
  shows "case r of None \<Rightarrow> owned w' = owned w
    | Some a \<Rightarrow>
        (\<forall>key. if key < at_max_entries attr \<and> representable (value_address L a key) (ucast (at_value_size attr))
          then exact_data_cap C (cbpf_array_value_cap C L (Some a) (Some key)) (value_address L a key)
            (ucast (at_value_size attr))
          else cbpf_array_value_cap C L (Some a) (Some key) = cheri_null C) \<and>
        (case array_map_free C L a w' of (a', d, w'') \<Rightarrow>
          owned w'' = owned w \<and> (\<exists>d0. d = Some d0 \<and> \<not> cheri_tag_get C (aa_root d0)) \<and>
          (\<forall>key. cbpf_array_value_cap C L (Some a') key = cheri_null C))"
proof (cases r)
  case None
  have "plain_array attr" using assms(5) by (simp add: array_request_def)
  then show ?thesis using None array_alloc_cases [OF assms(1) _ assms(6)] by simp
next
  case (Some a)
  obtain authority where c: "ba_map a = bm" "ba_aux a = Some authority" "supported_map bm"
    and looked: "\<forall>key. if key_usable L representable attr a key
       then exact_data_cap C (cbpf_array_value_cap C L (Some a) (Some key)) (value_address L a key) (ucast (at_value_size attr))
       else cbpf_array_value_cap C L (Some a) (Some key) = cheri_null C"
    and mem: "ba_address a \<notin> owned w" "aa_address authority \<notin> owned w"
      "owned w' = owned w \<union> {ba_address a, aa_address authority}"
    using created_array [OF assms(1,3-5) assms(6) [unfolded Some]] by blast
  have "array_map_free C L a w' = (a\<lparr>ba_aux := None\<rparr>,
      Some (authority\<lparr>aa_root := cheri_tag_clear C (aa_root authority)\<rparr>),
      al_area_free L (ba_address a) (al_kfree L (Some (aa_address authority)) w'))"
    using c(3) by (simp add: array_map_free_def supported_map_def c(1,2) BPF_MAP_TYPE_ARRAY_def
        BPF_MAP_TYPE_PERCPU_ARRAY_def)
  moreover have "owned (al_area_free L (ba_address a) (al_kfree L (Some (aa_address authority)) w')) = owned w"
    using allocatorD(5,6) [OF assms(1)] mem by auto
  moreover have "cbpf_array_value_cap C L (Some (a\<lparr>ba_aux := None\<rparr>)) key = cheri_null C" for key
    by (simp add: cbpf_array_value_cap_def split: option.split)
  ultimately show ?thesis using Some looked [unfolded key_usable_def] cheri_lawsD(2) [OF assms(2)] by simp
qed

end
