(* ===== verification/ArraySample.thy ===== *)
theory ArraySample
  imports ArrayProps
begin

text \<open>
  The accesses that an exact data capability permits, and a small machine and array that have
  the properties of theory \<open>ArrayProps\<close>.
\<close>

subsection \<open>Accesses\<close>

lemma data_perms:
  "CBPF_ARRAY_DATA_PERMS C AND CHERI_PERM_LOAD C = CHERI_PERM_LOAD C"
  "CBPF_ARRAY_DATA_PERMS C AND CHERI_PERM_STORE C = CHERI_PERM_STORE C"
  by (simp_all add: CBPF_ARRAY_DATA_PERMS_def bit_eq_iff bit_simps) blast+

lemma exact_access:
  assumes "exact_data_cap C cap v n" "CBPF_ARRAY_DATA_PERMS C AND perm = perm"
  shows "access_permitted C cap perm x w \<longleftrightarrow> uint v \<le> x \<and> x + w \<le> uint v + uint n"
  using exact_data_capD [OF assms(1)] assms(2) by (auto simp: access_permitted_def)

subsection \<open>A sample array\<close>

text \<open>Memory with room for one array and one descriptor, each at a fixed address.\<close>

definition sample_layout :: "u64 set array_layout" where
  "sample_layout =
     \<lparr>al_sizeof_array = 64, al_value = 64, al_authority = 32, al_align = 16,
      al_area_alloc = (\<lambda>n node w. if 0x1000 \<in> w \<or> 2 ^ 40 < n then (None, w) else (Some 0x1000, insert 0x1000 w)),
      al_area_free = (\<lambda>a w. w - {a}),
      al_kzalloc = (\<lambda>n w. if 0x2000 \<in> w then (None, w) else (Some 0x2000, insert 0x2000 w)),
      al_kfree = (\<lambda>a w. case a of None \<Rightarrow> w | Some a \<Rightarrow> w - {a}),
      al_mmapable_area = (\<lambda>n node w. (None, w)), al_vmalloc_addr = (\<lambda>a. a),
      al_alloc_percpu = (\<lambda>a w. (True, w)), al_free_percpu = (\<lambda>a w. w)\<rparr>"

lemma sample_allocator: "allocator_laws sample_layout (\<lambda>w. w)"
  unfolding allocator_laws_def sample_layout_def
  by (auto simp: word_less_def split: if_splits)

lemma sample_narrows: "cheri_narrows sample_cheri (\<lambda>a n. True)"
  by (auto simp: cheri_narrows_def sample_cheri_def sw_bounds_def word_le_def)

lemma sample_exact: "cheri_exact sample_cheri (\<lambda>a n. True)"
  by (simp add: cheri_exact_def)

lemma sample_monotone: "cheri_monotone sample_cheri"
  by (simp add: cheri_monotone_def within_cap_def sample_cheri_def sw_bounds_def word_le_def ac_simps)

definition sample_attr :: alloc_attr where
  "sample_attr = \<lparr>at_type = 2, at_flags = 0, at_value_size = 7, at_max_entries = 2\<rparr>"

definition sample_bm :: bpf_map where
  "sample_bm = \<lparr>bm_type = 2, bm_flags = 0, bm_value_size = 7, bm_max_entries = 2, bm_array_ops = True, bm_record = False\<rparr>"

definition sample_array :: "swcap bpf_array" where
  "sample_array = \<lparr>ba_map = sample_bm, ba_address = 0x1000, ba_elem_size = 8, ba_index_mask = 1,
     ba_aux = Some \<lparr>aa_address = 0x2000, aa_root = allocation_root sample_cheri 0x1000 80, aa_size = 80\<rparr>\<rparr>"

lemma sample_array_alloc:
  "array_map_alloc sample_cheri sample_layout sample_attr sample_bm 80 1 0 {} =
    (Some sample_array, {0x2000, 0x1000})"
  by code_simp


lemma sample_array_ok: "array_ok sample_layout sample_array"
proof -
  have "i AND 1 = i" if "i < 2" for i :: u32
    using that by (simp add: and_one_eq mod_word_less)
  then show ?thesis
    by (simp add: array_ok_def array_geometry_def sample_array_def sample_bm_def sample_layout_def round_up8_def word_le_def)
qed

text \<open>Key 1, as the spatial guest uses it, through the gateway: seven bytes at \<open>0x1048\<close>, the eighth is padding.\<close>

definition sample_lookup_cap :: swcap where
  "sample_lookup_cap = bpf_cheri_map_lookup_impl sample_cheri sample_layout (\<lambda>token table. Some sample_array)
     (\<lambda>c n p. True) (\<lambda>x. 1) 0 (sw_int 0x3000) (sw_int 0)"

lemma sample_lookup_cap:
  "sample_lookup_cap =
    \<lparr>sw_tag = True, sw_sealed = False, sw_address = 0x1048, sw_base = 0x1048, sw_length = 7, sw_perms = 35\<rparr>"
  by code_simp

theorem lookup_contained_witness:
  "uint (value_address sample_layout sample_array 1) \<le> 0x104e \<and>
    0x104e + 1 \<le> uint (value_address sample_layout sample_array 1) + 7"
proof -
  let ?d = "cheri_address_set sample_cheri sample_lookup_cap 0x104e"
  have "derived sample_cheri sample_lookup_cap ?d"
    by (intro derived_address derived_refl)
  moreover have "access_permitted sample_cheri ?d (CHERI_PERM_LOAD sample_cheri) 0x104e 1"
    unfolding sample_lookup_cap by (simp add: access_permitted_def sample_cheri_def)
  moreover have "\<not> cheri_tag_get sample_cheri (cheri_null sample_cheri)" using cheri_lawsD(6) [OF sample_cheri_laws] .
  ultimately show ?thesis
    using lookup_contained [OF sample_monotone, where d = ?d and perm = "CHERI_PERM_LOAD sample_cheri" and
        x = "0x104e" and w = 1 and L = sample_layout and map_from_token = "\<lambda>token table. Some sample_array" and
        check_cap = "\<lambda>c n p. True" and memory = "\<lambda>x. 1" and token = 0 and key_cap = "sw_int 0x3000" and
        table = "sw_int 0"] sample_array_ok
    by (simp add: sample_lookup_cap_def Let_def) (simp add: sample_array_def sample_bm_def)
qed

lemma sample_request: "array_request sample_layout sample_attr sample_bm 80 1"
proof -
  have "array_geometry sample_layout 0 (at_value_size sample_attr) (at_max_entries sample_attr) 1"
    using sample_array_ok by (simp add: array_ok_def array_geometry_def sample_array_def sample_bm_def sample_attr_def
        sample_layout_def round_up8_def)
  then show ?thesis
    by (simp add: array_request_def plain_array_def BPF_MAP_TYPE_ARRAY_def sample_attr_def sample_bm_def
        sample_layout_def round_up8_def)
qed

theorem array_lifecycle_witness:
  "case array_map_free sample_cheri sample_layout sample_array {0x2000, 0x1000} of (a, d, w) \<Rightarrow>
    w = {} \<and> (\<forall>key. cbpf_array_value_cap sample_cheri sample_layout (Some a) key = cheri_null sample_cheri)"
  using array_lifecycle [OF sample_allocator sample_cheri_laws sample_narrows sample_exact sample_request sample_array_alloc]
  by (auto split: prod.splits)

end
