(* ===== verification/SpatialProgram.thy ===== *)
theory SpatialProgram
  imports JitProgram
begin

text \<open>
  The program of the spatial guest, \<open>program\<close> in \<open>run_control\<close> of
  \<open>src/linux/spatial/native-guest.c\<close>, and the meaning of its instructions on an array map whose
  values have a logical extent: an access outside the value, like any other use that the
  verifier must exclude, has no meaning (\<^term>\<open>None\<close>).
\<close>

subsection \<open>The program\<close>

definition BPF_ST_MEM_W :: u8 where "BPF_ST_MEM_W = 0x02 OR 0x60 OR 0x00"
definition BPF_ALU64_ADD_K :: u8 where "BPF_ALU64_ADD_K = 0x07 OR 0x00 OR 0x00"
definition BPF_LD_IMM_DW :: u8 where "BPF_LD_IMM_DW = 0x00 OR 0x00 OR 0x18"
definition BPF_LDX_MEM_B :: u8 where "BPF_LDX_MEM_B = 0x01 OR 0x60 OR 0x10"
definition BPF_STX_MEM_B :: u8 where "BPF_STX_MEM_B = 0x03 OR 0x60 OR 0x10"
definition BPF_PSEUDO_MAP_FD :: "4 word" where "BPF_PSEUDO_MAP_FD = 1"
definition BPF_FUNC_map_lookup_elem :: u32 where "BPF_FUNC_map_lookup_elem = 1"

lemmas spatial_codes =
  BPF_ST_MEM_W_def BPF_ALU64_ADD_K_def BPF_LD_IMM_DW_def BPF_LDX_MEM_B_def BPF_STX_MEM_B_def
  BPF_ALU64_MOV_X_def BPF_ALU64_MOV_K_def BPF_JMP_JEQ_K_def BPF_JMP_CALL_def BPF_JMP_EXIT_def

definition spatial_program :: "u32 \<Rightarrow> bpf_insn list" where
  "spatial_program map_fd =
     [INSN BPF_ST_MEM_W 10 0 (- 4) 1,
      INSN BPF_ALU64_MOV_X 2 10 0 0,
      INSN BPF_ALU64_ADD_K 2 0 0 (- 4),
      INSN BPF_LD_IMM_DW 1 BPF_PSEUDO_MAP_FD 0 map_fd,
      INSN 0 0 0 0 0,
      INSN BPF_JMP_CALL 0 0 0 BPF_FUNC_map_lookup_elem,
      INSN BPF_JMP_JEQ_K 0 0 5 0,
      INSN BPF_LDX_MEM_B 1 0 6 0,
      INSN BPF_ALU64_ADD_K 1 0 0 1,
      INSN BPF_STX_MEM_B 0 1 6 0,
      INSN BPF_ALU64_MOV_X 0 1 0 0,
      INSN BPF_JMP_EXIT 0 0 0 0,
      INSN BPF_ALU64_MOV_K 0 0 0 0,
      INSN BPF_JMP_EXIT 0 0 0 0]"

subsection \<open>Its meaning\<close>

text \<open>
  A value is a number, an address in the stack frame (an offset from its top), a map, or
  the address of the map's value of a given key. Arithmetic on the address of a value, which
  the program does not use, is not modelled; accesses have constant offsets from it.
\<close>

datatype sp_value = Sp_Num u64 | Sp_Stack int | Sp_Map u32 | Sp_Elem nat

text \<open>The values of the map by key; all of them have the same extent.\<close>

type_synonym array_map = "u8 list list"

record sp_state =
  sp_reg :: "nat \<Rightarrow> sp_value option"
  sp_stack :: "int \<Rightarrow> u32 option"
  sp_array :: array_map
  sp_pc :: nat

datatype sp_effect = Sp_Step sp_state | Sp_Exit u64 array_map | Sp_Stuck

definition sp_set :: "nat \<Rightarrow> sp_value \<Rightarrow> sp_state \<Rightarrow> sp_state" where
  "sp_set r v s = s\<lparr>sp_reg := (sp_reg s)(r \<mapsto> v), sp_pc := sp_pc s + 1\<rparr>"

definition sp_add :: "sp_value \<Rightarrow> int \<Rightarrow> sp_value option" where
  "sp_add v n =
     (case v of
        Sp_Num m \<Rightarrow> Some (Sp_Num (m + word_of_int n))
      | Sp_Stack b \<Rightarrow> Some (Sp_Stack (b + n))
      | _ \<Rightarrow> None)"

text \<open>A byte of a map value, when the access is within the extent.\<close>

definition sp_byte :: "array_map \<Rightarrow> sp_value \<Rightarrow> int \<Rightarrow> (nat \<times> nat) option" where
  "sp_byte m v off =
     (case v of
        Sp_Elem i \<Rightarrow>
          if i < length m \<and> 0 \<le> off \<and> off < int (length (m ! i)) then Some (i, nat off) else None
      | _ \<Rightarrow> None)"

definition sp_lookup :: "sp_state \<Rightarrow> sp_value option" where
  "sp_lookup s =
     (case (sp_reg s 1, sp_reg s 2) of
        (Some (Sp_Map fd), Some (Sp_Stack b)) \<Rightarrow>
          (case sp_stack s b of
             None \<Rightarrow> None
           | Some key \<Rightarrow>
               Some (if unat key < length (sp_array s) then Sp_Elem (unat key) else Sp_Num 0))
      | _ \<Rightarrow> None)"

text \<open>A comparison: an address is never NULL, and compares with nothing else.\<close>

definition sp_equal :: "sp_value \<Rightarrow> u64 \<Rightarrow> bool option" where
  "sp_equal v n = (case v of Sp_Num m \<Rightarrow> Some (m = n) | _ \<Rightarrow> if n = 0 then Some False else None)"

text \<open>The registers an instruction writes its result to.\<close>

definition sp_result :: "nat \<Rightarrow> sp_value option \<Rightarrow> sp_state \<Rightarrow> sp_effect" where
  "sp_result dst v s = (case v of None \<Rightarrow> Sp_Stuck | Some v \<Rightarrow> Sp_Step (sp_set dst v s))"

definition sp_insn :: "bpf_insn \<Rightarrow> sp_state \<Rightarrow> sp_effect" where
  "sp_insn i s =
     (let dst = unat (i_dst i); src = unat (i_src i); off = sint (i_off i)
      in if i_code i = BPF_ST_MEM_W then
           (case sp_reg s dst of
              Some (Sp_Stack b) \<Rightarrow>
                if - 512 \<le> b + off \<and> b + off \<le> - 4 \<and> (b + off) mod 4 = 0
                then Sp_Step (s\<lparr>sp_stack := (sp_stack s)(b + off \<mapsto> i_imm i), sp_pc := sp_pc s + 1\<rparr>)
                else Sp_Stuck
            | _ \<Rightarrow> Sp_Stuck)
         else if i_code i = BPF_ALU64_MOV_X then sp_result dst (sp_reg s src) s
         else if i_code i = BPF_ALU64_MOV_K then sp_result dst (Some (Sp_Num (scast (i_imm i)))) s
         else if i_code i = BPF_ALU64_ADD_K then
           sp_result dst (case sp_reg s dst of None \<Rightarrow> None | Some v \<Rightarrow> sp_add v (sint (i_imm i))) s
         else if i_code i = BPF_LD_IMM_DW \<and> i_src i = BPF_PSEUDO_MAP_FD then
           sp_result dst (Some (Sp_Map (i_imm i))) (s\<lparr>sp_pc := sp_pc s + 1\<rparr>)
         else if i_code i = BPF_JMP_CALL \<and> i_src i = 0 \<and> i_imm i = BPF_FUNC_map_lookup_elem then
           sp_result 0 (sp_lookup s) (s\<lparr>sp_reg := (\<lambda>r. if r \<in> {1..5} then None else sp_reg s r)\<rparr>)
         else if i_code i = BPF_JMP_JEQ_K \<and> off < 0 then Sp_Stuck
         else if i_code i = BPF_JMP_JEQ_K then
           (case sp_reg s dst of
              None \<Rightarrow> Sp_Stuck
            | Some v \<Rightarrow>
                (case sp_equal v (scast (i_imm i)) of
                   None \<Rightarrow> Sp_Stuck
                 | Some e \<Rightarrow> Sp_Step (s\<lparr>sp_pc := (if e then sp_pc s + 1 + nat off else sp_pc s + 1)\<rparr>)))
         else if i_code i = BPF_LDX_MEM_B then
           sp_result dst (case sp_reg s src of None \<Rightarrow> None | Some v \<Rightarrow>
             (case sp_byte (sp_array s) v off of None \<Rightarrow> None
              | Some (k, n) \<Rightarrow> Some (Sp_Num (ucast (sp_array s ! k ! n))))) s
         else if i_code i = BPF_STX_MEM_B then
           (case (sp_reg s dst, sp_reg s src) of
              (Some v, Some (Sp_Num m)) \<Rightarrow>
                (case sp_byte (sp_array s) v off of
                   None \<Rightarrow> Sp_Stuck
                 | Some (k, n) \<Rightarrow>
                     Sp_Step (s\<lparr>sp_array := (sp_array s)[k := (sp_array s ! k)[n := ucast m]], sp_pc := sp_pc s + 1\<rparr>))
            | _ \<Rightarrow> Sp_Stuck)
         else if i_code i = BPF_JMP_EXIT then
           (case sp_reg s 0 of Some (Sp_Num n) \<Rightarrow> Sp_Exit n (sp_array s) | _ \<Rightarrow> Sp_Stuck)
         else Sp_Stuck)"

definition sp_step :: "bpf_insn list \<Rightarrow> sp_state \<Rightarrow> sp_effect" where
  "sp_step insns s = (if length insns \<le> sp_pc s then Sp_Stuck else sp_insn (insns ! sp_pc s) s)"

text \<open>At most as many steps as instructions, as jumps backward have no meaning here.\<close>

primrec sp_exec :: "nat \<Rightarrow> bpf_insn list \<Rightarrow> sp_state \<Rightarrow> (u64 \<times> array_map) option" where
  "sp_exec 0 insns s = None"
| "sp_exec (Suc n) insns s =
     (case sp_step insns s of
        Sp_Step s' \<Rightarrow> sp_exec n insns s' | Sp_Exit v m \<Rightarrow> Some (v, m) | Sp_Stuck \<Rightarrow> None)"

definition sp_run :: "bpf_insn list \<Rightarrow> array_map \<Rightarrow> (u64 \<times> array_map) option" where
  "sp_run insns m =
     sp_exec (length insns) insns
       \<lparr>sp_reg = [10 \<mapsto> Sp_Stack 0], sp_stack = Map.empty, sp_array = m, sp_pc = 0\<rparr>"

subsection \<open>What it does\<close>

lemma INSN_sel:
  "i_code (INSN c d r off v) = c" "i_dst (INSN c d r off v) = d" "i_src (INSN c d r off v) = r"
  "i_off (INSN c d r off v) = off" "i_imm (INSN c d r off v) = v"
  by (simp_all add: INSN_def)

lemma sp_insn_simps:
  "sp_insn (INSN BPF_ST_MEM_W d r off v) s =
     (case sp_reg s (unat d) of
        Some (Sp_Stack b) \<Rightarrow>
          if - 512 \<le> b + sint off \<and> b + sint off \<le> - 4 \<and> (b + sint off) mod 4 = 0
          then Sp_Step (s\<lparr>sp_stack := (sp_stack s)(b + sint off \<mapsto> v), sp_pc := sp_pc s + 1\<rparr>) else Sp_Stuck
      | _ \<Rightarrow> Sp_Stuck)"
  "sp_insn (INSN BPF_ALU64_MOV_X d r off v) s = sp_result (unat d) (sp_reg s (unat r)) s"
  "sp_insn (INSN BPF_ALU64_MOV_K d r off v) s = sp_result (unat d) (Some (Sp_Num (scast v))) s"
  "sp_insn (INSN BPF_ALU64_ADD_K d r off v) s =
     sp_result (unat d) (case sp_reg s (unat d) of None \<Rightarrow> None | Some x \<Rightarrow> sp_add x (sint v)) s"
  "sp_insn (INSN BPF_LD_IMM_DW d BPF_PSEUDO_MAP_FD off v) s =
     sp_result (unat d) (Some (Sp_Map v)) (s\<lparr>sp_pc := sp_pc s + 1\<rparr>)"
  "sp_insn (INSN BPF_JMP_CALL d 0 off BPF_FUNC_map_lookup_elem) s =
     sp_result 0 (sp_lookup s) (s\<lparr>sp_reg := (\<lambda>r. if r \<in> {1..5} then None else sp_reg s r)\<rparr>)"
  "sp_insn (INSN BPF_JMP_JEQ_K d r off v) s =
     (if sint off < 0 then Sp_Stuck else case sp_reg s (unat d) of None \<Rightarrow> Sp_Stuck
      | Some x \<Rightarrow>
          (case sp_equal x (scast v) of
             None \<Rightarrow> Sp_Stuck
           | Some e \<Rightarrow> Sp_Step (s\<lparr>sp_pc := (if e then sp_pc s + 1 + nat (sint off) else sp_pc s + 1)\<rparr>)))"
  "sp_insn (INSN BPF_LDX_MEM_B d r off v) s =
     sp_result (unat d) (case sp_reg s (unat r) of None \<Rightarrow> None | Some x \<Rightarrow>
       (case sp_byte (sp_array s) x (sint off) of None \<Rightarrow> None
        | Some (k, n) \<Rightarrow> Some (Sp_Num (ucast (sp_array s ! k ! n))))) s"
  "sp_insn (INSN BPF_STX_MEM_B d r off v) s =
     (case (sp_reg s (unat d), sp_reg s (unat r)) of
        (Some x, Some (Sp_Num m)) \<Rightarrow>
          (case sp_byte (sp_array s) x (sint off) of
             None \<Rightarrow> Sp_Stuck
           | Some (k, n) \<Rightarrow>
               Sp_Step (s\<lparr>sp_array := (sp_array s)[k := (sp_array s ! k)[n := ucast m]], sp_pc := sp_pc s + 1\<rparr>))
      | _ \<Rightarrow> Sp_Stuck)"
  "sp_insn (INSN BPF_JMP_EXIT d r off v) s =
     (case sp_reg s 0 of Some (Sp_Num n) \<Rightarrow> Sp_Exit n (sp_array s) | _ \<Rightarrow> Sp_Stuck)"
  unfolding sp_insn_def Let_def INSN_sel by (simp_all add: spatial_codes)

text \<open>One more instruction, at a concrete position.\<close>

lemma sp_exec_next:
  assumes "sp_pc s < length insns"
  shows "sp_exec (numeral k) insns s =
    (case sp_insn (insns ! sp_pc s) s of
       Sp_Step s' \<Rightarrow> sp_exec (pred_numeral k) insns s' | Sp_Exit v m \<Rightarrow> Some (v, m) | Sp_Stuck \<Rightarrow> None)"
  using assms by (simp add: numeral_eq_Suc sp_step_def)

lemma spatial_program_nth:
  fixes map_fd :: u32
  defines "P \<equiv> spatial_program map_fd"
  shows "length P = 14"
    "P ! 0 = INSN BPF_ST_MEM_W 10 0 (- 4) 1" "P ! 1 = INSN BPF_ALU64_MOV_X 2 10 0 0"
    "P ! 2 = INSN BPF_ALU64_ADD_K 2 0 0 (- 4)" "P ! 3 = INSN BPF_LD_IMM_DW 1 BPF_PSEUDO_MAP_FD 0 map_fd"
    "P ! 5 = INSN BPF_JMP_CALL 0 0 0 BPF_FUNC_map_lookup_elem" "P ! 6 = INSN BPF_JMP_JEQ_K 0 0 5 0"
    "P ! 7 = INSN BPF_LDX_MEM_B 1 0 6 0" "P ! 8 = INSN BPF_ALU64_ADD_K 1 0 0 1"
    "P ! 9 = INSN BPF_STX_MEM_B 0 1 6 0" "P ! 10 = INSN BPF_ALU64_MOV_X 0 1 0 0"
    "P ! 11 = INSN BPF_JMP_EXIT 0 0 0 0" "P ! 12 = INSN BPF_ALU64_MOV_K 0 0 0 0"
    "P ! 13 = INSN BPF_JMP_EXIT 0 0 0 0"
  by (simp_all add: P_def spatial_program_def)

lemmas sp_run_simps =
  sp_exec_next spatial_program_nth sp_insn_simps sp_result_def sp_set_def sp_add_def sp_lookup_def
  sp_byte_def sp_equal_def

lemma sp_run_spatial:
  assumes m: "1 < length m" "6 < length (m ! 1)"
  shows "sp_run (spatial_program map_fd) m =
    Some (ucast (m ! 1 ! 6) + 1, m[1 := (m ! 1)[6 := m ! 1 ! 6 + 1]])"
proof -
  have u: "ucast (ucast b + 1 :: u64) = b + 1" for b :: u8
    by transfer (simp add: take_bit_eq_mod mod_simps)
  show ?thesis
    unfolding sp_run_def spatial_program_nth(1) using m
    by (simp add: sp_run_simps u del: One_nat_def) simp
qed

text \<open>A value that ends before the byte, and a key that is not there.\<close>

lemma sp_run_short: "1 < length m \<Longrightarrow> length (m ! 1) \<le> 6 \<Longrightarrow> sp_run (spatial_program map_fd) m = None"
  unfolding sp_run_def spatial_program_nth(1)
  by (simp add: sp_run_simps del: One_nat_def)

lemma sp_run_missing: "length m \<le> 1 \<Longrightarrow> sp_run (spatial_program map_fd) m = Some (0, m)"
  unfolding sp_run_def spatial_program_nth(1)
  by (simp add: sp_run_simps del: One_nat_def) simp

end
