(* ===== verification/ValueAuthority.thy ===== *)
theory ValueAuthority
  imports ArraySample SpatialProgram
begin

text \<open>
  The memory of an array map: where the bytes of its values are, and which of them the
  capability that a lookup returns can read and write.
\<close>

subsection \<open>The memory of an array\<close>

type_synonym memory = "u64 \<Rightarrow> u8"

definition value_byte :: "'w array_layout \<Rightarrow> 'c bpf_array \<Rightarrow> nat \<Rightarrow> nat \<Rightarrow> u64" where
  "value_byte L a i j = value_address L a (of_nat i) + of_nat j"

definition array_of :: "'w array_layout \<Rightarrow> 'c bpf_array \<Rightarrow> memory \<Rightarrow> array_map" where
  "array_of L a m =
     map (\<lambda>i. map (\<lambda>j. m (value_byte L a i j)) [0..<unat (bm_value_size (ba_map a))])
       [0..<unat (bm_max_entries (ba_map a))]"

lemma small_index: "i < unat (n :: u32) \<Longrightarrow> (of_nat i :: u32) < n \<and> uint (of_nat i :: u32) = int i"
  using unsigned_less [of n, where 'a = nat]
  by (simp add: word_less_nat_alt unsigned_of_nat take_bit_nat_eq_self)

lemma elem_size:
  assumes "array_ok L a"
  shows "uint (bm_value_size (ba_map a)) \<le> uint (ba_elem_size a)" "0 < uint (ba_elem_size a)"
proof -
  have v: "0 < bm_value_size (ba_map a)" "uint (bm_value_size (ba_map a)) \<le> 2 ^ 32 - 8"
    "ba_elem_size a = round_up8 (bm_value_size (ba_map a))"
    using assms by (auto simp: array_ok_def array_geometry_def)
  then show "uint (bm_value_size (ba_map a)) \<le> uint (ba_elem_size a)" using round_up8_bound by simp
  with v(1) show "0 < uint (ba_elem_size a)" by (simp add: word_less_def)
qed

lemma int_less_uint: "j < unat w \<Longrightarrow> int j < uint w"
  by (metis of_nat_less_iff uint_nat)

lemma value_byte_uint:
  assumes "array_ok L a" "i < unat (bm_max_entries (ba_map a))" "j < unat (bm_value_size (ba_map a))"
  shows "uint (value_byte L a i j) =
    uint (ba_address a) + uint (al_value L) + uint (ba_elem_size a) * int i + int j"
proof -
  note i = small_index [OF assms(2)]
  note place = value_address_uint [OF assms(1) i [THEN conjunct1]]
  note j = int_less_uint [OF assms(3)]
  have top: "uint (ba_address a) + uint (al_sizeof_array L) +
      uint (bm_max_entries (ba_map a)) * uint (ba_elem_size a) < 2 ^ 64"
    using assms(1) by (simp add: array_ok_def array_geometry_def)
  have "j < 2 ^ 32" using assms(3) unsigned_less [of "bm_value_size (ba_map a)", where 'a = nat] by simp
  then have uj: "uint (of_nat j :: u64) = int j" by (simp add: unsigned_of_nat take_bit_nat_eq_self)
  have "uint (value_address L a (of_nat i)) + int j < 2 ^ 64" using place(3) top j by linarith
  then have "uint (value_byte L a i j) = uint (value_address L a (of_nat i)) + int j"
    unfolding value_byte_def uint_word_ariths(1) uj by (intro mod_pos_pos_trivial) auto
  then show ?thesis using place(1) i by simp
qed

lemma value_byte_inject:
  assumes "array_ok L a" "i < unat (bm_max_entries (ba_map a))" "j < unat (bm_value_size (ba_map a))"
    and "i' < unat (bm_max_entries (ba_map a))" "j' < unat (bm_value_size (ba_map a))"
    and "value_byte L a i j = value_byte L a i' j'"
  shows "i = i' \<and> j = j'"
proof -
  let ?e = "uint (ba_elem_size a)"
  have small: "int j < ?e" "int j' < ?e"
    using assms(3,5) [THEN int_less_uint] elem_size(1) [OF assms(1)] by linarith+
  have "?e * int i + int j = ?e * int i' + int j'"
    using value_byte_uint [OF assms(1-3)] value_byte_uint [OF assms(1,4,5)] assms(6) by simp
  then have "(int j + ?e * int i) div ?e = (int j' + ?e * int i') div ?e" "(int j + ?e * int i) mod ?e = (int j' + ?e * int i') mod ?e"
    by (simp_all add: add.commute)
  then show ?thesis using small elem_size(2) [OF assms(1)]
    by (simp add: div_pos_pos_trivial mod_pos_pos_trivial)
qed

lemma array_of_shape:
  "length (array_of L a m) = unat (bm_max_entries (ba_map a))"
  "\<forall>v \<in> set (array_of L a m). length v = unat (bm_value_size (ba_map a))"
  "i < unat (bm_max_entries (ba_map a)) \<Longrightarrow> length (array_of L a m ! i) = unat (bm_value_size (ba_map a))"
  "i < unat (bm_max_entries (ba_map a)) \<Longrightarrow> j < unat (bm_value_size (ba_map a)) \<Longrightarrow>
    array_of L a m ! i ! j = m (value_byte L a i j)"
  by (auto simp: array_of_def)

lemma array_of_update:
  assumes "array_ok L a" "i < unat (bm_max_entries (ba_map a))" "j < unat (bm_value_size (ba_map a))"
  shows "array_of L a (m(value_byte L a i j := b)) = (array_of L a m)[i := (array_of L a m ! i)[j := b]]"
proof (rule nth_equalityI)
  fix k assume "k < length (array_of L a (m(value_byte L a i j := b)))"
  then have k: "k < unat (bm_max_entries (ba_map a))" by (simp add: array_of_shape)
  show "array_of L a (m(value_byte L a i j := b)) ! k = (array_of L a m)[i := (array_of L a m ! i)[j := b]] ! k"
  proof (rule nth_equalityI)
    fix n assume "n < length (array_of L a (m(value_byte L a i j := b)) ! k)"
    then have n: "n < unat (bm_value_size (ba_map a))" using k by (simp add: array_of_shape)
    show "array_of L a (m(value_byte L a i j := b)) ! k ! n =
        (array_of L a m)[i := (array_of L a m ! i)[j := b]] ! k ! n"
      using k n assms value_byte_inject [OF assms(1) k n assms(2,3)]
      by (cases "k = i"; cases "n = j") (auto simp: array_of_shape)
  next
    show "length (array_of L a (m(value_byte L a i j := b)) ! k) =
        length ((array_of L a m)[i := (array_of L a m ! i)[j := b]] ! k)"
      using k by (cases "k = i") (simp_all add: array_of_shape)
  qed
qed (simp add: array_of_shape)

subsection \<open>Accesses to a value\<close>

text \<open>An address inside a value is that of one of its bytes.\<close>

lemma inside_value:
  assumes "uint (value_address L a key) \<le> x" "x < uint (value_address L a key) + uint (sz :: u32)"
  obtains j where "j < unat sz" "word_of_int x = value_byte L a (unat key) j"
proof (rule that [of "nat (x - uint (value_address L a key))"])
  have "x - uint (value_address L a key) < int (unat sz)" using assms(2) by simp
  then show "nat (x - uint (value_address L a key)) < unat sz" using assms(1) by linarith
  show "word_of_int x = value_byte L a (unat key) (nat (x - uint (value_address L a key)))"
    using assms(1) by (simp add: value_byte_def)
qed

text \<open>
  C39. What the program behind the gateway can do with a looked-up value. On a map that
  \<open>array_map_alloc\<close> created, the capability of a key permits a load and a store of some bytes iff
  the key is below \<open>max_entries\<close>, the bounds of its value are representable, and all those bytes are bytes of that value:
  no byte of the value is out of reach, and none elsewhere is within it. A permitted store of a byte
  replaces one byte of that one value, and every other byte of every value is as before.
\<close>

theorem value_authority:
  fixes C :: "'c cheri" and L :: "'w array_layout" and key :: u32
  assumes "allocator_laws L owned" "cheri_laws C" "cheri_narrows C representable" "cheri_exact C representable"
    and "array_request L attr bm n index_mask"
    and "array_map_alloc C L attr bm n index_mask node w = (Some a, w')"
    and "perm = CHERI_PERM_LOAD C \<or> perm = CHERI_PERM_STORE C" "0 < width"
  defines "cap \<equiv> cbpf_array_value_cap C L (Some a) (Some key)" and "v \<equiv> value_address L a key"
  shows "(access_permitted C cap perm x width \<longleftrightarrow>
      key < at_max_entries attr \<and> representable v (ucast (at_value_size attr)) \<and>
      uint v \<le> x \<and> x + width \<le> uint v + uint (at_value_size attr)) \<and>
    (access_permitted C cap (CHERI_PERM_STORE C) x 1 \<longrightarrow>
      (\<exists>j < unat (at_value_size attr). word_of_int x = value_byte L a (unat key) j \<and>
        array_of L a (m(word_of_int x := b)) =
          (array_of L a m)[unat key := (array_of L a m ! unat key)[j := b]]))"
proof -
  obtain ok: "array_ok L a" and bm: "bm_value_size (ba_map a) = at_value_size attr" "bm_max_entries (ba_map a) = at_max_entries attr"
    and looked: "if key_usable L representable attr a key then exact_data_cap C cap v (ucast (at_value_size attr))
      else cap = cheri_null C"
    using created_array [OF assms(1,3-6)] unfolding cap_def v_def by metis
  have n: "uint (ucast (at_value_size attr) :: u64) = uint (at_value_size attr)" by (simp add: unsigned_ucast_eq uint_u32_u64)
  have access: "access_permitted C cap p x width' \<longleftrightarrow> key_usable L representable attr a key \<and> uint v \<le> x \<and>
      x + width' \<le> uint v + uint (at_value_size attr)"
    if "p = CHERI_PERM_LOAD C \<or> p = CHERI_PERM_STORE C" for p width'
  proof (cases "key_usable L representable attr a key")
    case True
    then have "exact_data_cap C cap v (ucast (at_value_size attr))" using looked by simp
    then show ?thesis using that True exact_access [of C cap v "ucast (at_value_size attr)" p x width'] data_perms n by auto
  next
    case False
    then show ?thesis using looked cheri_lawsD(6) [OF assms(2)] by (simp add: access_permitted_def)
  qed
  have "\<exists>j < unat (at_value_size attr). word_of_int x = value_byte L a (unat key) j \<and>
      array_of L a (m(word_of_int x := b)) = (array_of L a m)[unat key := (array_of L a m ! unat key)[j := b]]"
    if "access_permitted C cap (CHERI_PERM_STORE C) x 1"
  proof -
    have x: "key < at_max_entries attr" "uint v \<le> x" "x < uint v + uint (at_value_size attr)"
      using that access by (auto simp: key_usable_def)
    obtain j where j: "j < unat (at_value_size attr)" "word_of_int x = value_byte L a (unat key) j"
      using inside_value [of L a key x "at_value_size attr"] x(2,3) unfolding v_def by metis
    have "unat key < unat (at_max_entries attr)" using x(1) by (simp add: word_less_nat_alt)
    then show ?thesis using array_of_update [OF ok, of "unat key" j m b] j bm by auto
  qed
  then show ?thesis using access [OF assms(7), of width] by (auto simp: key_usable_def v_def)
qed

text \<open>The spatial guest's key on the sample array: a store to the last byte of its value, with 41 before.\<close>

lemma sample_bytes:
  "array_of sample_layout sample_array (\<lambda>x. if x = 0x104e then 41 else 0) = [replicate 7 0, [0, 0, 0, 0, 0, 0, 41]]"
  by code_simp

theorem value_authority_witness:
  "access_permitted sample_cheri (cbpf_array_value_cap sample_cheri sample_layout (Some sample_array) (Some 1))
      (CHERI_PERM_STORE sample_cheri) 0x104e 1 \<and>
    \<not> access_permitted sample_cheri (cbpf_array_value_cap sample_cheri sample_layout (Some sample_array) (Some 1))
      (CHERI_PERM_STORE sample_cheri) 0x104f 1 \<and>
    array_of sample_layout sample_array ((\<lambda>x. if x = 0x104e then 41 else 0)(0x104e := 42)) =
      [replicate 7 0, [0, 0, 0, 0, 0, 0, 42]]"
proof -
  have sizes: "at_value_size sample_attr = 7" "at_max_entries sample_attr = 2" "value_address sample_layout sample_array 1 = 0x1048"
    by (simp_all add: sample_attr_def value_address_def sample_array_def sample_layout_def)
  let ?m = "\<lambda>x :: u64. if x = 0x104e then 41 else (0 :: u8)"
  note s = value_authority [OF sample_allocator sample_cheri_laws sample_narrows sample_exact sample_request sample_array_alloc,
      where perm = "CHERI_PERM_STORE sample_cheri" and width = 1 and key = 1, unfolded sizes]
  have inside: "access_permitted sample_cheri (cbpf_array_value_cap sample_cheri sample_layout (Some sample_array) (Some 1))
      (CHERI_PERM_STORE sample_cheri) 0x104e 1"
    and outside: "\<not> access_permitted sample_cheri (cbpf_array_value_cap sample_cheri sample_layout (Some sample_array) (Some 1))
      (CHERI_PERM_STORE sample_cheri) 0x104f 1"
    using s [where x = "0x104e"] s [where x = "0x104f"] by simp_all
  obtain j where j: "j < 7" "0x104e = value_byte sample_layout sample_array 1 j"
    "array_of sample_layout sample_array (?m(0x104e := 42)) =
      (array_of sample_layout sample_array ?m)[1 := (array_of sample_layout sample_array ?m ! 1)[j := 42]]"
    using s [where x = "0x104e" and m = ?m and b = 42] inside by (auto simp del: fun_upd_apply)
  have "j \<in> {0, 1, 2, 3, 4, 5, 6}" using j(1) by auto
  then have "j = 6" using j(2) by (auto simp: value_byte_def sizes)
  then have "array_of sample_layout sample_array (?m(0x104e := 42)) = [replicate 7 0, [0, 0, 0, 0, 0, 0, 42]]"
    using j(3) unfolding sample_bytes by (simp del: fun_upd_apply)
  then show ?thesis using inside outside by blast
qed

end
