(* ===== verification/SpatialGuest.thy ===== *)
theory SpatialGuest
  imports SpatialProgram GuestOps ArrayAuthority
begin

text \<open>
  The spatial guest, \<open>src/linux/spatial/native-guest.c\<close>: it creates and initializes a map, loads
  one program, checks what the kernel reports of both, waits for an authorization and
  executes the program once. The static counters of calls are part of the state the operations work on.
\<close>

subsection \<open>System calls\<close>

record map_attr =
  ma_type :: u32
  ma_key_size :: u32
  ma_value_size :: u32
  ma_max_entries :: u32
  ma_name :: string

record map_info =
  mi_type :: u32
  mi_id :: u32
  mi_key_size :: u32
  mi_value_size :: u32
  mi_max_entries :: u32
  mi_map_flags :: u32
  mi_ifindex :: u32
  mi_btf_id :: u32
  mi_btf_key_type_id :: u32
  mi_btf_value_type_id :: u32
  mi_btf_vmlinux_value_type_id :: u32
  mi_map_extra :: u64

text \<open>A pointer field: NULL, one of the loader's buffers, or anything else.\<close>

datatype buffer = Null_Buffer | Native_Words | Translated | Map_Id | Native_Entry | Function_Length | Elsewhere

record prog_info =
  pi_type :: u32
  pi_id :: u32
  pi_jited_prog_len :: u32
  pi_xlated_prog_len :: u32
  pi_jited_prog_insns :: buffer
  pi_xlated_prog_insns :: buffer
  pi_nr_map_ids :: u32
  pi_map_ids :: buffer
  pi_name :: string
  pi_ifindex :: u32
  pi_nr_jited_ksyms :: u32
  pi_nr_jited_func_lens :: u32
  pi_jited_ksyms :: buffer
  pi_jited_func_lens :: buffer
  pi_btf_id :: u32

text \<open>What the kernel wrote to the buffers.\<close>

record prog_image =
  im_words :: "u32 list"
  im_translated :: "bpf_insn list"
  im_map_id :: u32
  im_native_entry :: u64
  im_function_length :: u32

text \<open>
  A call gives its result, and what it left in the buffers it was given; \<open>info_len\<close> for
  the queries. \<open>so_fgets\<close> gives the line, \<^term>\<open>None\<close> at the end of the input.
\<close>

record 'w spatial_os =
  so_errno :: "'w \<Rightarrow> int"
  so_getpid :: "'w \<Rightarrow> int"
  so_uname :: "'w \<Rightarrow> (string \<times> string) option"
  so_sizeof_map_info :: u32
  so_sizeof_prog_info :: u32
  so_map_create :: "map_attr \<Rightarrow> 'w \<Rightarrow> (int \<times> unit) \<times> 'w"
  so_map_info :: "int \<Rightarrow> map_info \<Rightarrow> 'w \<Rightarrow> (int \<times> u32 \<times> map_info) \<times> 'w"
  so_map_update :: "int \<Rightarrow> u32 \<Rightarrow> u8 list \<Rightarrow> 'w \<Rightarrow> (int \<times> unit) \<times> 'w"
  so_map_lookup :: "int \<Rightarrow> u32 \<Rightarrow> u8 list \<Rightarrow> 'w \<Rightarrow> (int \<times> u8 list) \<times> 'w"
  so_prog_load :: "load_attr \<Rightarrow> 'w \<Rightarrow> (int \<times> string) \<times> 'w"
  so_prog_info :: "int \<Rightarrow> prog_info \<Rightarrow> 'w \<Rightarrow> (int \<times> u32 \<times> prog_info \<times> prog_image) \<times> 'w"
  so_test_run :: "test_attr \<Rightarrow> 'w \<Rightarrow> (int \<times> u32) \<times> 'w"
  so_fgets :: "nat \<Rightarrow> 'w \<Rightarrow> string option \<times> 'w"
  so_close :: "int \<Rightarrow> 'w \<Rightarrow> 'w"
  so_reboot :: "'w \<Rightarrow> int \<times> 'w"

record 'w spatial =
  sp_os :: 'w
  sp_map_creates :: u32
  sp_map_updates :: u32
  sp_map_lookups :: u32
  sp_prog_loads :: u32
  sp_test_runs :: u32
  sp_infos :: u32
  sp_last_errno :: int

definition spatial_start :: "'w \<Rightarrow> 'w spatial" where
  "spatial_start w =
     \<lparr>sp_os = w, sp_map_creates = 0, sp_map_updates = 0, sp_map_lookups = 0, sp_prog_loads = 0,
      sp_test_runs = 0, sp_infos = 0, sp_last_errno = 0\<rparr>"

definition on_os :: "('w \<Rightarrow> 'a \<times> 'w) \<Rightarrow> 'w spatial \<Rightarrow> 'a \<times> 'w spatial" where
  "on_os f s = (case f (sp_os s) of (a, w) \<Rightarrow> (a, s\<lparr>sp_os := w\<rparr>))"

text \<open>\<open>command\<close>: \<open>count\<close> is the case of its switch.\<close>

definition command ::
    "'w spatial_os \<Rightarrow> ('w spatial \<Rightarrow> 'w spatial) \<Rightarrow> ('w \<Rightarrow> (int \<times> 'a) \<times> 'w) \<Rightarrow>
     ('w spatial, int \<times> 'a) guest_op" where
  "command so count f = do {
     change count;
     (result, out) \<leftarrow> sys (on_os f);
     e \<leftarrow> query (\<lambda>s. so_errno so (sp_os s));
     change (\<lambda>s. s\<lparr>sp_last_errno := (if result < 0 then e else 0)\<rparr>);
     ret (result, out)
   }"

definition count_map_create :: "'w spatial \<Rightarrow> 'w spatial" where
  "count_map_create s = s\<lparr>sp_map_creates := sp_map_creates s + 1\<rparr>"
definition count_map_update :: "'w spatial \<Rightarrow> 'w spatial" where
  "count_map_update s = s\<lparr>sp_map_updates := sp_map_updates s + 1\<rparr>"
definition count_map_lookup :: "'w spatial \<Rightarrow> 'w spatial" where
  "count_map_lookup s = s\<lparr>sp_map_lookups := sp_map_lookups s + 1\<rparr>"
definition count_prog_load :: "'w spatial \<Rightarrow> 'w spatial" where
  "count_prog_load s = s\<lparr>sp_prog_loads := sp_prog_loads s + 1\<rparr>"
definition count_test_run :: "'w spatial \<Rightarrow> 'w spatial" where
  "count_test_run s = s\<lparr>sp_test_runs := sp_test_runs s + 1\<rparr>"
definition count_info :: "'w spatial \<Rightarrow> 'w spatial" where
  "count_info s = s\<lparr>sp_infos := sp_infos s + 1\<rparr>"

text \<open>\<open>get_info\<close> on a map and on a program: whether it failed, and the buffers.\<close>

definition get_map_info :: "'w spatial_os \<Rightarrow> int \<Rightarrow> map_info \<Rightarrow> ('w spatial, bool \<times> map_info) guest_op" where
  "get_map_info so fd info = do {
     (result, info_len, info) \<leftarrow> command so count_info (so_map_info so fd info);
     ret (result \<noteq> 0 \<or> info_len \<noteq> so_sizeof_map_info so, info)
   }"

definition get_prog_info ::
    "'w spatial_os \<Rightarrow> int \<Rightarrow> prog_info \<Rightarrow> ('w spatial, bool \<times> prog_info \<times> prog_image) guest_op" where
  "get_prog_info so fd info = do {
     (result, info_len, info, img) \<leftarrow> command so count_info (so_prog_info so fd info);
     ret (result \<noteq> 0 \<or> info_len \<noteq> so_sizeof_prog_info so, info, img)
   }"

definition read_value :: "'w spatial_os \<Rightarrow> int \<Rightarrow> u32 \<Rightarrow> u8 list \<Rightarrow> ('w spatial, bool \<times> u8 list) guest_op" where
  "read_value so fd key readback = do {
     (result, readback) \<leftarrow> command so count_map_lookup (so_map_lookup so fd key readback);
     ret (result \<noteq> 0, readback)
   }"

subsection \<open>The control\<close>

definition PROGRAM_NAME :: string where "PROGRAM_NAME = ''cbpf_spatial''"
definition BPF_PROG_TYPE_SOCKET_FILTER :: u32 where "BPF_PROG_TYPE_SOCKET_FILTER = 1"
definition sizeof_native_words :: u32 where "sizeof_native_words = 4 * 2048"
definition sizeof_translated :: u32 where "sizeof_translated = 8 * 256"
definition map_value :: "u8 list" where "map_value = [0x11, 0x22, 0x33, 0x44, 0x55, 0x66, 41]"
definition map_key :: u32 where "map_key = 1"

text \<open>The locals of \<open>run_control\<close>.\<close>

record control =
  ct_stage :: string
  ct_map_fd :: int
  ct_prog_fd :: int
  ct_map :: map_info
  ct_sizing :: prog_info
  ct_info :: prog_info
  ct_readback :: "u8 list"
  ct_retval :: u32

definition zero_map_info :: map_info where
  "zero_map_info =
     \<lparr>mi_type = 0, mi_id = 0, mi_key_size = 0, mi_value_size = 0, mi_max_entries = 0,
      mi_map_flags = 0, mi_ifindex = 0, mi_btf_id = 0, mi_btf_key_type_id = 0,
      mi_btf_value_type_id = 0, mi_btf_vmlinux_value_type_id = 0, mi_map_extra = 0\<rparr>"

definition zero_prog_info :: prog_info where
  "zero_prog_info =
     \<lparr>pi_type = 0, pi_id = 0, pi_jited_prog_len = 0, pi_xlated_prog_len = 0,
      pi_jited_prog_insns = Null_Buffer, pi_xlated_prog_insns = Null_Buffer, pi_nr_map_ids = 0,
      pi_map_ids = Null_Buffer, pi_name = replicate 16 (CHR 0x00), pi_ifindex = 0,
      pi_nr_jited_ksyms = 0, pi_nr_jited_func_lens = 0, pi_jited_ksyms = Null_Buffer,
      pi_jited_func_lens = Null_Buffer, pi_btf_id = 0\<rparr>"

definition control_start :: control where
  "control_start =
     \<lparr>ct_stage = ''map_create'', ct_map_fd = - 1, ct_prog_fd = - 1, ct_map = zero_map_info,
      ct_sizing = zero_prog_info, ct_info = zero_prog_info, ct_readback = replicate 7 0, ct_retval = 0\<rparr>"

text \<open>A part of \<open>run_control\<close> between two assignments of \<open>stage\<close>: whether to go on, and the locals.\<close>

type_synonym 'w control_step = "control \<Rightarrow> ('w spatial, bool \<times> control) guest_op"

definition create_map :: "'w spatial_os \<Rightarrow> 'w control_step" where
  "create_map so ct = do {
     (map_fd, _) \<leftarrow> command so count_map_create (so_map_create so
       \<lparr>ma_type = BPF_MAP_TYPE_ARRAY, ma_key_size = 4, ma_value_size = 7, ma_max_entries = 2,
        ma_name = ''cbpf_array''\<rparr>);
     ret (0 \<le> map_fd, ct\<lparr>ct_map_fd := map_fd\<rparr>)
   }"

definition map_info_ok :: "map_info \<Rightarrow> bool" where
  "map_info_ok m \<longleftrightarrow>
     mi_id m \<noteq> 0 \<and> mi_type m = BPF_MAP_TYPE_ARRAY \<and> mi_key_size m = 4 \<and> mi_value_size m = 7 \<and>
     mi_max_entries m = 2 \<and> mi_map_flags m = 0 \<and> mi_ifindex m = 0 \<and> mi_btf_id m = 0 \<and>
     mi_btf_key_type_id m = 0 \<and> mi_btf_value_type_id m = 0 \<and> mi_btf_vmlinux_value_type_id m = 0 \<and>
     mi_map_extra m = 0"

definition check_map_info :: "'w spatial_os \<Rightarrow> 'w control_step" where
  "check_map_info so ct = do {
     (failed, m) \<leftarrow> get_map_info so (ct_map_fd ct) (ct_map ct);
     ret (\<not> failed \<and> map_info_ok m, ct\<lparr>ct_stage := ''map_info'', ct_map := m\<rparr>)
   }"

definition map_line :: "control \<Rightarrow> string" where
  "map_line ct =
     ''CBPF_SPATIAL_NATIVE map map_id='' @ decimal (unat (mi_id (ct_map ct))) @
     '' map_fd='' @ decimal_int (ct_map_fd ct) @ '' key=1 initial=41 map_readback='' @
     decimal (unat (ct_readback ct ! 6)) @ '' map_flags='' @ decimal (unat (mi_map_flags (ct_map ct))) @
     '' btf_id='' @ decimal (unat (mi_btf_id (ct_map ct))) @ '' value_bytes=11223344556629'' @ NL"

text \<open>The line is printed once the value read back is the value written.\<close>

definition initialize_map :: "'w spatial_os \<Rightarrow> 'w control_step" where
  "initialize_map so ct0 = do {
     let ct = ct0\<lparr>ct_stage := ''map_initialize''\<rparr>;
     (result, _) \<leftarrow> command so count_map_update (so_map_update so (ct_map_fd ct) map_key map_value);
     (if result \<noteq> 0 then ret (False, ct) else do {
        (failed, readback) \<leftarrow> read_value so (ct_map_fd ct) map_key (ct_readback ct);
        let ct = ct\<lparr>ct_readback := readback\<rparr>;
        (if failed \<or> readback \<noteq> map_value then ret (False, ct) else do {
           say (map_line ct);
           ret (True, ct)
         })
      })
   }"

definition spatial_insn_line :: "string \<Rightarrow> nat \<Rightarrow> bpf_insn \<Rightarrow> string" where
  "spatial_insn_line kind pc i =
     ''CBPF_SPATIAL_NATIVE bpf kind='' @ kind @ '' pc='' @ decimal pc @ '' code='' @ hex_byte (i_code i) @
     '' dst='' @ decimal (unat (i_dst i)) @ '' src='' @ decimal (unat (i_src i)) @
     '' off='' @ decimal_int (sint (i_off i)) @ '' imm='' @ decimal_int (sint (i_imm i)) @ NL"

definition print_bpf :: "string \<Rightarrow> bpf_insn list \<Rightarrow> ('w, unit) guest_op" where
  "print_bpf kind insns =
     say (concat (map (\<lambda>(pc, i). spatial_insn_line kind pc i) (enumerate 0 insns)))"

definition spatial_attr :: "bpf_insn list \<Rightarrow> load_attr" where
  "spatial_attr insns =
     \<lparr>la_prog_type = BPF_PROG_TYPE_SOCKET_FILTER, la_insn_cnt = of_nat (length insns),
      la_insns = insns, la_license = ''GPL'', la_log_level = 2, la_log_size = LOG_SIZE,
      la_fd_array = [], la_prog_name = PROGRAM_NAME\<rparr>"

definition load_spatial :: "'w spatial_os \<Rightarrow> 'w control_step" where
  "load_spatial so ct = do {
     let insns = spatial_program (word_of_int (ct_map_fd ct));
     print_bpf ''original'' insns;
     (prog_fd, log) \<leftarrow> command so count_prog_load (so_prog_load so (spatial_attr insns));
     set_log (cstring (take (LOG_SIZE - 1) log));
     log \<leftarrow> verifier_log;
     say (''CBPF_SPATIAL_NATIVE verifier_begin'' @ NL @ log @ NL @ ''CBPF_SPATIAL_NATIVE verifier_end'' @ NL);
     ret (0 \<le> prog_fd, ct\<lparr>ct_stage := ''program_load'', ct_prog_fd := prog_fd\<rparr>)
   }"

definition sizing_ok :: "prog_info \<Rightarrow> bool" where
  "sizing_ok s \<longleftrightarrow>
     pi_type s = BPF_PROG_TYPE_SOCKET_FILTER \<and> pi_id s \<noteq> 0 \<and>
     pi_jited_prog_len s \<noteq> 0 \<and> pi_jited_prog_len s \<le> sizeof_native_words \<and> pi_jited_prog_len s mod 4 = 0 \<and>
     pi_xlated_prog_len s \<noteq> 0 \<and> pi_xlated_prog_len s \<le> sizeof_translated \<and> pi_xlated_prog_len s mod 8 = 0 \<and>
     pi_nr_map_ids s = 1 \<and> pi_nr_jited_ksyms s = 1 \<and> pi_nr_jited_func_lens s = 1 \<and>
     pi_ifindex s = 0 \<and> pi_btf_id s = 0 \<and>
     take (length PROGRAM_NAME + 1) (pi_name s) = PROGRAM_NAME @ [CHR 0x00]"

definition size_program :: "'w spatial_os \<Rightarrow> 'w control_step" where
  "size_program so ct = do {
     (failed, sizing, _) \<leftarrow> get_prog_info so (ct_prog_fd ct) (ct_sizing ct);
     ret (\<not> failed \<and> sizing_ok sizing, ct\<lparr>ct_stage := ''program_info_size'', ct_sizing := sizing\<rparr>)
   }"

definition complete_request :: "prog_info \<Rightarrow> prog_info" where
  "complete_request sizing =
     zero_prog_info\<lparr>pi_jited_prog_len := pi_jited_prog_len sizing,
       pi_xlated_prog_len := pi_xlated_prog_len sizing, pi_jited_prog_insns := Native_Words,
       pi_xlated_prog_insns := Translated, pi_nr_map_ids := 1, pi_map_ids := Map_Id,
       pi_nr_jited_ksyms := 1, pi_jited_ksyms := Native_Entry, pi_nr_jited_func_lens := 1,
       pi_jited_func_lens := Function_Length\<rparr>"

definition complete_ok :: "map_info \<Rightarrow> prog_info \<Rightarrow> prog_info \<Rightarrow> prog_image \<Rightarrow> bool" where
  "complete_ok m sizing info img \<longleftrightarrow>
     pi_id info = pi_id sizing \<and> pi_type info = pi_type sizing \<and>
     pi_jited_prog_len info = pi_jited_prog_len sizing \<and> pi_xlated_prog_len info = pi_xlated_prog_len sizing \<and>
     pi_jited_prog_insns info = Native_Words \<and> pi_xlated_prog_insns info = Translated \<and>
     pi_nr_map_ids info = 1 \<and> pi_map_ids info = Map_Id \<and> im_map_id img = mi_id m \<and>
     pi_nr_jited_ksyms info = 1 \<and> pi_jited_ksyms info = Native_Entry \<and>
     im_native_entry img \<noteq> 0 \<and> im_native_entry img mod 4 = 0 \<and>
     pi_nr_jited_func_lens info = 1 \<and> pi_jited_func_lens info = Function_Length \<and>
     im_function_length img = pi_jited_prog_len info"

definition spatial_word_line :: "nat \<Rightarrow> u32 \<Rightarrow> string" where
  "spatial_word_line n w =
     ''CBPF_SPATIAL_NATIVE word index='' @ decimal n @ '' value='' @ hex_word w @ NL"

text \<open>\<open>%llx\<close>.\<close>

fun hex_nat :: "nat \<Rightarrow> string" where
  "hex_nat n = (if n < 16 then [hex_digit n] else hex_nat (n div 16) @ [hex_digit (n mod 16)])"

declare hex_nat.simps [simp del]

definition image_line :: "map_info \<Rightarrow> prog_info \<Rightarrow> prog_image \<Rightarrow> string" where
  "image_line m info img =
     ''CBPF_SPATIAL_NATIVE image prog_id='' @ decimal (unat (pi_id info)) @
     '' map_id='' @ decimal (unat (mi_id m)) @
     '' original_count='' @ decimal (length (spatial_program 0)) @
     '' translated_count='' @ decimal (unat (pi_xlated_prog_len info) div 8) @
     '' native_entry=0x'' @ hex_nat (unat (im_native_entry img)) @
     '' jited_len='' @ decimal (unat (pi_jited_prog_len info)) @
     '' nr_jited_ksyms='' @ decimal (unat (pi_nr_jited_ksyms info)) @
     '' nr_jited_func_lens='' @ decimal (unat (pi_nr_jited_func_lens info)) @
     '' func_len='' @ decimal (unat (im_function_length img)) @ NL"

definition complete_program :: "'w spatial_os \<Rightarrow> 'w control_step" where
  "complete_program so ct0 = do {
     (failed, info, img) \<leftarrow> get_prog_info so (ct_prog_fd ct0) (complete_request (ct_sizing ct0));
     let ct = ct0\<lparr>ct_stage := ''program_info_complete'', ct_info := info\<rparr>;
     (if failed \<or> \<not> complete_ok (ct_map ct) (ct_sizing ct) info img then ret (False, ct) else do {
        print_bpf ''translated'' (take (unat (pi_xlated_prog_len info) div 8) (im_translated img));
        say (concat (map (\<lambda>(n, w). spatial_word_line n w)
          (enumerate 0 (take (unat (pi_jited_prog_len info) div 4) (im_words img)))));
        say (image_line (ct_map ct) info img);
        ret (True, ct)
      })
   }"

definition AUTHORIZATION :: string where "AUTHORIZATION = ''CBPF_SPATIAL_NATIVE_EXECUTE'' @ NL"

definition ready_line :: "control \<Rightarrow> string" where
  "ready_line ct =
     ''CBPF_SPATIAL_NATIVE_READY map_id='' @ decimal (unat (mi_id (ct_map ct))) @
     '' prog_id='' @ decimal (unat (pi_id (ct_info ct))) @ '' held_map_fd='' @ decimal_int (ct_map_fd ct) @
     '' held_prog_fd='' @ decimal_int (ct_prog_fd ct) @ '' executed=0'' @ NL"

definition authorize :: "'w spatial_os \<Rightarrow> 'w control_step" where
  "authorize so ct0 = do {
     let ct = ct0\<lparr>ct_stage := ''authorization''\<rparr>;
     say (ready_line ct);
     line \<leftarrow> sys (on_os (so_fgets so 32));
     (if map_option cstring line \<noteq> Some AUTHORIZATION then ret (False, ct) else do {
        say (''CBPF_SPATIAL_NATIVE authorization=accepted test_run_count=0'' @ NL);
        ret (True, ct)
      })
   }"

definition run_program :: "'w spatial_os \<Rightarrow> 'w control_step" where
  "run_program so ct0 = do {
     let ct = ct0\<lparr>ct_stage := ''test_run''\<rparr>;
     (result, retval) \<leftarrow> command so count_test_run (so_test_run so (test_attr_of (ct_prog_fd ct)));
     ret (if result \<noteq> 0 then (False, ct) else (True, ct\<lparr>ct_retval := retval\<rparr>))
   }"

definition value_ok :: "u8 list \<Rightarrow> bool" where
  "value_ok readback \<longleftrightarrow> readback ! 6 = 42 \<and> take 6 readback = take 6 map_value"

definition check_result :: "'w spatial_os \<Rightarrow> 'w control_step" where
  "check_result so ct0 = do {
     (failed, readback) \<leftarrow> read_value so (ct_map_fd ct0) map_key (ct_readback ct0);
     let ct = ct0\<lparr>ct_stage := ''map_readback'', ct_readback := readback\<rparr>;
     counts \<leftarrow> query (\<lambda>s. sp_map_creates s = 1 \<and> sp_map_updates s = 1 \<and> sp_prog_loads s = 1 \<and> sp_test_runs s = 1);
     (if failed \<or> ct_retval ct \<noteq> 42 \<or> \<not> value_ok readback \<or> \<not> counts then ret (False, ct)
      else ret (True, ct\<lparr>ct_stage := ''complete''\<rparr>))
   }"

text \<open>The parts in order, up to the first that leaves to the label \<open>out\<close>.\<close>

fun run_steps :: "'w control_step list \<Rightarrow> 'w control_step" where
  "run_steps [] ct = ret (True, ct)"
| "run_steps (step # steps) ct = do {
     (go_on, ct) \<leftarrow> step ct;
     (if go_on then run_steps steps ct else ret (False, ct))
   }"

definition control_steps :: "'w spatial_os \<Rightarrow> 'w control_step list" where
  "control_steps so =
     [create_map so, check_map_info so, initialize_map so, load_spatial so, size_program so,
      complete_program so, authorize so, run_program so, check_result so]"

definition result_line :: "bool \<Rightarrow> control \<Rightarrow> 'w spatial \<Rightarrow> string" where
  "result_line passed ct s =
     ''CBPF_SPATIAL_NATIVE result='' @ (if passed then ''PASS'' else ''FAIL'') @ '' stage='' @ ct_stage ct @
     '' map_id='' @ decimal (unat (mi_id (ct_map ct))) @ '' prog_id='' @ decimal (unat (pi_id (ct_info ct))) @
     '' loaded='' @ (if 0 \<le> ct_prog_fd ct then ''1'' else ''0'') @
     '' map_create_count='' @ decimal (unat (sp_map_creates s)) @
     '' map_update_count='' @ decimal (unat (sp_map_updates s)) @
     '' map_lookup_count='' @ decimal (unat (sp_map_lookups s)) @
     '' prog_load_count='' @ decimal (unat (sp_prog_loads s)) @
     '' test_run_count='' @ decimal (unat (sp_test_runs s)) @
     '' info_count='' @ decimal (unat (sp_infos s)) @ '' retval='' @ decimal (unat (ct_retval ct)) @
     '' readback='' @ decimal (unat (ct_readback ct ! 6)) @ '' errno='' @ decimal_int (sp_last_errno s) @
     '' attached=0 unchanged_prefix='' @ (if take 6 (ct_readback ct) = take 6 map_value then ''1'' else ''0'') @
     '' value_bytes='' @ concat (map hex_byte (take 7 (ct_readback ct))) @ NL"

text \<open>Whether the control passed, its result 0.\<close>

definition run_control :: "'w spatial_os \<Rightarrow> ('w spatial, bool) guest_op" where
  "run_control so = do {
     say (''CBPF_SPATIAL_NATIVE begin program='' @ PROGRAM_NAME @
          '' prog_flags=0 map_flags=0 key=1 key_size=4 value_size=7 max_entries=2 access_offset=6 access_bytes=1'' @ NL);
     (passed, ct) \<leftarrow> run_steps (control_steps so) control_start;
     line \<leftarrow> query (result_line passed ct);
     say line;
     (if 0 \<le> ct_prog_fd ct then change (\<lambda>s. s\<lparr>sp_os := so_close so (ct_prog_fd ct) (sp_os s)\<rparr>) else ret ());
     (if 0 \<le> ct_map_fd ct then change (\<lambda>s. s\<lparr>sp_os := so_close so (ct_map_fd ct) (sp_os s)\<rparr>) else ret ());
     ret passed
   }"

definition EXPECTED_RELEASE :: string where "EXPECTED_RELEASE = ''6.7.0-cbpf-spatial-native''"

text \<open>\<open>reboot\<close> returns only when it fails; the process pauses for ever after it.\<close>

definition spatial_main :: "'w spatial_os \<Rightarrow> ('w spatial, guest_end) guest_op" where
  "spatial_main so = do {
     pid \<leftarrow> query (\<lambda>s. so_getpid so (sp_os s));
     identity \<leftarrow> query (\<lambda>s. so_uname so (sp_os s));
     (case identity of
        Some (release, version) \<Rightarrow>
          (if pid \<noteq> 1 \<or> release \<noteq> EXPECTED_RELEASE then do {
             say (''CBPF_SPATIAL_NATIVE identity=FAIL test_run_count=0 poweroff=0'' @ NL);
             ret (Guest_Returned 1)
           } else do {
             say (''CBPF_SPATIAL_NATIVE kernel='' @ release @ '' pid=1 normal_verifier=1 attached=0'' @ NL);
             say (''CBPF_SPATIAL_NATIVE kernel_version='' @ version @ NL);
             passed \<leftarrow> run_control so;
             say (''CBPF_SPATIAL_NATIVE poweroff=begin result='' @ (if passed then ''PASS'' else ''FAIL'') @ NL);
             rebooted \<leftarrow> sys (on_os (so_reboot so));
             e \<leftarrow> query (\<lambda>s. so_errno so (sp_os s));
             (if rebooted \<noteq> 0 then say (''CBPF_SPATIAL_NATIVE poweroff=FAIL errno='' @ decimal_int e @ NL) else ret ());
             ret Guest_Poweroff
           })
      | None \<Rightarrow> do {
          say (''CBPF_SPATIAL_NATIVE identity=FAIL test_run_count=0 poweroff=0'' @ NL);
          ret (Guest_Returned 1)
        })
   }"

end
