(* ===== verification/SpatialJournal.thy ===== *)
theory SpatialJournal
  imports SpatialGuest "HOL-Library.Sublist"
begin

text \<open>
  What the spatial guest asks of the kernel and of its input, in order: its run with a journal of its calls.
  The journal observes only: the same run without it has the same end, output and kernel.
\<close>

subsection \<open>The journal\<close>

text \<open>A call that may change the kernel or the input, with what it gave where a later call depends on it.\<close>

datatype os_call =
  Map_Create map_attr int
| Map_Query int
| Map_Update int u32 "u8 list"
| Map_Lookup int u32
| Prog_Load load_attr int
| Prog_Query int
| Test_Run test_attr
| Line_Read "string option"
| Close_Fd int
| Power_Off

definition logs :: "('w \<Rightarrow> 'a \<times> 'w) \<Rightarrow> ('a \<Rightarrow> os_call) \<Rightarrow> 'w \<times> os_call list \<Rightarrow> 'a \<times> ('w \<times> os_call list)" where
  "logs f call x = (case f (fst x) of (a, w) \<Rightarrow> (a, (w, snd x @ [call a])))"

definition recorded :: "'w spatial_os \<Rightarrow> ('w \<times> os_call list) spatial_os" where
  "recorded so =
     \<lparr>so_errno = (\<lambda>x. so_errno so (fst x)), so_getpid = (\<lambda>x. so_getpid so (fst x)),
      so_uname = (\<lambda>x. so_uname so (fst x)),
      so_sizeof_map_info = so_sizeof_map_info so, so_sizeof_prog_info = so_sizeof_prog_info so,
      so_map_create = (\<lambda>attr. logs (so_map_create so attr) (\<lambda>r. Map_Create attr (fst r))),
      so_map_info = (\<lambda>fd info. logs (so_map_info so fd info) (\<lambda>r. Map_Query fd)),
      so_map_update = (\<lambda>fd key v. logs (so_map_update so fd key v) (\<lambda>r. Map_Update fd key v)),
      so_map_lookup = (\<lambda>fd key out. logs (so_map_lookup so fd key out) (\<lambda>r. Map_Lookup fd key)),
      so_prog_load = (\<lambda>attr. logs (so_prog_load so attr) (\<lambda>r. Prog_Load attr (fst r))),
      so_prog_info = (\<lambda>fd info. logs (so_prog_info so fd info) (\<lambda>r. Prog_Query fd)),
      so_test_run = (\<lambda>attr. logs (so_test_run so attr) (\<lambda>r. Test_Run attr)),
      so_fgets = (\<lambda>n. logs (so_fgets so n) Line_Read),
      so_close = (\<lambda>fd x. (so_close so fd (fst x), snd x @ [Close_Fd fd])),
      so_reboot = logs (so_reboot so) (\<lambda>r. Power_Off)\<rparr>"

definition os_calls :: "('w \<times> os_call list) spatial guest \<Rightarrow> os_call list" where
  "os_calls g = snd (sp_os (gs_world g))"

text \<open>The guest without its journal.\<close>

definition erased :: "('w \<times> os_call list) spatial guest \<Rightarrow> 'w spatial guest" where
  "erased g =
     (let s = gs_world g
      in \<lparr>gs_world =
            \<lparr>sp_os = fst (sp_os s), sp_map_creates = sp_map_creates s, sp_map_updates = sp_map_updates s,
             sp_map_lookups = sp_map_lookups s, sp_prog_loads = sp_prog_loads s, sp_test_runs = sp_test_runs s,
             sp_infos = sp_infos s, sp_last_errno = sp_last_errno s\<rparr>,
          gs_log = gs_log g, gs_out = gs_out g\<rparr>)"

subsection \<open>The journal observes only\<close>

definition same :: "('w spatial, 'a) guest_op \<Rightarrow> (('w \<times> os_call list) spatial, 'a) guest_op \<Rightarrow> bool" where
  "same m m' \<longleftrightarrow> (\<forall>g. run_state m (erased g) = map_prod id erased (run_state m' g))"

named_theorems same_intros \<open>operations on the recorded kernel\<close>

lemma same_bind [same_intros]: "same m m' \<Longrightarrow> (\<And>x. same (f x) (f' x)) \<Longrightarrow> same (m \<bind> f) (m' \<bind> f')"
  by (simp add: same_def split: prod.split)

lemma same_basic [same_intros]:
  "same (ret x) (ret x)" "same (say s) (say s)" "same (set_log s) (set_log s)" "same verifier_log verifier_log"
  by (simp_all add: same_def erased_def Let_def)

lemma same_if [same_intros]: "same m m' \<Longrightarrow> same n n' \<Longrightarrow> same (if c then m else n) (if c then m' else n')"
  by simp

lemma same_case_prod [same_intros]:
  "(\<And>a b. same (f a b) (f' a b)) \<Longrightarrow> same (case p of (a, b) \<Rightarrow> f a b) (case p of (a, b) \<Rightarrow> f' a b)"
  by (cases p) simp

lemma same_case_option [same_intros]:
  "same m m' \<Longrightarrow> (\<And>a. same (f a) (f' a)) \<Longrightarrow>
     same (case p of None \<Rightarrow> m | Some a \<Rightarrow> f a) (case p of None \<Rightarrow> m' | Some a \<Rightarrow> f' a)"
  by (cases p) simp_all

lemma same_query [same_intros]:
  "same (query (\<lambda>s. so_errno so (sp_os s))) (query (\<lambda>s. so_errno (recorded so) (sp_os s)))"
  "same (query (\<lambda>s. so_getpid so (sp_os s))) (query (\<lambda>s. so_getpid (recorded so) (sp_os s)))"
  "same (query (\<lambda>s. so_uname so (sp_os s))) (query (\<lambda>s. so_uname (recorded so) (sp_os s)))"
  "same (query (result_line passed ct)) (query (result_line passed ct))"
  "same (query (\<lambda>s. sp_map_creates s = a \<and> sp_map_updates s = b \<and> sp_prog_loads s = c \<and> sp_test_runs s = d))
     (query (\<lambda>s. sp_map_creates s = a \<and> sp_map_updates s = b \<and> sp_prog_loads s = c \<and> sp_test_runs s = d))"
  by (simp_all add: same_def erased_def recorded_def Let_def result_line_def)

lemma same_change [same_intros]:
  "same (change count_map_create) (change count_map_create)" "same (change count_map_update) (change count_map_update)"
  "same (change count_map_lookup) (change count_map_lookup)" "same (change count_prog_load) (change count_prog_load)"
  "same (change count_test_run) (change count_test_run)" "same (change count_info) (change count_info)"
  "same (change (\<lambda>s. s\<lparr>sp_last_errno := e\<rparr>)) (change (\<lambda>s. s\<lparr>sp_last_errno := e\<rparr>))"
  "same (change (\<lambda>s. s\<lparr>sp_os := so_close so fd (sp_os s)\<rparr>)) (change (\<lambda>s. s\<lparr>sp_os := so_close (recorded so) fd (sp_os s)\<rparr>))"
  by (simp_all add: same_def erased_def recorded_def Let_def count_map_create_def count_map_update_def
      count_map_lookup_def count_prog_load_def count_test_run_def count_info_def)

lemma same_logs: "same (sys (on_os f)) (sys (on_os (logs f call)))"
  by (simp add: same_def erased_def on_os_def logs_def Let_def split: prod.split)

lemma same_sys [same_intros]:
  "same (sys (on_os (so_map_create so attr))) (sys (on_os (so_map_create (recorded so) attr)))"
  "same (sys (on_os (so_map_info so fd mi))) (sys (on_os (so_map_info (recorded so) fd mi)))"
  "same (sys (on_os (so_map_update so fd key v))) (sys (on_os (so_map_update (recorded so) fd key v)))"
  "same (sys (on_os (so_map_lookup so fd key v))) (sys (on_os (so_map_lookup (recorded so) fd key v)))"
  "same (sys (on_os (so_prog_load so la))) (sys (on_os (so_prog_load (recorded so) la)))"
  "same (sys (on_os (so_prog_info so fd pi))) (sys (on_os (so_prog_info (recorded so) fd pi)))"
  "same (sys (on_os (so_test_run so ta))) (sys (on_os (so_test_run (recorded so) ta)))"
  "same (sys (on_os (so_fgets so n))) (sys (on_os (so_fgets (recorded so) n)))"
  "same (sys (on_os (so_reboot so))) (sys (on_os (so_reboot (recorded so))))"
  by (simp_all add: recorded_def same_logs)

lemma same_command [same_intros]:
  "same (change count) (change count') \<Longrightarrow> same (sys (on_os f)) (sys (on_os f')) \<Longrightarrow>
     same (command so count f) (command (recorded so) count' f')"
  unfolding command_def by (intro same_intros)

lemma same_steps:
  "same (create_map so ct) (create_map (recorded so) ct)"
  "same (check_map_info so ct) (check_map_info (recorded so) ct)"
  "same (initialize_map so ct) (initialize_map (recorded so) ct)"
  "same (load_spatial so ct) (load_spatial (recorded so) ct)"
  "same (size_program so ct) (size_program (recorded so) ct)"
  "same (complete_program so ct) (complete_program (recorded so) ct)"
  "same (authorize so ct) (authorize (recorded so) ct)"
  "same (run_program so ct) (run_program (recorded so) ct)"
  "same (check_result so ct) (check_result (recorded so) ct)"
proof -
  have sizes: "so_sizeof_map_info (recorded so) = so_sizeof_map_info so"
    "so_sizeof_prog_info (recorded so) = so_sizeof_prog_info so"
    by (simp_all add: recorded_def)
  show "same (create_map so ct) (create_map (recorded so) ct)"
    "same (check_map_info so ct) (check_map_info (recorded so) ct)"
    "same (initialize_map so ct) (initialize_map (recorded so) ct)"
    "same (load_spatial so ct) (load_spatial (recorded so) ct)"
    "same (size_program so ct) (size_program (recorded so) ct)"
    "same (complete_program so ct) (complete_program (recorded so) ct)"
    "same (authorize so ct) (authorize (recorded so) ct)"
    "same (run_program so ct) (run_program (recorded so) ct)"
    "same (check_result so ct) (check_result (recorded so) ct)"
    unfolding create_map_def check_map_info_def initialize_map_def load_spatial_def size_program_def
      complete_program_def authorize_def run_program_def check_result_def get_map_info_def get_prog_info_def
      read_value_def print_bpf_def Let_def sizes
    by (intro same_intros)+
qed

lemma same_run_steps:
  "list_all2 (\<lambda>s s'. \<forall>ct. same (s ct) (s' ct)) ss ss' \<Longrightarrow> same (run_steps ss ct) (run_steps ss' ct)"
  by (induction arbitrary: ct rule: list_all2_induct) (auto intro!: same_intros)

lemma same_main: "same (spatial_main so) (spatial_main (recorded so))"
proof -
  have "same (run_steps (control_steps so) ct) (run_steps (control_steps (recorded so)) ct)" for ct
    by (rule same_run_steps) (simp add: control_steps_def same_steps)
  then have "same (run_control so) (run_control (recorded so))"
    unfolding run_control_def by (intro same_intros)
  then show ?thesis unfolding spatial_main_def by (intro same_intros)
qed

subsection \<open>The calls of a run\<close>

text \<open>The calls that bear on what is executed, and the guest's own count of executions.\<close>

fun of_interest :: "os_call \<Rightarrow> bool" where
  "of_interest (Map_Create _ _) = True"
| "of_interest (Prog_Load _ _) = True"
| "of_interest (Line_Read _) = True"
| "of_interest (Test_Run _) = True"
| "of_interest _ = False"

definition test_runs :: "'w spatial guest \<Rightarrow> u32" where
  "test_runs g = sp_test_runs (gs_world g)"

definition progress :: "('w \<times> os_call list) spatial guest \<Rightarrow> os_call list \<times> u32" where
  "progress g = (filter of_interest (os_calls g), test_runs g)"

definition quiet :: "(('w \<times> os_call list) spatial, 'a) guest_op \<Rightarrow> bool" where
  "quiet m \<longleftrightarrow> (\<forall>g. progress (snd (run_state m g)) = progress g)"

named_theorems quiet_intros \<open>operations without a call of interest\<close>

lemma quiet_bind [quiet_intros]: "quiet m \<Longrightarrow> (\<And>x. quiet (f x)) \<Longrightarrow> quiet (m \<bind> f)"
  by (simp add: quiet_def split: prod.split) (metis snd_conv)

lemma quiet_basic [quiet_intros]:
  "quiet (ret x)" "quiet (say s)" "quiet (set_log s)" "quiet verifier_log" "quiet (query q)"
  by (simp_all add: quiet_def progress_def os_calls_def test_runs_def)

lemma quiet_if [quiet_intros]: "quiet m \<Longrightarrow> quiet m' \<Longrightarrow> quiet (if c then m else m')"
  by simp

lemma quiet_case_prod [quiet_intros]: "(\<And>a b. quiet (f a b)) \<Longrightarrow> quiet (case p of (a, b) \<Rightarrow> f a b)"
  by (cases p) simp

lemma quiet_change [quiet_intros]:
  "quiet (change count_map_create)" "quiet (change count_map_update)" "quiet (change count_map_lookup)"
  "quiet (change count_prog_load)" "quiet (change count_info)"
  "quiet (change (\<lambda>s. s\<lparr>sp_last_errno := e\<rparr>))"
  "quiet (change (\<lambda>s. s\<lparr>sp_os := so_close (recorded so) fd (sp_os s)\<rparr>))"
  by (simp_all add: quiet_def progress_def os_calls_def test_runs_def recorded_def count_map_create_def
      count_map_update_def count_map_lookup_def count_prog_load_def count_info_def)

lemma quiet_logs: "(\<And>a. \<not> of_interest (call a)) \<Longrightarrow> quiet (sys (on_os (logs f call)))"
  by (simp add: quiet_def progress_def os_calls_def test_runs_def on_os_def logs_def split: prod.split)

lemma quiet_sys [quiet_intros]:
  "quiet (sys (on_os (so_map_info (recorded so) fd mi)))"
  "quiet (sys (on_os (so_map_update (recorded so) fd key v)))"
  "quiet (sys (on_os (so_map_lookup (recorded so) fd key v)))"
  "quiet (sys (on_os (so_prog_info (recorded so) fd pi)))"
  "quiet (sys (on_os (so_reboot (recorded so))))"
  by (simp_all add: recorded_def quiet_logs)

lemma quiet_command [quiet_intros]:
  "quiet (change count) \<Longrightarrow> quiet (sys (on_os f)) \<Longrightarrow> quiet (command so count f)"
  unfolding command_def by (intro quiet_intros)

lemma quiet_steps:
  "quiet (check_map_info (recorded so) ct)" "quiet (initialize_map (recorded so) ct)"
  "quiet (size_program (recorded so) ct)" "quiet (complete_program (recorded so) ct)"
  "quiet (check_result (recorded so) ct)"
  unfolding check_map_info_def initialize_map_def size_program_def complete_program_def check_result_def
    get_map_info_def get_prog_info_def read_value_def print_bpf_def Let_def
  by (intro quiet_intros)+

text \<open>Steps that leave the two descriptors.\<close>

definition same_fds :: "control \<Rightarrow> control \<Rightarrow> bool" where
  "same_fds ct ct' \<longleftrightarrow> ct_map_fd ct' = ct_map_fd ct \<and> ct_prog_fd ct' = ct_prog_fd ct"

lemma steps_fds:
  "same_fds ct (snd (fst (run_state (check_map_info so ct) g)))" "same_fds ct (snd (fst (run_state (initialize_map so ct) g)))"
  "same_fds ct (snd (fst (run_state (size_program so ct) g)))" "same_fds ct (snd (fst (run_state (complete_program so ct) g)))"
  "same_fds ct (snd (fst (run_state (authorize so ct) g)))" "same_fds ct (snd (fst (run_state (check_result so ct) g)))"
  by (simp_all add: same_fds_def check_map_info_def initialize_map_def size_program_def complete_program_def
      authorize_def check_result_def get_map_info_def get_prog_info_def read_value_def command_def print_bpf_def
      Let_def split: prod.split)

text \<open>What the steps with a call of interest add.\<close>

definition adds :: "os_call \<Rightarrow> os_call list \<times> u32 \<Rightarrow> os_call list \<times> u32" where
  "adds call p = (fst p @ [call], snd p)"

lemmas call_simps =
  command_def on_os_def recorded_def logs_def progress_def adds_def os_calls_def test_runs_def Let_def

lemma create_call:
  "run_state (create_map (recorded so) ct) g = ((b, ct'), g') \<Longrightarrow>
     \<exists>array. progress g' = adds (Map_Create array (ct_map_fd ct')) (progress g)"
  by (auto simp: create_map_def call_simps count_map_create_def split: prod.splits)

lemma load_call:
  "run_state (load_spatial (recorded so) ct) g = ((b, ct'), g') \<Longrightarrow>
     progress g' = adds (Prog_Load (spatial_attr (spatial_program (word_of_int (ct_map_fd ct)))) (ct_prog_fd ct')) (progress g)"
  by (auto simp: load_spatial_def print_bpf_def call_simps count_prog_load_def split: prod.splits)

lemma authorize_call:
  "run_state (authorize (recorded so) ct) g = ((b, ct'), g') \<Longrightarrow>
     \<exists>line. progress g' = adds (Line_Read line) (progress g) \<and> b = (map_option cstring line = Some AUTHORIZATION)"
  by (auto simp: authorize_def call_simps split: prod.splits if_splits)

lemma run_call:
  "run_state (run_program (recorded so) ct) g = ((b, ct'), g') \<Longrightarrow>
     progress g' = (fst (progress g) @ [Test_Run (test_attr_of (ct_prog_fd ct))], snd (progress g) + 1)"
  by (auto simp: run_program_def call_simps count_test_run_def split: prod.splits)

text \<open>A property of the calls that holds wherever a sequence of steps stops.\<close>

definition stops_with ::
    "(os_call list \<times> u32 \<Rightarrow> bool) \<Rightarrow> ('w \<times> os_call list) control_step list \<Rightarrow> control \<Rightarrow> os_call list \<times> u32 \<Rightarrow> bool" where
  "stops_with Q ss ct p \<longleftrightarrow> (\<forall>g. progress g = p \<longrightarrow> Q (progress (snd (run_state (run_steps ss ct) g))))"

lemma stops_quiet:
  fixes s :: "('w \<times> os_call list) control_step"
  assumes "\<And>ct. quiet (s ct)" "\<And>ct g. same_fds ct (snd (fst (run_state (s ct) g)))"
    and "Q p" "\<And>ct'. same_fds ct ct' \<Longrightarrow> stops_with Q ss ct' p"
  shows "stops_with Q (s # ss) ct p"
  unfolding stops_with_def
proof (intro allI impI)
  fix g :: "('w \<times> os_call list) spatial guest" assume g: "progress g = p"
  obtain b ct' g' where r: "run_state (s ct) g = ((b, ct'), g')" by (metis prod.exhaust)
  have "progress g' = p" using assms(1) [of ct] r g unfolding quiet_def by (metis snd_conv)
  moreover have "same_fds ct ct'" using assms(2) [of ct g] r by simp
  ultimately show "Q (progress (snd (run_state (run_steps (s # ss) ct) g)))"
    using assms(3) assms(4) [of ct'] r by (cases b) (simp_all add: stops_with_def)
qed

lemma stops_call:
  fixes s :: "('w \<times> os_call list) control_step"
  assumes "\<And>g b ct' g'. progress g = p \<Longrightarrow> run_state (s ct) g = ((b, ct'), g') \<Longrightarrow>
     (if b then stops_with Q ss ct' (progress g') else Q (progress g'))"
  shows "stops_with Q (s # ss) ct p"
  unfolding stops_with_def
proof (intro allI impI)
  fix g :: "('w \<times> os_call list) spatial guest" assume g: "progress g = p"
  obtain b ct' g' where r: "run_state (s ct) g = ((b, ct'), g')" by (metis prod.exhaust)
  show "Q (progress (snd (run_state (run_steps (s # ss) ct) g)))"
    using assms [OF g r] r by (cases b) (simp_all add: stops_with_def)
qed

lemma stops_nil: "Q p \<Longrightarrow> stops_with Q [] ct p"
  by (simp add: stops_with_def)

text \<open>
  The calls of interest: one array created, the spatial program loaded over it, one line read,
  and, exactly when the line was the authorization, one execution of that program.
\<close>

definition calls_allowed :: "os_call list \<Rightarrow> u32 \<Rightarrow> bool" where
  "calls_allowed calls runs \<longleftrightarrow>
     (\<exists>array mfd pfd line attr.
        prefix calls
          [Map_Create array mfd, Prog_Load (spatial_attr (spatial_program (word_of_int mfd))) pfd,
           Line_Read line, Test_Run attr] \<and>
        ta_prog_fd attr = pfd \<and> ta_repeat attr = 1 \<and>
        (Test_Run attr \<in> set calls \<longleftrightarrow> Line_Read line \<in> set calls \<and> map_option cstring line = Some AUTHORIZATION) \<and>
        runs = (if Test_Run attr \<in> set calls then 1 else 0))"

lemma calls_allowed_intros:
  "calls_allowed [] 0" "calls_allowed [Map_Create array mfd] 0"
  "calls_allowed [Map_Create array mfd, Prog_Load (spatial_attr (spatial_program (word_of_int mfd))) pfd] 0"
  "map_option cstring line \<noteq> Some AUTHORIZATION \<Longrightarrow>
     calls_allowed [Map_Create array mfd, Prog_Load (spatial_attr (spatial_program (word_of_int mfd))) pfd, Line_Read line] 0"
  "map_option cstring line = Some AUTHORIZATION \<Longrightarrow>
     calls_allowed [Map_Create array mfd, Prog_Load (spatial_attr (spatial_program (word_of_int mfd))) pfd, Line_Read line,
       Test_Run (test_attr_of pfd)] 1"
  unfolding calls_allowed_def
  by ((rule exI [of _ array], rule exI [of _ mfd], rule exI [of _ pfd], rule exI [of _ line],
      rule exI [of _ "test_attr_of pfd"], simp add: test_attr_of_def)+)

lemma steps_stop:
  "stops_with (\<lambda>(calls, runs). calls_allowed calls runs) (control_steps (recorded so)) control_start ([], 0)"
  unfolding control_steps_def
proof (rule stops_call, goal_cases)
  case (1 g b ct1 g1)
  then obtain array where 1: "progress g1 = ([Map_Create array (ct_map_fd ct1)], 0)"
    using create_call by (fastforce simp: adds_def)
  define mfd where "mfd = ct_map_fd ct1"
  let ?load = "Prog_Load (spatial_attr (spatial_program (word_of_int mfd)))"
  have run: "stops_with (\<lambda>(calls, runs). calls_allowed calls runs) [run_program (recorded so), check_result (recorded so)] ct
      ([Map_Create array mfd, ?load (ct_prog_fd ct), Line_Read line], 0)"
    if "map_option cstring line = Some AUTHORIZATION" for ct line
  proof (rule stops_call, goal_cases)
    case (1 g b ct' g')
    then have "progress g' = ([Map_Create array mfd, ?load (ct_prog_fd ct), Line_Read line, Test_Run (test_attr_of (ct_prog_fd ct))], 1)"
      using run_call by fastforce
    then show ?case
      using that by (auto intro!: stops_quiet stops_nil quiet_steps steps_fds calls_allowed_intros)
  qed
  have line: "stops_with (\<lambda>(calls, runs). calls_allowed calls runs)
      [authorize (recorded so), run_program (recorded so), check_result (recorded so)] ct
      ([Map_Create array mfd, ?load pfd], 0)" if pfd: "ct_prog_fd ct = pfd" for ct pfd
  proof (rule stops_call, goal_cases)
    case (1 g b ct' g')
    have "ct_prog_fd ct' = pfd" using steps_fds(5) [of ct "recorded so" g] 1(2) pfd by (simp add: same_fds_def)
    moreover obtain line where "progress g' = ([Map_Create array mfd, ?load pfd, Line_Read line], 0)"
      "b = (map_option cstring line = Some AUTHORIZATION)"
      using authorize_call [OF 1(2)] 1(1) by (auto simp: adds_def)
    ultimately show ?case using run [of line ct'] by (auto intro: calls_allowed_intros)
  qed
  have size: "stops_with (\<lambda>(calls, runs). calls_allowed calls runs)
      [size_program (recorded so), complete_program (recorded so), authorize (recorded so), run_program (recorded so),
       check_result (recorded so)] ct ([Map_Create array mfd, ?load (ct_prog_fd ct)], 0)" for ct
    by (rule stops_quiet [OF quiet_steps(3) steps_fds(3)], simp add: calls_allowed_intros,
        rule stops_quiet [OF quiet_steps(4) steps_fds(4)], simp add: calls_allowed_intros,
        rule line, simp add: same_fds_def)
  have load: "stops_with (\<lambda>(calls, runs). calls_allowed calls runs)
      [load_spatial (recorded so), size_program (recorded so), complete_program (recorded so), authorize (recorded so),
       run_program (recorded so), check_result (recorded so)] ct ([Map_Create array mfd], 0)"
    if "ct_map_fd ct = mfd" for ct
    using that size by (intro stops_call) (auto dest!: load_call simp: adds_def intro: calls_allowed_intros)
  have "stops_with (\<lambda>(calls, runs). calls_allowed calls runs)
      [check_map_info (recorded so), initialize_map (recorded so), load_spatial (recorded so), size_program (recorded so),
       complete_program (recorded so), authorize (recorded so), run_program (recorded so), check_result (recorded so)]
      ct1 ([Map_Create array mfd], 0)"
    by (rule stops_quiet [OF quiet_steps(1) steps_fds(1)], simp add: calls_allowed_intros,
        rule stops_quiet [OF quiet_steps(2) steps_fds(2)], simp add: calls_allowed_intros,
        rule load, simp add: same_fds_def mfd_def)
  then show ?case using \<open>progress g1 = _\<close> by (simp add: mfd_def calls_allowed_intros)
qed

text \<open>Operations after which, from the start, only such calls were made.\<close>

definition calls_well :: "(('w \<times> os_call list) spatial, 'a) guest_op \<Rightarrow> bool" where
  "calls_well m \<longleftrightarrow> (\<forall>g. progress g = ([], 0) \<longrightarrow>
     (case progress (snd (run_state m g)) of (calls, runs) \<Rightarrow> calls_allowed calls runs))"

lemma calls_well_quiet: "quiet m \<Longrightarrow> calls_well m"
  by (simp add: calls_well_def quiet_def calls_allowed_intros)

lemma calls_well_after:
  assumes "quiet m" "\<And>x. calls_well (f x)"
  shows "calls_well (m \<bind> f)"
  unfolding calls_well_def
proof (intro allI impI)
  fix g :: "('a \<times> os_call list) spatial guest" assume g: "progress g = ([], 0)"
  obtain x g1 where r: "run_state m g = (x, g1)" by (metis prod.exhaust)
  have "progress g1 = ([], 0)" using assms(1) r g unfolding quiet_def by (metis snd_conv)
  then show "case progress (snd (run_state (m \<bind> f) g)) of (calls, runs) \<Rightarrow> calls_allowed calls runs"
    using assms(2) [of x] r by (simp add: calls_well_def)
qed

lemma calls_well_before:
  assumes "calls_well m" "\<And>x. quiet (f x)"
  shows "calls_well (m \<bind> f)"
  unfolding calls_well_def
proof (intro allI impI)
  fix g :: "('a \<times> os_call list) spatial guest" assume g: "progress g = ([], 0)"
  obtain x g1 where r: "run_state m g = (x, g1)" by (metis prod.exhaust)
  have "progress (snd (run_state (f x) g1)) = progress g1" using assms(2) [of x] by (simp add: quiet_def)
  then show "case progress (snd (run_state (m \<bind> f) g)) of (calls, runs) \<Rightarrow> calls_allowed calls runs"
    using assms(1) r g by (auto simp: calls_well_def)
qed

lemma calls_well_control: "calls_well (run_control (recorded so))"
proof -
  have "calls_well (run_steps (control_steps (recorded so)) control_start)"
    using steps_stop [of so] by (simp add: stops_with_def calls_well_def)
  then show ?thesis
    unfolding run_control_def
    by (intro calls_well_after [OF quiet_basic(2)] calls_well_before quiet_intros)
qed

lemma calls_well_main: "calls_well (spatial_main (recorded so))"
proof -
  have option: "calls_well (case p of None \<Rightarrow> m | Some a \<Rightarrow> f a)" if "calls_well m" "\<And>a. calls_well (f a)"
    for p :: "'b option" and m and f :: "'b \<Rightarrow> (('a \<times> os_call list) spatial, guest_end) guest_op"
    using that by (cases p) simp_all
  have pair: "calls_well (case p of (a, b) \<Rightarrow> f a b)" if "\<And>a b. calls_well (f a b)"
    for p :: "'b \<times> 'c" and f :: "'b \<Rightarrow> 'c \<Rightarrow> (('a \<times> os_call list) spatial, guest_end) guest_op"
    using that by (cases p) simp
  have test: "calls_well (if c then m else n)" if "calls_well m" "calls_well n"
    for c and m n :: "(('a \<times> os_call list) spatial, guest_end) guest_op"
    using that by simp
  show ?thesis
    unfolding spatial_main_def
    by (intro calls_well_after [OF quiet_basic(5)] calls_well_after [OF quiet_basic(2)] option pair test
        calls_well_before [OF calls_well_control] calls_well_quiet [OF quiet_basic(1)] quiet_intros)
qed

lemma main_calls:
  "case run_state (spatial_main (recorded so)) \<lparr>gs_world = spatial_start (w, []), gs_log = log, gs_out = out\<rparr> of
     (ended, g') \<Rightarrow>
       if so_getpid so w = 1 \<and> map_option fst (so_uname so w) = Some EXPECTED_RELEASE
       then ended = Guest_Poweroff \<and> calls_allowed (filter of_interest (os_calls g')) (test_runs g')
       else ended = Guest_Returned 1 \<and> gs_world g' = spatial_start (w, [])"
proof -
  have start: "progress \<lparr>gs_world = spatial_start (w, []), gs_log = log, gs_out = out\<rparr> = ([], 0)"
    by (simp add: progress_def os_calls_def test_runs_def spatial_start_def)
  have main: "case run_state (spatial_main (recorded so)) \<lparr>gs_world = spatial_start (w, []), gs_log = log, gs_out = out\<rparr> of
     (ended, g') \<Rightarrow> calls_allowed (filter of_interest (os_calls g')) (test_runs g')"
    using calls_well_main [of so] start unfolding calls_well_def progress_def by (simp only: split_def fst_conv snd_conv)
  show ?thesis
  proof (cases "so_getpid so w = 1 \<and> map_option fst (so_uname so w) = Some EXPECTED_RELEASE")
    case False
    then show ?thesis
      by (auto simp: spatial_main_def spatial_start_def recorded_def split: option.split prod.split simp del: append.simps)
  next
    case True
    then obtain version where "so_uname so w = Some (EXPECTED_RELEASE, version)" "so_getpid so w = 1" by auto
    then have "fst (run_state (spatial_main (recorded so)) \<lparr>gs_world = spatial_start (w, []), gs_log = log, gs_out = out\<rparr>)
        = Guest_Poweroff"
      by (simp add: spatial_main_def spatial_start_def recorded_def split: prod.split del: append.simps)
    then show ?thesis using True main by (auto split: prod.splits)
  qed
qed

end
