(* ===== verification/SpatialProps.thy ===== *)
theory SpatialProps
  imports SpatialJournal
begin

text \<open>
  The spatial guest on a kernel of locale \<open>spatial_kernel\<close>, and what holds of it on every kernel:
  one execution of the program, exactly when the authorization was read before.
\<close>

subsection \<open>A kernel that behaves as documented\<close>

text \<open>
  \<open>maps\<close> gives the open maps with the attributes they were created with and their values,
  \<open>progs\<close> the loaded programs; \<open>ident\<close> the ids the kernel gives to descriptors and \<open>report\<close> what it reports of a
  loaded program. The host answers with the authorization. Of creations it has that of the guest's
  array when no map is open yet.
\<close>

definition array_attr :: map_attr where
  "array_attr =
     \<lparr>ma_type = BPF_MAP_TYPE_ARRAY, ma_key_size = 4, ma_value_size = 7, ma_max_entries = 2,
      ma_name = ''cbpf_array''\<rparr>"

definition fresh_array :: "map_attr \<Rightarrow> array_map" where
  "fresh_array attr = replicate (unat (ma_max_entries attr)) (replicate (unat (ma_value_size attr)) 0)"

definition reported_map :: "map_attr \<Rightarrow> u32 \<Rightarrow> map_info" where
  "reported_map attr ident =
     zero_map_info\<lparr>mi_type := ma_type attr, mi_id := ident, mi_key_size := ma_key_size attr,
       mi_value_size := ma_value_size attr, mi_max_entries := ma_max_entries attr\<rparr>"

text \<open>The pointer fields of the answer are those of the request.\<close>

definition answer :: "prog_info \<Rightarrow> prog_info \<Rightarrow> prog_info" where
  "answer request reported =
     reported\<lparr>pi_jited_prog_insns := pi_jited_prog_insns request,
       pi_xlated_prog_insns := pi_xlated_prog_insns request, pi_map_ids := pi_map_ids request,
       pi_jited_ksyms := pi_jited_ksyms request, pi_jited_func_lens := pi_jited_func_lens request\<rparr>"

locale spatial_kernel =
  fixes so :: "'w spatial_os"
    and version :: string
    and maps :: "'w \<Rightarrow> int \<rightharpoonup> map_attr \<times> array_map"
    and progs :: "'w \<Rightarrow> int \<rightharpoonup> bpf_insn list"
    and ident :: "int \<Rightarrow> u32"
    and report :: "int \<Rightarrow> prog_info"
  assumes spatial_pid: "so_getpid so w = 1"
    and spatial_release: "so_uname so w = Some (EXPECTED_RELEASE, version)"
    and map_create: "maps w = Map.empty \<Longrightarrow>
      \<exists>fd w'. so_map_create so array_attr w = ((fd, ()), w') \<and> 0 \<le> fd \<and> fd < 2 ^ 31 \<and>
      maps w' = [fd \<mapsto> (array_attr, fresh_array array_attr)] \<and> progs w' = progs w"
    and map_info: "maps w fd = Some (attr, m) \<Longrightarrow>
      \<exists>w'. so_map_info so fd info w = ((0, so_sizeof_map_info so, reported_map attr (ident fd)), w') \<and>
        maps w' = maps w \<and> progs w' = progs w"
    and map_update: "maps w fd = Some (attr, m) \<Longrightarrow> unat key < length m \<Longrightarrow>
      length bytes = unat (ma_value_size attr) \<Longrightarrow>
      \<exists>w'. so_map_update so fd key bytes w = ((0, ()), w') \<and>
        maps w' = (maps w)(fd \<mapsto> (attr, m[unat key := bytes])) \<and> progs w' = progs w"
    and map_lookup: "maps w fd = Some (attr, m) \<Longrightarrow> unat key < length m \<Longrightarrow>
      \<exists>w'. so_map_lookup so fd key out w = ((0, m ! unat key), w') \<and> maps w' = maps w \<and> progs w' = progs w"
    and prog_load: "maps w fd = Some (array_attr, m) \<Longrightarrow>
      \<exists>pfd log w'. so_prog_load so (spatial_attr (spatial_program (word_of_int fd))) w = ((pfd, log), w') \<and>
        0 \<le> pfd \<and> maps w' = maps w \<and> progs w' = (progs w)(pfd \<mapsto> spatial_program (word_of_int fd))"
    and prog_info: "progs w pfd = Some (spatial_program (word_of_int fd)) \<Longrightarrow> 0 \<le> fd \<Longrightarrow> fd < 2 ^ 31 \<Longrightarrow>
      \<exists>img w'. so_prog_info so pfd request w =
          ((0, so_sizeof_prog_info so, answer request (report pfd), img), w') \<and>
        im_map_id img = ident fd \<and>
        im_native_entry img \<noteq> 0 \<and> im_native_entry img mod 4 = 0 \<and>
        im_function_length img = pi_jited_prog_len (report pfd) \<and>
        maps w' = maps w \<and> progs w' = progs w"
    and idents: "ident fd \<noteq> 0"
    and reports: "sizing_ok (report pfd)"
    and spatial_run: "progs w pfd = Some (spatial_program (word_of_int fd)) \<Longrightarrow> maps w fd = Some (attr, m) \<Longrightarrow>
      sp_run (spatial_program (word_of_int fd)) m = Some (v, m') \<Longrightarrow>
      runs_once attr' pfd \<Longrightarrow>
      \<exists>w'. so_test_run so attr' w = ((0, ucast v), w') \<and> maps w' = (maps w)(fd \<mapsto> (attr, m')) \<and> progs w' = progs w"
    and host: "\<exists>w'. so_fgets so 32 w = (Some AUTHORIZATION, w') \<and> maps w' = maps w \<and> progs w' = progs w"
    and reboot: "\<exists>w'. so_reboot so w = (0, w')"

text \<open>What the steps leave: the kernel's state and the counters that are checked at the end.\<close>

definition shows_state ::
    "('w \<Rightarrow> int \<rightharpoonup> map_attr \<times> array_map) \<Rightarrow> ('w \<Rightarrow> int \<rightharpoonup> bpf_insn list) \<Rightarrow> int \<Rightarrow> array_map \<Rightarrow> int \<Rightarrow>
     bpf_insn list option \<Rightarrow> u32 \<times> u32 \<times> u32 \<times> u32 \<Rightarrow> 'w spatial guest \<Rightarrow> bool" where
  "shows_state maps progs fd m pfd insns counts g \<longleftrightarrow>
     (let s = gs_world g
      in maps (sp_os s) fd = Some (array_attr, m) \<and>
         (insns \<noteq> None \<longrightarrow> progs (sp_os s) pfd = insns) \<and>
         (sp_map_creates s, sp_map_updates s, sp_prog_loads s, sp_test_runs s) = counts)"

lemmas count_defs =
  count_map_create_def count_map_update_def count_map_lookup_def count_prog_load_def count_test_run_def
  count_info_def

lemma control_go:
  "run_state (step ct) g = ((True, ct'), g') \<Longrightarrow>
   run_state (run_steps (step # steps) ct) g = run_state (run_steps steps ct') g'"
  by simp

lemma array_value_ok:
  "fresh_array array_attr = [replicate 7 0, replicate 7 0]" "map_info_ok (reported_map array_attr i) \<longleftrightarrow> i \<noteq> 0"
  "length map_value = 7" "length map_value = unat (ma_value_size array_attr)"
proof -
  have two: "replicate 2 x = [x, x]" for x :: "u8 list" by (simp add: numeral_2_eq_2)
  show "fresh_array array_attr = [replicate 7 0, replicate 7 0]"
    by (simp add: fresh_array_def array_attr_def two)
  show "map_info_ok (reported_map array_attr i) \<longleftrightarrow> i \<noteq> 0"
    by (simp add: map_info_ok_def reported_map_def zero_map_info_def array_attr_def BPF_MAP_TYPE_ARRAY_def)
  show "length map_value = 7" "length map_value = unat (ma_value_size array_attr)"
    by (simp_all add: map_value_def array_attr_def)
qed

lemmas step_simps =
  command_def on_os_def count_defs shows_state_def Let_def get_map_info_def get_prog_info_def read_value_def
  map_key_def

context spatial_kernel
begin

abbreviation holds where "holds \<equiv> shows_state maps progs"

lemma create_runs:
  assumes "maps (sp_os (gs_world g)) = Map.empty" "sp_map_creates (gs_world g) = 0" "sp_map_updates (gs_world g) = 0"
    "sp_prog_loads (gs_world g) = 0" "sp_test_runs (gs_world g) = 0"
  shows "\<exists>fd g'. run_state (create_map so ct) g = ((True, ct\<lparr>ct_map_fd := fd\<rparr>), g') \<and>
    0 \<le> fd \<and> fd < 2 ^ 31 \<and> holds fd [replicate 7 0, replicate 7 0] 0 None (1, 0, 0, 0) g'"
proof -
  obtain fd w where c: "so_map_create so array_attr (sp_os (gs_world g)) = ((fd, ()), w)" "0 \<le> fd" "fd < 2 ^ 31"
    "maps w = [fd \<mapsto> (array_attr, fresh_array array_attr)]"
    using map_create [OF assms(1)] by blast
  show ?thesis
    using c assms
    by (intro exI [of _ fd])
      (simp add: create_map_def step_simps array_value_ok(1) flip: array_attr_def)
qed

lemma info_runs:
  assumes h: "holds fd m pfd insns counts g" and ct: "ct_map_fd ct = fd"
  shows "\<exists>g'. run_state (check_map_info so ct) g =
      ((True, ct\<lparr>ct_stage := ''map_info'', ct_map := reported_map array_attr (ident fd)\<rparr>), g') \<and>
    holds fd m pfd insns counts g'"
proof -
  have "maps (sp_os (gs_world g)) fd = Some (array_attr, m)" using h by (simp add: shows_state_def Let_def)
  then obtain w where w: "so_map_info so fd (ct_map ct) (sp_os (gs_world g)) =
      ((0, so_sizeof_map_info so, reported_map array_attr (ident fd)), w)"
    "maps w = maps (sp_os (gs_world g))" "progs w = progs (sp_os (gs_world g))"
    using map_info by blast
  show ?thesis
    using h w idents [of fd] by (simp add: check_map_info_def step_simps ct array_value_ok(2))
qed

lemma initialize_runs:
  assumes h: "holds fd [v0, v1] pfd None (1, 0, 0, 0) g" and ct: "ct_map_fd ct = fd"
  shows "\<exists>g'. run_state (initialize_map so ct) g =
      ((True, ct\<lparr>ct_stage := ''map_initialize'', ct_readback := map_value\<rparr>), g') \<and>
    holds fd [v0, map_value] pfd None (1, 1, 0, 0) g'"
proof -
  have "maps (sp_os (gs_world g)) fd = Some (array_attr, [v0, v1])" using h by (simp add: shows_state_def Let_def)
  then obtain w where w: "so_map_update so fd map_key map_value (sp_os (gs_world g)) = ((0, ()), w)"
    "maps w = (maps (sp_os (gs_world g)))(fd \<mapsto> (array_attr, [v0, map_value]))" "progs w = progs (sp_os (gs_world g))"
    using map_update [of "sp_os (gs_world g)" fd array_attr "[v0, v1]" map_key map_value]
    by (auto simp: map_key_def array_value_ok(4))
  then have "maps w fd = Some (array_attr, [v0, map_value])" by simp
  then obtain w' where w': "so_map_lookup so fd map_key (ct_readback ct) w = ((0, map_value), w')"
    "maps w' = maps w" "progs w' = progs w"
    using map_lookup [of w fd array_attr "[v0, map_value]" map_key "ct_readback ct"] by (auto simp: map_key_def)
  show ?thesis
    using h w w' by (simp add: initialize_map_def step_simps ct del: replicate.simps)
qed

lemma load_runs:
  assumes h: "holds fd m pfd0 None (1, 1, 0, 0) g" and ct: "ct_map_fd ct = fd"
  shows "\<exists>pfd g'. run_state (load_spatial so ct) g =
      ((True, ct\<lparr>ct_stage := ''program_load'', ct_prog_fd := pfd\<rparr>), g') \<and>
    holds fd m pfd (Some (spatial_program (word_of_int fd))) (1, 1, 1, 0) g'"
proof -
  let ?attr = "spatial_attr (spatial_program (word_of_int fd))"
  have "maps (sp_os (gs_world g)) fd = Some (array_attr, m)" using h by (simp add: shows_state_def Let_def)
  then obtain pfd log w where w: "so_prog_load so ?attr (sp_os (gs_world g)) = ((pfd, log), w)" "0 \<le> pfd"
    "maps w = maps (sp_os (gs_world g))" "progs w = (progs (sp_os (gs_world g)))(pfd \<mapsto> spatial_program (word_of_int fd))"
    using prog_load by blast
  show ?thesis
    using h w by (intro exI [of _ pfd]) (simp add: load_spatial_def print_bpf_def step_simps ct)
qed

lemma size_runs:
  assumes h: "holds fd m pfd (Some (spatial_program (word_of_int fd))) counts g" and fd: "0 \<le> fd" "fd < 2 ^ 31"
    and ct: "ct_prog_fd ct = pfd"
  shows "\<exists>g'. run_state (size_program so ct) g =
      ((True, ct\<lparr>ct_stage := ''program_info_size'', ct_sizing := answer (ct_sizing ct) (report pfd)\<rparr>), g') \<and>
    holds fd m pfd (Some (spatial_program (word_of_int fd))) counts g'"
proof -
  have "progs (sp_os (gs_world g)) pfd = Some (spatial_program (word_of_int fd))" using h by (simp add: shows_state_def Let_def)
  then obtain img w where w: "so_prog_info so pfd (ct_sizing ct) (sp_os (gs_world g)) =
      ((0, so_sizeof_prog_info so, answer (ct_sizing ct) (report pfd), img), w)"
    "maps w = maps (sp_os (gs_world g))" "progs w = progs (sp_os (gs_world g))"
    using prog_info fd by blast
  have "sizing_ok (answer (ct_sizing ct) (report pfd))"
    using reports [of pfd] by (simp add: sizing_ok_def answer_def)
  then show ?thesis
    using h w by (simp add: size_program_def step_simps ct)
qed

lemma complete_runs:
  assumes h: "holds fd m pfd (Some (spatial_program (word_of_int fd))) counts g" and fd: "0 \<le> fd" "fd < 2 ^ 31"
    and ct: "ct_prog_fd ct = pfd" "ct_sizing ct = answer zero_prog_info (report pfd)"
      "ct_map ct = reported_map array_attr (ident fd)"
  shows "\<exists>g'. run_state (complete_program so ct) g =
      ((True, ct\<lparr>ct_stage := ''program_info_complete'',
         ct_info := answer (complete_request (ct_sizing ct)) (report pfd)\<rparr>), g') \<and>
    holds fd m pfd (Some (spatial_program (word_of_int fd))) counts g'"
proof -
  let ?req = "complete_request (ct_sizing ct)"
  have "progs (sp_os (gs_world g)) pfd = Some (spatial_program (word_of_int fd))"
    using h by (simp add: shows_state_def Let_def)
  from prog_info [OF this fd, of ?req] obtain img w where w: "so_prog_info so pfd ?req (sp_os (gs_world g)) =
      ((0, so_sizeof_prog_info so, answer ?req (report pfd), img), w)"
    "im_map_id img = ident fd" "im_native_entry img \<noteq> 0" "im_native_entry img mod 4 = 0"
    "im_function_length img = pi_jited_prog_len (report pfd)"
    "maps w = maps (sp_os (gs_world g))" "progs w = progs (sp_os (gs_world g))"
    by (elim exE conjE)
  have "complete_ok (ct_map ct) (ct_sizing ct) (answer ?req (report pfd)) img"
    using w(2-5) reports [of pfd]
    by (simp add: complete_ok_def ct(2,3) answer_def complete_request_def reported_map_def sizing_ok_def)
  then show ?thesis
    using h w(1,6,7) by (simp add: complete_program_def print_bpf_def step_simps ct(1))
qed

lemma authorize_runs:
  assumes h: "holds fd m pfd insns counts g"
  shows "\<exists>g'. run_state (authorize so ct) g = ((True, ct\<lparr>ct_stage := ''authorization''\<rparr>), g') \<and>
    holds fd m pfd insns counts g'"
proof -
  obtain w where w: "so_fgets so 32 (sp_os (gs_world g)) = (Some AUTHORIZATION, w)"
    "maps w = maps (sp_os (gs_world g))" "progs w = progs (sp_os (gs_world g))"
    using host by blast
  have "cstring AUTHORIZATION = AUTHORIZATION" by (simp add: cstring_def AUTHORIZATION_def NL_def)
  then show ?thesis using h w by (simp add: authorize_def step_simps)
qed

lemma execute_runs:
  assumes h: "holds fd [v0, map_value] pfd (Some (spatial_program (word_of_int fd))) (1, 1, 1, 0) g"
    and ct: "ct_prog_fd ct = pfd"
  shows "\<exists>g'. run_state (run_program so ct) g = ((True, ct\<lparr>ct_stage := ''test_run'', ct_retval := 42\<rparr>), g') \<and>
    holds fd [v0, map_value[6 := 42]] pfd (Some (spatial_program (word_of_int fd))) (1, 1, 1, 1) g'"
proof -
  have r: "sp_run (spatial_program (word_of_int fd)) [v0, map_value] = Some (42, [v0, map_value[6 := 42]])"
    using sp_run_spatial [of "[v0, map_value]"] by (simp add: map_value_def)
  have "progs (sp_os (gs_world g)) pfd = Some (spatial_program (word_of_int fd))"
    "maps (sp_os (gs_world g)) fd = Some (array_attr, [v0, map_value])"
    using h by (simp_all add: shows_state_def Let_def)
  from spatial_run [OF this r test_attr_once] obtain w where w: "so_test_run so (test_attr_of pfd) (sp_os (gs_world g)) = ((0, 42), w)"
    "maps w = (maps (sp_os (gs_world g)))(fd \<mapsto> (array_attr, [v0, map_value[6 := 42]]))"
    "progs w = progs (sp_os (gs_world g))"
    by auto
  show ?thesis using h w by (simp add: run_program_def step_simps ct)
qed

lemma result_runs:
  assumes h: "holds fd [v0, map_value[6 := 42]] pfd insns (1, 1, 1, 1) g"
    and ct: "ct_map_fd ct = fd" "ct_retval ct = 42"
  shows "\<exists>g'. run_state (check_result so ct) g =
      ((True, ct\<lparr>ct_stage := ''complete'', ct_readback := map_value[6 := 42]\<rparr>), g') \<and>
    holds fd [v0, map_value[6 := 42]] pfd insns (1, 1, 1, 1) g'"
proof -
  have "maps (sp_os (gs_world g)) fd = Some (array_attr, [v0, map_value[6 := 42]])"
    using h by (simp add: shows_state_def Let_def)
  then obtain w where w: "so_map_lookup so fd map_key (ct_readback ct) (sp_os (gs_world g)) =
      ((0, map_value[6 := 42]), w)"
    "maps w = maps (sp_os (gs_world g))" "progs w = progs (sp_os (gs_world g))"
    using map_lookup [of "sp_os (gs_world g)" fd array_attr _ map_key] by (fastforce simp: map_key_def)
  have "value_ok (map_value[6 := 42])" by (simp add: value_ok_def map_value_def)
  then show ?thesis using h w by (simp add: check_result_def step_simps ct)
qed

text \<open>All the steps.\<close>

lemma steps_run:
  assumes "maps (sp_os (gs_world g)) = Map.empty" "sp_map_creates (gs_world g) = 0" "sp_map_updates (gs_world g) = 0"
    "sp_prog_loads (gs_world g) = 0" "sp_test_runs (gs_world g) = 0"
  shows "\<exists>ct g'. run_state (run_steps (control_steps so) control_start) g = ((True, ct), g') \<and>
    ct_stage ct = ''complete'' \<and> ct_readback ct = map_value[6 := 42] \<and> ct_retval ct = 42 \<and>
    maps (sp_os (gs_world g')) (ct_map_fd ct) = Some (array_attr, [replicate 7 0, map_value[6 := 42]]) \<and>
    sp_test_runs (gs_world g') = 1"
proof -
  obtain fd g1 where 1: "run_state (create_map so control_start) g = ((True, control_start\<lparr>ct_map_fd := fd\<rparr>), g1)"
    "0 \<le> fd" "fd < 2 ^ 31" "holds fd [replicate 7 0, replicate 7 0] 0 None (1, 0, 0, 0) g1"
    using create_runs [OF assms] by blast
  define c2 where "c2 = control_start\<lparr>ct_map_fd := fd, ct_stage := ''map_info'', ct_map := reported_map array_attr (ident fd)\<rparr>"
  obtain g2 where 2: "run_state (check_map_info so (control_start\<lparr>ct_map_fd := fd\<rparr>)) g1 = ((True, c2), g2)"
    "holds fd [replicate 7 0, replicate 7 0] 0 None (1, 0, 0, 0) g2"
    using info_runs [OF 1(4), of "control_start\<lparr>ct_map_fd := fd\<rparr>"] unfolding c2_def by auto
  define c3 where "c3 = c2\<lparr>ct_stage := ''map_initialize'', ct_readback := map_value\<rparr>"
  obtain g3 where 3: "run_state (initialize_map so c2) g2 = ((True, c3), g3)"
    "holds fd [replicate 7 0, map_value] 0 None (1, 1, 0, 0) g3"
    using initialize_runs [OF 2(2), of c2] by (auto simp: c3_def c2_def)
  obtain pfd g4 where 4: "run_state (load_spatial so c3) g3 =
      ((True, c3\<lparr>ct_stage := ''program_load'', ct_prog_fd := pfd\<rparr>), g4)"
    "holds fd [replicate 7 0, map_value] pfd (Some (spatial_program (word_of_int fd))) (1, 1, 1, 0) g4"
    using load_runs [OF 3(2), of c3] by (auto simp: c3_def c2_def)
  define c4 where "c4 = c3\<lparr>ct_stage := ''program_load'', ct_prog_fd := pfd\<rparr>"
  define c5 where "c5 = c4\<lparr>ct_stage := ''program_info_size'', ct_sizing := answer zero_prog_info (report pfd)\<rparr>"
  have z: "ct_sizing c4 = zero_prog_info" "ct_prog_fd c4 = pfd"
    by (simp_all add: c4_def c3_def c2_def control_start_def)
  obtain g5 where 5: "run_state (size_program so c4) g4 = ((True, c5), g5)"
    "holds fd [replicate 7 0, map_value] pfd (Some (spatial_program (word_of_int fd))) (1, 1, 1, 0) g5"
    using size_runs [OF 4(2) 1(2,3) z(2)] by (auto simp: c5_def z)
  have z5: "ct_prog_fd c5 = pfd" "ct_sizing c5 = answer zero_prog_info (report pfd)"
    "ct_map c5 = reported_map array_attr (ident fd)" "ct_map_fd c5 = fd"
    by (simp_all add: c5_def c4_def c3_def c2_def)
  define c6 where "c6 = c5\<lparr>ct_stage := ''program_info_complete'',
    ct_info := answer (complete_request (ct_sizing c5)) (report pfd)\<rparr>"
  obtain g6 where 6: "run_state (complete_program so c5) g5 = ((True, c6), g6)"
    "holds fd [replicate 7 0, map_value] pfd (Some (spatial_program (word_of_int fd))) (1, 1, 1, 0) g6"
    using complete_runs [OF 5(2) 1(2,3) z5(1-3)] unfolding c6_def by blast
  obtain g7 where 7: "run_state (authorize so c6) g6 = ((True, c6\<lparr>ct_stage := ''authorization''\<rparr>), g7)"
    "holds fd [replicate 7 0, map_value] pfd (Some (spatial_program (word_of_int fd))) (1, 1, 1, 0) g7"
    using authorize_runs [OF 6(2)] by blast
  define c8 where "c8 = c6\<lparr>ct_stage := ''test_run'', ct_retval := 42\<rparr>"
  obtain g8 where 8: "run_state (run_program so (c6\<lparr>ct_stage := ''authorization''\<rparr>)) g7 = ((True, c8), g8)"
    "holds fd [replicate 7 0, map_value[6 := 42]] pfd (Some (spatial_program (word_of_int fd))) (1, 1, 1, 1) g8"
    using execute_runs [OF 7(2), of "c6\<lparr>ct_stage := ''authorization''\<rparr>"] z5(1) by (auto simp: c8_def c6_def)
  have z8: "ct_map_fd c8 = fd" "ct_retval c8 = 42" by (simp_all add: c8_def c6_def z5)
  obtain g9 where 9: "run_state (check_result so c8) g8 =
      ((True, c8\<lparr>ct_stage := ''complete'', ct_readback := map_value[6 := 42]\<rparr>), g9)"
    "holds fd [replicate 7 0, map_value[6 := 42]] pfd (Some (spatial_program (word_of_int fd))) (1, 1, 1, 1) g9"
    using result_runs [OF 8(2) z8] by blast
  have "run_state (run_steps (control_steps so) control_start) g =
      ((True, c8\<lparr>ct_stage := ''complete'', ct_readback := map_value[6 := 42]\<rparr>), g9)"
    by (simp add: control_steps_def 1(1) 2(1) 3(1) 4(1) 5(1) [unfolded c4_def] 6(1) 7(1) 8(1) 9(1))
  then show ?thesis
    using 9(2) z8 by (simp add: shows_state_def Let_def)
qed

lemma spatial_main_run:
  assumes "maps w = Map.empty"
  shows "\<exists>g' out. run_state (spatial_main so) (g\<lparr>gs_world := spatial_start w\<rparr>) = (Guest_Poweroff, g') \<and>
     gs_out g' = out @ ''CBPF_SPATIAL_NATIVE poweroff=begin result=PASS'' @ NL \<and> test_runs g' = 1"
proof -
  define hello where "hello = ''CBPF_SPATIAL_NATIVE kernel='' @ EXPECTED_RELEASE @ '' pid=1 normal_verifier=1 attached=0'' @ NL"
  define g1 where "g1 = g\<lparr>gs_world := spatial_start w, gs_out := ((gs_out g @ hello) @
    ''CBPF_SPATIAL_NATIVE kernel_version='' @ version @ NL) @
    (''CBPF_SPATIAL_NATIVE begin program='' @ PROGRAM_NAME @
     '' prog_flags=0 map_flags=0 key=1 key_size=4 value_size=7 max_entries=2 access_offset=6 access_bytes=1'' @ NL)\<rparr>"
  obtain ct g2 where g2: "run_state (run_steps (control_steps so) control_start) g1 = ((True, ct), g2)"
    "test_runs g2 = 1"
    using steps_run [of g1] assms by (auto simp: g1_def spatial_start_def test_runs_def)
  let ?closed = "(if 0 \<le> ct_map_fd ct then so_close so (ct_map_fd ct) else (\<lambda>x. x))
    ((if 0 \<le> ct_prog_fd ct then so_close so (ct_prog_fd ct) else (\<lambda>x. x)) (sp_os (gs_world g2)))"
  obtain w3 where w3: "so_reboot so ?closed = (0, w3)" using reboot by blast
  define end_line where "end_line = ''CBPF_SPATIAL_NATIVE poweroff=begin result=PASS'' @ NL"
  let ?g = "g2\<lparr>gs_world := (gs_world g2)\<lparr>sp_os := w3\<rparr>,
    gs_out := (gs_out g2 @ result_line True ct (gs_world g2)) @ end_line\<rparr>"
  have control: "run_state (run_control so) (g\<lparr>gs_world := spatial_start w, gs_out := (gs_out g @ hello) @
      ''CBPF_SPATIAL_NATIVE kernel_version='' @ version @ NL\<rparr>) =
      (True, g2\<lparr>gs_world := (gs_world g2)\<lparr>sp_os := ?closed\<rparr>, gs_out := gs_out g2 @ result_line True ct (gs_world g2)\<rparr>)"
    using g2(1) unfolding run_control_def g1_def by (simp add: guest_order del: append.simps)
  have "run_state (spatial_main so) (g\<lparr>gs_world := spatial_start w\<rparr>) = (Guest_Poweroff, ?g)"
    unfolding spatial_main_def
    using control w3 spatial_pid spatial_release
    by (simp add: spatial_start_def on_os_def end_line_def guest_order flip: hello_def del: append.simps)
  then show ?thesis
    using g2(2) by (intro exI [of _ ?g] exI [of _ "gs_out g2 @ result_line True ct (gs_world g2)"])
      (simp add: end_line_def test_runs_def)
qed

end

subsection \<open>Theorems\<close>

text \<open>
  C35. The program and the extent of the map's values, for every map: when key 1 is there and
  its value has the byte at offset 6, the program returns that byte plus one and writes
  its low byte back, and nothing else changes; when the value ends before that byte there is
  no execution, the access is outside the extent; when the key is not there it returns 0.
\<close>

theorem spatial_program_extent:
  "sp_run (spatial_program map_fd) m =
    (if length m \<le> 1 then Some (0, m)
     else if length (m ! 1) \<le> 6 then None
     else Some (ucast (m ! 1 ! 6) + 1, m[1 := (m ! 1)[6 := m ! 1 ! 6 + 1]]))"
  using sp_run_spatial sp_run_short sp_run_missing by (auto simp: not_le)

text \<open>
  C34. The authorization, on every kernel and for every input, by the journal of the guest's
  calls (which changes nothing else: the run without it has the same end and leaves the same state). As
  process 1 on the expected release the guest powers off; of its calls, those that create a
  map, load a program, read a line or execute a program are, in order and as far as it got:
  one array created, the spatial program loaded over that array, one line read, and one request
  to execute the loaded program, with a repeat count of one. The request was made exactly when
  that line was read and is the authorization, and the guest's own counter of executions says so.
  In any other process, or on another release, \<open>main\<close> returns 1 without a call.
\<close>

theorem spatial_authorized:
  "case run_state (spatial_main (recorded so)) \<lparr>gs_world = spatial_start (w, []), gs_log = log, gs_out = out\<rparr> of
     (ended, g') \<Rightarrow>
       run_state (spatial_main so) \<lparr>gs_world = spatial_start w, gs_log = log, gs_out = out\<rparr> = (ended, erased g') \<and>
       (if so_getpid so w = 1 \<and> map_option fst (so_uname so w) = Some EXPECTED_RELEASE
        then ended = Guest_Poweroff \<and>
          (let calls = filter of_interest (os_calls g')
           in \<exists>array mfd pfd line attr.
                prefix calls
                  [Map_Create array mfd, Prog_Load (spatial_attr (spatial_program (word_of_int mfd))) pfd,
                   Line_Read line, Test_Run attr] \<and>
                ta_prog_fd attr = pfd \<and> ta_repeat attr = 1 \<and>
                (Test_Run attr \<in> set calls \<longleftrightarrow>
                   Line_Read line \<in> set calls \<and> map_option cstring line = Some AUTHORIZATION) \<and>
                test_runs g' = (if Test_Run attr \<in> set calls then 1 else 0))
        else ended = Guest_Returned 1 \<and> os_calls g' = [] \<and> gs_world g' = spatial_start (w, []))"
proof -
  let ?g = "\<lparr>gs_world = spatial_start (w, []), gs_log = log, gs_out = out\<rparr>"
  obtain ended g' where r: "run_state (spatial_main (recorded so)) ?g = (ended, g')" by (metis prod.exhaust)
  have "erased ?g = \<lparr>gs_world = spatial_start w, gs_log = log, gs_out = out\<rparr>"
    by (simp add: erased_def spatial_start_def)
  then have "run_state (spatial_main so) \<lparr>gs_world = spatial_start w, gs_log = log, gs_out = out\<rparr> = (ended, erased g')"
    using same_main [of so, unfolded same_def, THEN spec, of ?g] r by simp
  moreover have "if so_getpid so w = 1 \<and> map_option fst (so_uname so w) = Some EXPECTED_RELEASE
      then ended = Guest_Poweroff \<and> calls_allowed (filter of_interest (os_calls g')) (test_runs g')
      else ended = Guest_Returned 1 \<and> gs_world g' = spatial_start (w, [])"
    using main_calls [of so w log out] r by simp
  moreover have "os_calls g' = []" if "gs_world g' = spatial_start (w, [])"
    using that by (simp add: os_calls_def spatial_start_def)
  ultimately show ?thesis
    unfolding r calls_allowed_def Let_def prod.case by argo
qed

text \<open>
  C33. The spatial guest on a kernel that behaves as documented, when the host answers with the
  authorization and no map is open yet: it passes, having executed its program exactly once,
  and powers off.
\<close>

theorem spatial_guest_passes:
  assumes "spatial_kernel so version maps progs ident report" "maps w = Map.empty"
  shows "\<exists>g' out. run_state (spatial_main so) (g\<lparr>gs_world := spatial_start w\<rparr>) = (Guest_Poweroff, g') \<and>
    gs_out g' = out @ ''CBPF_SPATIAL_NATIVE poweroff=begin result=PASS'' @ NL \<and> test_runs g' = 1"
  by (rule spatial_kernel.spatial_main_run [OF assms])

end
