(* ===== verification/SpatialSystem.thy ===== *)
theory SpatialSystem
  imports ValueAuthority SpatialProps
begin

text \<open>
  The parts of the spatial study together: a kernel whose array is created by
  \<open>array_map_alloc\<close>, whose values are bytes in memory, and which executes programs by their meaning
  on those values. It is a kernel as the guest expects it (locale \<open>spatial_kernel\<close>), so
  the guest passes on it.
\<close>

subsection \<open>Whole values\<close>

text \<open>\<open>memcpy\<close> of a value into the array.\<close>

definition write_value :: "'w array_layout \<Rightarrow> 'c bpf_array \<Rightarrow> nat \<Rightarrow> u8 list \<Rightarrow> memory \<Rightarrow> memory" where
  "write_value L a i bytes m = fold (\<lambda>j m. m(value_byte L a i j := bytes ! j)) [0..<length bytes] m"

lemma write_prefix:
  assumes "array_ok L a" "i < unat (bm_max_entries (ba_map a))" "k \<le> unat (bm_value_size (ba_map a))"
    and "length bytes = unat (bm_value_size (ba_map a))"
  shows "array_of L a (fold (\<lambda>j m. m(value_byte L a i j := bytes ! j)) [0..<k] m) =
    (array_of L a m)[i := take k bytes @ drop k (array_of L a m ! i)]"
  using assms(3)
proof (induction k)
  case (Suc k)
  let ?m = "fold (\<lambda>j m. m(value_byte L a i j := bytes ! j)) [0..<k] m" and ?v = "array_of L a m ! i"
  have len: "length ?v = unat (bm_value_size (ba_map a))" "i < length (array_of L a m)"
    using assms(2) by (simp_all add: array_of_shape)
  have IH: "array_of L a ?m = (array_of L a m)[i := take k bytes @ drop k ?v]"
    using Suc.IH [OF Suc_leD [OF Suc.prems]] .
  have "array_of L a (?m(value_byte L a i k := bytes ! k)) =
      (array_of L a m)[i := (take k bytes @ drop k ?v)[k := bytes ! k]]"
    using array_of_update [OF assms(1,2), of k ?m "bytes ! k"] Suc.prems len by (simp add: IH)
  moreover have "(take k bytes @ drop k ?v)[k := bytes ! k] = take (Suc k) bytes @ drop (Suc k) ?v"
    using Suc.prems len assms(4)
    by (simp add: list_update_append take_Suc_conv_app_nth flip: Cons_nth_drop_Suc)
  ultimately show ?case by (simp del: fun_upd_apply)
qed (use assms(2) in \<open>simp add: array_of_shape\<close>)

lemma write_value_array:
  assumes "array_ok L a" "i < unat (bm_max_entries (ba_map a))" "length bytes = unat (bm_value_size (ba_map a))"
  shows "array_of L a (write_value L a i bytes m) = (array_of L a m)[i := bytes]"
  using write_prefix [OF assms(1,2) order_refl assms(3), of m] assms(2,3)
  by (simp add: write_value_def array_of_shape)

subsection \<open>The kernel\<close>

record authority_machine =
  am_memory :: memory
  am_array :: "swcap bpf_array option"
  am_prog :: "bpf_insn list option"

definition am_maps :: "authority_machine \<Rightarrow> int \<rightharpoonup> map_attr \<times> array_map" where
  "am_maps w = (\<lambda>fd. if fd = 3 \<and> am_array w = Some sample_array
     then Some (array_attr, array_of sample_layout sample_array (am_memory w)) else None)"
definition am_progs :: "authority_machine \<Rightarrow> int \<rightharpoonup> bpf_insn list" where
  "am_progs w = (\<lambda>fd. if fd = 4 then am_prog w else None)"

text \<open>The area comes zeroed; the rest of the kernel makes 80 bytes and the index mask 1 of the request.\<close>

definition am_create :: "map_attr \<Rightarrow> authority_machine \<Rightarrow> (int \<times> unit) \<times> authority_machine" where
  "am_create attr w =
     (case array_map_alloc sample_cheri sample_layout
         \<lparr>at_type = ma_type attr, at_flags = 0, at_value_size = ma_value_size attr, at_max_entries = ma_max_entries attr\<rparr>
         \<lparr>bm_type = ma_type attr, bm_flags = 0, bm_value_size = ma_value_size attr,
          bm_max_entries = ma_max_entries attr, bm_array_ops = True, bm_record = False\<rparr> 80 1 0 {} of
        (None, _) \<Rightarrow> ((- 12, ()), w)
      | (Some a, _) \<Rightarrow> ((3, ()), w\<lparr>am_memory := (\<lambda>x. 0), am_array := Some a\<rparr>))"

text \<open>A run that was asked for once reads the values from memory and writes that of key 1 back, which is all the guest's program changes.\<close>

definition am_run :: "test_attr \<Rightarrow> authority_machine \<Rightarrow> (int \<times> u32) \<times> authority_machine" where
  "am_run attr w =
     (case am_progs w (ta_prog_fd attr) of
        Some insns \<Rightarrow>
          if ta_repeat attr \<noteq> 1 then ((- 22, 0), w)
          else (case sp_run insns (array_of sample_layout sample_array (am_memory w)) of
             None \<Rightarrow> ((- 14, 0), w)
           | Some (v, values) \<Rightarrow>
               ((0, ucast v), w\<lparr>am_memory := write_value sample_layout sample_array 1 (values ! 1) (am_memory w)\<rparr>))
      | None \<Rightarrow> ((- 9, 0), w))"

definition am_report :: prog_info where
  "am_report =
     zero_prog_info\<lparr>pi_type := BPF_PROG_TYPE_SOCKET_FILTER, pi_id := 9, pi_jited_prog_len := 8,
       pi_xlated_prog_len := 16, pi_nr_map_ids := 1, pi_nr_jited_ksyms := 1, pi_nr_jited_func_lens := 1,
       pi_name := PROGRAM_NAME @ replicate 4 (CHR 0x00)\<rparr>"

definition am_image :: prog_image where
  "am_image =
     \<lparr>im_words = [0, 1], im_translated = [INSN BPF_JMP_EXIT 0 0 0 0], im_map_id = 7,
      im_native_entry = 0x1000, im_function_length = 8\<rparr>"

definition authority_os :: "authority_machine spatial_os" where
  "authority_os =
     \<lparr>so_errno = (\<lambda>w. 0), so_getpid = (\<lambda>w. 1), so_uname = (\<lambda>w. Some (EXPECTED_RELEASE, ''1'')),
      so_sizeof_map_info = 88, so_sizeof_prog_info = 232,
      so_map_create = am_create,
      so_map_info = (\<lambda>fd info w. ((0, 88, reported_map array_attr 7), w)),
      so_map_update = (\<lambda>fd key v w.
        ((0, ()), w\<lparr>am_memory := write_value sample_layout sample_array (unat key) v (am_memory w)\<rparr>)),
      so_map_lookup = (\<lambda>fd key out w. ((0, array_of sample_layout sample_array (am_memory w) ! unat key), w)),
      so_prog_load = (\<lambda>attr w. ((4, []), w\<lparr>am_prog := Some (la_insns attr)\<rparr>)),
      so_prog_info = (\<lambda>fd req w. ((0, 232, answer req am_report, am_image), w)),
      so_test_run = am_run,
      so_fgets = (\<lambda>n w. (Some AUTHORIZATION, w)),
      so_close = (\<lambda>fd w. if fd = 3 then w\<lparr>am_array := None\<rparr> else if fd = 4 then w\<lparr>am_prog := None\<rparr> else w),
      so_reboot = (\<lambda>w. (0, w))\<rparr>"

lemma am_create_array:
  "am_create array_attr w = ((3, ()), w\<lparr>am_memory := (\<lambda>x. 0), am_array := Some sample_array\<rparr>)"
  using sample_array_alloc
  by (simp add: am_create_def array_attr_def sample_attr_def sample_bm_def BPF_MAP_TYPE_ARRAY_def)

lemma am_zeroed: "array_of sample_layout sample_array (\<lambda>x. 0) = fresh_array array_attr"
  by code_simp

lemma am_sizes: "unat (bm_max_entries (ba_map sample_array)) = 2" "unat (bm_value_size (ba_map sample_array)) = 7"
  by (simp_all add: sample_array_def sample_bm_def)

lemma am_run_same:
  assumes "am_progs w pfd = Some (spatial_program (word_of_int fd))" "am_maps w fd = Some (attr, m)"
    and "sp_run (spatial_program (word_of_int fd)) m = Some (v, m')" "runs_once attr' pfd"
  shows "\<exists>w'. am_run attr' w = ((0, ucast v), w') \<and> am_maps w' = (am_maps w)(fd \<mapsto> (attr, m')) \<and> am_progs w' = am_progs w"
proof -
  have w: "fd = 3" "am_array w = Some sample_array" "attr = array_attr"
    and m: "m = array_of sample_layout sample_array (am_memory w)"
    using assms(2) by (auto simp: am_maps_def split: if_splits)
  have len: "length m = 2" "length (m ! 1) = 7" unfolding m by (simp_all add: array_of_shape am_sizes)
  have m': "m' = m[1 := m' ! 1]" "length (m' ! 1) = 7"
    using assms(3) sp_run_spatial [of m "word_of_int fd"] len by auto
  have "array_of sample_layout sample_array (write_value sample_layout sample_array 1 (m' ! 1) (am_memory w)) = m'"
    using write_value_array [OF sample_array_ok, of 1 "m' ! 1" "am_memory w"] m' by (simp add: am_sizes flip: m)
  then show ?thesis
    using w m assms(1,3,4) by (simp add: am_run_def runs_once_def am_maps_def am_progs_def fun_eq_iff)
qed

lemma am_update:
  assumes "am_maps w fd = Some (attr, m)" "unat key < length m" "length bytes = unat (ma_value_size attr)"
  shows "am_maps (w\<lparr>am_memory := write_value sample_layout sample_array (unat key) bytes (am_memory w)\<rparr>) =
    (am_maps w)(fd \<mapsto> (attr, m[unat key := bytes]))"
proof -
  have w: "fd = 3" "am_array w = Some sample_array" "attr = array_attr"
    "m = array_of sample_layout sample_array (am_memory w)"
    using assms(1) by (auto simp: am_maps_def split: if_splits)
  have "array_of sample_layout sample_array (write_value sample_layout sample_array (unat key) bytes (am_memory w)) =
      m[unat key := bytes]"
    using write_value_array [OF sample_array_ok, of "unat key" bytes "am_memory w"] assms(2,3) w
    by (simp add: array_of_shape am_sizes array_attr_def)
  then show ?thesis using w by (auto simp: am_maps_def fun_eq_iff)
qed

interpretation authority_system: spatial_kernel authority_os "''1''" am_maps am_progs "\<lambda>fd. 7" "\<lambda>fd. am_report"
proof (unfold_locales, goal_cases)
  case (3 w)
  then show ?case
    by (auto simp: authority_os_def am_create_array am_maps_def am_progs_def am_zeroed fun_eq_iff)
next
  case (5 w fd attr m key bytes)
  then show ?case using am_update [OF 5] by (simp add: authority_os_def am_progs_def fun_eq_iff)
next
  case (10 fd)
  show ?case
    by (simp add: sizing_ok_def am_report_def zero_prog_info_def sizeof_native_words_def sizeof_translated_def
        PROGRAM_NAME_def)
next
  case (11 w pfd fd attr m v m' attr')
  then show ?case using am_run_same [OF 11] by (simp add: authority_os_def)
qed (auto simp: authority_os_def am_maps_def am_progs_def am_image_def am_report_def zero_prog_info_def
    spatial_attr_def fun_eq_iff split: if_splits)

text \<open>The guest on this kernel, which changes one byte of the array.\<close>

theorem spatial_guest_passes_witness:
  "\<exists>g'. run_state (spatial_main authority_os)
      \<lparr>gs_world = spatial_start \<lparr>am_memory = (\<lambda>x. 0), am_array = None, am_prog = None\<rparr>, gs_log = [], gs_out = []\<rparr> =
      (Guest_Poweroff, g') \<and> test_runs g' = 1"
proof -
  let ?w = "\<lparr>am_memory = (\<lambda>x. 0), am_array = None, am_prog = None\<rparr> :: authority_machine"
  have "am_maps ?w = Map.empty" by (simp add: am_maps_def fun_eq_iff)
  from spatial_guest_passes [OF authority_system.spatial_kernel_axioms this,
      of "\<lparr>gs_world = spatial_start ?w, gs_log = [], gs_out = []\<rparr>"]
  show ?thesis by auto
qed

end
