(* ===== verification/JitCode.thy ===== *)
theory JitCode
  imports JitAdmit
begin

text \<open>
  Code generation of the kernel's compiler, \<open>src/linux/ownership/cbpf_jit.c\<close>: the emission
  of words in three passes over the same templates (layout, writing, checking), and
  \<open>cbpf_jit_compile\<close>.

  The instruction encoders \<open>A64_...\<close>, the break word and the register numbers of
  \<open>bpf_jit.h\<close>, the configuration, the allocators and the addresses are parameters, the
  fields of \<open>code_env\<close>. Words are stored as values, so the little-endian conversions are
  the identity; what is printed is not modelled.
\<close>

subsection \<open>Constants and the environment\<close>

definition CAP_MOV :: u32 where "CAP_MOV = 0xc2c1d000"
definition CAP_STR :: u32 where "CAP_STR = 0x82400000"
definition CAP_LDR :: u32 where "CAP_LDR = 0x82600000"
definition CAP_BLRS :: u32 where "CAP_BLRS = 0xc2c23002"
definition CAP_RET_CLR :: u32 where "CAP_RET_CLR = 0xc2c253c0"
definition CAP_LDR_C16_SP :: u32 where "CAP_LDR_C16_SP = 0xc24003f0"
definition CAP_RETR_C16 :: u32 where "CAP_RETR_C16 = 0xc2c25203"
definition CAP_GCTAG :: u32 where "CAP_GCTAG = 0xc2c09000"

definition native_regs :: "nat list" where "native_regs = [7, 0, 1, 2, 3, 4, 19, 20, 21, 22]"

definition native_reg :: "4 word \<Rightarrow> nat" where "native_reg r = native_regs ! unat r"

text \<open>The encoders take the operand size first; displacements are signed, in words.\<close>

record code_env = jit_env +
  A64_MOVZ :: "nat \<Rightarrow> nat \<Rightarrow> u64 \<Rightarrow> nat \<Rightarrow> u32"
  A64_MOVK :: "nat \<Rightarrow> nat \<Rightarrow> u64 \<Rightarrow> nat \<Rightarrow> u32"
  A64_MOV :: "nat \<Rightarrow> nat \<Rightarrow> nat \<Rightarrow> u32"
  A64_PUSH :: "nat \<Rightarrow> nat \<Rightarrow> nat \<Rightarrow> u32"
  A64_POP :: "nat \<Rightarrow> nat \<Rightarrow> nat \<Rightarrow> u32"
  A64_SUB_I :: "nat \<Rightarrow> nat \<Rightarrow> nat \<Rightarrow> nat \<Rightarrow> u32"
  A64_ADD_I :: "nat \<Rightarrow> nat \<Rightarrow> nat \<Rightarrow> nat \<Rightarrow> u32"
  A64_STR64I :: "nat \<Rightarrow> nat \<Rightarrow> nat \<Rightarrow> u32"
  A64_ADR :: "nat \<Rightarrow> int \<Rightarrow> u32"
  A64_CBZ :: "nat \<Rightarrow> nat \<Rightarrow> int \<Rightarrow> u32"
  A64_B :: "int \<Rightarrow> u32"
  A64_BLR :: "nat \<Rightarrow> u32"
  A64_RET :: "nat \<Rightarrow> u32"
  A64_R :: "nat \<Rightarrow> nat"
  A64_LR :: nat
  A64_FP :: nat
  A64_SP :: nat
  A64_ZR :: nat
  A64_NOP :: u32
  A64_BTI_JC :: u32
  A64_PACIASP :: u32
  A64_AUTIASP :: u32
  AARCH64_BREAK_FAULT :: u32
  je_bti :: bool
  je_ptr_auth :: bool
  je_enter :: u64
  je_kzalloc :: bool
  je_binary_alloc :: "nat \<Rightarrow> bool"

text \<open>
  The fields of \<open>struct cbpf_compiler\<close> that generation uses, after \<open>prog\<close> and the flow
  states. The index stays at or below \<open>CBPF_MAX_WORDS\<close>, so its 32 bits never wrap.
\<close>

record compiler =
  c_prog :: u64
  c_insnsi :: "bpf_insn list"
  c_operation :: "u8 list"
  c_offset :: "nat list"
  c_image :: "u32 list option"
  c_index :: nat
  c_words :: nat
  c_restricted_exit :: nat
  c_executive_exit :: nat
  c_executive_words :: nat
  c_check :: bool
  c_failed :: bool

subsection \<open>Emission\<close>

definition fail :: "compiler \<Rightarrow> compiler" where
  "fail c = c\<lparr>c_failed := True\<rparr>"

definition word :: "'z code_env_scheme \<Rightarrow> compiler \<Rightarrow> u32 \<Rightarrow> compiler" where
  "word E c instruction =
     (if c_index c \<ge> CBPF_MAX_WORDS \<or> (c_image c \<noteq> None \<and> c_index c \<ge> c_words c) \<or>
         instruction = AARCH64_BREAK_FAULT E
      then fail c
      else
        let c = (case c_image c of
                   None \<Rightarrow> c
                 | Some im \<Rightarrow>
                     if c_check c then (if im ! c_index c \<noteq> instruction then fail c else c)
                     else c\<lparr>c_image := Some (im[c_index c := instruction])\<rparr>)
        in c\<lparr>c_index := c_index c + 1\<rparr>)"

text \<open>
  A sequence of \<open>word(c, ...)\<close> calls, each argument evaluated on the context it is
  emitted in: some operands are distances from the current index.
\<close>

definition emit :: "'z code_env_scheme \<Rightarrow> (compiler \<Rightarrow> u32) list \<Rightarrow> compiler \<Rightarrow> compiler" where
  "emit E fs c = foldl (\<lambda>c f. word E c (f c)) c fs"

text \<open>The constant words of \<open>immediate\<close> and \<open>clear_registers\<close>.\<close>

definition immediate :: "'z code_env_scheme \<Rightarrow> nat \<Rightarrow> u64 \<Rightarrow> (compiler \<Rightarrow> u32) list" where
  "immediate E reg v =
     (\<lambda>c. A64_MOVZ E 1 reg (v AND 0xffff) 0) #
     map (\<lambda>shift c. A64_MOVK E 1 reg (drop_bit shift v AND 0xffff) shift) [16, 32, 48]"

definition clear_registers :: "'z code_env_scheme \<Rightarrow> bool \<Rightarrow> (compiler \<Rightarrow> u32) list" where
  "clear_registers E entering =
     map (\<lambda>reg c. A64_MOVZ E 1 reg 0 0)
       (filter (\<lambda>reg. \<not> (if entering then reg = 15 \<or> reg = 17 else reg = 7)) [0..<30])"

definition prologue :: "'z code_env_scheme \<Rightarrow> u64 \<Rightarrow> (compiler \<Rightarrow> u32) list" where
  "prologue E prog =
     (if je_bti E then [\<lambda>c. A64_BTI_JC E] else []) @
     [\<lambda>c. A64_MOV E 1 (A64_R E 9) (A64_LR E),
      \<lambda>c. A64_NOP E] @
     (if je_ptr_auth E then [\<lambda>c. A64_PACIASP E] else []) @
     [\<lambda>c. A64_PUSH E (A64_FP E) (A64_LR E) (A64_SP E),
      \<lambda>c. A64_MOV E 1 (A64_FP E) (A64_SP E)] @
     map (\<lambda>reg c. A64_PUSH E reg (reg + 1) (A64_SP E)) [19, 21, 23, 25, 27] @
     [\<lambda>c. A64_PUSH E (A64_ZR E) (A64_ZR E) (A64_SP E),
      \<lambda>c. A64_SUB_I E 1 (A64_SP E) (A64_SP E) 16,
      \<lambda>c. A64_MOV E 1 (A64_R E 0) (A64_SP E),
      \<lambda>c. A64_MOVZ E 1 (A64_R E 1) 16 0,
      \<lambda>c. A64_ADR E (A64_R E 2) ((int (c_executive_exit c) - int (c_index c)) * 4),
      \<lambda>c. A64_MOVZ E 1 (A64_R E 3) (of_nat (c_executive_words c * 4)) 0,
      \<lambda>c. A64_MOV E 1 (A64_R E 4) (A64_R E 9)] @
     immediate E 5 prog @
     immediate E 10 (je_enter E) @
     [\<lambda>c. A64_BLR E (A64_R E 10),
      \<lambda>c. A64_CBZ E 1 (A64_R E 0) 3,
      \<lambda>c. A64_MOVZ E 1 (A64_R E 7) 0 0,
      \<lambda>c. A64_B E (int (c_executive_exit c) - int (c_index c))] @
     clear_registers E True"

text \<open>Recording a position in the layout pass, and comparing it in the other two.\<close>

definition record_offset :: "nat \<Rightarrow> compiler \<Rightarrow> compiler" where
  "record_offset pc c =
     (if c_image c = None then c\<lparr>c_offset := (c_offset c)[pc := c_index c]\<rparr>
      else if c_offset c ! pc \<noteq> c_index c then fail c
      else c)"

definition template :: "'z code_env_scheme \<Rightarrow> nat \<Rightarrow> bpf_insn \<Rightarrow> u8 \<Rightarrow> (compiler \<Rightarrow> u32) list option" where
  "template E pc i operation =
     (if i_code i = BPF_ALU64_MOV_X then
        Some [\<lambda>c. CAP_MOV OR push_bit 5 (of_nat (native_reg (i_src i))) OR of_nat (native_reg (i_dst i))]
      else if i_code i = BPF_ALU64_MOV_K then Some (immediate E (native_reg (i_dst i)) (scast (i_imm i)))
      else if i_code i = BPF_STX_MEM_DW then
        Some [\<lambda>c. CAP_STR OR push_bit 5 31 OR of_nat (native_reg (i_src i))]
      else if i_code i = BPF_LDX_MEM_DW then
        Some [\<lambda>c. CAP_LDR OR push_bit 5 31 OR of_nat (native_reg (i_dst i))]
      else if i_code i = BPF_JMP_JEQ_K then
        Some [\<lambda>c. A64_CBZ E 1 (native_reg (i_dst i))
                (int (c_offset c ! nat (int pc + 1 + sint (i_off i))) - int (c_index c))]
      else if i_code i = BPF_JMP_CALL then
        Some [\<lambda>c. A64_MOVZ E 1 (A64_R E 4) (ucast operation) 0,
              \<lambda>c. A64_MOVZ E 1 (A64_R E 5) (of_nat pc) 0,
              \<lambda>c. CAP_MOV OR push_bit 5 30 OR 13,
              \<lambda>c. CAP_BLRS OR push_bit 5 17,
              \<lambda>c. CAP_MOV OR push_bit 5 0 OR 7]
      else if i_code i = BPF_JMP_EXIT then
        Some [\<lambda>c. A64_B E (int (c_restricted_exit c) - int (c_index c))]
      else None)"

definition body_step :: "'z code_env_scheme \<Rightarrow> nat \<Rightarrow> compiler \<Rightarrow> compiler" where
  "body_step E pc c =
     (let c = record_offset pc c
      in case template E pc (c_insnsi c ! pc) (c_operation c ! pc) of
           None \<Rightarrow> fail c
         | Some fs \<Rightarrow> emit E fs c)"

definition body :: "'z code_env_scheme \<Rightarrow> compiler \<Rightarrow> compiler" where
  "body E c = record_offset (length (c_insnsi c)) (fold (body_step E) [0..<length (c_insnsi c)] c)"

definition epilogue_tail :: "'z code_env_scheme \<Rightarrow> (compiler \<Rightarrow> u32) list" where
  "epilogue_tail E =
     [\<lambda>c. A64_STR64I E (A64_ZR E) (A64_SP E) 0,
      \<lambda>c. A64_STR64I E (A64_ZR E) (A64_SP E) 8,
      \<lambda>c. A64_MOV E 1 (A64_R E 7) (A64_R E 7)] @
     clear_registers E False @
     [\<lambda>c. A64_ADD_I E 1 (A64_SP E) (A64_SP E) 16,
      \<lambda>c. CAP_LDR_C16_SP,
      \<lambda>c. A64_ADD_I E 1 (A64_SP E) (A64_SP E) 16] @
     map (\<lambda>reg c. A64_POP E reg (reg + 1) (A64_SP E)) [27, 25, 23, 21, 19] @
     [\<lambda>c. A64_POP E (A64_FP E) (A64_LR E) (A64_SP E),
      \<lambda>c. A64_MOV E 1 (A64_R E 0) (A64_R E 7)] @
     (if je_ptr_auth E then [\<lambda>c. A64_AUTIASP E] else []) @
     [\<lambda>c. CAP_GCTAG OR push_bit 5 16 OR 10,
      \<lambda>c. A64_CBZ E 1 (A64_R E 10) 2,
      \<lambda>c. CAP_RETR_C16,
      \<lambda>c. A64_RET E (A64_LR E)]"

definition epilogue :: "'z code_env_scheme \<Rightarrow> compiler \<Rightarrow> compiler" where
  "epilogue E c =
     (let c = (if c_image c = None then c\<lparr>c_restricted_exit := c_index c\<rparr>
               else if c_restricted_exit c \<noteq> c_index c then fail c else c);
          c = emit E [\<lambda>c. CAP_RET_CLR] c;
          c = (if c_image c = None then c\<lparr>c_executive_exit := c_index c\<rparr>
               else if c_executive_exit c \<noteq> c_index c then fail c else c);
          start = c_index c;
          c = emit E (epilogue_tail E) c
      in if c_image c = None then c\<lparr>c_executive_words := c_index c - start\<rparr>
         else if c_executive_words c \<noteq> c_index c - start then fail c
         else c)"

definition generate :: "'z code_env_scheme \<Rightarrow> compiler \<Rightarrow> compiler" where
  "generate E c =
     epilogue E (body E (emit E (prologue E (c_prog c)) (c\<lparr>c_index := 0\<rparr>)))"

subsection \<open>Compilation\<close>

definition fill_hole :: "'z code_env_scheme \<Rightarrow> nat \<Rightarrow> u32 list" where
  "fill_hole E bytes = replicate (bytes div 4) (AARCH64_BREAK_FAULT E)"

text \<open>The fields of \<open>struct bpf_prog\<close> and its \<open>aux\<close> that the compiler reads and sets.\<close>

record bpf_prog =
  pg_address :: u64
  pg_insnsi :: "bpf_insn list"
  pg_jit_requested :: bool
  pg_blinding :: bool
  pg_sched_cls :: bool
  pg_is_func :: bool
  pg_func_cnt :: u32
  pg_func_info_cnt :: u32
  pg_used_map_cnt :: u32
  pg_cbpf_gate :: bool
  pg_bpf_func :: "u32 list option"
  pg_jited_len :: nat
  pg_jited :: bool
  pg_linfo :: "nat list"

definition new_compiler :: "bpf_prog \<Rightarrow> u8 list \<Rightarrow> compiler" where
  "new_compiler prog operation =
     \<lparr>c_prog = pg_address prog, c_insnsi = pg_insnsi prog, c_operation = operation,
      c_offset = replicate (JIT_MAX_INSNS + 1) 0, c_image = None, c_index = 0, c_words = 0,
      c_restricted_exit = 0, c_executive_exit = 0, c_executive_words = 0, c_check = False,
      c_failed = False\<rparr>"

definition jit_supported :: "bpf_prog \<Rightarrow> bool" where
  "jit_supported prog \<longleftrightarrow>
     \<not> (\<not> pg_jit_requested prog \<or> pg_blinding prog \<or> \<not> pg_sched_cls prog \<or> pg_is_func prog \<or>
        pg_func_cnt prog \<noteq> 0 \<or> pg_func_info_cnt prog \<noteq> 0 \<or> pg_used_map_cnt prog \<noteq> 0 \<or>
        length (pg_insnsi prog) = 0 \<or> length (pg_insnsi prog) > JIT_MAX_INSNS)"

text \<open>The error (0 when accepted), and the program, which is returned either way.\<close>

definition cbpf_jit_compile :: "'z code_env_scheme \<Rightarrow> bpf_prog \<Rightarrow> int \<times> bpf_prog" where
  "cbpf_jit_compile E prog0 =
     (let prog = prog0\<lparr>pg_cbpf_gate := True\<rparr>
      in if \<not> jit_supported prog then (- EOPNOTSUPP, prog)
         else if \<not> je_kzalloc E then (- ENOMEM, prog)
         else case admit E (pg_insnsi prog) of
           Inl error \<Rightarrow> (error, prog)
         | Inr a \<Rightarrow>
             let c = generate E (new_compiler prog (a_operation a));
                 c = c\<lparr>c_words := c_index c\<rparr>
             in if c_failed c \<or> c_words c = 0 then (- EINVAL, prog)
                else if \<not> je_binary_alloc E (c_words c * 4) then (- ENOMEM, prog)
                else
                  let c = c\<lparr>c_image := Some (fill_hole E (c_words c * 4))\<rparr>;
                      c = generate E c;
                      c = generate E (c\<lparr>c_check := True\<rparr>)
                  in if c_failed c \<or> c_index c \<noteq> c_words c then (- EINVAL, prog)
                     else (0, prog\<lparr>pg_bpf_func := c_image c, pg_jited_len := c_words c * 4,
                                   pg_jited := True,
                                   pg_linfo := drop 1 (map (\<lambda>n. n * 4)
                                     (take (length (pg_insnsi prog) + 1) (c_offset c)))\<rparr>))"

end
