(* ===== verification/Integration.thy ===== *)
theory Integration
  imports JitCode KernelProps
begin

text \<open>
  Where the kernel meets the gates, \<open>src/linux/ownership/integration.patch\<close>: the entry to the
  compiler, the refusals of every attachment of a program with gate calls, and the dispatch
  of a test run. The patch adds branches to functions of the kernel whose text is not in the
  repository; what such a function does when no branch applies is its argument \<open>ordinary\<close>.
\<close>

subsection \<open>Compilation\<close>

definition bpf_int_jit_compile ::
    "'z code_env_scheme \<Rightarrow> (bpf_prog \<Rightarrow> bpf_prog) \<Rightarrow> bpf_prog \<Rightarrow> bpf_prog" where
  "bpf_int_jit_compile E ordinary prog =
     (if \<not> pg_jit_requested prog then prog
      else case cbpf_jit_match E (pg_insnsi prog) (pg_cbpf_gate prog) of
        (matched, gate) \<Rightarrow>
          (let prog = prog\<lparr>pg_cbpf_gate := gate\<rparr>
           in if matched then snd (cbpf_jit_compile E prog) else ordinary prog))"

subsection \<open>Attachment\<close>

definition bpf_prog_map_compatible :: "bool \<Rightarrow> (bpf_prog \<Rightarrow> bool) \<Rightarrow> bpf_prog \<Rightarrow> bool" where
  "bpf_prog_map_compatible kprobe_override ordinary fp =
     (if kprobe_override then False else if pg_cbpf_gate fp then False else ordinary fp)"

definition bpf_prog_get_ok :: "bool \<Rightarrow> (bpf_prog \<Rightarrow> bool) \<Rightarrow> bpf_prog \<Rightarrow> bool" where
  "bpf_prog_get_ok right_type ordinary prog =
     (if \<not> right_type then False else if pg_cbpf_gate prog then False else ordinary prog)"

text \<open>A program, or the error of its file descriptor; \<open>Inr\<close> is the ordinary result.\<close>

definition link_create :: "(bpf_prog \<Rightarrow> int + 'l) \<Rightarrow> int + bpf_prog \<Rightarrow> int + 'l" where
  "link_create ordinary prog =
     (case prog of
        Inl error \<Rightarrow> Inl error
      | Inr p \<Rightarrow> if pg_cbpf_gate p then Inl (- EOPNOTSUPP) else ordinary p)"

definition link_update :: "(bpf_prog \<Rightarrow> int + 'l) \<Rightarrow> bpf_prog \<Rightarrow> int + 'l" where
  "link_update ordinary new_prog =
     (if pg_cbpf_gate new_prog then Inl (- EOPNOTSUPP) else ordinary new_prog)"

subsection \<open>Test runs\<close>

text \<open>One iteration of \<open>bpf_test_run\<close> on the program's native code.\<close>

definition bpf_test_run ::
    "'v kplatform \<Rightarrow> ('v kernel \<Rightarrow> u32 \<times> 'v kernel) \<Rightarrow> bool \<Rightarrow> bpf_prog \<Rightarrow> 'v native \<Rightarrow> 'v kernel \<Rightarrow> u32 \<times> 'v kernel" where
  "bpf_test_run K run_xdp xdp prog code k =
     (if xdp then run_xdp k
      else if pg_cbpf_gate prog
      then (case cbpf_test_invoke K (pg_address prog) (pg_cbpf_gate prog) code k of (v, log, k') \<Rightarrow> (v, k'))
      else bpf_prog_run K code k)"

subsection \<open>Confinement\<close>

lemma compile_marks: "pg_cbpf_gate (snd (cbpf_jit_compile E prog))"
  by (simp add: cbpf_jit_compile_def Let_def split: sum.split)

text \<open>
  A program with a gate call cannot escape its gates: however its compilation ends, it comes
  back marked, no attachment accepts it, and a test run of it, whatever its native code,
  leaves an idle kernel as it was. A program without gate calls is treated as before.
\<close>

theorem gate_programs_confined:
  fixes ordinary :: "bpf_prog \<Rightarrow> bpf_prog"
  assumes "pg_jit_requested prog" "\<exists>i \<in> set (pg_insnsi prog). call_operation E i \<noteq> 0" "kernel_idle K k"
  defines "p \<equiv> bpf_int_jit_compile E ordinary prog"
  shows "\<not> bpf_prog_map_compatible kprobe ok p \<and> \<not> bpf_prog_get_ok right ok p \<and>
    link_create attach (Inr p) = Inl (- EOPNOTSUPP) \<and> link_update attach p = Inl (- EOPNOTSUPP) \<and>
    snd (bpf_test_run K run_xdp False p code k) = k"
proof -
  have "cbpf_jit_match E (pg_insnsi prog) (pg_cbpf_gate prog) = (True, True)"
    using assms(2) by (auto simp: cbpf_jit_match_def list_ex_iff)
  then have "pg_cbpf_gate p" using assms(1) compile_marks by (simp add: p_def bpf_int_jit_compile_def Let_def)
  moreover obtain v log k' where "cbpf_test_invoke K (pg_address p) True code k = (v, log, k')"
    by (metis prod.exhaust)
  ultimately show ?thesis using invocation_restores [OF assms(3)]
    by (simp add: bpf_prog_map_compatible_def bpf_prog_get_ok_def link_create_def link_update_def bpf_test_run_def)
qed

end
