(* ===== verification/Kfunc.thy ===== *)
theory Kfunc
  imports BpfLift Text
begin

text \<open>
  The kernel module of ordinary kfuncs, \<open>src/linux/kfunc/cbpf_kfunc.c\<close>: acquisitions as
  separate allocations that share one object, the accounting they keep, and the parameter
  files that show it. The handle a program holds is the address of its cell, whose first
  member it is; \<open>kf_cells\<close> gives the cells that are allocated, with their \<open>id\<close>. Every cell's
  \<open>object\<close> is the one \<open>cbpf_object\<close>.

  The allocator \<open>alloc\<close> is a parameter (0 is NULL). Counters are 64-bit words, which wrap
  as \<open>atomic64_t\<close> does; the reference count is a 32-bit word, which saturates as
  \<open>refcount_t\<close> does. An access to a cell that is not allocated has no meaning in C: it is \<^term>\<open>None\<close>.
\<close>

subsection \<open>The reference count\<close>

text \<open>
  The kernel's \<open>refcount_t\<close>, a signed count in 32 bits: \<open>refcount_inc\<close> from 0, from the largest
  positive number or from a negative one, and \<open>refcount_dec\<close> from 1, 0 or a negative one, set
  it to \<open>REFCOUNT_SATURATED\<close>, which is negative, so it stays there.
\<close>

definition REFCOUNT_SATURATED :: u32 where "REFCOUNT_SATURATED = 0xC0000000"

definition refcount_inc :: "u32 \<Rightarrow> u32" where
  "refcount_inc r = (if r = 0 \<or> 0x7FFFFFFF \<le> r then REFCOUNT_SATURATED else r + 1)"

definition refcount_dec :: "u32 \<Rightarrow> u32" where
  "refcount_dec r = (if r \<le> 1 \<or> 0x80000000 \<le> r then REFCOUNT_SATURATED else r - 1)"

text \<open>The count of \<open>n\<close> acquisitions and the baseline reference is exact below this limit.\<close>

definition REFCOUNT_LIMIT :: nat where "REFCOUNT_LIMIT = 2 ^ 31 - 1"

lemma refcount_saturated [simp]:
  "refcount_inc REFCOUNT_SATURATED = REFCOUNT_SATURATED"
  "refcount_dec REFCOUNT_SATURATED = REFCOUNT_SATURATED"
  by (simp_all add: refcount_inc_def refcount_dec_def REFCOUNT_SATURATED_def)

lemma refs_unat: "n < REFCOUNT_LIMIT \<Longrightarrow> unat (1 + of_nat n :: u32) = 1 + n"
  by (simp add: REFCOUNT_LIMIT_def unat_word_ariths unat_of_nat)

lemma refcount_inc_exact: "n + 1 < REFCOUNT_LIMIT \<Longrightarrow> refcount_inc (1 + of_nat n) = 1 + of_nat (n + 1)"
  using refs_unat [of n]
  by (auto simp: refcount_inc_def REFCOUNT_LIMIT_def word_le_nat_alt)

lemma refcount_inc_limit: "n + 1 = REFCOUNT_LIMIT \<Longrightarrow> refcount_inc (1 + of_nat n) = REFCOUNT_SATURATED"
  using refs_unat [of n]
  by (auto simp: refcount_inc_def REFCOUNT_LIMIT_def word_le_nat_alt)

lemma refcount_dec_exact: "Suc n < REFCOUNT_LIMIT \<Longrightarrow> refcount_dec (1 + of_nat (Suc n)) = 1 + of_nat n"
  using refs_unat [of "Suc n"]
  by (auto simp: refcount_dec_def REFCOUNT_LIMIT_def word_le_nat_alt)

subsection \<open>State and operations\<close>

record kfunc =
  kf_value :: int
  kf_refs :: u32
  kf_acquisitions :: u64
  kf_releases :: u64
  kf_live :: u64
  kf_reads :: u64
  kf_cells :: "u64 \<rightharpoonup> u64"

definition kfunc_loaded :: kfunc where
  "kfunc_loaded =
     \<lparr>kf_value = 42, kf_refs = 1, kf_acquisitions = 0, kf_releases = 0, kf_live = 0,
      kf_reads = 0, kf_cells = Map.empty\<rparr>"

definition cbpf_ref_acquire :: "(kfunc \<Rightarrow> u64) \<Rightarrow> u32 \<Rightarrow> kfunc \<Rightarrow> u64 \<times> kfunc" where
  "cbpf_ref_acquire alloc want_null k =
     (if want_null \<noteq> 0 then (0, k)
      else let cell = alloc k
      in if cell = 0 then (0, k)
         else (cell, k\<lparr>kf_refs := refcount_inc (kf_refs k),
                       kf_acquisitions := kf_acquisitions k + 1,
                       kf_cells := (kf_cells k)(cell \<mapsto> kf_acquisitions k + 1),
                       kf_live := kf_live k + 1\<rparr>))"

definition cbpf_ref_read :: "u64 \<Rightarrow> kfunc \<Rightarrow> (int \<times> kfunc) option" where
  "cbpf_ref_read ref k =
     (case kf_cells k ref of
        None \<Rightarrow> None
      | Some ident \<Rightarrow> Some (kf_value k, k\<lparr>kf_reads := kf_reads k + 1\<rparr>))"

definition cbpf_ref_release :: "u64 \<Rightarrow> kfunc \<Rightarrow> kfunc option" where
  "cbpf_ref_release ref k =
     (case kf_cells k ref of
        None \<Rightarrow> None
      | Some ident \<Rightarrow>
          Some (k\<lparr>kf_refs := refcount_dec (kf_refs k), kf_releases := kf_releases k + 1,
                  kf_live := kf_live k - 1, kf_cells := (kf_cells k)(ref := None)\<rparr>))"

text \<open>The parameter files: their text by name, \<^term>\<open>None\<close> for a name that is no parameter.\<close>

definition cbpf_counter_get :: "u64 \<Rightarrow> string" where
  "cbpf_counter_get counter = decimal (unat counter) @ NL"

definition cbpf_object_refs_get :: "u32 \<Rightarrow> string" where
  "cbpf_object_refs_get refs = decimal (unat refs) @ NL"

definition module_parameter :: "string \<Rightarrow> kfunc \<Rightarrow> string option" where
  "module_parameter name k =
     (if name = ''acquisitions'' then Some (cbpf_counter_get (kf_acquisitions k))
      else if name = ''releases'' then Some (cbpf_counter_get (kf_releases k))
      else if name = ''live'' then Some (cbpf_counter_get (kf_live k))
      else if name = ''reads'' then Some (cbpf_counter_get (kf_reads k))
      else if name = ''object_refs'' then Some (cbpf_object_refs_get (kf_refs k))
      else None)"

subsection \<open>The invariant\<close>

text \<open>What the module relies on of \<open>kzalloc\<close>: memory it returns is not allocated.\<close>

definition kzalloc_fresh :: "(kfunc \<Rightarrow> u64) \<Rightarrow> bool" where
  "kzalloc_fresh alloc \<longleftrightarrow> (\<forall>k. alloc k \<noteq> 0 \<longrightarrow> alloc k \<notin> dom (kf_cells k))"

text \<open>An allocator with room for two cells, for the examples.\<close>

definition sample_alloc :: "kfunc \<Rightarrow> u64" where
  "sample_alloc k =
     (if kf_cells k 0x1000 = None then 0x1000 else if kf_cells k 0x1010 = None then 0x1010 else 0)"

lemma sample_alloc_fresh: "kzalloc_fresh sample_alloc"
  by (auto simp: kzalloc_fresh_def sample_alloc_def)

text \<open>
  \<open>kfunc_counts\<close> holds always; \<open>kfunc_inv\<close> adds the reference count, which is exact until
  \<open>REFCOUNT_LIMIT\<close> cells are live at once.
\<close>

definition kfunc_counts :: "kfunc \<Rightarrow> bool" where
  "kfunc_counts k \<longleftrightarrow>
     finite (dom (kf_cells k)) \<and> kf_cells k 0 = None \<and>
     kf_live k = of_nat (card (dom (kf_cells k))) \<and>
     kf_acquisitions k = kf_releases k + kf_live k"

definition kfunc_inv :: "kfunc \<Rightarrow> bool" where
  "kfunc_inv k \<longleftrightarrow>
     kfunc_counts k \<and> card (dom (kf_cells k)) < REFCOUNT_LIMIT \<and>
     kf_refs k = 1 + of_nat (card (dom (kf_cells k)))"

lemma kfunc_inv_loaded: "kfunc_inv kfunc_loaded"
  by (simp add: kfunc_inv_def kfunc_counts_def kfunc_loaded_def REFCOUNT_LIMIT_def)

lemma acquire_counts:
  assumes "kzalloc_fresh alloc" and "kfunc_counts k" and "cbpf_ref_acquire alloc w k = (a, k')"
  shows "kfunc_counts k' \<and> card (dom (kf_cells k')) = card (dom (kf_cells k)) + (if a = 0 then 0 else 1) \<and>
    kf_refs k' = (if a = 0 then kf_refs k else refcount_inc (kf_refs k))"
proof (cases "w = 0 \<and> alloc k \<noteq> 0")
  case True
  have "alloc k \<notin> dom (kf_cells k)" using assms(1) True by (simp add: kzalloc_fresh_def)
  moreover have "a = alloc k"
    "k' = k\<lparr>kf_refs := refcount_inc (kf_refs k), kf_acquisitions := kf_acquisitions k + 1,
      kf_cells := (kf_cells k)(alloc k \<mapsto> kf_acquisitions k + 1), kf_live := kf_live k + 1\<rparr>"
    using assms(3) True by (auto simp: cbpf_ref_acquire_def Let_def)
  ultimately show ?thesis
    using assms(2) True by (simp add: kfunc_counts_def algebra_simps)
next
  case False
  then show ?thesis using assms by (auto simp: cbpf_ref_acquire_def Let_def split: if_splits)
qed

lemma acquire_inv:
  assumes "kzalloc_fresh alloc" and "kfunc_inv k" and "cbpf_ref_acquire alloc w k = (a, k')"
    and "card (dom (kf_cells k)) + 1 < REFCOUNT_LIMIT"
  shows "kfunc_inv k'"
  using acquire_counts [OF assms(1) _ assms(3)] assms(2,4) refcount_inc_exact [OF assms(4)]
  by (auto simp: kfunc_inv_def)

lemma read_same:
  "cbpf_ref_read a k = Some (v, k') \<Longrightarrow> k' = k\<lparr>kf_reads := kf_reads k + 1\<rparr>"
  by (auto simp: cbpf_ref_read_def split: option.splits)

lemma read_inv: "kfunc_inv k \<Longrightarrow> cbpf_ref_read a k = Some (v, k') \<Longrightarrow> kfunc_inv k'"
  by (auto dest!: read_same simp: kfunc_inv_def kfunc_counts_def)

lemma release_counts:
  assumes "kfunc_counts k" and "cbpf_ref_release a k = Some k'"
  shows "kfunc_counts k' \<and> card (dom (kf_cells k)) = Suc (card (dom (kf_cells k'))) \<and>
    kf_refs k' = refcount_dec (kf_refs k)"
proof -
  have a: "a \<in> dom (kf_cells k)"
    and k': "k' = k\<lparr>kf_refs := refcount_dec (kf_refs k), kf_releases := kf_releases k + 1,
      kf_live := kf_live k - 1, kf_cells := (kf_cells k)(a := None)\<rparr>"
    using assms(2) by (auto simp: cbpf_ref_release_def split: option.splits)
  have "card (dom (kf_cells k)) = Suc (card (dom (kf_cells k) - {a}))"
    using card.remove [OF _ a] assms(1) by (simp add: kfunc_counts_def)
  then show ?thesis
    using assms(1) by (simp add: kfunc_counts_def k' algebra_simps)
qed

lemma release_inv:
  assumes "kfunc_inv k" and "cbpf_ref_release a k = Some k'"
  shows "kfunc_inv k'"
proof -
  have c: "kfunc_counts k'" "card (dom (kf_cells k)) = Suc (card (dom (kf_cells k')))"
    "kf_refs k' = refcount_dec (kf_refs k)"
    using release_counts [OF _ assms(2)] assms(1) by (simp_all add: kfunc_inv_def)
  have "Suc (card (dom (kf_cells k'))) < REFCOUNT_LIMIT" "kf_refs k = 1 + of_nat (Suc (card (dom (kf_cells k'))))"
    using assms(1) c(2) by (simp_all add: kfunc_inv_def)
  then have "kf_refs k' = 1 + of_nat (card (dom (kf_cells k')))" "card (dom (kf_cells k')) < REFCOUNT_LIMIT"
    using c(3) refcount_dec_exact [of "card (dom (kf_cells k'))"] by (simp_all del: of_nat_Suc)
  with c(1) show ?thesis by (simp add: kfunc_inv_def)
qed

subsection \<open>Sequences of operations\<close>

text \<open>
  The module as a transition system: calls with any arguments that have a meaning, in any
  order. \<open>n\<close> counts the successful acquisitions, \<open>p\<close> is the largest number of cells that
  were live at once.
\<close>

inductive kfunc_reach :: "(kfunc \<Rightarrow> u64) \<Rightarrow> nat \<Rightarrow> nat \<Rightarrow> kfunc \<Rightarrow> bool" for alloc where
  loaded: "kfunc_reach alloc 0 0 kfunc_loaded"
| acquire: "kfunc_reach alloc n p k \<Longrightarrow> cbpf_ref_acquire alloc w k = (a, k') \<Longrightarrow>
    kfunc_reach alloc (if a = 0 then n else n + 1) (max p (card (dom (kf_cells k')))) k'"
| read: "kfunc_reach alloc n p k \<Longrightarrow> cbpf_ref_read a k = Some (v, k') \<Longrightarrow> kfunc_reach alloc n p k'"
| release: "kfunc_reach alloc n p k \<Longrightarrow> cbpf_ref_release a k = Some k' \<Longrightarrow> kfunc_reach alloc n p k'"

inductive_cases kfunc_reach_cases: "kfunc_reach alloc n p k"

text \<open>The reference count by the peak of live cells.\<close>

definition refs_at :: "nat \<Rightarrow> kfunc \<Rightarrow> bool" where
  "refs_at p k \<longleftrightarrow>
     card (dom (kf_cells k)) \<le> p \<and>
     kf_refs k = (if p < REFCOUNT_LIMIT then 1 + of_nat (card (dom (kf_cells k))) else REFCOUNT_SATURATED)"

lemma acquire_refs_at:
  assumes "card (dom (kf_cells k')) = card (dom (kf_cells k)) + (if a = 0 then 0 else 1)"
    and "kf_refs k' = (if a = (0 :: u64) then kf_refs k else refcount_inc (kf_refs k))" and "refs_at p k"
  shows "refs_at (max p (card (dom (kf_cells k')))) k'"
proof -
  let ?n = "card (dom (kf_cells k))"
  have p: "?n \<le> p" "kf_refs k = (if p < REFCOUNT_LIMIT then 1 + of_nat ?n else REFCOUNT_SATURATED)"
    using assms(3) by (simp_all add: refs_at_def)
  consider "a = 0" | "a \<noteq> 0" "REFCOUNT_LIMIT \<le> p" | "a \<noteq> 0" "p < REFCOUNT_LIMIT" "?n + 1 < REFCOUNT_LIMIT"
    | "a \<noteq> 0" "p < REFCOUNT_LIMIT" "?n + 1 = REFCOUNT_LIMIT"
    using p(1) by linarith
  then show ?thesis
  proof cases
    case 3
    then have "kf_refs k' = 1 + of_nat (?n + 1)" using assms(2) p(2) refcount_inc_exact by simp
    then show ?thesis using 3 assms(1) by (simp add: refs_at_def)
  next
    case 4
    then have "kf_refs k' = REFCOUNT_SATURATED" using assms(2) p(2) refcount_inc_limit by simp
    then show ?thesis using 4 assms(1) by (simp add: refs_at_def)
  qed (use assms p in \<open>auto simp: refs_at_def max_def\<close>)
qed

lemma release_refs_at:
  assumes "card (dom (kf_cells k)) = Suc (card (dom (kf_cells k')))" and "kf_refs k' = refcount_dec (kf_refs k)"
    and "refs_at p k"
  shows "refs_at p k'"
proof (cases "p < REFCOUNT_LIMIT")
  case True
  then have "Suc (card (dom (kf_cells k'))) < REFCOUNT_LIMIT" "kf_refs k = 1 + of_nat (Suc (card (dom (kf_cells k'))))"
    using assms(1,3) by (simp_all add: refs_at_def)
  then show ?thesis
    using assms True refcount_dec_exact [of "card (dom (kf_cells k'))"] by (simp add: refs_at_def del: of_nat_Suc)
next
  case False
  then show ?thesis using assms by (simp add: refs_at_def)
qed

lemma kfunc_reach_inv:
  "kfunc_reach alloc n p k \<Longrightarrow> kzalloc_fresh alloc \<Longrightarrow> kfunc_counts k \<and> refs_at p k"
proof (induction rule: kfunc_reach.induct)
  case loaded
  have "kfunc_counts kfunc_loaded" using kfunc_inv_loaded by (simp add: kfunc_inv_def)
  then show ?case by (simp add: refs_at_def REFCOUNT_LIMIT_def) (simp add: kfunc_loaded_def)
next
  case (acquire n p k w a k')
  then show ?case using acquire_counts acquire_refs_at by blast
next
  case (read n p k a v k')
  then show ?case by (auto dest!: read_same simp: kfunc_counts_def refs_at_def)
next
  case (release n p k a k')
  then show ?case using release_counts release_refs_at by blast
qed

text \<open>The identities: the allocated cells hold distinct numbers of past acquisitions.\<close>

definition ids_fresh :: "nat \<Rightarrow> kfunc \<Rightarrow> bool" where
  "ids_fresh n k \<longleftrightarrow>
     kf_acquisitions k = of_nat n \<and>
     (\<exists>g. inj_on g (dom (kf_cells k)) \<and>
        (\<forall>a \<in> dom (kf_cells k). 1 \<le> g a \<and> g a \<le> n \<and> kf_cells k a = Some (of_nat (g a))))"

lemma acquire_ids:
  assumes "kzalloc_fresh alloc" and ids: "ids_fresh n k" and "cbpf_ref_acquire alloc w k = (a, k')"
  shows "ids_fresh (if a = 0 then n else n + 1) k'"
proof (cases "w = 0 \<and> alloc k \<noteq> 0")
  case True
  obtain g where g: "inj_on g (dom (kf_cells k))"
    "\<forall>a \<in> dom (kf_cells k). 1 \<le> g a \<and> g a \<le> n \<and> kf_cells k a = Some (of_nat (g a))"
    and n: "kf_acquisitions k = of_nat n" using ids by (auto simp: ids_fresh_def)
  let ?g = "g(a := n + 1)"
  have a: "a \<notin> dom (kf_cells k)" "a \<noteq> 0"
    and k': "k' = k\<lparr>kf_refs := refcount_inc (kf_refs k), kf_acquisitions := kf_acquisitions k + 1,
      kf_cells := (kf_cells k)(a \<mapsto> kf_acquisitions k + 1), kf_live := kf_live k + 1\<rparr>"
    using assms(1,3) True by (auto simp: cbpf_ref_acquire_def Let_def kzalloc_fresh_def)
  have "Suc n \<notin> g ` dom (kf_cells k)"
  proof
    assume "Suc n \<in> g ` dom (kf_cells k)"
    then obtain b where "b \<in> dom (kf_cells k)" "g b = Suc n" by force
    moreover have "g b \<le> n" using g(2) calculation(1) by blast
    ultimately show False by simp
  qed
  then have "inj_on ?g (insert a (dom (kf_cells k)))"
    using a inj_on_fun_updI [OF g(1), of "Suc n" a] by auto
  moreover have "\<forall>b \<in> insert a (dom (kf_cells k)). 1 \<le> ?g b \<and> ?g b \<le> n + 1 \<and>
      kf_cells k' b = Some (of_nat (?g b))"
    using g(2) a n by (auto simp: k' le_SucI)
  moreover have "dom (kf_cells k') = insert a (dom (kf_cells k))"
    "kf_acquisitions k' = of_nat (n + 1)" by (simp_all add: k' n)
  ultimately have "ids_fresh (n + 1) k'" unfolding ids_fresh_def by metis
  then show ?thesis using a(2) by simp
next
  case False
  then show ?thesis using assms by (auto simp: cbpf_ref_acquire_def Let_def split: if_splits)
qed

lemma kfunc_reach_ids:
  assumes "kfunc_reach alloc n p k" and "kzalloc_fresh alloc"
  shows "ids_fresh n k"
  using assms
proof (induction rule: kfunc_reach.induct)
  case loaded
  show ?case by (auto simp: ids_fresh_def kfunc_loaded_def)
next
  case (acquire n p k w a k')
  then show ?case using acquire_ids by blast
next
  case (read n p k a v k')
  then have "kf_acquisitions k' = kf_acquisitions k" "kf_cells k' = kf_cells k"
    by (auto simp: cbpf_ref_read_def split: option.splits)
  with read show ?case by (simp add: ids_fresh_def)
next
  case (release n p k a k')
  then obtain g where g: "inj_on g (dom (kf_cells k))"
    "\<forall>a \<in> dom (kf_cells k). 1 \<le> g a \<and> g a \<le> n \<and> kf_cells k a = Some (of_nat (g a))"
    "kf_acquisitions k = of_nat n" by (auto simp: ids_fresh_def)
  have "kf_acquisitions k' = kf_acquisitions k" "kf_cells k' = (kf_cells k)(a := None)"
    using release.hyps(2) by (auto simp: cbpf_ref_release_def split: option.splits)
  then show ?case
    using g by (auto simp: ids_fresh_def intro!: exI [of _ g] inj_on_subset [OF g(1)])
qed

lemma unat_word64: "n < 2 ^ 64 \<Longrightarrow> unat (of_nat n :: u64) = n"
  by (simp add: unat_of_nat)

text \<open>
  C28. The module's accounting, for every sequence of calls. Until 2 ^ 31 - 1 cells have been
  live at once, the object's references are the baseline one and one per allocated cell; from
  then on the count is saturated and stays so. In both cases it is not 0, so the object
  outlives its cells. The counter \<open>live\<close> counts the cells, acquisitions are releases and live
  ones, and when no cell is allocated the module is balanced. As long as acquisitions have not
  wrapped, the allocated cells have distinct ids.
\<close>

theorem kfunc_accounting:
  assumes "kzalloc_fresh alloc" and "kfunc_reach alloc n p k"
  shows "(if p < 2 ^ 31 - 1 then unat (kf_refs k) = 1 + card (dom (kf_cells k))
      else kf_refs k = REFCOUNT_SATURATED) \<and> kf_refs k \<noteq> 0 \<and>
    kf_live k = of_nat (card (dom (kf_cells k))) \<and>
    kf_acquisitions k = kf_releases k + kf_live k \<and> kf_acquisitions k = of_nat n \<and>
    (dom (kf_cells k) = {} \<longrightarrow> (p < 2 ^ 31 - 1 \<longrightarrow> kf_refs k = 1) \<and> kf_live k = 0 \<and> kf_acquisitions k = kf_releases k) \<and>
    (n < 2 ^ 64 \<longrightarrow> inj_on (kf_cells k) (dom (kf_cells k)))"
proof -
  have counts: "kfunc_counts k" and refs: "refs_at p k" and ids: "ids_fresh n k"
    using kfunc_reach_inv kfunc_reach_ids assms by blast+
  obtain g where g: "inj_on g (dom (kf_cells k))"
    "\<forall>a \<in> dom (kf_cells k). 1 \<le> g a \<and> g a \<le> n \<and> kf_cells k a = Some (of_nat (g a))"
    using ids by (auto simp: ids_fresh_def)
  have "inj_on (kf_cells k) (dom (kf_cells k))" if n: "n < 2 ^ 64"
  proof (rule inj_onI)
    fix a b assume ab: "a \<in> dom (kf_cells k)" "b \<in> dom (kf_cells k)" "kf_cells k a = kf_cells k b"
    then have "(of_nat (g a) :: u64) = of_nat (g b)" using g(2) by auto
    moreover have "g a \<le> n" "g b \<le> n" using g(2) ab by blast+
    then have "g a < 2 ^ 64" "g b < 2 ^ 64" using n by linarith+
    ultimately have "g a = g b" by (metis unat_word64)
    then show "a = b" using g(1) ab by (auto dest: inj_onD)
  qed
  moreover have r: "if p < 2 ^ 31 - 1 then unat (kf_refs k) = 1 + card (dom (kf_cells k))
      else kf_refs k = REFCOUNT_SATURATED"
    using refs refs_unat [of "card (dom (kf_cells k))"] by (auto simp: refs_at_def REFCOUNT_LIMIT_def)
  moreover have "kf_refs k \<noteq> 0" using r by (auto simp: REFCOUNT_SATURATED_def split: if_splits)
  moreover have "dom (kf_cells k) = {} \<Longrightarrow> p < 2 ^ 31 - 1 \<Longrightarrow> kf_refs k = 1"
    using refs by (simp add: refs_at_def REFCOUNT_LIMIT_def)
  ultimately show ?thesis using counts ids by (auto simp: kfunc_counts_def ids_fresh_def)
qed

theorem kfunc_accounting_witness:
  "\<exists>k. kfunc_reach sample_alloc 2 2 k \<and> kf_refs k = 2 \<and> kf_live k = 1 \<and> kf_releases k = 1"
proof -
  obtain k1 where 1: "cbpf_ref_acquire sample_alloc 0 kfunc_loaded = (0x1000, k1)"
    "kf_cells k1 = [0x1000 \<mapsto> 1]" "kf_releases k1 = 0" "kf_acquisitions k1 = 1"
    by (simp add: cbpf_ref_acquire_def sample_alloc_def kfunc_loaded_def Let_def)
  obtain k2 where 2: "cbpf_ref_acquire sample_alloc 0 k1 = (0x1010, k2)"
    "kf_cells k2 = [0x1000 \<mapsto> 1, 0x1010 \<mapsto> 2]" "kf_releases k2 = 0"
    using 1 by (simp add: cbpf_ref_acquire_def sample_alloc_def Let_def)
  obtain k3 where 3: "cbpf_ref_release 0x1000 k2 = Some k3" "dom (kf_cells k3) = {0x1010}"
    "kf_releases k3 = 1"
    using 2 by (simp add: cbpf_ref_release_def)
  have 4: "kfunc_reach sample_alloc 1 1 k1"
    using kfunc_reach.acquire [OF kfunc_reach.loaded 1(1)] 1(2) by simp
  have "kfunc_reach sample_alloc 2 2 k2" using kfunc_reach.acquire [OF 4 2(1)] 2(2)
    by (simp flip: numeral_2_eq_2)
  then have "kfunc_reach sample_alloc 2 2 k3" using kfunc_reach.release 3(1) by blast
  from kfunc_accounting [OF sample_alloc_fresh this] this 3(2,3) show ?thesis
    by (intro exI [of _ k3]) (simp add: word_unat_eq_iff)
qed

end
