(* ===== verification/KfuncRun.thy ===== *)
theory KfuncRun
  imports Kfunc
begin

text \<open>
  Programs on the module's kfuncs. The module is a runtime of gates (\<open>gate_runtime\<close>) whose
  handles are addresses of cells, and it refines a small abstract runtime that numbers the
  acquisitions and counts reads (\<open>gate_refinement\<close>): a program that is well behaved on the
  abstract one never touches a freed cell of the module, and leaves the accounting the
  abstract run predicts.
\<close>

subsection \<open>The module's gates\<close>

text \<open>\<^term>\<open>None\<close> is an access to a cell that is not allocated.\<close>

definition kfunc_gate :: "(kfunc \<Rightarrow> u64) \<Rightarrow> (u64, kfunc) gate" where
  "kfunc_gate alloc op arg pc k =
     (if op = CBPF_OP_ACQUIRE then
        (case arg of
           Num n \<Rightarrow> (case cbpf_ref_acquire alloc (ucast n) k of
             (a, k') \<Rightarrow> (Some (if a = 0 then Num 0 else Cap a), k'))
         | _ \<Rightarrow> (None, k))
      else (case arg of
          Cap a \<Rightarrow>
            (if op = CBPF_OP_READ
             then (case cbpf_ref_read a k of
                     None \<Rightarrow> (None, k) | Some (v, k') \<Rightarrow> (Some (Num (word_of_int v)), k'))
             else (case cbpf_ref_release a k of
                     None \<Rightarrow> (None, k) | Some k' \<Rightarrow> (Some (Num 0), k')))
        | _ \<Rightarrow> (None, k)))"

lemma bpf_ops [simp]:
  "CBPF_OP_READ \<noteq> CBPF_OP_ACQUIRE" "CBPF_OP_RELEASE \<noteq> CBPF_OP_ACQUIRE" "CBPF_OP_RELEASE \<noteq> CBPF_OP_READ"
  "CBPF_OP_ACQUIRE \<noteq> CBPF_OP_READ" "CBPF_OP_ACQUIRE \<noteq> CBPF_OP_RELEASE" "CBPF_OP_READ \<noteq> CBPF_OP_RELEASE"
  by (simp_all add: CBPF_OP_ACQUIRE_def CBPF_OP_READ_def CBPF_OP_RELEASE_def)

text \<open>Every acquisition of a program's run finds memory.\<close>

definition kzalloc_ready :: "(kfunc \<Rightarrow> u64) \<Rightarrow> bool" where
  "kzalloc_ready alloc \<longleftrightarrow> kzalloc_fresh alloc \<and>
     (\<forall>k. finite (dom (kf_cells k)) \<longrightarrow> card (dom (kf_cells k)) < 2 \<longrightarrow> alloc k \<noteq> 0)"

lemma sample_alloc_ready: "kzalloc_ready sample_alloc"
proof -
  have "sample_alloc k \<noteq> 0" if fin: "finite (dom (kf_cells k))" and few: "card (dom (kf_cells k)) < 2" for k
  proof
    assume "sample_alloc k = 0"
    then have "{0x1000, 0x1010} \<subseteq> dom (kf_cells k)" by (auto simp: sample_alloc_def split: if_splits)
    from card_mono [OF fin this] show False using few by simp
  qed
  then show ?thesis by (simp add: kzalloc_ready_def sample_alloc_fresh)
qed

interpretation kfunc_gates: gate_runtime "kfunc_gate alloc" "\<lambda>_. True" for alloc
proof
  show "result_ok op v" if "kfunc_gate alloc op arg pc k = (Some v, k')"
    "op \<in> {CBPF_OP_ACQUIRE, CBPF_OP_READ, CBPF_OP_RELEASE}" for op v k k' and arg and pc :: nat
    using that
    by (cases arg) (auto simp: kfunc_gate_def result_ok_def split: if_splits option.splits prod.splits)
qed simp

subsection \<open>The abstract runtime\<close>

text \<open>Which acquisitions are live, in order, and the number of reads.\<close>

definition count_gate :: "u64 \<Rightarrow> (nat, bool list \<times> nat) gate" where
  "count_gate v op arg pc s =
     (case s of (live, reads) \<Rightarrow>
       if op = CBPF_OP_ACQUIRE then
         (case arg of
            Num n \<Rightarrow>
              if (ucast n :: u32) \<noteq> 0 then (Some (Num 0), s)
              else if 2 \<le> length (filter id live) then (None, s)
              else (Some (Cap (length live)), (live @ [True], reads))
          | _ \<Rightarrow> (None, s))
       else (case arg of
           Cap i \<Rightarrow>
             if \<not> (i < length live \<and> live ! i) then (None, s)
             else if op = CBPF_OP_READ then (Some (Num v), (live, reads + 1))
             else (Some (Num 0), (live[i := False], reads))
         | _ \<Rightarrow> (None, s)))"

text \<open>
  \<open>k0\<close> is the module before the run, with no cell allocated; \<open>f\<close> gives the cells of the
  acquisitions. The cells allocated are those of the live ones.
\<close>

definition live_set :: "bool list \<Rightarrow> nat set" where
  "live_set live = {i. i < length live \<and> live ! i}"

definition kfunc_rel :: "(kfunc \<Rightarrow> u64) \<Rightarrow> kfunc \<Rightarrow> (nat \<Rightarrow> u64) \<Rightarrow> bool list \<times> nat \<Rightarrow> kfunc \<Rightarrow> bool" where
  "kfunc_rel alloc k0 f s k \<longleftrightarrow>
     (case s of (live, reads) \<Rightarrow>
       kzalloc_ready alloc \<and> kfunc_inv k \<and> kf_value k = kf_value k0 \<and>
       dom (kf_cells k) = f ` live_set live \<and> inj_on f (live_set live) \<and>
       kf_acquisitions k = kf_acquisitions k0 + of_nat (length live) \<and>
       kf_reads k = kf_reads k0 + of_nat reads)"

lemma live_set_finite: "finite (live_set live)"
  by (simp add: live_set_def)

lemma live_set_card: "card (live_set live) = length (filter id live)"
proof -
  have "card {i. i < length live \<and> id (live ! i)} = length (filter id live)"
    by (simp only: length_filter_conv_card)
  then show ?thesis by (simp add: live_set_def)
qed

lemma live_set_append: "live_set (live @ [True]) = insert (length live) (live_set live)"
  by (auto simp: live_set_def nth_append less_Suc_eq)

lemma live_set_update: "live_set (live[i := False]) = live_set live - {i}"
  by (cases "i < length live") (auto simp: live_set_def nth_list_update split: if_splits)

lemma acquire_rel:
  assumes rel: "kfunc_rel alloc k0 f (live, reads) k" and n: "(ucast n :: u32) = 0"
    and room: "length (filter id live) < 2"
  shows "\<exists>a k'. kfunc_gate alloc CBPF_OP_ACQUIRE (Num n) pc k = (Some (Cap a), k') \<and>
    kfunc_rel alloc k0 (f(length live := a)) (live @ [True], reads) k'"
proof -
  let ?a = "alloc k" and ?f = "f(length live := alloc k)"
  have ready: "kzalloc_ready alloc" and inv: "kfunc_inv k"
    and cells: "dom (kf_cells k) = f ` live_set live" "inj_on f (live_set live)"
    using rel by (simp_all add: kfunc_rel_def)
  have few: "card (dom (kf_cells k)) < 2"
    using room cells by (simp add: card_image live_set_card)
  then have a: "?a \<noteq> 0" "?a \<notin> dom (kf_cells k)"
    using ready inv by (auto simp: kzalloc_ready_def kzalloc_fresh_def kfunc_inv_def kfunc_counts_def)
  obtain k' where k': "cbpf_ref_acquire alloc 0 k = (?a, k')"
    "kf_cells k' = (kf_cells k)(?a \<mapsto> kf_acquisitions k + 1)"
    "kf_acquisitions k' = kf_acquisitions k + 1" "kf_reads k' = kf_reads k" "kf_value k' = kf_value k"
    using a(1) by (simp add: cbpf_ref_acquire_def Let_def)
  have out: "length live \<notin> live_set live" by (simp add: live_set_def)
  have none: "live_set live - {length live} = live_set live" using out by blast
  have same: "?f ` live_set live = f ` live_set live"
    using out by (intro image_cong) auto
  have "kfunc_inv k'"
    using acquire_inv [OF _ inv k'(1)] ready few by (simp add: kzalloc_ready_def REFCOUNT_LIMIT_def)
  moreover have "dom (kf_cells k') = ?f ` live_set (live @ [True])"
    unfolding live_set_append image_insert same using cells(1) by (simp add: k'(2))
  moreover have "inj_on ?f (live_set (live @ [True]))"
    using a(2) out same inj_on_fun_updI [OF cells(2), of ?a "length live"]
    unfolding live_set_append cells(1) inj_on_insert none same by simp
  ultimately have "kfunc_rel alloc k0 ?f (live @ [True], reads) k'"
    using rel k'(3-5) ready by (simp add: kfunc_rel_def)
  moreover have "kfunc_gate alloc CBPF_OP_ACQUIRE (Num n) pc k = (Some (Cap ?a), k')"
    using k'(1) a(1) n by (simp add: kfunc_gate_def)
  ultimately show ?thesis by blast
qed

lemma use_rel:
  assumes rel: "kfunc_rel alloc k0 f (live, reads) k" and i: "i < length live" "live ! i"
  shows "\<exists>k'. kfunc_gate alloc CBPF_OP_READ (Cap (f i)) pc k = (Some (Num (word_of_int (kf_value k0))), k') \<and>
      kfunc_rel alloc k0 f (live, reads + 1) k'"
    and "\<exists>k'. kfunc_gate alloc CBPF_OP_RELEASE (Cap (f i)) pc k = (Some (Num 0), k') \<and>
      kfunc_rel alloc k0 f (live[i := False], reads) k'"
proof -
  have inv: "kfunc_inv k" and cells: "dom (kf_cells k) = f ` live_set live" "inj_on f (live_set live)"
    using rel by (simp_all add: kfunc_rel_def)
  have il: "i \<in> live_set live" using i by (simp add: live_set_def)
  then have "f i \<in> dom (kf_cells k)" using cells(1) by blast
  then obtain ident where c: "kf_cells k (f i) = Some ident" by auto
  obtain k1 where k1: "cbpf_ref_read (f i) k = Some (kf_value k, k1)" "k1 = k\<lparr>kf_reads := kf_reads k + 1\<rparr>"
    using c by (simp add: cbpf_ref_read_def)
  have "kfunc_rel alloc k0 f (live, reads + 1) k1"
    using rel read_inv [OF inv k1(1)] by (simp add: kfunc_rel_def k1(2))
  moreover have "kf_value k = kf_value k0" using rel by (simp add: kfunc_rel_def)
  ultimately show "\<exists>k'. kfunc_gate alloc CBPF_OP_READ (Cap (f i)) pc k =
        (Some (Num (word_of_int (kf_value k0))), k') \<and> kfunc_rel alloc k0 f (live, reads + 1) k'"
    using k1(1) by (simp add: kfunc_gate_def)
  obtain k2 where k2: "cbpf_ref_release (f i) k = Some k2" "kf_cells k2 = (kf_cells k)(f i := None)"
    "kf_acquisitions k2 = kf_acquisitions k" "kf_reads k2 = kf_reads k" "kf_value k2 = kf_value k"
    using c by (simp add: cbpf_ref_release_def)
  have "dom (kf_cells k2) = f ` live_set (live[i := False])"
    using cells il by (simp add: k2(2) live_set_update inj_on_image_set_diff [OF cells(2)])
  moreover have "inj_on f (live_set (live[i := False]))"
    using cells(2) by (rule inj_on_subset) (simp add: live_set_update)
  ultimately have "kfunc_rel alloc k0 f (live[i := False], reads) k2"
    using rel release_inv [OF inv k2(1)] k2(3-5) by (simp add: kfunc_rel_def)
  then show "\<exists>k'. kfunc_gate alloc CBPF_OP_RELEASE (Cap (f i)) pc k = (Some (Num 0), k') \<and>
      kfunc_rel alloc k0 f (live[i := False], reads) k'"
    using k2(1) by (simp add: kfunc_gate_def)
qed

interpretation kfunc_refinement:
  gate_refinement "count_gate (word_of_int (kf_value k0))" "kfunc_gate alloc" "\<lambda>s. length (fst s)"
    "kfunc_rel alloc k0" False "\<lambda>_. True"
  for alloc k0
proof
  fix f :: "nat \<Rightarrow> u64" and s s' :: "bool list \<times> nat" and k op and arg :: "nat bval" and pc v
  assume rel: "kfunc_rel alloc k0 f s k" and shape: "gate_call op arg" "known (length (fst s)) arg"
    and g: "count_gate (word_of_int (kf_value k0)) op arg pc s = (Some v, s')"
  obtain live reads where s: "s = (live, reads)" by (cases s)
  have r: "kfunc_rel alloc k0 f (live, reads) k" using rel by (simp add: s)
  let ?Q = "\<exists>f' k'. kfunc_gate alloc op (map_bval f arg) pc k = (Some (map_bval f' v), k') \<and>
    kfunc_rel alloc k0 f' s' k' \<and> length (fst s) \<le> length (fst s') \<and> known (length (fst s')) v \<and>
    (\<forall>i < length (fst s). f' i = f i)"
  consider (acquire) n where "op = CBPF_OP_ACQUIRE" "arg = Num n"
    | (read) i where "op = CBPF_OP_READ" "arg = Cap i"
    | (release) i where "op = CBPF_OP_RELEASE" "arg = Cap i"
    using shape(1) by (auto simp: gate_call_def)
  then show ?Q
  proof cases
    case acquire
    show ?thesis
    proof (cases "(ucast n :: u32) = 0")
      case False
      then have "v = Num 0" "s' = s" using g acquire s by (auto simp: count_gate_def)
      then show ?thesis
        using False acquire rel by (auto simp: kfunc_gate_def cbpf_ref_acquire_def)
    next
      case True
      then have v: "length (filter id live) < 2" "v = Cap (length live)" "s' = (live @ [True], reads)"
        using g acquire s by (auto simp: count_gate_def split: if_splits)
      obtain a k' where "kfunc_gate alloc CBPF_OP_ACQUIRE (Num n) pc k = (Some (Cap a), k')"
        "kfunc_rel alloc k0 (f(length live := a)) (live @ [True], reads) k'"
        using acquire_rel [OF r True v(1)] by blast
      then show ?thesis
        using acquire s v(2,3) by (intro exI [of _ "f(length live := a)"] exI [of _ k']) simp
    qed
  next
    case read
    then have i: "i < length live" "live ! i" and v: "v = Num (word_of_int (kf_value k0))" "s' = (live, reads + 1)"
      using g s by (auto simp: count_gate_def split: if_splits)
    then show ?thesis
      using use_rel(1) [OF r i, of pc] read s by fastforce
  next
    case release
    then have i: "i < length live" "live ! i" and v: "v = Num 0" "s' = (live[i := False], reads)"
      using g s by (auto simp: count_gate_def split: if_splits)
    then show ?thesis
      using use_rel(2) [OF r i, of pc] release s by fastforce
  qed
qed simp_all

text \<open>
  A whole run on a balanced module: the result and the accounting after it, from the run on
  the abstract runtime.
\<close>

definition count_run :: "u64 \<Rightarrow> 'z jit_env_scheme \<Rightarrow> bpf_insn list \<Rightarrow> bpf_outcome \<times> bool list \<times> nat" where
  "count_run v E insnsi = bpf_exec (length insnsi) E insnsi (count_gate v) bpf_start ([], 0)"

lemma kfunc_run:
  assumes "kzalloc_ready alloc" and inv: "kfunc_inv k" and idle: "dom (kf_cells k) = {}"
    and run: "count_run (word_of_int (kf_value k)) E insnsi = (Finished v, live, reads)"
    and settled: "\<not> list_ex id live"
  shows "\<exists>k'. bpf_exec (length insnsi) E insnsi (kfunc_gate alloc) bpf_start k = (Finished v, k') \<and>
    kfunc_inv k' \<and> dom (kf_cells k') = {} \<and> kf_value k' = kf_value k \<and>
    kf_acquisitions k' = kf_acquisitions k + of_nat (length live) \<and>
    kf_reads k' = kf_reads k + of_nat reads"
proof -
  have rel: "kfunc_rel alloc k (\<lambda>_. 0) ([], 0) k"
    using assms(1) inv idle by (simp add: kfunc_rel_def live_set_def)
  obtain f k' where "bpf_exec (length insnsi) E insnsi (kfunc_gate alloc) bpf_start k = (Finished v, k')"
    "kfunc_rel alloc k f (live, reads) k'"
    using kfunc_refinement.exec_refines [OF state_known_start rel run [unfolded count_run_def]]
    unfolding lift_start by auto
  moreover have "live_set live = {}"
  proof -
    have "\<not> live ! i" if "i < length live" for i
      using settled nth_mem [OF that] unfolding list_ex_iff id_apply by blast
    then show ?thesis by (simp add: live_set_def)
  qed
  ultimately show ?thesis unfolding kfunc_rel_def prod.case by fastforce
qed

end
