(* ===== verification/KfuncPrograms.thy ===== *)
theory KfuncPrograms
  imports KfuncRun GuestOps
begin

text \<open>
  The programs of the kfunc guest, \<open>src/linux/kfunc/guest.c\<close>: the builder that emits
  instructions into a bounded array, and the programs made with it, in the state monad of
  the \<open>program\<close> that is built. \<open>pg_insns\<close> holds the \<open>count\<close> instructions written so far; register operands and BTF ids have the types of
  theory \<open>JitProgram\<close>.
\<close>

subsection \<open>The builder\<close>

definition MAX_INSNS :: nat where [layout_simps]: "MAX_INSNS = 64"

record program =
  pg_insns :: "bpf_insn list"
  pg_invalid :: bool

definition pg_empty :: program where "pg_empty = \<lparr>pg_insns = [], pg_invalid = False\<rparr>"

type_synonym 'a builder = "(program, 'a) state"

definition emit_insn :: "bpf_insn \<Rightarrow> nat builder" where
  "emit_insn insn = State (\<lambda>p.
     let pc = length (pg_insns p)
     in if pc = MAX_INSNS then (0, p\<lparr>pg_invalid := True\<rparr>)
        else (pc, p\<lparr>pg_insns := pg_insns p @ [insn]\<rparr>))"

definition emit_only :: "bpf_insn \<Rightarrow> unit builder" where
  "emit_only insn = do { _ \<leftarrow> emit_insn insn; State_Monad.return () }"

definition mov :: "4 word \<Rightarrow> 4 word \<Rightarrow> unit builder" where
  "mov dst src = emit_only (INSN BPF_ALU64_MOV_X dst src 0 0)"

definition imm :: "4 word \<Rightarrow> u32 \<Rightarrow> unit builder" where
  "imm dst v = emit_only (INSN BPF_ALU64_MOV_K dst 0 0 v)"

definition call :: "u32 \<Rightarrow> unit builder" where
  "call ident = emit_only (INSN BPF_JMP_CALL 0 BPF_PSEUDO_KFUNC_CALL 1 ident)"

definition null_branch_insn :: "nat builder" where
  "null_branch_insn = emit_insn (INSN BPF_JMP_JEQ_K 0 0 0 0)"

definition INT16_MAX :: nat where "INT16_MAX = 32767"

text \<open>The subtraction is on \<open>size_t\<close>; it is reached only when it does not wrap.\<close>

definition forward_to :: "nat \<Rightarrow> nat \<Rightarrow> unit builder" where
  "forward_to branch target = State (\<lambda>p.
     if branch \<ge> length (pg_insns p) \<or> target \<le> branch \<or> target > length (pg_insns p) \<or>
        target - branch - 1 > INT16_MAX
     then ((), p\<lparr>pg_invalid := True\<rparr>)
     else ((), p\<lparr>pg_insns := (pg_insns p)[branch :=
                   (pg_insns p ! branch)\<lparr>i_off := of_nat (target - branch - 1)\<rparr>]\<rparr>))"

text \<open>\<open>forward_to(&p, branch, p.count)\<close>.\<close>

definition forward_here :: "nat \<Rightarrow> unit builder" where
  "forward_here branch = do { p \<leftarrow> State_Monad.get; forward_to branch (length (pg_insns p)) }"

definition finish :: "u32 \<Rightarrow> unit builder" where
  "finish result = do { imm 0 result; emit_only (INSN BPF_JMP_EXIT 0 0 0 0) }"

definition save_alias :: "4 word \<Rightarrow> s16 \<Rightarrow> unit builder" where
  "save_alias a spill =
     (if spill \<noteq> 0 then emit_only (INSN BPF_STX_MEM_DW 10 a spill 0) else mov 8 a)"

definition alias_arg :: "s16 \<Rightarrow> unit builder" where
  "alias_arg spill =
     do {
       (if spill \<noteq> 0 then emit_only (INSN BPF_LDX_MEM_DW 8 10 spill 0) else State_Monad.return ());
       mov 1 8
     }"

definition build :: "unit builder \<Rightarrow> program" where
  "build b = snd (run_state b pg_empty)"

subsection \<open>The programs\<close>

definition kfunc_valid_ab :: "btf_ids \<Rightarrow> 4 word \<Rightarrow> s16 \<Rightarrow> u32 \<Rightarrow> program" where
  "kfunc_valid_ab B a spill null_b = (let b = (if a = 6 then 7 else 6) in build (do {
     imm 1 0;
     call (id_acquire B);
     a_null \<leftarrow> null_branch_insn;
     mov a 0;
     save_alias a spill;
     imm 1 null_b;
     call (id_acquire B);
     b_null \<leftarrow> null_branch_insn;
     mov b 0;
     alias_arg spill;
     call (id_release B);
     mov 1 b;
     call (id_read B);
     mov 9 0;
     mov 1 b;
     call (id_release B);
     mov 0 9;
     emit_only (INSN BPF_JMP_EXIT 0 0 0 0);
     forward_here b_null;
     alias_arg spill;
     call (id_release B);
     finish 7;
     forward_here a_null;
     finish 0
   }))"

definition kfunc_valid_null :: "btf_ids \<Rightarrow> program" where
  "kfunc_valid_null B = build (do {
     imm 1 1;
     call (id_acquire B);
     branch \<leftarrow> null_branch_insn;
     mov 1 0;
     call (id_release B);
     finish 13;
     forward_here branch;
     finish 0
   })"

datatype rejection = Stale_Copy | Stale_Spill | Double_Release | No_Null | Leak

definition rejections :: "rejection list" where
  "rejections = [Stale_Copy, Stale_Spill, Double_Release, No_Null, Leak]"

definition rejected_program :: "btf_ids \<Rightarrow> rejection \<Rightarrow> program" where
  "rejected_program B kind =
     (let spill = (if kind = Stale_Spill then - 8 else 0) in build (do {
        imm 1 0;
        call (id_acquire B);
        branch \<leftarrow> (if kind \<noteq> No_Null then null_branch_insn else State_Monad.return 0);
        mov 6 0;
        (if kind = Stale_Copy \<or> kind = Stale_Spill \<or> kind = Double_Release then do {
          save_alias 6 spill;
          mov 1 6;
          call (id_release B);
          alias_arg spill;
          call (if kind = Double_Release then id_release B else id_read B)
        } else if kind = No_Null then do {
          mov 1 6;
          call (id_read B);
          mov 1 6;
          call (id_release B)
        } else State_Monad.return ());
        (if kind \<noteq> No_Null then forward_here branch else State_Monad.return ());
        finish 0
      }))"

subsection \<open>Running the builder\<close>

lemma emit_run:
  "run_state (emit_insn i) p =
     (if length (pg_insns p) = MAX_INSNS then (0, p\<lparr>pg_invalid := True\<rparr>)
      else (length (pg_insns p), p\<lparr>pg_insns := pg_insns p @ [i]\<rparr>))"
  by (simp add: emit_insn_def Let_def)

lemma emit_only_run:
  "run_state (emit_only i) p =
     ((), if length (pg_insns p) = MAX_INSNS then p\<lparr>pg_invalid := True\<rparr>
          else p\<lparr>pg_insns := pg_insns p @ [i]\<rparr>)"
  by (simp add: emit_only_def emit_run)

lemma forward_run:
  "run_state (forward_here branch) p =
     ((), if branch \<ge> length (pg_insns p) \<or> length (pg_insns p) - branch - 1 > INT16_MAX
          then p\<lparr>pg_invalid := True\<rparr>
          else p\<lparr>pg_insns := (pg_insns p)[branch :=
                   (pg_insns p ! branch)\<lparr>i_off := of_nat (length (pg_insns p) - branch - 1)\<rparr>]\<rparr>)"
  by (auto simp: forward_here_def forward_to_def)

text \<open>One instruction of a program that has room, before the rest of the builder.\<close>

lemma emit_only_then:
  "length (pg_insns p) < MAX_INSNS \<Longrightarrow>
     run_state (State_Monad.bind (emit_only i) f) p = run_state (f ()) (p\<lparr>pg_insns := pg_insns p @ [i]\<rparr>)"
  "length (pg_insns p) < MAX_INSNS \<Longrightarrow>
     run_state (emit_only i) p = ((), p\<lparr>pg_insns := pg_insns p @ [i]\<rparr>)"
  by (simp_all add: emit_only_run)

lemma emit_then:
  "length (pg_insns p) < MAX_INSNS \<Longrightarrow>
     run_state (State_Monad.bind (emit_insn i) f) p =
     run_state (f (length (pg_insns p))) (p\<lparr>pg_insns := pg_insns p @ [i]\<rparr>)"
  by (simp add: emit_run)

lemma forward_then:
  "branch < length (pg_insns p) \<Longrightarrow> length (pg_insns p) - branch - 1 \<le> INT16_MAX \<Longrightarrow>
     run_state (State_Monad.bind (forward_here branch) f) p =
     run_state (f ()) (p\<lparr>pg_insns := (pg_insns p)[branch :=
       (pg_insns p ! branch)\<lparr>i_off := of_nat (length (pg_insns p) - branch - 1)\<rparr>]\<rparr>)"
  by (simp add: forward_run)

lemmas builder_simps =
  emit_only_then emit_then forward_then mov_def imm_def call_def null_branch_insn_def finish_def
  save_alias_def alias_arg_def build_def pg_empty_def MAX_INSNS_def INT16_MAX_def

lemma retarget: "(INSN c d r off v)\<lparr>i_off := w\<rparr> = INSN c d r w v"
  by (simp add: INSN_def)

lemma valid_null_built:
  "kfunc_valid_null B =
     \<lparr>pg_insns =
        [INSN BPF_ALU64_MOV_K 1 0 0 1, INSN BPF_JMP_CALL 0 BPF_PSEUDO_KFUNC_CALL 1 (id_acquire B),
         INSN BPF_JMP_JEQ_K 0 0 4 0, INSN BPF_ALU64_MOV_X 1 0 0 0,
         INSN BPF_JMP_CALL 0 BPF_PSEUDO_KFUNC_CALL 1 (id_release B),
         INSN BPF_ALU64_MOV_K 0 0 0 13, INSN BPF_JMP_EXIT 0 0 0 0,
         INSN BPF_ALU64_MOV_K 0 0 0 0, INSN BPF_JMP_EXIT 0 0 0 0],
      pg_invalid = False\<rparr>"
  by (simp add: kfunc_valid_null_def builder_simps retarget
      del: State_Monad.run_state_bind cong: bind_lazy)

text \<open>The instructions between the first NULL test and the last return, in the order written.\<close>

definition ab_insns :: "btf_ids \<Rightarrow> 4 word \<Rightarrow> u32 \<Rightarrow> bpf_insn \<Rightarrow> bpf_insn list \<Rightarrow> s16 \<Rightarrow> s16 \<Rightarrow> bpf_insn list" where
  "ab_insns B a null_b save load a_off b_off =
     (let b = (if a = 6 then 7 else 6);
          CALLS = INSN BPF_JMP_CALL 0 BPF_PSEUDO_KFUNC_CALL 1;
          MOV = (\<lambda>d r. INSN BPF_ALU64_MOV_X d r 0 0)
      in [INSN BPF_ALU64_MOV_K 1 0 0 0, CALLS (id_acquire B), INSN BPF_JMP_JEQ_K 0 0 a_off 0,
          MOV a 0, save, INSN BPF_ALU64_MOV_K 1 0 0 null_b, CALLS (id_acquire B),
          INSN BPF_JMP_JEQ_K 0 0 b_off 0, MOV b 0] @ load @
         [MOV 1 8, CALLS (id_release B), MOV 1 b, CALLS (id_read B), MOV 9 0, MOV 1 b,
          CALLS (id_release B), MOV 0 9, INSN BPF_JMP_EXIT 0 0 0 0] @ load @
         [MOV 1 8, CALLS (id_release B), INSN BPF_ALU64_MOV_K 0 0 0 7, INSN BPF_JMP_EXIT 0 0 0 0,
          INSN BPF_ALU64_MOV_K 0 0 0 0, INSN BPF_JMP_EXIT 0 0 0 0])"

lemma valid_ab_copy:
  "kfunc_valid_ab B a 0 null_b =
     \<lparr>pg_insns = ab_insns B a null_b (INSN BPF_ALU64_MOV_X 8 a 0 0) [] 19 10, pg_invalid = False\<rparr>"
  by (simp add: kfunc_valid_ab_def builder_simps retarget ab_insns_def Let_def
      del: State_Monad.run_state_bind cong: bind_lazy)

lemma valid_ab_spill:
  "spill \<noteq> 0 \<Longrightarrow> kfunc_valid_ab B a spill null_b =
     \<lparr>pg_insns = ab_insns B a null_b (INSN BPF_STX_MEM_DW 10 a spill 0)
        [INSN BPF_LDX_MEM_DW 8 10 spill 0] 21 11, pg_invalid = False\<rparr>"
  by (simp add: kfunc_valid_ab_def builder_simps retarget ab_insns_def Let_def
      del: State_Monad.run_state_bind cong: bind_lazy)

subsection \<open>What the programs do\<close>

text \<open>
  The calls of these programs name the kfuncs in the BTF of the module, index 1 of the
  array of file descriptors.
\<close>

definition KFUNC :: "u32 \<Rightarrow> bpf_insn" where
  "KFUNC ident = INSN BPF_JMP_CALL 0 BPF_PSEUDO_KFUNC_CALL 1 ident"

definition kfunc_resolves :: "btf_ids \<Rightarrow> 'z jit_env_scheme \<Rightarrow> bool" where
  "kfunc_resolves B E \<longleftrightarrow>
     call_operation E (KFUNC (id_acquire B)) = CBPF_OP_ACQUIRE \<and>
     call_operation E (KFUNC (id_read B)) = CBPF_OP_READ \<and>
     call_operation E (KFUNC (id_release B)) = CBPF_OP_RELEASE"

lemma sample_kfunc_resolves: "kfunc_resolves sample_ids sample_env"
  by (simp add: kfunc_resolves_def sample_ids_def sample_env_def call_operation_def KFUNC_def INSN_def)

lemma same_calls:
  assumes "kfunc_resolves B E"
  shows "same_insn E sample_env (INSN BPF_JMP_CALL 0 BPF_PSEUDO_KFUNC_CALL 1 (id_acquire B))
      (INSN BPF_JMP_CALL 0 BPF_PSEUDO_KFUNC_CALL 1 (id_acquire sample_ids))"
    and "same_insn E sample_env (INSN BPF_JMP_CALL 0 BPF_PSEUDO_KFUNC_CALL 1 (id_read B))
      (INSN BPF_JMP_CALL 0 BPF_PSEUDO_KFUNC_CALL 1 (id_read sample_ids))"
    and "same_insn E sample_env (INSN BPF_JMP_CALL 0 BPF_PSEUDO_KFUNC_CALL 1 (id_release B))
      (INSN BPF_JMP_CALL 0 BPF_PSEUDO_KFUNC_CALL 1 (id_release sample_ids))"
    and "i_code i \<noteq> BPF_JMP_CALL \<Longrightarrow> same_insn E sample_env i i"
  using assms sample_kfunc_resolves
  by (simp_all add: kfunc_resolves_def KFUNC_def same_insn_def call_operation_code) (simp_all add: INSN_def)

lemma insn_code: "i_code (INSN c d s off v) = c"
  by (simp add: INSN_def)

lemma ab_insns_same:
  assumes "kfunc_resolves B E" and "i_code save \<noteq> BPF_JMP_CALL"
    and "\<And>i. i \<in> set load \<Longrightarrow> i_code i \<noteq> BPF_JMP_CALL"
  shows "list_all2 (same_insn E sample_env) (ab_insns B a null_b save load a_off b_off)
    (ab_insns sample_ids a null_b save load a_off b_off)"
proof -
  have "list_all2 (same_insn E sample_env) load load"
    using assms(3) same_calls(4) [OF assms(1)] by (simp add: list_all2_same)
  then show ?thesis
    using assms(2) by (simp add: ab_insns_def Let_def list_all2_appendI same_calls [OF assms(1)] insn_code)
qed

lemma valid_null_same:
  assumes "kfunc_resolves B E"
  shows "list_all2 (same_insn E sample_env) (pg_insns (kfunc_valid_null B))
    (pg_insns (kfunc_valid_null sample_ids))"
  by (simp add: valid_null_built same_calls [OF assms] insn_code)

text \<open>
  The result of a program on an object that holds 42, its successful acquisitions and reads; every
  acquisition is released.
\<close>

definition counts_as :: "'z jit_env_scheme \<Rightarrow> bpf_insn list \<Rightarrow> u64 \<Rightarrow> nat \<Rightarrow> nat \<Rightarrow> bool" where
  "counts_as E insnsi expected acquisitions reads \<longleftrightarrow>
     count_run 42 E insnsi = (Finished expected, replicate acquisitions False, reads)"

lemma counts_same:
  assumes "list_all2 (same_insn E E') is js"
  shows "counts_as E is expected acquisitions reads = counts_as E' js expected acquisitions reads"
  by (simp add: counts_as_def count_run_def same_exec [OF assms] list_all2_lengthD [OF assms])

lemma ab_counts:
  "list_all (\<lambda>a.
     counts_as sample_env (ab_insns sample_ids a 0 (INSN BPF_ALU64_MOV_X 8 a 0 0) [] 19 10) 42 2 1 \<and>
     counts_as sample_env (ab_insns sample_ids a 1 (INSN BPF_ALU64_MOV_X 8 a 0 0) [] 19 10) 7 1 0)
   [6, 7]"
  "list_all (\<lambda>(a, spill).
     counts_as sample_env (ab_insns sample_ids a 0 (INSN BPF_STX_MEM_DW 10 a spill 0)
       [INSN BPF_LDX_MEM_DW 8 10 spill 0] 21 11) 42 2 1 \<and>
     counts_as sample_env (ab_insns sample_ids a 1 (INSN BPF_STX_MEM_DW 10 a spill 0)
       [INSN BPF_LDX_MEM_DW 8 10 spill 0] 21 11) 7 1 0)
   [(6, - 8), (6, - 16), (7, - 8), (7, - 16)]"
  by code_simp+

text \<open>The cases of \<open>main\<close>.\<close>

definition kfunc_aliases :: "(4 word \<times> s16) set" where
  "kfunc_aliases = {6, 7} \<times> {0, - 8, - 16}"

lemma ab_counts_same:
  assumes "kfunc_resolves B E"
  shows "counts_as E (ab_insns B a null_b (INSN BPF_ALU64_MOV_X 8 a 0 0) [] a_off b_off) =
      counts_as sample_env (ab_insns sample_ids a null_b (INSN BPF_ALU64_MOV_X 8 a 0 0) [] a_off b_off)"
    and "counts_as E (ab_insns B a null_b (INSN BPF_STX_MEM_DW 10 a spill 0)
        [INSN BPF_LDX_MEM_DW 8 10 spill 0] a_off b_off) =
      counts_as sample_env (ab_insns sample_ids a null_b (INSN BPF_STX_MEM_DW 10 a spill 0)
        [INSN BPF_LDX_MEM_DW 8 10 spill 0] a_off b_off)"
  by (intro ext counts_same ab_insns_same [OF assms]; auto simp: insn_code)+

lemma valid_ab_counts:
  assumes "kfunc_resolves B E" and "(a, spill) \<in> kfunc_aliases" and "null_b \<in> {0, 1}"
  shows "counts_as E (pg_insns (kfunc_valid_ab B a spill null_b))
    (if null_b \<noteq> 0 then 7 else 42) (if null_b \<noteq> 0 then 1 else 2) (if null_b \<noteq> 0 then 0 else 1)"
proof (cases "spill = 0")
  case True
  have "a = 6 \<or> a = 7" using assms(2) by (auto simp: kfunc_aliases_def)
  then show ?thesis
    using ab_counts(1) assms(3) by (auto simp: True valid_ab_copy ab_counts_same [OF assms(1)])
next
  case False
  have "(a, spill) \<in> {(6, - 8), (6, - 16), (7, - 8), (7, - 16)}"
    using assms(2) False by (auto simp: kfunc_aliases_def)
  then show ?thesis
    using ab_counts(2) assms(3)
    by (auto simp: valid_ab_spill [OF False] ab_counts_same [OF assms(1)])
qed

lemma valid_null_counts:
  assumes "kfunc_resolves B E"
  shows "counts_as E (pg_insns (kfunc_valid_null B)) 0 0 0"
proof -
  have "counts_as sample_env (pg_insns (kfunc_valid_null sample_ids)) 0 0 0"
    unfolding valid_null_built by code_simp
  then show ?thesis using counts_same [OF valid_null_same [OF assms]] by simp
qed

end
