(* ===== verification/KfuncGuest.thy ===== *)
theory KfuncGuest
  imports KfuncPrograms
begin

text \<open>
  The kfunc guest's loader, \<open>src/linux/kfunc/guest.c\<close>: it reads the module's counters,
  loads programs, runs the valid ones and checks that the others are rejected. The system
  calls are parameters, \<open>kfunc_os\<close>, on a state \<open>'w\<close> of the kernel that holds \<open>errno\<close> too. The guest's
  own state is the verifier's log and what it printed; the loader is written in the state monad.
\<close>

subsection \<open>System calls\<close>

record btf_info =
  bi_id :: u32
  bi_kernel_btf :: bool
  bi_name :: string

text \<open>
  A call that fails gives \<^term>\<open>None\<close>, or a negative number where it returns a file
  descriptor. \<open>os_prog_load\<close> gives the log the verifier wrote as well.
\<close>

record 'w kfunc_os =
  os_errno :: "'w \<Rightarrow> int"
  os_set_errno :: "int \<Rightarrow> 'w \<Rightarrow> 'w"
  os_getpid :: "'w \<Rightarrow> int"
  os_uname :: "'w \<Rightarrow> string option"
  os_mkdir :: "string \<Rightarrow> nat \<Rightarrow> 'w \<Rightarrow> int \<times> 'w"
  os_mount :: "string \<Rightarrow> string \<Rightarrow> string \<Rightarrow> nat \<Rightarrow> 'w \<Rightarrow> int \<times> 'w"
  os_open :: "string \<Rightarrow> 'w \<Rightarrow> int \<times> 'w"
  os_read :: "int \<Rightarrow> nat \<Rightarrow> 'w \<Rightarrow> string option \<times> 'w"
  os_close :: "int \<Rightarrow> 'w \<Rightarrow> 'w"
  os_finit_module :: "int \<Rightarrow> 'w \<Rightarrow> int \<times> 'w"
  os_prog_load :: "load_attr \<Rightarrow> 'w \<Rightarrow> (int \<times> string) \<times> 'w"
  os_prog_info :: "int \<Rightarrow> 'w \<Rightarrow> u32 option \<times> 'w"
  os_test_run :: "test_attr \<Rightarrow> 'w \<Rightarrow> u32 option \<times> 'w"
  os_btf_next_id :: "u32 \<Rightarrow> 'w \<Rightarrow> u32 option \<times> 'w"
  os_btf_fd :: "u32 \<Rightarrow> 'w \<Rightarrow> int \<times> 'w"
  os_btf_info :: "int \<Rightarrow> 'w \<Rightarrow> btf_info option \<times> 'w"

subsection \<open>Counters\<close>

definition is_digit :: "char \<Rightarrow> bool" where
  "is_digit c \<longleftrightarrow> 48 \<le> (of_char c :: nat) \<and> (of_char c :: nat) \<le> 57"

definition ERRNO_ERANGE :: int where "ERRNO_ERANGE = 34"
definition EEXIST :: int where "EEXIST = 17"

text \<open>The number a string of digits stands for.\<close>

definition digits_number :: "string \<Rightarrow> nat" where
  "digits_number s = foldl (\<lambda>n c. 10 * n + (of_char c - 48)) 0 s"

text \<open>
  \<open>strtoull\<close> in base 10 on a string that starts with a digit: the number, or \<open>ULLONG_MAX\<close> when
  it does not fit, what follows it, and whether \<open>errno\<close> is set to \<open>ERANGE\<close>.
\<close>

definition strtoull :: "string \<Rightarrow> u64 \<times> string \<times> bool" where
  "strtoull s =
     (let n = digits_number (takeWhile is_digit s);
          rest = dropWhile is_digit s
      in if n < 2 ^ 64 then (of_nat n, rest, False) else (- 1, rest, True))"

definition PARAMETERS :: string where "PARAMETERS = ''/sys/module/cbpf_kfunc/parameters/''"

definition read_counter :: "'w kfunc_os \<Rightarrow> string \<Rightarrow> ('w, u64 option) guest_op" where
  "read_counter os name = do {
     let path = PARAMETERS @ name;
     (if 128 \<le> length path then ret None else do {
        fd \<leftarrow> sys (os_open os path);
        (if fd < 0 then ret None else do {
           r \<leftarrow> sys (os_read os fd 63);
           change (os_close os fd);
           (case r of None \<Rightarrow> ret None | Some bytes \<Rightarrow>
              if bytes = [] \<or> length bytes = 63 then ret None else do {
                let buffer = cstring bytes;
                (if buffer = [] \<or> \<not> is_digit (hd buffer) then ret None else do {
                   change (os_set_errno os 0);
                   (case strtoull buffer of (parsed, rest, overflow) \<Rightarrow> do {
                      (if overflow then change (os_set_errno os ERRNO_ERANGE) else ret ());
                      e \<leftarrow> query (os_errno os);
                      (if e \<noteq> 0 \<or> (rest \<noteq> [] \<and> rest \<noteq> NL) then ret None else ret (Some parsed))
                    })
                 })
              })
         })
      })
   }"

record counters =
  c_acquisitions :: u64
  c_releases :: u64
  c_live :: u64
  c_reads :: u64
  c_object_refs :: u64

definition snapshot :: "'w kfunc_os \<Rightarrow> ('w, counters option) guest_op" where
  "snapshot os =
     proceed (read_counter os ''acquisitions'') (\<lambda>acquisitions.
     proceed (read_counter os ''releases'') (\<lambda>releases.
     proceed (read_counter os ''live'') (\<lambda>live.
     proceed (read_counter os ''reads'') (\<lambda>reads.
     proceed (read_counter os ''object_refs'') (\<lambda>object_refs.
       ret (Some \<lparr>c_acquisitions = acquisitions, c_releases = releases, c_live = live,
                  c_reads = reads, c_object_refs = object_refs\<rparr>))))))"

definition balanced :: "counters \<Rightarrow> bool" where
  "balanced s \<longleftrightarrow> c_live s = 0 \<and> c_object_refs s = 1 \<and> c_acquisitions s = c_releases s"

definition delta :: "counters \<Rightarrow> counters \<Rightarrow> u32 \<Rightarrow> u32 \<Rightarrow> bool" where
  "delta before after acquisitions reads \<longleftrightarrow>
     balanced before \<and> balanced after \<and>
     c_acquisitions after = c_acquisitions before + ucast acquisitions \<and>
     c_releases after = c_releases before + ucast acquisitions \<and>
     c_reads after = c_reads before + ucast reads"

subsection \<open>Loading and running\<close>

definition print_log :: "string \<Rightarrow> ('w, unit) guest_op" where
  "print_log name = do {
     log \<leftarrow> verifier_log;
     say (''CBPF_KFUNC verifier_begin case='' @ name @ NL);
     say (if log \<noteq> [] then log else ''<empty>'' @ NL);
     (if log \<noteq> [] \<and> last log \<noteq> hd NL then say NL else ret ());
     say (''CBPF_KFUNC verifier_end case='' @ name @ NL)
   }"

definition load_attr_of :: "program \<Rightarrow> int \<Rightarrow> load_attr" where
  "load_attr_of p module_fd =
     \<lparr>la_prog_type = BPF_PROG_TYPE_SCHED_CLS, la_insn_cnt = of_nat (length (pg_insns p)),
      la_insns = pg_insns p, la_license = ''GPL'', la_log_level = 2, la_log_size = LOG_SIZE,
      la_fd_array = [- 1, module_fd], la_prog_name = ''cbpf_binding''\<rparr>"

definition load_program :: "'w kfunc_os \<Rightarrow> program \<Rightarrow> int \<Rightarrow> ('w, int) guest_op" where
  "load_program os p module_fd = do {
     set_log '''';
     (if pg_invalid p \<or> pg_insns p = [] \<or> MAX_INSNS < length (pg_insns p) then ret (- 1) else do {
        (fd, log) \<leftarrow> sys (os_prog_load os (load_attr_of p module_fd));
        set_log (cstring (take (LOG_SIZE - 1) log));
        ret fd
      })
   }"

definition jited_length :: "'w kfunc_os \<Rightarrow> int \<Rightarrow> ('w, u32 option) guest_op" where
  "jited_length os fd = do {
     r \<leftarrow> sys (os_prog_info os fd);
     ret (case r of None \<Rightarrow> None | Some len \<Rightarrow> if len \<noteq> 0 then Some len else None)
   }"

definition run_loaded :: "'w kfunc_os \<Rightarrow> int \<Rightarrow> ('w, u32 option) guest_op" where
  "run_loaded os fd = sys (os_test_run os (test_attr_of fd))"

definition insn_line :: "nat \<Rightarrow> bpf_insn \<Rightarrow> string" where
  "insn_line pc i =
     ''CBPF_KFUNC trace pc='' @ decimal pc @ '' code=0x'' @ hex_byte (i_code i) @
     '' dst='' @ decimal (unat (i_dst i)) @ '' src='' @ decimal (unat (i_src i)) @
     '' off='' @ decimal_int (sint (i_off i)) @ '' imm='' @ decimal_int (sint (i_imm i)) @ NL"

definition print_program :: "program \<Rightarrow> ('w, unit) guest_op" where
  "print_program p =
     say (concat (map (\<lambda>(pc, i). insn_line pc i) (enumerate 0 (pg_insns p))))"

subsection \<open>Valid programs\<close>

record totals =
  t_positive_cases :: u32
  t_rejected_cases :: u32
  t_repeated_runs :: u32
  t_executions :: u32
  t_acquisitions :: u64
  t_reads :: u64

definition no_totals :: totals where
  "no_totals = \<lparr>t_positive_cases = 0, t_rejected_cases = 0, t_repeated_runs = 0,
     t_executions = 0, t_acquisitions = 0, t_reads = 0\<rparr>"

text \<open>
  The loop over the repeats: the stage that failed and the executions so far, or the
  executions and the last result.
\<close>

primrec run_repeats ::
    "'w kfunc_os \<Rightarrow> int \<Rightarrow> u32 \<Rightarrow> u32 \<Rightarrow> u32 \<Rightarrow> nat \<Rightarrow> u32 \<Rightarrow> u32 \<Rightarrow> counters \<Rightarrow>
     ('w, (string \<times> u32) + (u32 \<times> u32)) guest_op" where
  "run_repeats os fd expected acquisitions reads 0 executed retval before = ret (Inr (executed, retval))"
| "run_repeats os fd expected acquisitions reads (Suc n) executed retval before = do {
     r \<leftarrow> run_loaded os fd;
     (case r of
        None \<Rightarrow> ret (Inl (''run'', executed + 1))
      | Some retval \<Rightarrow>
          (if retval \<noteq> expected then ret (Inl (''accounting'', executed + 1)) else do {
             s \<leftarrow> snapshot os;
             (case s of
                None \<Rightarrow> ret (Inl (''accounting'', executed + 1))
              | Some after \<Rightarrow>
                  (if \<not> delta before after acquisitions reads then ret (Inl (''accounting'', executed + 1))
                   else run_repeats os fd expected acquisitions reads n (executed + 1) retval after))
           }))
   }"

definition valid_failed :: "'w kfunc_os \<Rightarrow> string \<Rightarrow> u32 \<Rightarrow> string \<Rightarrow> ('w, totals option) guest_op" where
  "valid_failed os name executed stage = do {
     e \<leftarrow> query (os_errno os);
     say (''CBPF_KFUNC case='' @ name @ '' kind=valid executed='' @ decimal (unat executed) @
          '' stage='' @ stage @ '' errno='' @ decimal_int e @ '' result=FAIL'' @ NL);
     ret None
   }"

definition valid_line :: "string \<Rightarrow> u32 \<Rightarrow> u32 \<Rightarrow> u32 \<Rightarrow> u32 \<Rightarrow> u32 \<Rightarrow> u32 \<Rightarrow> string" where
  "valid_line name executed retval len acquisitions reads repeats =
     ''CBPF_KFUNC case='' @ name @ '' kind=valid executed='' @ decimal (unat executed) @
     '' retval='' @ decimal (unat retval) @ '' jited_len='' @ decimal (unat len) @
     '' acquisitions='' @ decimal (unat (acquisitions * repeats)) @
     '' releases='' @ decimal (unat (acquisitions * repeats)) @
     '' reads='' @ decimal (unat (reads * repeats)) @ '' live=0 object_refs=1 result=PASS'' @ NL"

definition count_valid :: "u32 \<Rightarrow> u32 \<Rightarrow> u32 \<Rightarrow> totals \<Rightarrow> totals" where
  "count_valid acquisitions reads repeats t =
     (let t = t\<lparr>t_executions := t_executions t + repeats,
                t_acquisitions := t_acquisitions t + ucast acquisitions * ucast repeats,
                t_reads := t_reads t + ucast reads * ucast repeats\<rparr>
      in if repeats = 1 then t\<lparr>t_positive_cases := t_positive_cases t + 1\<rparr>
         else t\<lparr>t_repeated_runs := t_repeated_runs t + repeats\<rparr>)"

definition run_valid ::
    "'w kfunc_os \<Rightarrow> string \<Rightarrow> program \<Rightarrow> int \<Rightarrow> u32 \<Rightarrow> u32 \<Rightarrow> u32 \<Rightarrow> u32 \<Rightarrow> totals \<Rightarrow>
     ('w, totals option) guest_op" where
  "run_valid os name p module_fd expected acquisitions reads repeats totals = do {
     s \<leftarrow> snapshot os;
     (case s of
        None \<Rightarrow> valid_failed os name 0 ''snapshot''
      | Some before \<Rightarrow>
          (if \<not> balanced before then valid_failed os name 0 ''snapshot'' else do {
             fd \<leftarrow> load_program os p module_fd;
             (if fd < 0 then do { print_log name; valid_failed os name 0 ''load'' } else do {
                l \<leftarrow> jited_length os fd;
                (case l of
                   None \<Rightarrow> do { change (os_close os fd); valid_failed os name 0 ''jit'' }
                 | Some len \<Rightarrow> do {
                     r \<leftarrow> run_repeats os fd expected acquisitions reads (unat repeats) 0 (- 1) before;
                     (case r of
                        Inl (stage, executed) \<Rightarrow>
                          do { change (os_close os fd); valid_failed os name executed stage }
                      | Inr (executed, retval) \<Rightarrow> do {
                          say (valid_line name executed retval len acquisitions reads repeats);
                          change (os_close os fd);
                          ret (Some (count_valid acquisitions reads repeats totals))
                        })
                   })
              })
           }))
   }"

subsection \<open>Rejected programs\<close>

definition attributable_rejection :: "rejection \<Rightarrow> string \<Rightarrow> bool" where
  "attributable_rejection kind log =
     (if log = [] then False
      else if kind = Leak then
        strstr log ''Unreleased reference'' \<or> strstr log ''unreleased reference''
      else if kind = No_Null then
        strstr log ''Possibly NULL pointer'' \<or> strstr log ''R1 type=ptr_or_null''
      else list_ex (strstr log)
        [''R1 must be referenced or trusted'', ''R8 !read_ok'', ''invalid read from stack'',
         ''R1 type=scalar expected='', ''arg#0 pointer type STRUCT cbpf_ref must point to scalar''])"

definition rejected_failed :: "string \<Rightarrow> int \<Rightarrow> ('w, totals option) guest_op" where
  "rejected_failed name load_errno = do {
     say (''CBPF_KFUNC case='' @ name @ '' kind=reject executed=0 errno='' @ decimal_int load_errno @
          '' reason=unattributed_or_accounting result=FAIL'' @ NL);
     ret None
   }"

definition check_rejected ::
    "'w kfunc_os \<Rightarrow> btf_ids \<Rightarrow> string \<Rightarrow> rejection \<Rightarrow> int \<Rightarrow> totals \<Rightarrow> ('w, totals option) guest_op" where
  "check_rejected os B name kind module_fd totals = do {
     let p = rejected_program B kind;
     s \<leftarrow> snapshot os;
     (case s of
        None \<Rightarrow> ret None
      | Some before \<Rightarrow>
          (if \<not> balanced before then ret None else do {
             fd \<leftarrow> load_program os p module_fd;
             load_errno \<leftarrow> query (os_errno os);
             print_log name;
             (if 0 \<le> fd then do {
                change (os_close os fd);
                say (''CBPF_KFUNC case='' @ name @
                     '' kind=reject executed=0 reason=unexpected_accept result=FAIL'' @ NL);
                ret None
              } else do {
                log \<leftarrow> verifier_log;
                (if pg_invalid p \<or> \<not> attributable_rejection kind log
                 then rejected_failed name load_errno else do {
                   s \<leftarrow> snapshot os;
                   (case s of
                      None \<Rightarrow> rejected_failed name load_errno
                    | Some after \<Rightarrow>
                        (if \<not> delta before after 0 0 then rejected_failed name load_errno else do {
                           say (''CBPF_KFUNC case='' @ name @ '' kind=reject executed=0 errno='' @
                                decimal_int load_errno @ '' result=PASS'' @ NL);
                           ret (Some (totals\<lparr>t_rejected_cases := t_rejected_cases totals + 1\<rparr>))
                         }))
                 })
              })
           }))
   }"

subsection \<open>The guest\<close>

definition module_line :: "btf_ids \<Rightarrow> u32 \<Rightarrow> string" where
  "module_line B ident =
     ''CBPF_KFUNC module_btf_id='' @ decimal (unat ident) @
     '' acquire_id='' @ decimal (unat (id_acquire B)) @ '' read_id='' @ decimal (unat (id_read B)) @
     '' release_id='' @ decimal (unat (id_release B)) @ NL"

text \<open>The attempts that are left, and the last id seen. The name is cut to its buffer of 64 bytes.\<close>

primrec btf_search :: "'w kfunc_os \<Rightarrow> btf_ids \<Rightarrow> nat \<Rightarrow> u32 \<Rightarrow> ('w, int) guest_op" where
  "btf_search os B 0 previous = ret (- 1)"
| "btf_search os B (Suc n) previous = do {
     r \<leftarrow> sys (os_btf_next_id os previous);
     (case r of
        None \<Rightarrow> ret (- 1)
      | Some previous \<Rightarrow> do {
          fd \<leftarrow> sys (os_btf_fd os previous);
          (if fd < 0 then ret (- 1) else do {
             r \<leftarrow> sys (os_btf_info os fd);
             (case r of
                None \<Rightarrow> do { change (os_close os fd); ret (- 1) }
              | Some info \<Rightarrow>
                  (if bi_kernel_btf info \<and> cstring (take 63 (bi_name info)) = ''cbpf_kfunc'' then do {
                     say (module_line B (bi_id info));
                     ret fd
                   } else do {
                     change (os_close os fd);
                     btf_search os B n previous
                   }))
           })
        })
   }"

definition module_btf_fd :: "'w kfunc_os \<Rightarrow> btf_ids \<Rightarrow> ('w, int) guest_op" where
  "module_btf_fd os B = btf_search os B 128 0"

definition confirm_guest_identity :: "'w kfunc_os \<Rightarrow> string \<Rightarrow> ('w, bool) guest_op" where
  "confirm_guest_identity os expected_release = do {
     pid \<leftarrow> query (os_getpid os);
     (if pid \<noteq> 1 then ret False else do {
        u \<leftarrow> query (os_uname os);
        (case u of
           None \<Rightarrow> ret False
         | Some release \<Rightarrow>
             (if release \<noteq> expected_release then ret False else do {
                say (''CBPF_KFUNC kernel_release='' @ release @ NL);
                ret True
              }))
      })
   }"

definition MOUNT_FLAGS :: nat where "MOUNT_FLAGS = 14"

text \<open>\<open>mkdir(path, 0555) && errno != EEXIST\<close>.\<close>

definition mkdir_failed :: "'w kfunc_os \<Rightarrow> string \<Rightarrow> ('w, bool) guest_op" where
  "mkdir_failed os path = do {
     r \<leftarrow> sys (os_mkdir os path 365);
     e \<leftarrow> query (os_errno os);
     ret (r \<noteq> 0 \<and> e \<noteq> EEXIST)
   }"

definition prepare_guest :: "'w kfunc_os \<Rightarrow> ('w, int) guest_op" where
  "prepare_guest os = do {
     proc \<leftarrow> mkdir_failed os ''/proc'';
     (if proc then ret (- 1) else do {
        sysfs \<leftarrow> mkdir_failed os ''/sys'';
        (if sysfs then ret (- 1) else do {
           r \<leftarrow> sys (os_mount os ''proc'' ''/proc'' ''proc'' MOUNT_FLAGS);
           (if r \<noteq> 0 then ret (- 1) else do {
              r \<leftarrow> sys (os_mount os ''sysfs'' ''/sys'' ''sysfs'' MOUNT_FLAGS);
              (if r \<noteq> 0 then ret (- 1) else do {
                 fd \<leftarrow> sys (os_open os ''/cbpf_kfunc.ko'');
                 (if fd < 0 then ret (- 1) else do {
                    res \<leftarrow> sys (os_finit_module os fd);
                    saved_errno \<leftarrow> query (os_errno os);
                    change (os_close os fd);
                    change (os_set_errno os saved_errno);
                    ret res
                  })
               })
            })
         })
      })
   }"

text \<open>The valid cases in the order of the loops: register, alias, \<open>null_b\<close>.\<close>

definition valid_cases :: "(4 word \<times> (s16 \<times> string) \<times> u32) list" where
  "valid_cases =
     List.product [6, 7]
       (List.product [(0, ''copy''), (- 8, ''spill8''), (- 16, ''spill16'')] [0, 1])"

definition case_name :: "4 word \<Rightarrow> string \<Rightarrow> u32 \<Rightarrow> string" where
  "case_name a alias null_b =
     take 63 ((if null_b \<noteq> 0 then ''null_b'' else ''ab'') @ ''_'' @ alias @ ''_a'' @ decimal (unat a))"

definition valid_case ::
    "'w kfunc_os \<Rightarrow> btf_ids \<Rightarrow> int \<Rightarrow> 4 word \<times> (s16 \<times> string) \<times> u32 \<Rightarrow> totals \<Rightarrow> ('w, totals option) guest_op" where
  "valid_case os B module_fd = (\<lambda>(a, (spill, alias), null_b) totals. do {
     let p = kfunc_valid_ab B a spill null_b;
     (if a = 6 \<and> alias = ''copy'' \<and> null_b = 0 then print_program p else ret ());
     run_valid os (case_name a alias null_b) p module_fd (if null_b \<noteq> 0 then 7 else 42)
       (if null_b \<noteq> 0 then 1 else 2) (if null_b \<noteq> 0 then 0 else 1) 1 totals
   })"

definition rejection_names :: "(rejection \<times> string) list" where
  "rejection_names = zip rejections
     [''stale_copy'', ''stale_spill'', ''double_release'', ''missing_null'', ''leaked_ref'']"

definition summary_line :: "totals \<Rightarrow> counters \<Rightarrow> string" where
  "summary_line totals final =
     ''CBPF_KFUNC positive_cases='' @ decimal (unat (t_positive_cases totals)) @
     '' rejected_cases='' @ decimal (unat (t_rejected_cases totals)) @
     '' repeated_runs='' @ decimal (unat (t_repeated_runs totals)) @
     '' executed_total='' @ decimal (unat (t_executions totals)) @
     '' acquisitions='' @ decimal (unat (c_acquisitions final)) @
     '' releases='' @ decimal (unat (c_releases final)) @
     '' reads='' @ decimal (unat (c_reads final)) @ '' live=0 object_refs=1'' @ NL"

definition final_ok :: "totals \<Rightarrow> counters \<Rightarrow> bool" where
  "final_ok totals final \<longleftrightarrow>
     balanced final \<and> c_acquisitions final = t_acquisitions totals \<and> c_reads final = t_reads totals \<and>
     t_positive_cases totals = 13 \<and> t_rejected_cases totals = 5 \<and> t_repeated_runs totals = 32 \<and>
     t_executions totals = 45"

text \<open>The checks after the module is found: the stage that failed, or \<^term>\<open>None\<close>.\<close>

definition guest_checks :: "'w kfunc_os \<Rightarrow> btf_ids \<Rightarrow> int \<Rightarrow> ('w, string option) guest_op" where
  "guest_checks os B module_fd = do {
     s \<leftarrow> snapshot os;
     (case s of
        None \<Rightarrow> ret (Some ''initial_accounting'')
      | Some initial \<Rightarrow>
          (if \<not> balanced initial \<or> c_acquisitions initial \<noteq> 0 \<or> c_reads initial \<noteq> 0
           then ret (Some ''initial_accounting'') else do {
             r \<leftarrow> proceed (attempt_each valid_cases (valid_case os B module_fd) no_totals)
                   (run_valid os ''first_null'' (kfunc_valid_null B) module_fd 0 0 0 1);
             (case r of
                None \<Rightarrow> ret (Some ''valid_cases'')
              | Some totals \<Rightarrow> do {
                  r \<leftarrow> run_valid os ''repeat_ab_spill16_a7'' (kfunc_valid_ab B 7 (- 16) 0)
                        module_fd 42 2 1 32 totals;
                  (case r of
                     None \<Rightarrow> ret (Some ''repeated_runs'')
                   | Some totals \<Rightarrow> do {
                       r \<leftarrow> attempt_each rejection_names
                             (\<lambda>(kind, name). check_rejected os B name kind module_fd) totals;
                       (case r of
                          None \<Rightarrow> ret (Some ''rejection_cases'')
                        | Some totals \<Rightarrow> do {
                            s \<leftarrow> snapshot os;
                            (case s of
                               None \<Rightarrow> ret (Some ''final_accounting'')
                             | Some final \<Rightarrow>
                                 (if \<not> final_ok totals final then ret (Some ''final_accounting'') else do {
                                    say (summary_line totals final);
                                    ret None
                                  }))
                          })
                     })
                })
           }))
   }"

definition guest_out :: "'w kfunc_os \<Rightarrow> int \<Rightarrow> string option \<Rightarrow> ('w, guest_end) guest_op" where
  "guest_out os module_fd failed = do {
     (if 0 \<le> module_fd then change (os_close os module_fd) else ret ());
     e \<leftarrow> query (os_errno os);
     say (case failed of
            Some stage \<Rightarrow> ''CBPF_KFUNC stage='' @ stage @ '' errno='' @ decimal_int e @ '' result=FAIL'' @ NL
          | None \<Rightarrow> ''CBPF_KFUNC result=PASS'' @ NL);
     ret Guest_Poweroff
   }"

definition kfunc_guest_main :: "'w kfunc_os \<Rightarrow> btf_ids \<Rightarrow> string \<Rightarrow> ('w, guest_end) guest_op" where
  "kfunc_guest_main os B expected_release = do {
     confirmed \<leftarrow> confirm_guest_identity os expected_release;
     (if \<not> confirmed then do {
        say (''CBPF_KFUNC stage=identity poweroff=0 result=FAIL'' @ NL);
        ret (Guest_Returned 1)
      } else do {
        say (''CBPF_KFUNC scope=linux_kfunc_binding runtime_cheri=0 normal_verifier=1'' @ NL);
        prepared \<leftarrow> prepare_guest os;
        (if prepared \<noteq> 0 then guest_out os (- 1) (Some ''prepare'') else do {
           module_fd \<leftarrow> module_btf_fd os B;
           (if module_fd < 0 then guest_out os module_fd (Some ''module_btf'') else do {
              failed \<leftarrow> guest_checks os B module_fd;
              guest_out os module_fd failed
            })
         })
      })
   }"

end
