(* ===== verification/KfuncKernel.thy ===== *)
theory KfuncKernel
  imports KfuncGuest
begin

text \<open>
  What the loader relies on of the kernel it runs in, as the locale \<open>kfunc_kernel\<close>: the
  module's parameter files, the descriptors of programs and BTF objects, the verifier's
  verdict on the loader's programs, and that a test run executes the program on the module.
\<close>

subsection \<open>The state the loader can observe\<close>

record kernel_view =
  kv_module :: "kfunc option"
  kv_progs :: "int \<rightharpoonup> bpf_insn list"
  kv_btf :: "int \<rightharpoonup> btf_info"

definition is_module_btf :: "btf_info \<Rightarrow> bool" where
  "is_module_btf info \<longleftrightarrow> bi_kernel_btf info \<and> cstring (take 63 (bi_name info)) = ''cbpf_kfunc''"

text \<open>The programs the verifier is expected to accept.\<close>

definition accepted_programs :: "btf_ids \<Rightarrow> program set" where
  "accepted_programs B =
     {kfunc_valid_null B} \<union>
     {kfunc_valid_ab B a spill null_b | a spill null_b. (a, spill) \<in> kfunc_aliases \<and> null_b \<in> {0, 1}}"

text \<open>
  The verifier's message for each of the others, as \<open>evidence/current/kfunc/boot.log\<close> records
  them. After the release the aliases of the handle are scalars, in the register and in the
  stack slot, and a scalar is no argument for a pointer to \<open>cbpf_ref\<close>.
\<close>

definition stale_argument :: string where
  "stale_argument = ''arg#0 pointer type STRUCT cbpf_ref must point to scalar, or struct with scalar''"

fun diagnosis :: "rejection \<Rightarrow> string" where
  "diagnosis Stale_Copy = stale_argument"
| "diagnosis Stale_Spill = stale_argument"
| "diagnosis Double_Release = stale_argument"
| "diagnosis No_Null = ''Possibly NULL pointer passed to trusted arg0''"
| "diagnosis Leak = ''Unreleased reference id=''"

locale kfunc_kernel =
  fixes os :: "'w kfunc_os"
    and B :: btf_ids
    and expected_release :: string
    and E :: "'z jit_env_scheme"
    and alloc :: "kfunc \<Rightarrow> u64"
    and btfs :: "(u32 \<times> btf_info) list"
    and view :: "'w \<Rightarrow> kernel_view"
  assumes resolves: "kfunc_resolves B E"
    and kzalloc: "kzalloc_ready alloc"
    and pid: "os_getpid os w = 1"
    and release: "os_uname os w = Some expected_release"
    and errno_view: "view (os_set_errno os e w) = view w"
    and errno_set: "os_errno os (os_set_errno os e w) = e"
    and close_view: "view (os_close os fd w) =
      (view w)\<lparr>kv_progs := (kv_progs (view w))(fd := None), kv_btf := (kv_btf (view w))(fd := None)\<rparr>"
    and mkdir: "\<exists>r w'. os_mkdir os path mode w = (r, w') \<and> (r = 0 \<or> os_errno os w' = EEXIST) \<and>
      view w' = view w"
    and mount: "\<exists>w'. os_mount os source target type flags w = (0, w') \<and> view w' = view w"
    and module_loads: "kv_module (view w) = None \<Longrightarrow>
      \<exists>fd w1 w2. os_open os ''/cbpf_kfunc.ko'' w = (fd, w1) \<and> 0 \<le> fd \<and>
        os_finit_module os fd w1 = (0, w2) \<and>
        view (os_close os fd w2) = (view w)\<lparr>kv_module := Some kfunc_loaded\<rparr>"
    and btf_list: "sorted_wrt (<) (0 # map fst btfs)" "length btfs \<le> 128"
      "\<exists>info \<in> snd ` set btfs. is_module_btf info"
    and btf_next: "kv_module (view w) \<noteq> None \<Longrightarrow>
      \<exists>w'. os_btf_next_id os previous w = (map_option fst (find (\<lambda>(i, _). previous < i) btfs), w') \<and>
        view w' = view w"
    and btf_open: "kv_module (view w) \<noteq> None \<Longrightarrow> (ident, info) \<in> set btfs \<Longrightarrow>
      \<exists>fd w'. os_btf_fd os ident w = (fd, w') \<and> 0 \<le> fd \<and> kv_progs (view w) fd = None \<and>
        kv_btf (view w) fd = None \<and> view w' = (view w)\<lparr>kv_btf := (kv_btf (view w))(fd \<mapsto> info)\<rparr>"
    and btf_info: "kv_btf (view w) fd = Some info \<Longrightarrow>
      \<exists>w'. os_btf_info os fd w = (Some info, w') \<and> view w' = view w"
    and parameter_file: "kv_module (view w) = Some k \<Longrightarrow> module_parameter name k = Some text \<Longrightarrow>
      \<exists>fd w1 w2. os_open os (PARAMETERS @ name) w = (fd, w1) \<and> 0 \<le> fd \<and>
        os_read os fd 63 w1 = (Some (take 63 text), w2) \<and> view (os_close os fd w2) = view w"
    and verifier_accepts: "kv_module (view w) \<noteq> None \<Longrightarrow> kv_btf (view w) module_fd = Some info \<Longrightarrow>
      is_module_btf info \<Longrightarrow> p \<in> accepted_programs B \<Longrightarrow>
      \<exists>fd log w'. os_prog_load os (load_attr_of p module_fd) w = ((fd, log), w') \<and> 0 \<le> fd \<and>
        kv_progs (view w) fd = None \<and> kv_btf (view w) fd = None \<and>
        view w' = (view w)\<lparr>kv_progs := (kv_progs (view w))(fd \<mapsto> pg_insns p)\<rparr>"
    and verifier_rejects: "kv_module (view w) \<noteq> None \<Longrightarrow> kv_btf (view w) module_fd = Some info \<Longrightarrow>
      is_module_btf info \<Longrightarrow>
      \<exists>fd log w'. os_prog_load os (load_attr_of (rejected_program B kind) module_fd) w = ((fd, log), w') \<and>
        fd < 0 \<and> log_shows log (diagnosis kind) \<and> view w' = view w"
    and jited: "kv_progs (view w) fd = Some insns \<Longrightarrow>
      \<exists>len w'. os_prog_info os fd w = (Some len, w') \<and> len \<noteq> 0 \<and> view w' = view w"
    and test_run: "kv_progs (view w) fd = Some insns \<Longrightarrow> kv_module (view w) = Some k \<Longrightarrow>
      bpf_exec (length insns) E insns (kfunc_gate alloc) bpf_start k = (Finished v, k') \<Longrightarrow>
      runs_once attr fd \<Longrightarrow>
      \<exists>w'. os_test_run os attr w = (Some (ucast v), w') \<and> view w' = (view w)\<lparr>kv_module := Some k'\<rparr>"

subsection \<open>Counters and their text\<close>

lemma digit_char_code: "d < 10 \<Longrightarrow> (of_char (digit_char d) :: nat) = 48 + d"
  by (simp add: digit_char_def)

lemma digit_char_digit: "d < 10 \<Longrightarrow> is_digit (digit_char d)"
  by (simp add: is_digit_def digit_char_code)

lemma decimal_digits: "list_all is_digit (decimal n) \<and> decimal n \<noteq> []"
proof (induction n rule: decimal.induct)
  case (1 n)
  then show ?case by (subst (1 2) decimal.simps) (simp add: digit_char_digit)
qed

lemma decimal_read:
  "digits_number (decimal n) = n"
proof (induction n rule: decimal.induct)
  case (1 n)
  then show ?case unfolding digits_number_def by (subst decimal.simps) (simp add: digit_char_code)
qed

lemma decimal_length: "0 < d \<Longrightarrow> n < 10 ^ d \<Longrightarrow> length (decimal n) \<le> d"
proof (induction n arbitrary: d rule: decimal.induct)
  case (1 n)
  show ?case
  proof (cases "n < 10")
    case True
    then show ?thesis using "1.prems" by (subst decimal.simps) simp
  next
    case False
    then have "d \<noteq> 1" using "1.prems" by auto
    then obtain e where d: "d = Suc e" "0 < e" using "1.prems"(1) by (cases d) auto
    then have "n div 10 < 10 ^ e" using "1.prems"(2) by (simp add: less_mult_imp_div_less mult.commute)
    then show ?thesis using "1.IH" [OF False d(2)] d False by (subst decimal.simps) simp
  qed
qed

lemma digit_not_special: "is_digit c \<Longrightarrow> c \<noteq> CHR 0x00 \<and> c \<noteq> CHR 0x0A"
  by (auto simp: is_digit_def)

text \<open>The text of a counter, as the loader reads it back.\<close>

lemma counter_text:
  fixes n :: nat
  assumes "n < 2 ^ 64"
  shows "let text = decimal n @ NL in
    text \<noteq> [] \<and> length text < 63 \<and> cstring text = text \<and> is_digit (hd text) \<and>
    strtoull text = (of_nat n, NL, False)"
proof -
  have len: "length (decimal n) \<le> 20" using decimal_length [of 20 n] assms by simp
  have d: "\<forall>c \<in> set (decimal n). is_digit c" "decimal n \<noteq> []"
    using decimal_digits [of n] by (simp_all add: list_all_iff)
  have nl: "\<not> is_digit (CHR 0x0A)" by (simp add: is_digit_def)
  have t: "takeWhile is_digit (decimal n @ NL) = decimal n" "dropWhile is_digit (decimal n @ NL) = NL"
    using d(1) nl by (simp_all add: NL_def)
  have "cstring (decimal n @ NL) = decimal n @ NL"
    unfolding cstring_def using d(1) digit_not_special by (subst takeWhile_eq_all_conv) (auto simp: NL_def)
  moreover have "is_digit (hd (decimal n @ NL))" using d by (cases "decimal n") auto
  moreover have "strtoull (decimal n @ NL) = (of_nat n, NL, False)"
    using assms by (simp add: strtoull_def t decimal_read)
  ultimately show ?thesis using len by (simp add: NL_def)
qed

subsection \<open>Running the loader\<close>

definition counters_of :: "kfunc \<Rightarrow> counters" where
  "counters_of k =
     \<lparr>c_acquisitions = kf_acquisitions k, c_releases = kf_releases k, c_live = kf_live k,
      c_reads = kf_reads k, c_object_refs = ucast (kf_refs k)\<rparr>"

text \<open>A module on which no acquisition is live, with the object's initial value.\<close>

definition idle :: "kfunc \<Rightarrow> bool" where
  "idle k \<longleftrightarrow> kfunc_inv k \<and> dom (kf_cells k) = {} \<and> kf_value k = 42"

lemma idle_loaded: "idle kfunc_loaded"
  using kfunc_inv_loaded by (simp add: idle_def kfunc_loaded_def)

lemma idle_facts: "idle k \<Longrightarrow> kf_refs k = 1 \<and> kf_live k = 0 \<and> kf_acquisitions k = kf_releases k"
  by (auto simp: idle_def kfunc_inv_def kfunc_counts_def)

lemma idle_balanced: "idle k \<Longrightarrow> balanced (counters_of k)"
  using idle_facts [of k] by (simp add: balanced_def counters_of_def)

text \<open>A program's run on the module.\<close>

lemma counts_run:
  assumes "kzalloc_ready alloc" and "idle k" and "counts_as E insnsi v acquisitions reads"
  shows "\<exists>k'. bpf_exec (length insnsi) E insnsi (kfunc_gate alloc) bpf_start k = (Finished v, k') \<and>
    idle k' \<and> kf_acquisitions k' = kf_acquisitions k + of_nat acquisitions \<and>
    kf_reads k' = kf_reads k + of_nat reads"
proof -
  have "count_run (word_of_int (kf_value k)) E insnsi = (Finished v, replicate acquisitions False, reads)"
    using assms(2,3) by (simp add: idle_def counts_as_def)
  moreover have "\<not> list_ex id (replicate acquisitions False)" by (simp add: list_ex_iff)
  ultimately show ?thesis
    using kfunc_run [OF assms(1), of k E insnsi v] assms(2) unfolding idle_def by fastforce
qed

lemma read_counter_line:
  assumes w: "os_open os (PARAMETERS @ name) (gs_world g) = (fd, w1)" "0 \<le> fd"
      "os_read os fd 63 w1 = (Some line, w2)"
    and T: "line \<noteq> []" "length line < 63" "cstring line = line" "is_digit (hd line)"
      "strtoull line = (c, NL, False)"
    and errno: "\<And>w. os_errno os (os_set_errno os 0 w) = 0"
    and name: "length name < 64"
  shows "run_state (read_counter os name) g =
    (Some c, g\<lparr>gs_world := os_set_errno os 0 (os_close os fd w2)\<rparr>)"
proof -
  have "\<not> 128 \<le> length (PARAMETERS @ name)" using name by (simp add: PARAMETERS_def)
  then show ?thesis unfolding read_counter_def Let_def using w T errno by simp
qed

context kfunc_kernel
begin

lemma read_counter_run:
  assumes k: "kv_module (view (gs_world g)) = Some k"
    and shown: "module_parameter name k = Some line"
    and T: "line \<noteq> []" "length line < 63" "cstring line = line" "is_digit (hd line)"
      "strtoull line = (c, NL, False)"
    and name: "length name < 64"
  shows "\<exists>w. run_state (read_counter os name) g = (Some c, g\<lparr>gs_world := w\<rparr>) \<and>
    view w = view (gs_world g)"
proof -
  obtain fd w1 w2 where w: "os_open os (PARAMETERS @ name) (gs_world g) = (fd, w1)" "0 \<le> fd"
    "os_read os fd 63 w1 = (Some line, w2)" "view (os_close os fd w2) = view (gs_world g)"
    using parameter_file [OF k shown] T(2) by auto
  show ?thesis
    using w(4) by (simp add: read_counter_line [OF w(1-3) T errno_set name] errno_view) (metis errno_view)
qed

lemma snapshot_run:
  assumes k: "kv_module (view (gs_world g)) = Some k"
  shows "\<exists>w. run_state (snapshot os) g = (Some (counters_of k), g\<lparr>gs_world := w\<rparr>) \<and>
    view w = view (gs_world g)"
proof -
  have read: "\<exists>w. run_state (read_counter os name) g' = (Some c, g'\<lparr>gs_world := w\<rparr>) \<and>
      view w = view (gs_world g')"
    if "kv_module (view (gs_world g')) = Some k" "module_parameter name k = Some (decimal n @ NL)"
      "n < 2 ^ 64" "c = of_nat n" "length name < 64" for name n c g'
    using read_counter_run [OF that(1,2)] counter_text [OF that(3)] that(4,5) by (simp add: Let_def)
  have u: "unat c < 2 ^ 64" for c :: u64 using unsigned_less [of c, where ?'a = nat] by simp
  have r: "unat (kf_refs k) < 2 ^ 64" "(of_nat (unat (kf_refs k)) :: u64) = ucast (kf_refs k)"
    using unsigned_less [of "kf_refs k", where ?'a = nat] by (simp_all add: unsigned_ucast_eq)
  obtain w1 where 1: "run_state (read_counter os ''acquisitions'') g = (Some (kf_acquisitions k), g\<lparr>gs_world := w1\<rparr>)"
    "view w1 = view (gs_world g)"
    using read [OF k, of "''acquisitions''" "unat (kf_acquisitions k)" "kf_acquisitions k"] u
    by (auto simp: module_parameter_def cbpf_counter_get_def)
  obtain w2 where 2: "run_state (read_counter os ''releases'') (g\<lparr>gs_world := w1\<rparr>) =
      (Some (kf_releases k), g\<lparr>gs_world := w2\<rparr>)" "view w2 = view (gs_world g)"
    using read [of "g\<lparr>gs_world := w1\<rparr>" "''releases''" "unat (kf_releases k)" "kf_releases k"] u k 1(2)
    by (auto simp: module_parameter_def cbpf_counter_get_def)
  obtain w3 where 3: "run_state (read_counter os ''live'') (g\<lparr>gs_world := w2\<rparr>) =
      (Some (kf_live k), g\<lparr>gs_world := w3\<rparr>)" "view w3 = view (gs_world g)"
    using read [of "g\<lparr>gs_world := w2\<rparr>" "''live''" "unat (kf_live k)" "kf_live k"] u k 2(2)
    by (auto simp: module_parameter_def cbpf_counter_get_def)
  obtain w4 where 4: "run_state (read_counter os ''reads'') (g\<lparr>gs_world := w3\<rparr>) =
      (Some (kf_reads k), g\<lparr>gs_world := w4\<rparr>)" "view w4 = view (gs_world g)"
    using read [of "g\<lparr>gs_world := w3\<rparr>" "''reads''" "unat (kf_reads k)" "kf_reads k"] u k 3(2)
    by (auto simp: module_parameter_def cbpf_counter_get_def)
  obtain w5 where 5: "run_state (read_counter os ''object_refs'') (g\<lparr>gs_world := w4\<rparr>) =
      (Some (ucast (kf_refs k)), g\<lparr>gs_world := w5\<rparr>)" "view w5 = view (gs_world g)"
    using read [of "g\<lparr>gs_world := w4\<rparr>" "''object_refs''" "unat (kf_refs k)"] r k 4(2)
    by (auto simp: module_parameter_def cbpf_object_refs_get_def)
  show ?thesis
    using 5(2) by (intro exI [of _ w5]) (simp add: snapshot_def proceed_run(1) [OF 1(1)] proceed_run(1) [OF 2(1)]
        proceed_run(1) [OF 3(1)] proceed_run(1) [OF 4(1)] proceed_run(1) [OF 5(1)] counters_of_def)
qed

lemma idle_snapshot:
  assumes "kv_module (view (gs_world g)) = Some k" and "idle k"
  shows "\<exists>w. run_state (snapshot os) g = (Some (counters_of k), g\<lparr>gs_world := w\<rparr>) \<and>
    view w = view (gs_world g)"
  by (rule snapshot_run [OF assms(1)])

text \<open>One execution of a loaded program, and the loop of them.\<close>

lemma run_repeats_run:
  assumes prog: "counts_as E insns (ucast expected) (unat acquisitions) (unat reads)"
  shows "\<lbrakk>kv_module (view (gs_world g)) = Some k; idle k; kv_progs (view (gs_world g)) fd = Some insns;
      before = counters_of k\<rbrakk> \<Longrightarrow>
    \<exists>w k' r. run_state (run_repeats os fd expected acquisitions reads n executed retval before) g =
        (Inr (executed + of_nat n, r), g\<lparr>gs_world := w\<rparr>) \<and>
      view w = (view (gs_world g))\<lparr>kv_module := Some k'\<rparr> \<and> idle k' \<and>
      kf_acquisitions k' = kf_acquisitions k + ucast acquisitions * of_nat n \<and>
      kf_reads k' = kf_reads k + ucast reads * of_nat n \<and> r = (if n = 0 then retval else expected)"
proof (induction n arbitrary: g k executed retval before)
  case 0
  show ?case
    using 0 by (intro exI [of _ "gs_world g"] exI [of _ k] exI [of _ retval]) simp
next
  case (Suc n)
  obtain k1 where k1: "bpf_exec (length insns) E insns (kfunc_gate alloc) bpf_start k = (Finished (ucast expected), k1)"
    "idle k1" "kf_acquisitions k1 = kf_acquisitions k + ucast acquisitions" "kf_reads k1 = kf_reads k + ucast reads"
    using counts_run [OF kzalloc Suc.prems(2) prog] by (auto simp: unsigned_ucast_eq)
  have e: "(ucast (ucast expected :: u64) :: u32) = expected" by transfer (simp add: take_bit_take_bit)
  obtain w1 where w1: "os_test_run os (test_attr_of fd) (gs_world g) = (Some expected, w1)"
    "view w1 = (view (gs_world g))\<lparr>kv_module := Some k1\<rparr>"
    using test_run [OF Suc.prems(3,1) k1(1) test_attr_once] e by auto
  obtain w2 where w2: "run_state (snapshot os) (g\<lparr>gs_world := w1\<rparr>) = (Some (counters_of k1), g\<lparr>gs_world := w2\<rparr>)"
    "view w2 = (view (gs_world g))\<lparr>kv_module := Some k1\<rparr>"
    using idle_snapshot [of "g\<lparr>gs_world := w1\<rparr>" k1] k1(2) w1(2) by auto
  have d: "delta before (counters_of k1) acquisitions reads"
    using idle_balanced [OF Suc.prems(2)] idle_balanced [OF k1(2)] k1(3,4)
      idle_facts [OF Suc.prems(2)] idle_facts [OF k1(2)]
    by (simp add: delta_def Suc.prems(4) counters_of_def)
  have step: "run_state (run_repeats os fd expected acquisitions reads (Suc n) executed retval before) g =
      run_state (run_repeats os fd expected acquisitions reads n (executed + 1) expected (counters_of k1))
        (g\<lparr>gs_world := w2\<rparr>)"
    by (simp add: run_loaded_def w1(1) w2(1) d)
  show ?case
    using Suc.IH [of "g\<lparr>gs_world := w2\<rparr>" k1 "counters_of k1" "executed + 1" expected] Suc.prems(3) k1(2-4) w2(2)
    unfolding step by (auto simp: algebra_simps)
qed

end

end
