(* ===== verification/KfuncChecks.thy ===== *)
theory KfuncChecks
  imports KfuncKernel
begin

text \<open>
  The loader on a kernel of \<open>kfunc_kernel\<close>: every valid case passes with the accounting it
  expects, every rejection probe is rejected for its reason, and \<open>main\<close> reports success.
\<close>

subsection \<open>The rejected programs\<close>

lemma rejected_built:
  "rejected_program B Stale_Copy =
     \<lparr>pg_insns = [INSN BPF_ALU64_MOV_K 1 0 0 0, INSN BPF_JMP_CALL 0 BPF_PSEUDO_KFUNC_CALL 1 (id_acquire B),
        INSN BPF_JMP_JEQ_K 0 0 6 0, INSN BPF_ALU64_MOV_X 6 0 0 0, INSN BPF_ALU64_MOV_X 8 6 0 0,
        INSN BPF_ALU64_MOV_X 1 6 0 0, INSN BPF_JMP_CALL 0 BPF_PSEUDO_KFUNC_CALL 1 (id_release B),
        INSN BPF_ALU64_MOV_X 1 8 0 0, INSN BPF_JMP_CALL 0 BPF_PSEUDO_KFUNC_CALL 1 (id_read B),
        INSN BPF_ALU64_MOV_K 0 0 0 0, INSN BPF_JMP_EXIT 0 0 0 0], pg_invalid = False\<rparr>"
  "rejected_program B Stale_Spill =
     \<lparr>pg_insns = [INSN BPF_ALU64_MOV_K 1 0 0 0, INSN BPF_JMP_CALL 0 BPF_PSEUDO_KFUNC_CALL 1 (id_acquire B),
        INSN BPF_JMP_JEQ_K 0 0 7 0, INSN BPF_ALU64_MOV_X 6 0 0 0, INSN BPF_STX_MEM_DW 10 6 (- 8) 0,
        INSN BPF_ALU64_MOV_X 1 6 0 0, INSN BPF_JMP_CALL 0 BPF_PSEUDO_KFUNC_CALL 1 (id_release B),
        INSN BPF_LDX_MEM_DW 8 10 (- 8) 0, INSN BPF_ALU64_MOV_X 1 8 0 0,
        INSN BPF_JMP_CALL 0 BPF_PSEUDO_KFUNC_CALL 1 (id_read B),
        INSN BPF_ALU64_MOV_K 0 0 0 0, INSN BPF_JMP_EXIT 0 0 0 0], pg_invalid = False\<rparr>"
  "rejected_program B Double_Release =
     \<lparr>pg_insns = [INSN BPF_ALU64_MOV_K 1 0 0 0, INSN BPF_JMP_CALL 0 BPF_PSEUDO_KFUNC_CALL 1 (id_acquire B),
        INSN BPF_JMP_JEQ_K 0 0 6 0, INSN BPF_ALU64_MOV_X 6 0 0 0, INSN BPF_ALU64_MOV_X 8 6 0 0,
        INSN BPF_ALU64_MOV_X 1 6 0 0, INSN BPF_JMP_CALL 0 BPF_PSEUDO_KFUNC_CALL 1 (id_release B),
        INSN BPF_ALU64_MOV_X 1 8 0 0, INSN BPF_JMP_CALL 0 BPF_PSEUDO_KFUNC_CALL 1 (id_release B),
        INSN BPF_ALU64_MOV_K 0 0 0 0, INSN BPF_JMP_EXIT 0 0 0 0], pg_invalid = False\<rparr>"
  "rejected_program B No_Null =
     \<lparr>pg_insns = [INSN BPF_ALU64_MOV_K 1 0 0 0, INSN BPF_JMP_CALL 0 BPF_PSEUDO_KFUNC_CALL 1 (id_acquire B),
        INSN BPF_ALU64_MOV_X 6 0 0 0, INSN BPF_ALU64_MOV_X 1 6 0 0,
        INSN BPF_JMP_CALL 0 BPF_PSEUDO_KFUNC_CALL 1 (id_read B), INSN BPF_ALU64_MOV_X 1 6 0 0,
        INSN BPF_JMP_CALL 0 BPF_PSEUDO_KFUNC_CALL 1 (id_release B),
        INSN BPF_ALU64_MOV_K 0 0 0 0, INSN BPF_JMP_EXIT 0 0 0 0], pg_invalid = False\<rparr>"
  "rejected_program B Leak =
     \<lparr>pg_insns = [INSN BPF_ALU64_MOV_K 1 0 0 0, INSN BPF_JMP_CALL 0 BPF_PSEUDO_KFUNC_CALL 1 (id_acquire B),
        INSN BPF_JMP_JEQ_K 0 0 1 0, INSN BPF_ALU64_MOV_X 6 0 0 0,
        INSN BPF_ALU64_MOV_K 0 0 0 0, INSN BPF_JMP_EXIT 0 0 0 0], pg_invalid = False\<rparr>"
  by (simp_all add: rejected_program_def builder_simps retarget Let_def
      del: State_Monad.run_state_bind cong: bind_lazy)

text \<open>Every program of the loader is complete and fits its array.\<close>

definition loadable :: "program \<Rightarrow> bool" where
  "loadable p \<longleftrightarrow> \<not> pg_invalid p \<and> pg_insns p \<noteq> [] \<and> length (pg_insns p) \<le> MAX_INSNS"

lemma rejected_loadable: "loadable (rejected_program B kind)"
  by (cases kind) (simp_all add: rejected_built loadable_def MAX_INSNS_def)

lemma accepted_loadable:
  assumes "p \<in> accepted_programs B"
  shows "loadable p"
proof (cases "p = kfunc_valid_null B")
  case True
  then show ?thesis by (simp add: valid_null_built loadable_def MAX_INSNS_def)
next
  case False
  then obtain a spill null_b where p: "p = kfunc_valid_ab B a spill null_b"
    using assms by (auto simp: accepted_programs_def)
  show ?thesis
    by (cases "spill = 0") (simp_all add: p valid_ab_copy valid_ab_spill ab_insns_def Let_def loadable_def MAX_INSNS_def)
qed

subsection \<open>The verifier's log\<close>

lemma log_attributed:
  assumes "log_shows log (diagnosis kind)"
  shows "attributable_rejection kind log"
proof -
  obtain pre post where log: "log = pre @ diagnosis kind @ post"
    using assms unfolding log_shows_def by blast
  have part: "strstr log m" if "diagnosis kind = m @ rest" for m rest
    unfolding log that append_assoc by (rule strstr_within)
  have ne: "log \<noteq> []" by (cases kind) (simp_all add: log stale_argument_def)
  show ?thesis
  proof (cases "kind = Leak \<or> kind = No_Null")
    case True
    then show ?thesis
      using ne part [of "''Unreleased reference''" "'' id=''"]
        part [of "''Possibly NULL pointer''" "'' passed to trusted arg0''"]
      by (auto simp: attributable_rejection_def)
  next
    case False
    then have "diagnosis kind = ''arg#0 pointer type STRUCT cbpf_ref must point to scalar'' @ '', or struct with scalar''"
      by (cases kind) (simp_all add: stale_argument_def)
    from part [OF this] show ?thesis
      using ne False by (simp add: attributable_rejection_def)
  qed
qed

lemma print_log_run: "\<exists>out. run_state (print_log name) g = ((), g\<lparr>gs_out := out\<rparr>)"
proof (intro exI)
  let ?log = "gs_log g"
  show "run_state (print_log name) g = ((), g\<lparr>gs_out := gs_out g @ (''CBPF_KFUNC verifier_begin case='' @ name @ NL) @
      (if ?log \<noteq> [] then ?log else ''<empty>'' @ NL) @ (if ?log \<noteq> [] \<and> last ?log \<noteq> hd NL then NL else []) @
      (''CBPF_KFUNC verifier_end case='' @ name @ NL)\<rparr>)"
    by (simp add: print_log_def)
qed

subsection \<open>The cases\<close>

lemma find_after: "find P xs = None \<Longrightarrow> find P (xs @ ys) = find P ys"
  by (induction xs) (auto split: if_splits)

text \<open>The module's state behind the loader's totals.\<close>

definition module_at :: "kernel_view \<Rightarrow> totals \<Rightarrow> int \<Rightarrow> bool" where
  "module_at v t module_fd \<longleftrightarrow>
     0 \<le> module_fd \<and> (\<exists>info. kv_btf v module_fd = Some info \<and> is_module_btf info) \<and>
     (\<exists>k. kv_module v = Some k \<and> idle k \<and> kf_acquisitions k = t_acquisitions t \<and> kf_reads k = t_reads t)"

text \<open>The totals after a valid case, and after all of them.\<close>

definition after_case :: "4 word \<times> (s16 \<times> string) \<times> u32 \<Rightarrow> totals \<Rightarrow> totals" where
  "after_case = (\<lambda>(a, (spill, alias), null_b).
     count_valid (if null_b \<noteq> 0 then 1 else 2) (if null_b \<noteq> 0 then 0 else 1) 1)"

definition after_valid :: totals where
  "after_valid = count_valid 0 0 1 (fold after_case valid_cases no_totals)"

definition all_totals :: totals where
  "all_totals = fold (\<lambda>_ t. t\<lparr>t_rejected_cases := t_rejected_cases t + 1\<rparr>) rejection_names
     (count_valid 2 1 32 after_valid)"

lemma all_totals_final:
  "all_totals = \<lparr>t_positive_cases = 13, t_rejected_cases = 5, t_repeated_runs = 32,
     t_executions = 45, t_acquisitions = 82, t_reads = 38\<rparr>"
  by code_simp

text \<open>The last lines a successful run prints.\<close>

definition pass_lines :: string where
  "pass_lines =
     ''CBPF_KFUNC positive_cases=13 rejected_cases=5 repeated_runs=32 executed_total=45 acquisitions=82 releases=82 reads=38 live=0 object_refs=1'' @ NL @
     ''CBPF_KFUNC result=PASS'' @ NL"

lemma pass_numbers:
  "map decimal [13, 5, 32, 45, 82, 38] = [''13'', ''5'', ''32'', ''45'', ''82'', ''38'']"
  by code_simp

lemma summary_pass:
  "c_acquisitions c = 82 \<Longrightarrow> c_releases c = 82 \<Longrightarrow> c_reads c = 38 \<Longrightarrow>
     summary_line all_totals c @ ''CBPF_KFUNC result=PASS'' @ NL = pass_lines"
  using pass_numbers by (simp add: summary_line_def all_totals_final pass_lines_def)

context kfunc_kernel
begin

lemma load_accepted:
  assumes m: "kv_module (view (gs_world g)) \<noteq> None" "kv_btf (view (gs_world g)) module_fd = Some info"
    "is_module_btf info" and p: "p \<in> accepted_programs B"
  shows "\<exists>fd w log. run_state (load_program os p module_fd) g = (fd, g\<lparr>gs_log := log, gs_world := w\<rparr>) \<and>
    0 \<le> fd \<and> kv_progs (view (gs_world g)) fd = None \<and> kv_btf (view (gs_world g)) fd = None \<and>
    view w = (view (gs_world g))\<lparr>kv_progs := (kv_progs (view (gs_world g)))(fd \<mapsto> pg_insns p)\<rparr>"
proof -
  obtain fd log w where l: "os_prog_load os (load_attr_of p module_fd) (gs_world g) = ((fd, log), w)" "0 \<le> fd"
    "kv_progs (view (gs_world g)) fd = None" "kv_btf (view (gs_world g)) fd = None"
    "view w = (view (gs_world g))\<lparr>kv_progs := (kv_progs (view (gs_world g)))(fd \<mapsto> pg_insns p)\<rparr>"
    using verifier_accepts [OF m p] by blast
  show ?thesis
    using l accepted_loadable [OF p]
    by (intro exI [of _ fd] exI [of _ w] exI [of _ "cstring (take (LOG_SIZE - 1) log)"])
      (simp add: load_program_def loadable_def guest_order)
qed

lemma load_rejected:
  assumes m: "kv_module (view (gs_world g)) \<noteq> None" "kv_btf (view (gs_world g)) module_fd = Some info"
    "is_module_btf info"
  shows "\<exists>fd w log. run_state (load_program os (rejected_program B kind) module_fd) g =
      (fd, g\<lparr>gs_log := log, gs_world := w\<rparr>) \<and>
    fd < 0 \<and> attributable_rejection kind log \<and> view w = view (gs_world g)"
proof -
  obtain fd log w where l: "os_prog_load os (load_attr_of (rejected_program B kind) module_fd) (gs_world g) = ((fd, log), w)"
    "fd < 0" "log_shows log (diagnosis kind)" "view w = view (gs_world g)"
    using verifier_rejects [OF m] by blast
  show ?thesis
    using l rejected_loadable [of B kind] log_attributed [OF l(3)]
    by (intro exI [of _ fd] exI [of _ w] exI [of _ log])
      (simp add: load_program_def loadable_def log_kept [OF l(3), simplified] guest_order)
qed

lemma run_valid_run:
  assumes m: "module_at (view (gs_world g)) t module_fd" and p: "p \<in> accepted_programs B"
    and prog: "counts_as E (pg_insns p) (ucast expected) (unat acquisitions) (unat reads)"
    and repeats: "0 < repeats"
  shows "\<exists>g'. run_state (run_valid os name p module_fd expected acquisitions reads repeats t) g =
      (Some (count_valid acquisitions reads repeats t), g') \<and>
    module_at (view (gs_world g')) (count_valid acquisitions reads repeats t) module_fd"
proof -
  obtain info k where info: "kv_btf (view (gs_world g)) module_fd = Some info" "is_module_btf info"
    and k: "kv_module (view (gs_world g)) = Some k" "idle k" "kf_acquisitions k = t_acquisitions t"
      "kf_reads k = t_reads t" and fd0: "0 \<le> module_fd"
    using m by (auto simp: module_at_def)
  let ?v = "view (gs_world g)"
  obtain w1 where w1: "run_state (snapshot os) g = (Some (counters_of k), g\<lparr>gs_world := w1\<rparr>)" "view w1 = ?v"
    using idle_snapshot [OF k(1,2)] by blast
  obtain fd w2 log where w2: "run_state (load_program os p module_fd) (g\<lparr>gs_world := w1\<rparr>) =
      (fd, g\<lparr>gs_log := log, gs_world := w2\<rparr>)" "0 \<le> fd" "kv_progs ?v fd = None" "kv_btf ?v fd = None"
    "view w2 = ?v\<lparr>kv_progs := (kv_progs ?v)(fd \<mapsto> pg_insns p)\<rparr>"
    using load_accepted [of "g\<lparr>gs_world := w1\<rparr>" module_fd info p] info k(1) p w1(2) by auto
  obtain len w3 where w3: "os_prog_info os fd w2 = (Some len, w3)" "len \<noteq> 0" "view w3 = view w2"
    using jited [of w2 fd "pg_insns p"] w2(5) by auto
  obtain w4 k4 r where w4: "run_state (run_repeats os fd expected acquisitions reads (unat repeats) 0 (- 1) (counters_of k))
      (g\<lparr>gs_log := log, gs_world := w3\<rparr>) = (Inr (of_nat (unat repeats), r), g\<lparr>gs_log := log, gs_world := w4\<rparr>)"
    "view w4 = (view w3)\<lparr>kv_module := Some k4\<rparr>" "idle k4"
    "kf_acquisitions k4 = kf_acquisitions k + ucast acquisitions * of_nat (unat repeats)"
    "kf_reads k4 = kf_reads k + ucast reads * of_nat (unat repeats)"
    using run_repeats_run [OF prog, of "g\<lparr>gs_log := log, gs_world := w3\<rparr>" k fd "counters_of k" "unat repeats" 0 "- 1"]
      k w2(5) w3(3) by auto
  have un: "(of_nat (unat repeats) :: u64) = ucast repeats" "(of_nat (unat repeats) :: u32) = repeats"
    by (simp_all add: unsigned_ucast_eq)
  let ?w = "os_close os fd w4"
  let ?g = "g\<lparr>gs_log := log, gs_world := ?w,
    gs_out := gs_out g @ valid_line name repeats r len acquisitions reads repeats\<rparr>"
  have run: "run_state (run_valid os name p module_fd expected acquisitions reads repeats t) g =
      (Some (count_valid acquisitions reads repeats t), ?g)"
    using w1(1) w2(1,2) w3(1,2) w4(1) idle_balanced [OF k(2)]
    by (simp add: run_valid_def jited_length_def un guest_order)
  have "view ?w = ?v\<lparr>kv_module := Some k4\<rparr>"
    using w4(2) w3(3) w2(3-5) by (simp add: close_view fun_upd_idem)
  then have "module_at (view ?w) (count_valid acquisitions reads repeats t) module_fd"
    using info fd0 w4(3-5) k(3,4) by (simp add: module_at_def count_valid_def Let_def un)
  then show ?thesis using run by (intro exI [of _ ?g]) simp
qed

lemma check_rejected_run:
  assumes m: "module_at (view (gs_world g)) t module_fd"
  shows "\<exists>g'. run_state (check_rejected os B name kind module_fd t) g =
      (Some (t\<lparr>t_rejected_cases := t_rejected_cases t + 1\<rparr>), g') \<and>
    module_at (view (gs_world g')) (t\<lparr>t_rejected_cases := t_rejected_cases t + 1\<rparr>) module_fd"
proof -
  obtain info k where info: "kv_btf (view (gs_world g)) module_fd = Some info" "is_module_btf info"
    and k: "kv_module (view (gs_world g)) = Some k" "idle k" "kf_acquisitions k = t_acquisitions t"
      "kf_reads k = t_reads t" and fd0: "0 \<le> module_fd"
    using m by (auto simp: module_at_def)
  let ?v = "view (gs_world g)"
  obtain w1 where w1: "run_state (snapshot os) g = (Some (counters_of k), g\<lparr>gs_world := w1\<rparr>)" "view w1 = ?v"
    using idle_snapshot [OF k(1,2)] by blast
  obtain fd w2 log where w2: "run_state (load_program os (rejected_program B kind) module_fd) (g\<lparr>gs_world := w1\<rparr>) =
      (fd, g\<lparr>gs_log := log, gs_world := w2\<rparr>)" "fd < 0" "attributable_rejection kind log" "view w2 = ?v"
    using load_rejected [of "g\<lparr>gs_world := w1\<rparr>" module_fd info kind] info k(1) w1(2) by auto
  obtain out where out: "run_state (print_log name) (g\<lparr>gs_log := log, gs_world := w2\<rparr>) =
      ((), g\<lparr>gs_log := log, gs_world := w2, gs_out := out\<rparr>)"
    using print_log_run [of name "g\<lparr>gs_log := log, gs_world := w2\<rparr>"] by auto
  obtain w3 where w3: "run_state (snapshot os) (g\<lparr>gs_log := log, gs_world := w2, gs_out := out\<rparr>) =
      (Some (counters_of k), g\<lparr>gs_log := log, gs_world := w3, gs_out := out\<rparr>)" "view w3 = ?v"
    using idle_snapshot [of "g\<lparr>gs_log := log, gs_world := w2, gs_out := out\<rparr>" k] k w2(4)
    by (auto simp: guest_order)
  have d: "delta (counters_of k) (counters_of k) 0 0" "balanced (counters_of k)"
    using idle_balanced [OF k(2)] by (simp_all add: delta_def)
  have "\<not> pg_invalid (rejected_program B kind)" using rejected_loadable [of B kind] by (simp add: loadable_def)
  then have "\<exists>out'. run_state (check_rejected os B name kind module_fd t) g =
      (Some (t\<lparr>t_rejected_cases := t_rejected_cases t + 1\<rparr>),
       g\<lparr>gs_log := log, gs_world := w3, gs_out := out'\<rparr>)"
    using w1(1) w2(1-3) w3(1) out d by (auto simp: check_rejected_def Let_def guest_order)
  then show ?thesis
    using m w3(2) k by (auto simp: module_at_def)
qed

text \<open>The guest's preparation, and the search for the module's BTF.\<close>

lemma confirm_run:
  "run_state (confirm_guest_identity os expected_release) g =
     (True, g\<lparr>gs_out := gs_out g @ (''CBPF_KFUNC kernel_release='' @ expected_release @ NL)\<rparr>)"
  by (simp add: confirm_guest_identity_def pid release)

lemma mkdir_run:
  "\<exists>w. run_state (mkdir_failed os path) g = (False, g\<lparr>gs_world := w\<rparr>) \<and> view w = view (gs_world g)"
proof -
  obtain r w where "os_mkdir os path 365 (gs_world g) = (r, w)" "r = 0 \<or> os_errno os w = EEXIST"
    "view w = view (gs_world g)"
    using mkdir by blast
  then show ?thesis by (intro exI [of _ w]) (auto simp: mkdir_failed_def)
qed

lemma prepare_run:
  assumes "kv_module (view (gs_world g)) = None"
  shows "\<exists>w. run_state (prepare_guest os) g = (0, g\<lparr>gs_world := w\<rparr>) \<and>
    view w = (view (gs_world g))\<lparr>kv_module := Some kfunc_loaded\<rparr>"
proof -
  obtain w1 where w1: "run_state (mkdir_failed os ''/proc'') g = (False, g\<lparr>gs_world := w1\<rparr>)" "view w1 = view (gs_world g)"
    using mkdir_run by blast
  obtain w2 where w2: "run_state (mkdir_failed os ''/sys'') (g\<lparr>gs_world := w1\<rparr>) = (False, g\<lparr>gs_world := w2\<rparr>)"
    "view w2 = view (gs_world g)"
    using mkdir_run [of "''/sys''" "g\<lparr>gs_world := w1\<rparr>"] w1(2) by auto
  obtain w3 where w3: "os_mount os ''proc'' ''/proc'' ''proc'' MOUNT_FLAGS w2 = (0, w3)" "view w3 = view w2"
    using mount by blast
  obtain w4 where w4: "os_mount os ''sysfs'' ''/sys'' ''sysfs'' MOUNT_FLAGS w3 = (0, w4)" "view w4 = view w3"
    using mount by blast
  obtain fd w5 w6 where w6: "os_open os ''/cbpf_kfunc.ko'' w4 = (fd, w5)" "0 \<le> fd" "os_finit_module os fd w5 = (0, w6)"
    "view (os_close os fd w6) = (view w4)\<lparr>kv_module := Some kfunc_loaded\<rparr>"
    using module_loads [of w4] assms w2(2) w3(2) w4(2) by auto
  show ?thesis
    using w6 w2(2) w3(2) w4(2)
    by (intro exI [of _ "os_set_errno os (os_errno os w6) (os_close os fd w6)"])
      (simp add: prepare_guest_def w1(1) w2(1) w3(1) w4(1) errno_view)
qed

lemma btf_search_run:
  "\<lbrakk>btfs = before @ rest; \<forall>(i, info) \<in> set before. \<not> previous < i; rest \<noteq> [] \<longrightarrow> previous < fst (hd rest);
    \<exists>info \<in> snd ` set rest. is_module_btf info; length rest \<le> n; kv_module (view (gs_world g)) \<noteq> None\<rbrakk> \<Longrightarrow>
   \<exists>fd g' info. run_state (btf_search os B n previous) g = (fd, g') \<and> 0 \<le> fd \<and>
     kv_btf (view (gs_world g')) fd = Some info \<and> is_module_btf info \<and>
     kv_module (view (gs_world g')) = kv_module (view (gs_world g))"
proof (induction rest arbitrary: before previous n g)
  case (Cons b rest)
  obtain ident info where b: "b = (ident, info)" by (cases b)
  obtain m where n: "n = Suc m" using Cons.prems(5) by (cases n) auto
  have "find (\<lambda>(i, _). previous < i) before = None"
    using Cons.prems(2) by (auto simp: find_None_iff)
  then have f: "find (\<lambda>(i, _). previous < i) btfs = Some b"
    using Cons.prems(3) by (simp add: Cons.prems(1) b find_after)
  obtain w1 where w1: "os_btf_next_id os previous (gs_world g) = (Some ident, w1)" "view w1 = view (gs_world g)"
    using btf_next [OF Cons.prems(6), of previous] f by (auto simp: b)
  obtain fd w2 where w2: "os_btf_fd os ident w1 = (fd, w2)" "0 \<le> fd" "kv_btf (view w1) fd = None"
    "kv_progs (view w1) fd = None" "view w2 = (view w1)\<lparr>kv_btf := (kv_btf (view w1))(fd \<mapsto> info)\<rparr>"
    using btf_open [of w1 ident info] Cons.prems(1,6) w1(2) by (auto simp: b)
  obtain w3 where w3: "os_btf_info os fd w2 = (Some info, w3)" "view w3 = view w2"
    using btf_info [of w2 fd info] w2(5) by auto
  show ?case
  proof (cases "is_module_btf info")
    case True
    then have "bi_kernel_btf info" "cstring (take 63 (bi_name info)) = ''cbpf_kfunc''"
      by (simp_all add: is_module_btf_def)
    then have "\<exists>out. run_state (btf_search os B n previous) g = (fd, g\<lparr>gs_world := w3, gs_out := out\<rparr>)"
      using w1(1) w2(1,2) w3(1)
      by (intro exI [of _ "gs_out g @ module_line B (bi_id info)"]) (simp add: n)
    then show ?thesis using True w1(2) w2(2,5) w3(2) by auto
  next
    case False
    then have no: "\<not> (bi_kernel_btf info \<and> cstring (take 63 (bi_name info)) = ''cbpf_kfunc'')"
      by (simp add: is_module_btf_def)
    let ?g = "g\<lparr>gs_world := os_close os fd w3\<rparr>"
    have step: "run_state (btf_search os B n previous) g = run_state (btf_search os B m ident) ?g"
      using w1(1) w2(1,2) w3(1) no by (simp add: n del: de_Morgan_conj)
    have sw: "sorted_wrt (<) (map fst btfs)" using btf_list(1) by simp
    have le: "\<forall>(i, _) \<in> set (before @ [b]). \<not> ident < i" "rest \<noteq> [] \<longrightarrow> ident < fst (hd rest)"
      using sw by (auto simp: Cons.prems(1) b sorted_wrt_append not_less less_imp_le hd_in_set)
    have mod: "kv_module (view (gs_world ?g)) = kv_module (view (gs_world g))"
      using w1(2) w2(5) w3(2) by (simp add: close_view)
    have "\<exists>i \<in> snd ` set rest. is_module_btf i" using Cons.prems(4) False by (auto simp: b)
    then show ?thesis
      using Cons.IH [of "before @ [b]" ident m ?g] Cons.prems(1,5,6) le mod unfolding step
      by (simp add: n)
  qed
qed simp

lemma module_btf_run:
  assumes "kv_module (view (gs_world g)) \<noteq> None"
  shows "\<exists>fd g' info. run_state (module_btf_fd os B) g = (fd, g') \<and> 0 \<le> fd \<and>
    kv_btf (view (gs_world g')) fd = Some info \<and> is_module_btf info \<and>
    kv_module (view (gs_world g')) = kv_module (view (gs_world g))"
proof -
  have "btfs \<noteq> [] \<longrightarrow> 0 < fst (hd btfs)" using btf_list(1) by (auto simp: hd_in_set)
  then show ?thesis
    unfolding module_btf_fd_def using btf_search_run [of "[]" btfs 0 128 g] btf_list(2,3) assms by simp
qed

text \<open>All the cases.\<close>

lemma case_accepted:
  assumes "(a, (spill, alias), null_b) \<in> set valid_cases"
  shows "kfunc_valid_ab B a spill null_b \<in> accepted_programs B"
    and "counts_as E (pg_insns (kfunc_valid_ab B a spill null_b)) (ucast (if null_b \<noteq> 0 then 7 else 42 :: u32))
      (unat (if null_b \<noteq> 0 then 1 else 2 :: u32)) (unat (if null_b \<noteq> 0 then 0 else 1 :: u32))"
proof -
  have c: "(a, spill) \<in> kfunc_aliases" "null_b \<in> {0, 1}"
    using assms by (auto simp: valid_cases_def kfunc_aliases_def)
  show "kfunc_valid_ab B a spill null_b \<in> accepted_programs B"
    using c by (auto simp: accepted_programs_def)
  show "counts_as E (pg_insns (kfunc_valid_ab B a spill null_b)) (ucast (if null_b \<noteq> 0 then 7 else 42 :: u32))
      (unat (if null_b \<noteq> 0 then 1 else 2 :: u32)) (unat (if null_b \<noteq> 0 then 0 else 1 :: u32))"
    using valid_ab_counts [OF resolves c] by (cases "null_b = 0") simp_all
qed

lemma valid_case_run:
  assumes x: "x \<in> set valid_cases" and m: "module_at (view (gs_world g)) t module_fd"
  shows "\<exists>g'. run_state (valid_case os B module_fd x t) g = (Some (after_case x t), g') \<and>
    module_at (view (gs_world g')) (after_case x t) module_fd"
proof -
  obtain a spill al null_b where xs: "x = (a, (spill, al), null_b)" by (metis prod.exhaust)
  note c = case_accepted [OF x [unfolded xs]]
  let ?p = "kfunc_valid_ab B a spill null_b"
  let ?run = "run_valid os (case_name a al null_b) ?p module_fd (if null_b \<noteq> 0 then 7 else 42)
    (if null_b \<noteq> 0 then 1 else 2) (if null_b \<noteq> 0 then 0 else 1) 1 t"
  have "\<exists>out. run_state (valid_case os B module_fd x t) g = run_state ?run (g\<lparr>gs_out := out\<rparr>)"
  proof (cases "a = 6 \<and> al = ''copy'' \<and> null_b = 0")
    case True
    then show ?thesis unfolding xs valid_case_def prod.case Let_def if_P [OF True] print_program_def
      by (simp del: append.simps) blast
  next
    case False
    show ?thesis unfolding xs valid_case_def prod.case Let_def if_not_P [OF False]
      by (intro exI [of _ "gs_out g"]) simp
  qed
  then obtain out where out: "run_state (valid_case os B module_fd x t) g = run_state ?run (g\<lparr>gs_out := out\<rparr>)"
    by blast
  have "module_at (view (gs_world (g\<lparr>gs_out := out\<rparr>))) t module_fd" using m by simp
  then show ?thesis
    unfolding out using run_valid_run [OF _ c, of "g\<lparr>gs_out := out\<rparr>" t module_fd 1 "case_name a al null_b"]
    by (simp add: after_case_def xs)
qed

lemma guest_checks_run:
  assumes m: "kv_module (view (gs_world g)) = Some kfunc_loaded" "0 \<le> module_fd"
    "kv_btf (view (gs_world g)) module_fd = Some info" "is_module_btf info"
  shows "\<exists>g' out. run_state (guest_checks os B module_fd) g = (None, g') \<and>
    gs_out g' @ ''CBPF_KFUNC result=PASS'' @ NL = out @ pass_lines \<and>
    module_at (view (gs_world g')) all_totals module_fd"
proof -
  obtain w0 where g0: "run_state (snapshot os) g = (Some (counters_of kfunc_loaded), g\<lparr>gs_world := w0\<rparr>)"
    "view w0 = view (gs_world g)"
    using idle_snapshot [OF m(1) idle_loaded] by blast
  have ok0: "balanced (counters_of kfunc_loaded)" "c_acquisitions (counters_of kfunc_loaded) = 0"
    "c_reads (counters_of kfunc_loaded) = 0"
    using idle_balanced [OF idle_loaded] by (simp_all add: counters_of_def kfunc_loaded_def)
  have at0: "module_at (view (gs_world (g\<lparr>gs_world := w0\<rparr>))) no_totals module_fd"
    using m idle_loaded g0(2) by (auto simp: module_at_def no_totals_def kfunc_loaded_def)
  let ?J = "\<lambda>t g. module_at (view (gs_world g)) t module_fd"
  obtain g1 where g1: "run_state (attempt_each valid_cases (valid_case os B module_fd) no_totals)
      (g\<lparr>gs_world := w0\<rparr>) = (Some (fold after_case valid_cases no_totals), g1)"
    "?J (fold after_case valid_cases no_totals) g1"
    using attempt_each_fold [of ?J no_totals "g\<lparr>gs_world := w0\<rparr>" valid_cases
        "valid_case os B module_fd" after_case, OF at0] valid_case_run by blast
  have null: "kfunc_valid_null B \<in> accepted_programs B" by (simp add: accepted_programs_def)
  have spill: "kfunc_valid_ab B 7 (- 16) 0 \<in> accepted_programs B"
    by (auto simp: accepted_programs_def kfunc_aliases_def)
  obtain g2 where g2: "run_state (run_valid os ''first_null'' (kfunc_valid_null B) module_fd 0 0 0 1
      (fold after_case valid_cases no_totals)) g1 = (Some after_valid, g2)" "?J after_valid g2"
    using run_valid_run [OF g1(2) null, of 0 0 0 1 "''first_null''"] valid_null_counts [OF resolves]
    by (auto simp: after_valid_def)
  have "counts_as E (pg_insns (kfunc_valid_ab B 7 (- 16) 0)) 42 2 1"
    using valid_ab_counts [OF resolves, of 7 "- 16" 0] by (simp add: kfunc_aliases_def)
  then obtain g3 where g3: "run_state (run_valid os ''repeat_ab_spill16_a7'' (kfunc_valid_ab B 7 (- 16) 0)
      module_fd 42 2 1 32 after_valid) g2 = (Some (count_valid 2 1 32 after_valid), g3)"
    "?J (count_valid 2 1 32 after_valid) g3"
    using run_valid_run [OF g2(2) spill, of 42 2 1 32 "''repeat_ab_spill16_a7''"] by auto
  obtain g4 where g4: "run_state (attempt_each rejection_names
      (\<lambda>(kind, name). check_rejected os B name kind module_fd) (count_valid 2 1 32 after_valid)) g3 =
      (Some all_totals, g4)" "?J all_totals g4"
    using attempt_each_fold [of ?J "count_valid 2 1 32 after_valid" g3 rejection_names
        "\<lambda>(kind, name). check_rejected os B name kind module_fd"
        "\<lambda>_ t. t\<lparr>t_rejected_cases := t_rejected_cases t + 1\<rparr>", OF g3(2)]
      check_rejected_run unfolding all_totals_def by fastforce
  obtain k where k: "kv_module (view (gs_world g4)) = Some k" "idle k" "kf_acquisitions k = 82" "kf_reads k = 38"
    using g4(2) by (auto simp: module_at_def all_totals_final)
  obtain w5 where g5: "run_state (snapshot os) g4 = (Some (counters_of k), g4\<lparr>gs_world := w5\<rparr>)"
    "view w5 = view (gs_world g4)"
    using idle_snapshot [OF k(1,2)] by blast
  have fin: "final_ok all_totals (counters_of k)"
    using idle_balanced [OF k(2)] k(3,4) by (simp add: final_ok_def all_totals_final counters_of_def)
  have sum: "summary_line all_totals (counters_of k) @ ''CBPF_KFUNC result=PASS'' @ NL = pass_lines"
    using idle_facts [OF k(2)] k(3,4) by (intro summary_pass) (simp_all add: counters_of_def)
  have "run_state (guest_checks os B module_fd) g =
      (None, g4\<lparr>gs_world := w5, gs_out := gs_out g4 @ summary_line all_totals (counters_of k)\<rparr>)"
    unfolding guest_checks_def
    by (simp add: g0(1) ok0 proceed_run(1) [OF g1(1)] g2(1) g3(1) g4(1) g5(1) fin)
  moreover have "(gs_out g4 @ summary_line all_totals (counters_of k)) @ ''CBPF_KFUNC result=PASS'' @ NL =
      gs_out g4 @ pass_lines"
    unfolding append_assoc sum ..
  ultimately show ?thesis
    using g4(2) g5(2)
    by (intro exI [of _ "g4\<lparr>gs_world := w5, gs_out := gs_out g4 @ summary_line all_totals (counters_of k)\<rparr>"]
        exI [of _ "gs_out g4"]) simp
qed

lemma main_run:
  assumes m: "kv_module (view (gs_world g)) = None"
  shows "\<exists>g' out k. run_state (kfunc_guest_main os B expected_release) g = (Guest_Poweroff, g') \<and>
    gs_out g' = out @ pass_lines \<and> kv_module (view (gs_world g')) = Some k \<and> idle k \<and>
    kf_acquisitions k = 82 \<and> kf_reads k = 38"
proof -
  define g1 where "g1 = g\<lparr>gs_out := gs_out g @ (''CBPF_KFUNC kernel_release='' @ expected_release @ NL) @
    (''CBPF_KFUNC scope=linux_kfunc_binding runtime_cheri=0 normal_verifier=1'' @ NL)\<rparr>"
  have w1: "gs_world g1 = gs_world g" by (simp add: g1_def)
  obtain w2 where w2: "run_state (prepare_guest os) g1 = (0, g1\<lparr>gs_world := w2\<rparr>)"
    "view w2 = (view (gs_world g1))\<lparr>kv_module := Some kfunc_loaded\<rparr>"
    using prepare_run [of g1] m w1 by auto
  obtain fd g3 info where g3: "run_state (module_btf_fd os B) (g1\<lparr>gs_world := w2\<rparr>) = (fd, g3)" "0 \<le> fd"
    "kv_btf (view (gs_world g3)) fd = Some info" "is_module_btf info"
    "kv_module (view (gs_world g3)) = Some kfunc_loaded"
    using module_btf_run [of "g1\<lparr>gs_world := w2\<rparr>"] w2(2) by auto
  obtain g4 out where g4: "run_state (guest_checks os B fd) g3 = (None, g4)"
    "gs_out g4 @ ''CBPF_KFUNC result=PASS'' @ NL = out @ pass_lines" "module_at (view (gs_world g4)) all_totals fd"
    using guest_checks_run [OF g3(5,2-4)] by blast
  let ?g = "g4\<lparr>gs_world := os_close os fd (gs_world g4),
    gs_out := gs_out g4 @ ''CBPF_KFUNC result=PASS'' @ NL\<rparr>"
  have confirmed: "run_state (confirm_guest_identity os expected_release) g =
      (True, g\<lparr>gs_out := gs_out g @ (''CBPF_KFUNC kernel_release='' @ expected_release @ NL)\<rparr>)"
    by (rule confirm_run)
  have scope: "run_state (say (''CBPF_KFUNC scope=linux_kfunc_binding runtime_cheri=0 normal_verifier=1'' @ NL))
      (g\<lparr>gs_out := gs_out g @ (''CBPF_KFUNC kernel_release='' @ expected_release @ NL)\<rparr>) = ((), g1)"
    by (simp add: g1_def)
  have "run_state (kfunc_guest_main os B expected_release) g = (Guest_Poweroff, ?g)"
    unfolding kfunc_guest_main_def guest_out_def
    using g3(2) by (simp add: confirmed scope w2(1) g3(1) g4(1) del: say_run append.simps) simp
  moreover obtain k where "kv_module (view (gs_world g4)) = Some k" "idle k" "kf_acquisitions k = 82"
    "kf_reads k = 38"
    using g4(3) by (auto simp: module_at_def all_totals_final)
  ultimately show ?thesis
    using g4(2) by (intro exI [of _ ?g] exI [of _ out] exI [of _ k]) (simp add: close_view)
qed

end

end
