(* ===== verification/KfuncProps.thy ===== *)
theory KfuncProps
  imports KfuncChecks
begin

text \<open>
  The kfunc guest's theorems, and a kernel that satisfies \<open>kfunc_kernel\<close>: the module of
  theory \<open>Kfunc\<close> behind tables of programs and BTF objects.
\<close>

subsection \<open>A kernel\<close>

record sample_machine =
  sk_module :: "kfunc option"
  sk_files :: "(bpf_insn list + btf_info) option list"
  sk_shown :: string
  sk_errno :: int

definition sample_machine_start :: sample_machine where
  "sample_machine_start = \<lparr>sk_module = None, sk_files = [], sk_shown = '''', sk_errno = 0\<rparr>"

definition sample_btfs :: "(u32 \<times> btf_info) list" where
  "sample_btfs =
     [(1, \<lparr>bi_id = 1, bi_kernel_btf = True, bi_name = ''vmlinux''\<rparr>),
      (2, \<lparr>bi_id = 2, bi_kernel_btf = True, bi_name = ''cbpf_kfunc''\<rparr>)]"

definition sk_file :: "sample_machine \<Rightarrow> int \<Rightarrow> (bpf_insn list + btf_info) option" where
  "sk_file w fd = (if 0 \<le> fd \<and> nat fd < length (sk_files w) then sk_files w ! nat fd else None)"

definition sk_view :: "sample_machine \<Rightarrow> kernel_view" where
  "sk_view w =
     \<lparr>kv_module = sk_module w,
      kv_progs = (\<lambda>fd. case sk_file w fd of Some (Inl insns) \<Rightarrow> Some insns | _ \<Rightarrow> None),
      kv_btf = (\<lambda>fd. case sk_file w fd of Some (Inr info) \<Rightarrow> Some info | _ \<Rightarrow> None)\<rparr>"

definition sk_next :: "sample_machine \<Rightarrow> int" where
  "sk_next w = int (length (sk_files w))"

definition sk_add :: "bpf_insn list + btf_info \<Rightarrow> sample_machine \<Rightarrow> sample_machine" where
  "sk_add f w = w\<lparr>sk_files := sk_files w @ [Some f]\<rparr>"

definition sk_open :: "string \<Rightarrow> sample_machine \<Rightarrow> int \<times> sample_machine" where
  "sk_open path w =
     (if path = ''/cbpf_kfunc.ko'' then (sk_next w, w)
      else case sk_module w of
        None \<Rightarrow> (- 1, w)
      | Some k \<Rightarrow>
          (case module_parameter (drop (length PARAMETERS) path) k of
             None \<Rightarrow> (- 1, w)
           | Some shown \<Rightarrow> (sk_next w, w\<lparr>sk_shown := shown\<rparr>)))"

definition sk_close :: "int \<Rightarrow> sample_machine \<Rightarrow> sample_machine" where
  "sk_close fd w = (if fd < 0 then w else w\<lparr>sk_files := (sk_files w)[nat fd := None]\<rparr>)"

definition sk_rejection :: "bpf_insn list \<Rightarrow> rejection option" where
  "sk_rejection insns = find (\<lambda>kind. pg_insns (rejected_program sample_ids kind) = insns) rejections"

definition sk_prog_load :: "load_attr \<Rightarrow> sample_machine \<Rightarrow> (int \<times> string) \<times> sample_machine" where
  "sk_prog_load attr w =
     (case sk_rejection (la_insns attr) of
        Some kind \<Rightarrow> ((- 1, diagnosis kind @ NL), w\<lparr>sk_errno := 22\<rparr>)
      | None \<Rightarrow> ((sk_next w, ''''), sk_add (Inl (la_insns attr)) w))"

definition sk_test_run :: "test_attr \<Rightarrow> sample_machine \<Rightarrow> u32 option \<times> sample_machine" where
  "sk_test_run attr w =
     (case (sk_file w (ta_prog_fd attr), sk_module w) of
        (Some (Inl insns), Some k) \<Rightarrow>
          (case bpf_exec (length insns) sample_env insns (kfunc_gate sample_alloc) bpf_start k of
             (Finished v, k') \<Rightarrow> (Some (ucast v), w\<lparr>sk_module := Some k'\<rparr>)
           | (_, k') \<Rightarrow> (None, w\<lparr>sk_module := Some k'\<rparr>))
      | _ \<Rightarrow> (None, w))"

definition sample_os :: "sample_machine kfunc_os" where
  "sample_os =
     \<lparr>os_errno = sk_errno, os_set_errno = (\<lambda>e w. w\<lparr>sk_errno := e\<rparr>), os_getpid = (\<lambda>w. 1),
      os_uname = (\<lambda>w. Some ''6.7.0-cbpf''), os_mkdir = (\<lambda>path mode w. (0, w)),
      os_mount = (\<lambda>source target type flags w. (0, w)), os_open = sk_open,
      os_read = (\<lambda>fd n w. (Some (take n (sk_shown w)), w)), os_close = sk_close,
      os_finit_module = (\<lambda>fd w. (0, w\<lparr>sk_module := Some kfunc_loaded\<rparr>)),
      os_prog_load = sk_prog_load, os_prog_info = (\<lambda>fd w. (Some 256, w)),
      os_test_run = sk_test_run,
      os_btf_next_id = (\<lambda>previous w. (map_option fst (find (\<lambda>(i, _). previous < i) sample_btfs), w)),
      os_btf_fd = (\<lambda>ident w. case map_of sample_btfs ident of
        None \<Rightarrow> (- 1, w) | Some info \<Rightarrow> (sk_next w, sk_add (Inr info) w)),
      os_btf_info = (\<lambda>fd w. (case sk_file w fd of Some (Inr info) \<Rightarrow> Some info | _ \<Rightarrow> None, w))\<rparr>"

lemma sk_file_add: "sk_file (sk_add f w) = (sk_file w)(sk_next w \<mapsto> f)"
  by (auto simp: fun_eq_iff sk_file_def sk_add_def sk_next_def nth_append)

lemma sk_file_next: "sk_file w (sk_next w) = None" "0 \<le> sk_next w"
  by (simp_all add: sk_file_def sk_next_def)

lemma sk_file_close: "sk_file (sk_close fd w) = (sk_file w)(fd := None)"
  by (auto simp: fun_eq_iff sk_file_def sk_close_def nth_list_update)

lemma sk_same [simp]:
  "sk_file (w\<lparr>sk_module := m\<rparr>) = sk_file w" "sk_file (w\<lparr>sk_errno := e\<rparr>) = sk_file w"
  "sk_file (w\<lparr>sk_shown := t\<rparr>) = sk_file w" "sk_module (sk_add f w) = sk_module w"
  "sk_module (sk_close fd w) = sk_module w" "sk_next (w\<lparr>sk_shown := t\<rparr>) = sk_next w"
  "sk_next (w\<lparr>sk_module := m\<rparr>) = sk_next w"
  by (auto simp: fun_eq_iff sk_file_def sk_add_def sk_close_def sk_next_def)

lemma sk_rejects: "\<exists>kind'. sk_rejection (pg_insns (rejected_program sample_ids kind)) = Some kind' \<and>
    diagnosis kind' = diagnosis kind"
  by (cases kind) (simp_all add: sk_rejection_def rejections_def rejected_built INSN_def)

lemma sk_accepts:
  assumes "p \<in> accepted_programs sample_ids"
  shows "sk_rejection (pg_insns p) = None"
proof (cases "p = kfunc_valid_null sample_ids")
  case True
  then show ?thesis by (simp add: sk_rejection_def rejections_def rejected_built valid_null_built INSN_def)
next
  case False
  then obtain a spill null_b where p: "p = kfunc_valid_ab sample_ids a spill null_b"
    using assms by (auto simp: accepted_programs_def)
  have "20 < length (pg_insns p)"
    by (cases "spill = 0") (simp_all add: p valid_ab_copy valid_ab_spill ab_insns_def Let_def)
  moreover have "length (pg_insns (rejected_program sample_ids kind)) \<le> 20" for kind
    by (cases kind) (simp_all add: rejected_built)
  ultimately have "pg_insns (rejected_program sample_ids kind) \<noteq> pg_insns p" for kind
    by (metis leD)
  then show ?thesis by (simp add: sk_rejection_def find_None_iff)
qed

interpretation sample_machine: kfunc_kernel sample_os sample_ids "''6.7.0-cbpf''" sample_env sample_alloc
  sample_btfs sk_view
proof (unfold_locales, goal_cases)
  case 1 show ?case by (rule sample_kfunc_resolves)
next
  case 2 show ?case by (rule sample_alloc_ready)
next
  case (7 fd w)
  show ?case by (auto simp: sample_os_def sk_view_def sk_file_close fun_eq_iff)
next
  case (10 w)
  then show ?case
    by (intro exI [of _ "sk_next w"] exI [of _ w] exI [of _ "w\<lparr>sk_module := Some kfunc_loaded\<rparr>"])
      (auto simp: sample_os_def sk_open_def sk_file_next sk_view_def sk_file_close fun_eq_iff)
next
  case (15 w ident info)
  then show ?case
    by (intro exI [of _ "sk_next w"] exI [of _ "sk_add (Inr info) w"])
      (auto simp: sample_os_def sk_view_def sk_file_next sk_file_add sample_btfs_def fun_eq_iff)
next
  case (17 w k name line)
  have n: "drop (length PARAMETERS) (PARAMETERS @ name) = name" by simp
  have "PARAMETERS @ name \<noteq> ''/cbpf_kfunc.ko''" by (simp add: PARAMETERS_def)
  then show ?case
    using 17 by (intro exI [of _ "sk_next w"] exI [of _ "w\<lparr>sk_shown := line\<rparr>"])
      (auto simp: sample_os_def sk_open_def n sk_file_next sk_view_def sk_file_close fun_eq_iff)
next
  case (18 w module_fd info p)
  then show ?case
    by (intro exI [of _ "sk_next w"] exI [of _ "''''"] exI [of _ "sk_add (Inl (pg_insns p)) w"])
      (auto simp: sample_os_def sk_prog_load_def load_attr_of_def sk_accepts sk_file_next sk_view_def
        sk_file_add fun_eq_iff)
next
  case (19 w module_fd info kind)
  obtain kind' where k: "sk_rejection (pg_insns (rejected_program sample_ids kind)) = Some kind'"
    "diagnosis kind' = diagnosis kind" using sk_rejects by blast
  have "log_shows (diagnosis kind @ NL) (diagnosis kind)"
    unfolding log_shows_def
    by (intro conjI exI [of _ "[]"] exI [of _ NL]; cases kind; simp add: NL_def LOG_SIZE_def stale_argument_def)
  then show ?case
    using k by (intro exI [of _ "- 1"] exI [of _ "diagnosis kind @ NL"] exI [of _ "w\<lparr>sk_errno := 22\<rparr>"])
      (auto simp: sample_os_def sk_prog_load_def load_attr_of_def sk_view_def fun_eq_iff)
next
  case (21 w fd insns k v k' attr)
  then show ?case
    by (auto simp: sample_os_def sk_test_run_def sk_view_def runs_once_def split: option.splits sum.splits)
qed (auto simp: sample_os_def sample_btfs_def is_module_btf_def cstring_def sk_view_def split: option.splits sum.splits)

subsection \<open>Theorems\<close>

text \<open>The texts \<open>read_counter\<close> takes for a number.\<close>

definition counter_accepts :: "string \<Rightarrow> u64 \<Rightarrow> bool" where
  "counter_accepts buffer c \<longleftrightarrow>
     (\<exists>digits. digits \<noteq> [] \<and> list_all is_digit digits \<and> digits_number digits = unat c \<and>
        buffer \<in> {digits, digits @ NL})"

lemma digits_then_newline:
  assumes "list_all is_digit digits" and "buffer \<in> {digits, digits @ NL}"
  shows "takeWhile is_digit buffer = digits" and "dropWhile is_digit buffer \<in> {[], NL}"
proof -
  have d: "\<forall>c \<in> set digits. is_digit c" using assms(1) by (simp add: list_all_iff)
  have nl: "\<not> is_digit (CHR 0x0A)" by (simp add: is_digit_def)
  show "takeWhile is_digit buffer = digits" "dropWhile is_digit buffer \<in> {[], NL}"
    using assms(2) d nl by (auto simp: NL_def takeWhile_append dropWhile_append)
qed

lemma strtoull_accepts:
  "buffer \<noteq> [] \<and> is_digit (hd buffer) \<and>
     (case strtoull buffer of (parsed, rest, overflow) \<Rightarrow> \<not> overflow \<and> rest \<in> {[], NL} \<and> parsed = c) \<longleftrightarrow>
   counter_accepts buffer c"
proof
  let ?d = "takeWhile is_digit buffer" and ?r = "dropWhile is_digit buffer"
  assume a: "buffer \<noteq> [] \<and> is_digit (hd buffer) \<and>
     (case strtoull buffer of (parsed, rest, overflow) \<Rightarrow> \<not> overflow \<and> rest \<in> {[], NL} \<and> parsed = c)"
  then have n: "digits_number ?d < 2 ^ 64" "?r \<in> {[], NL}" "c = of_nat (digits_number ?d)"
    by (auto simp: strtoull_def Let_def split: if_splits)
  have "buffer = ?d @ ?r" by simp
  then have "buffer \<in> {?d, ?d @ NL}" using n(2) by (metis append_Nil2 insert_iff singletonD)
  moreover have "?d \<noteq> []" using a by (cases buffer) auto
  moreover have "list_all is_digit ?d" by (auto simp: list_all_iff dest: set_takeWhileD)
  moreover have "digits_number ?d = unat c" using n(1,3) by (simp add: unat_of_nat)
  ultimately show "counter_accepts buffer c" unfolding counter_accepts_def by blast
next
  assume "counter_accepts buffer c"
  then obtain digits where d: "digits \<noteq> []" "list_all is_digit digits" "digits_number digits = unat c"
    "buffer \<in> {digits, digits @ NL}" unfolding counter_accepts_def by blast
  have "unat c < 2 ^ 64" using unsigned_less [of c, where ?'a = nat] by simp
  moreover have "is_digit (hd buffer)" "buffer \<noteq> []" using d by (cases digits; auto)+
  ultimately show "buffer \<noteq> [] \<and> is_digit (hd buffer) \<and>
     (case strtoull buffer of (parsed, rest, overflow) \<Rightarrow> \<not> overflow \<and> rest \<in> {[], NL} \<and> parsed = c)"
    using d(3) digits_then_newline [OF d(2,4)] by (simp add: strtoull_def)
qed

lemma read_counter_exact:
  assumes "os_open os (PARAMETERS @ name) (gs_world g) = (fd, w1)" and "0 \<le> fd"
    and "os_read os fd 63 w1 = (Some line, w2)" and "length line \<le> 63" and "length name < 64"
    and errno: "\<And>e w. os_errno os (os_set_errno os e w) = e"
  shows "fst (run_state (read_counter os name) g) = Some c \<longleftrightarrow> length line < 63 \<and> counter_accepts (cstring line) c"
proof -
  obtain parsed rest overflow where s: "strtoull (cstring line) = (parsed, rest, overflow)" by (metis prod_cases3)
  have empty: "cstring [] = []" by (simp add: cstring_def)
  have path: "\<not> 128 \<le> length (PARAMETERS @ name)" using assms(5) by (simp add: PARAMETERS_def)
  have "fst (run_state (read_counter os name) g) =
      (if length line < 63 \<and> cstring line \<noteq> [] \<and> is_digit (hd (cstring line)) \<and> \<not> overflow \<and> rest \<in> {[], NL}
       then Some parsed else None)"
    using path assms(1-4) empty by (auto simp: read_counter_def Let_def s errno ERRNO_ERANGE_def)
  then show ?thesis unfolding strtoull_accepts [symmetric] s by auto
qed

lemma decimal_accepted: "counter_accepts (decimal (unat c) @ NL) c"
  unfolding counter_accepts_def using decimal_digits decimal_read by blast

lemma too_large:
  assumes "2 ^ 64 \<le> n"
  shows "\<not> counter_accepts (cstring (decimal n @ NL)) c"
proof -
  have c: "cstring (decimal n @ NL) = decimal n @ NL"
    unfolding cstring_def using decimal_digits [of n] digit_not_special
    by (subst takeWhile_eq_all_conv) (auto simp: NL_def list_all_iff)
  have n: "takeWhile is_digit (decimal n @ NL) = decimal n"
    by (rule digits_then_newline(1)) (simp_all add: decimal_digits)
  show ?thesis
  proof
    assume "counter_accepts (cstring (decimal n @ NL)) c"
    then obtain digits where "list_all is_digit digits" "digits_number digits = unat c"
      "decimal n @ NL \<in> {digits, digits @ NL}" unfolding c counter_accepts_def by blast
    then have "unat c = n" using digits_then_newline(1) n decimal_read by metis
    moreover have "unat c < 2 ^ 64" using unsigned_less [of c, where ?'a = nat] by simp
    ultimately show False using assms by simp
  qed
qed

text \<open>
  C31. A counter, read back. On any kernel on which the parameter's file can be opened and read,
  \<open>read_counter\<close> accepts exactly the texts that are a decimal number below 2 ^ 64, with at most a
  newline after it, in fewer than 63 bytes, and gives that number. So what the module's \<open>cbpf_counter_get\<close>
  writes for a counter is read back as that counter, whatever its 64-bit value, and a number
  that does not fit in 64 bits is refused.
\<close>

theorem counter_roundtrip:
  assumes "os_open os (PARAMETERS @ name) (gs_world g) = (fd, w1)" and "0 \<le> fd"
    and "os_read os fd 63 w1 = (Some line, w2)" and "length line \<le> 63" and "length name < 64"
    and "\<And>e w. os_errno os (os_set_errno os e w) = e"
  shows "(\<forall>c. fst (run_state (read_counter os name) g) = Some c \<longleftrightarrow>
      length line < 63 \<and>
      (\<exists>digits. digits \<noteq> [] \<and> list_all is_digit digits \<and> digits_number digits = unat c \<and>
        cstring line \<in> {digits, digits @ NL})) \<and>
    (\<forall>c. line = cbpf_counter_get c \<longrightarrow> fst (run_state (read_counter os name) g) = Some c) \<and>
    (\<forall>n \<ge> 2 ^ 64. line = decimal n @ NL \<longrightarrow> fst (run_state (read_counter os name) g) = None)"
proof -
  have read: "fst (run_state (read_counter os name) g) = Some c \<longleftrightarrow> length line < 63 \<and> counter_accepts (cstring line) c" for c
    by (rule read_counter_exact [OF assms])
  have "fst (run_state (read_counter os name) g) = Some c" if "line = cbpf_counter_get c" for c
  proof -
    have "unat c < 2 ^ 64" using unsigned_less [of c, where ?'a = nat] by simp
    then show ?thesis
      using counter_text [of "unat c"] decimal_accepted [of c] by (simp add: read that cbpf_counter_get_def Let_def)
  qed
  moreover have "fst (run_state (read_counter os name) g) = None" if "2 ^ 64 \<le> n" "line = decimal n @ NL" for n
    using too_large [OF that(1)] read that(2) by (metis not_Some_eq)
  ultimately show ?thesis unfolding read counter_accepts_def by blast
qed

theorem counter_roundtrip_witness:
  "fst (run_state (read_counter sample_os ''live'')
     \<lparr>gs_world = sample_machine_start\<lparr>sk_module := Some (kfunc_loaded\<lparr>kf_live := 7\<rparr>)\<rparr>, gs_log = '''', gs_out = ''''\<rparr>) =
   Some 7"
proof -
  let ?w = "sample_machine_start\<lparr>sk_module := Some (kfunc_loaded\<lparr>kf_live := 7\<rparr>)\<rparr>"
  have path: "PARAMETERS @ ''live'' \<noteq> ''/cbpf_kfunc.ko''" "drop (length PARAMETERS) (PARAMETERS @ ''live'') = ''live''"
    by (simp_all add: PARAMETERS_def)
  have "cbpf_counter_get 7 = ''7'' @ NL" by code_simp
  then have t: "take 63 (cbpf_counter_get 7) = cbpf_counter_get 7" "length (cbpf_counter_get 7) \<le> 63"
    by (simp_all add: NL_def)
  have o: "os_open sample_os (PARAMETERS @ ''live'') ?w = (0, ?w\<lparr>sk_shown := cbpf_counter_get 7\<rparr>)"
    "os_read sample_os 0 63 (?w\<lparr>sk_shown := cbpf_counter_get 7\<rparr>) =
      (Some (cbpf_counter_get 7), ?w\<lparr>sk_shown := cbpf_counter_get 7\<rparr>)"
    using path t(1) by (simp_all add: sample_os_def sk_open_def module_parameter_def sk_next_def sample_machine_start_def)
  show ?thesis
    using counter_roundtrip [of sample_os "''live''" "\<lparr>gs_world = ?w, gs_log = '''', gs_out = ''''\<rparr>",
        OF _ _ _ t(2)] o by (simp add: sample_os_def)
qed

text \<open>
  C29. The loader's valid programs on the module. From a state in which nothing is live, on
  an allocator that has memory, each of them is complete, runs to its expected result,
  never touches a freed cell, makes the acquisitions and reads the loader expects, and
  leaves nothing live, so the object's references are back at one.
\<close>

theorem valid_programs_run:
  assumes "kfunc_resolves B E" and "kzalloc_ready alloc" and "idle k" and "(a, spill) \<in> kfunc_aliases"
    and "null_b \<in> {0, 1}"
  shows "(\<exists>k'. bpf_exec (length (pg_insns (kfunc_valid_ab B a spill null_b))) E
        (pg_insns (kfunc_valid_ab B a spill null_b)) (kfunc_gate alloc) bpf_start k =
        (Finished (if null_b \<noteq> 0 then 7 else 42), k') \<and> idle k' \<and> kf_refs k' = 1 \<and>
      kf_acquisitions k' = kf_acquisitions k + (if null_b \<noteq> 0 then 1 else 2) \<and>
      kf_reads k' = kf_reads k + (if null_b \<noteq> 0 then 0 else 1)) \<and>
    (\<exists>k'. bpf_exec (length (pg_insns (kfunc_valid_null B))) E (pg_insns (kfunc_valid_null B))
        (kfunc_gate alloc) bpf_start k = (Finished 0, k') \<and> idle k' \<and>
      kf_acquisitions k' = kf_acquisitions k \<and> kf_reads k' = kf_reads k) \<and>
    loadable (kfunc_valid_ab B a spill null_b) \<and> loadable (kfunc_valid_null B)"
proof -
  have "kfunc_valid_ab B a spill null_b \<in> accepted_programs B" "kfunc_valid_null B \<in> accepted_programs B"
    using assms(4,5) by (auto simp: accepted_programs_def)
  then show ?thesis
    using counts_run [OF assms(2,3) valid_ab_counts [OF assms(1,4,5)]]
      counts_run [OF assms(2,3) valid_null_counts [OF assms(1)]] accepted_loadable idle_facts
    by (cases "null_b = 0") fastforce+
qed

theorem valid_programs_run_witness:
  "\<exists>k'. fst (bpf_exec (length (pg_insns (kfunc_valid_ab sample_ids 7 (- 16) 0))) sample_env
      (pg_insns (kfunc_valid_ab sample_ids 7 (- 16) 0)) (kfunc_gate sample_alloc) bpf_start kfunc_loaded) =
      Finished 42 \<and> idle k' \<and> kf_acquisitions k' = 2"
  using valid_programs_run [OF sample_kfunc_resolves sample_alloc_ready idle_loaded, of 7 "- 16" 0]
  by (auto simp: kfunc_aliases_def kfunc_loaded_def)

text \<open>
  C27. The loader on a kernel that behaves as documented: started by the kernel before the
  module is loaded, it prepares the guest, loads the module, finds its BTF, passes the
  thirteen valid cases and the thirty-two repeats, sees the five probes rejected, prints the totals
  and PASS last, and powers off; the module is left balanced after 82 acquisitions and 38 reads.
\<close>

theorem kfunc_guest_passes:
  assumes "kfunc_kernel os B expected_release E alloc btfs view"
    and "kv_module (view (gs_world g)) = None"
  shows "\<exists>g' out k. run_state (kfunc_guest_main os B expected_release) g = (Guest_Poweroff, g') \<and>
    gs_out g' = out @ pass_lines \<and> kv_module (view (gs_world g')) = Some k \<and>
    kf_acquisitions k = 82 \<and> kf_releases k = 82 \<and> kf_live k = 0 \<and> kf_reads k = 38 \<and> kf_refs k = 1"
  using kfunc_kernel.main_run [OF assms] idle_facts by metis

theorem kfunc_guest_passes_witness:
  "\<exists>g' out k. run_state (kfunc_guest_main sample_os sample_ids ''6.7.0-cbpf'')
      \<lparr>gs_world = sample_machine_start, gs_log = '''', gs_out = ''''\<rparr> = (Guest_Poweroff, g') \<and>
    gs_out g' = out @ pass_lines \<and> sk_module (gs_world g') = Some k \<and> kf_acquisitions k = 82"
proof -
  have "kfunc_kernel sample_os sample_ids ''6.7.0-cbpf'' sample_env sample_alloc sample_btfs sk_view"
    by (rule sample_machine.kfunc_kernel_axioms)
  from kfunc_guest_passes [OF this, of "\<lparr>gs_world = sample_machine_start, gs_log = '''', gs_out = ''''\<rparr>"]
  show ?thesis by (auto simp: sk_view_def sample_machine_start_def)
qed

lemma ends_in_out: "ends_in Guest_Poweroff (guest_out os fd failed)"
  unfolding guest_out_def by (intro ends_in_bind) (simp add: ends_in_def)

text \<open>
  Nothing is touched before the identity matches, on any kernel: unless the loader is
  process 1 on the expected kernel release, it prints one line and returns 1, and the kernel
  is exactly as it was; otherwise it ends in a power-off.
\<close>

theorem identity_guard:
  "if os_getpid os (gs_world g) = 1 \<and> os_uname os (gs_world g) = Some expected_release
   then fst (run_state (kfunc_guest_main os B expected_release) g) = Guest_Poweroff
   else run_state (kfunc_guest_main os B expected_release) g =
     (Guest_Returned 1,
      g\<lparr>gs_out := gs_out g @ ''CBPF_KFUNC stage=identity poweroff=0 result=FAIL'' @ NL\<rparr>)"
proof -
  let ?bad = "''CBPF_KFUNC stage=identity poweroff=0 result=FAIL'' @ NL"
  have no: "run_state (kfunc_guest_main os B expected_release) g = (Guest_Returned 1, g\<lparr>gs_out := gs_out g @ ?bad\<rparr>)"
    if "run_state (confirm_guest_identity os expected_release) g = (False, g)"
    unfolding kfunc_guest_main_def by (simp add: that del: append.simps)
  have yes: "fst (run_state (kfunc_guest_main os B expected_release) g) = Guest_Poweroff"
    if "fst (run_state (confirm_guest_identity os expected_release) g) = True"
  proof -
    define g1 where "g1 = snd (run_state (confirm_guest_identity os expected_release) g)"
    have c: "run_state (confirm_guest_identity os expected_release) g = (True, g1)"
      unfolding g1_def by (rule prod_eqI) (simp_all only: that fst_conv snd_conv)
    have "ends_in Guest_Poweroff (do {
        say (''CBPF_KFUNC scope=linux_kfunc_binding runtime_cheri=0 normal_verifier=1'' @ NL);
        prepared \<leftarrow> prepare_guest os;
        (if prepared \<noteq> 0 then guest_out os (- 1) (Some ''prepare'') else do {
           module_fd \<leftarrow> module_btf_fd os B;
           (if module_fd < 0 then guest_out os module_fd (Some ''module_btf'') else do {
              failed \<leftarrow> guest_checks os B module_fd;
              guest_out os module_fd failed
            })
         })
      })"
      by (intro ends_in_bind ends_in_if ends_in_out)
    then show ?thesis
      unfolding kfunc_guest_main_def State_Monad.run_state_bind [of "confirm_guest_identity os expected_release"]
        c prod.case not_True_eq_False if_False ends_in_def by blast
  qed
  show ?thesis
  proof (cases "os_getpid os (gs_world g) = 1 \<and> os_uname os (gs_world g) = Some expected_release")
    case True
    then have "fst (run_state (confirm_guest_identity os expected_release) g) = True"
      by (simp add: confirm_guest_identity_def)
    then show ?thesis using yes True by simp
  next
    case False
    have "run_state (confirm_guest_identity os expected_release) g = (False, g)"
      using False by (auto simp: confirm_guest_identity_def split: option.split)
    from no [OF this] show ?thesis unfolding if_not_P [OF False] .
  qed
qed

definition load_verdict :: "'w kfunc_os \<Rightarrow> btf_ids \<Rightarrow> rejection \<Rightarrow> int \<Rightarrow> 'w guest \<Rightarrow> bool" where
  "load_verdict os B kind module_fd g =
     (case run_state (load_program os (rejected_program B kind) module_fd) g of
        (fd, g') \<Rightarrow> fd < 0 \<and> attributable_rejection kind (gs_log g'))"

text \<open>
  C30. A rejection probe is never executed, and the loader fails closed: what the check does
  does not depend on the kernel's test runs at all, and on any kernel that accepts the probe, or
  rejects it with a log that names no expected reason, the check fails.
\<close>

theorem probes_fail_closed:
  "check_rejected (os\<lparr>os_test_run := f\<rparr>) B name kind module_fd t = check_rejected os B name kind module_fd t \<and>
   (fst (run_state (check_rejected os B name kind module_fd t) g) = None \<or>
    load_verdict os B kind module_fd (snd (run_state (snapshot os) g)))"
proof
  let ?os = "os\<lparr>os_test_run := f\<rparr>"
  have e: "os_open ?os = os_open os" "os_read ?os = os_read os" "os_close ?os = os_close os"
    "os_set_errno ?os = os_set_errno os" "os_errno ?os = os_errno os" "os_prog_load ?os = os_prog_load os"
    by simp_all
  have "read_counter ?os name = read_counter os name" for name unfolding read_counter_def e ..
  then have s: "snapshot ?os = snapshot os" by (simp add: snapshot_def)
  have l: "load_program ?os p fd = load_program os p fd" for p fd unfolding load_program_def e ..
  show "check_rejected ?os B name kind module_fd t = check_rejected os B name kind module_fd t"
    unfolding check_rejected_def s l e ..
  obtain so g1 where g1: "run_state (snapshot os) g = (so, g1)" by fastforce
  obtain fd g2 where g2: "run_state (load_program os (rejected_program B kind) module_fd) g1 = (fd, g2)" by fastforce
  obtain out where g3: "run_state (print_log name) g2 = ((), g2\<lparr>gs_out := out\<rparr>)" using print_log_run by blast
  show "fst (run_state (check_rejected os B name kind module_fd t) g) = None \<or>
      load_verdict os B kind module_fd (snd (run_state (snapshot os) g))"
    by (simp add: load_verdict_def g1 g2 check_rejected_def Let_def g3 rejected_failed_def
        split: option.split)
qed

end
