(* ===== verification/Demo.thy ===== *)
theory Demo
  imports ReferenceProps Text
begin

text \<open>
  The example program of the reference machine, \<open>src/demo.c\<close>: its seven fixed programs
  with their expected observations, the structural controls, the execution boundaries and
  \<open>main\<close>. A function that prints returns what it printed; \<^term>\<open>True\<close> is the return value
  1, a failed check. The outer option is that of \<^const>\<open>cbpf_run\<close>, a run that returns.
\<close>

subsection \<open>The programs\<close>

definition valid_ab :: "cbpf_insn list" where
  "valid_ab =
     [insn CBPF_ACQUIRE 0 0 1, insn CBPF_ACQUIRE 1 0 1, insn CBPF_READ 0 0 0,
      insn CBPF_RELEASE 0 0 0, insn CBPF_READ 1 0 0, insn CBPF_RELEASE 1 0 0,
      insn CBPF_RETURN 0 0 0]"

definition double_release :: "cbpf_insn list" where
  "double_release =
     [insn CBPF_ACQUIRE 0 0 1, insn CBPF_COPY 1 0 0, insn CBPF_RELEASE 0 0 0,
      insn CBPF_RELEASE 1 0 0, insn CBPF_RETURN 0 0 0]"

definition alias_spill :: "cbpf_insn list" where
  "alias_spill =
     [insn CBPF_ACQUIRE 0 0 1, insn CBPF_SPILL 0 0 0, insn CBPF_RELOAD 1 0 0,
      insn CBPF_READ 1 0 0, insn CBPF_RELEASE 1 0 0, insn CBPF_READ 0 0 0,
      insn CBPF_RETURN 0 0 0]"

definition null_branch :: "cbpf_insn list" where
  "null_branch =
     [insn CBPF_ACQUIRE 0 0 0, insn CBPF_BR_NULL 0 0 3, insn CBPF_READ 0 0 0,
      insn CBPF_RETURN 0 0 7]"

definition exhaustion :: "cbpf_insn list" where
  "exhaustion =
     [insn CBPF_ACQUIRE 0 0 1, insn CBPF_RELEASE 0 0 0, insn CBPF_ACQUIRE 1 0 1,
      insn CBPF_RELEASE 1 0 0, insn CBPF_ACQUIRE 2 0 1, insn CBPF_RETURN 0 0 0]"

definition live_cleanup :: "cbpf_insn list" where
  "live_cleanup =
     [insn CBPF_ACQUIRE 0 0 1, insn CBPF_COPY 1 0 0, insn CBPF_SPILL 0 1 0,
      insn CBPF_RETURN 0 0 9]"

subsection \<open>One example\<close>

fun event_kind_name :: "cbpf_event_kind \<Rightarrow> string" where
  "event_kind_name CBPF_CLEANUP = ''cleanup''"
| "event_kind_name CBPF_TRAP_EVENT = ''trap''"
| "event_kind_name CBPF_STEP = ''step''"

definition event_line :: "cbpf_event \<Rightarrow> string" where
  "event_line e =
     ''  '' @ event_kind_name (e_kind e) @ '' pc='' @ decimal (e_pc e) @
     '' op='' @ cbpf_opcode_name (e_op e) @ '' token='' @ decimal (e_token e) @
     '' refs='' @ decimal_int (e_object_refs e) @ NL"

definition example_line :: "string \<Rightarrow> cbpf_result \<Rightarrow> string" where
  "example_line name r =
     name @ '': status='' @ cbpf_status_name (r_status r) @
     '' trap='' @ cbpf_trap_name (r_trap r) @ '' pc='' @ decimal (r_pc r) @
     '' acquired='' @ decimal (r_acquired r) @ '' reads='' @ decimal (r_reads r) @
     '' release='' @ decimal (r_explicit_releases r) @
     '' cleanup='' @ decimal (r_cleanup_releases r) @
     '' refs='' @ decimal_int (r_object_refs r) @
     '' return='' @ decimal_int (sint (r_returned r)) @ NL"

definition example ::
    "string \<Rightarrow> cbpf_insn list \<Rightarrow> nat \<Rightarrow> cbpf_status \<Rightarrow> cbpf_trap \<Rightarrow> nat \<Rightarrow> nat \<Rightarrow> nat \<Rightarrow> nat \<Rightarrow>
     nat \<Rightarrow> u64 \<Rightarrow> bool \<Rightarrow> (string \<times> bool) option" where
  "example name p n status trap pc acquired reads releases cleanup returned traced =
     do {
       r \<leftarrow> cbpf_run (Some p) n;
       Some (example_line name r @
             (if traced then concat (map event_line (take (r_event_count r) (r_events r))) else ''''),
             if r_status r \<noteq> status \<or> r_trap r \<noteq> trap \<or> r_pc r \<noteq> pc \<or>
                r_acquired r \<noteq> acquired \<or> r_reads r \<noteq> reads \<or>
                r_explicit_releases r \<noteq> releases \<or> r_cleanup_releases r \<noteq> cleanup \<or>
                r_object_refs r \<noteq> 1 \<or> r_returned r \<noteq> returned \<or>
                (reads \<noteq> 0 \<and> r_last_read r \<noteq> 42)
             then True
             else list_ex (\<lambda>i. r_explicit_by_cell r ! i + r_cleanup_by_cell r ! i \<noteq> 1) [0..<acquired])
     }"

subsection \<open>Structural controls\<close>

definition unreachable_bad :: "cbpf_insn list" where
  "unreachable_bad =
     [insn CBPF_ACQUIRE 0 0 1, insn CBPF_RETURN 0 0 7,
      insn CBPF_READ (of_nat CBPF_REGS) 0 0, insn CBPF_RETURN 0 0 0]"

definition structural_controls :: "(string \<times> bool) option" where
  "structural_controls =
     do {
       let p = [insn CBPF_READ 0 0 0, insn CBPF_RETURN 0 0 0];
       r \<leftarrow> cbpf_run (Some p) (length p);
       if r_status r \<noteq> CBPF_TRAPPED \<or> r_trap r \<noteq> CBPF_NULL \<or> r_reads r \<noteq> 0 then Some ('''', True)
       else do {
         let p = p[0 := (p ! 0)\<lparr>x_dst := of_nat CBPF_REGS\<rparr>];
         r \<leftarrow> cbpf_run (Some p) (length p);
         if r_status r \<noteq> CBPF_INVALID then Some ('''', True)
         else do {
           let p = p[0 := insn CBPF_BR_NULL 0 0 0];
           r \<leftarrow> cbpf_run (Some p) (length p);
           if r_status r \<noteq> CBPF_INVALID then Some ('''', True)
           else do {
             let p = p[0 := (p ! 0)\<lparr>x_op := CBPF_OTHER 99\<rparr>];
             r \<leftarrow> cbpf_run (Some p) (length p);
             if r_status r \<noteq> CBPF_INVALID then Some ('''', True)
             else do {
               let p = p[0 := insn CBPF_ACQUIRE 0 0 1];
               r \<leftarrow> cbpf_run (Some p) 1;
               if r_status r \<noteq> CBPF_INVALID \<or> r_acquired r \<noteq> 0 \<or> r_object_refs r \<noteq> 1
               then Some ('''', True)
               else do {
                 r \<leftarrow> cbpf_run (Some unreachable_bad) (length unreachable_bad);
                 if r_status r \<noteq> CBPF_INVALID \<or> r_pc r \<noteq> 2 \<or> r_trap r \<noteq> CBPF_NO_TRAP \<or>
                    r_event_count r \<noteq> 0 \<or> r_acquired r \<noteq> 0 \<or> r_reads r \<noteq> 0 \<or>
                    r_explicit_releases r \<noteq> 0 \<or> r_cleanup_releases r \<noteq> 0 \<or>
                    r_returned r \<noteq> 0 \<or> r_object_refs r \<noteq> 1
                 then Some ('''', True)
                 else Some (''structural_controls: passed; malformed input has no provider effects'' @ NL,
                            False)
               }}}}}}"

subsection \<open>Execution boundaries\<close>

definition early_return :: "cbpf_insn list" where
  "early_return =
     [insn CBPF_ACQUIRE 0 0 1, insn CBPF_RETURN 0 0 7, insn CBPF_READ 0 0 0,
      insn CBPF_RELEASE 0 0 0, insn CBPF_ACQUIRE 1 0 1, insn CBPF_RETURN 0 0 9]"

text \<open>The array \<open>longest\<close>, filled as the loops of both demonstrations fill it.\<close>

definition longest_program :: "u64 \<Rightarrow> cbpf_insn list" where
  "longest_program returned =
     insn CBPF_ACQUIRE 0 0 1 # insn CBPF_ACQUIRE 1 0 1 #
     replicate (CBPF_MAX_INSNS - 3) (insn CBPF_READ 0 0 0) @ [insn CBPF_RETURN 0 0 returned]"

definition early_return_wrong :: "cbpf_result \<Rightarrow> bool" where
  "early_return_wrong r \<longleftrightarrow>
     r_status r \<noteq> CBPF_RETURNED \<or> r_trap r \<noteq> CBPF_NO_TRAP \<or> r_pc r \<noteq> 1 \<or>
     r_returned r \<noteq> 7 \<or> r_acquired r \<noteq> 1 \<or> r_reads r \<noteq> 0 \<or> r_explicit_releases r \<noteq> 0 \<or>
     r_cleanup_releases r \<noteq> 1 \<or> r_cleanup_by_cell r ! 0 \<noteq> 1 \<or>
     r_object_refs r \<noteq> 1 \<or> r_event_count r \<noteq> 3 \<or>
     e_kind (r_events r ! 1) \<noteq> CBPF_STEP \<or> e_op (r_events r ! 1) \<noteq> CBPF_RETURN \<or>
     e_kind (r_events r ! 2) \<noteq> CBPF_CLEANUP \<or> e_pc (r_events r ! 2) \<noteq> 1"

definition longest_totals_wrong :: "cbpf_insn list \<Rightarrow> cbpf_result \<Rightarrow> bool" where
  "longest_totals_wrong longest r \<longleftrightarrow>
     r_status r \<noteq> CBPF_RETURNED \<or> r_trap r \<noteq> CBPF_NO_TRAP \<or>
     r_pc r \<noteq> length longest - 1 \<or> r_returned r \<noteq> 9 \<or> r_acquired r \<noteq> CBPF_CELLS \<or>
     r_reads r \<noteq> CBPF_MAX_INSNS - 3 \<or> r_last_read r \<noteq> 42 \<or>
     r_explicit_releases r \<noteq> 0 \<or> r_cleanup_releases r \<noteq> CBPF_CELLS \<or>
     r_object_refs r \<noteq> 1 \<or> r_event_count r \<noteq> CBPF_MAX_EVENTS"

definition longest_step_wrong :: "cbpf_insn list \<Rightarrow> cbpf_result \<Rightarrow> nat \<Rightarrow> bool" where
  "longest_step_wrong longest r i \<longleftrightarrow>
     e_kind (r_events r ! i) \<noteq> CBPF_STEP \<or> e_pc (r_events r ! i) \<noteq> i \<or>
     e_op (r_events r ! i) \<noteq> x_op (longest ! i)"

definition longest_cleanup_wrong :: "cbpf_insn list \<Rightarrow> cbpf_result \<Rightarrow> nat \<Rightarrow> bool" where
  "longest_cleanup_wrong longest r i \<longleftrightarrow>
     (let e = r_events r ! (CBPF_MAX_INSNS + i)
      in r_explicit_by_cell r ! i \<noteq> 0 \<or> r_cleanup_by_cell r ! i \<noteq> 1 \<or>
         e_kind e \<noteq> CBPF_CLEANUP \<or> e_op e \<noteq> CBPF_RELEASE \<or>
         e_pc e \<noteq> length longest - 1 \<or> e_token e \<noteq> i + 1 \<or>
         e_object_refs e \<noteq> int CBPF_CELLS - int i)"

definition execution_boundaries :: "(string \<times> bool) option" where
  "execution_boundaries =
     do {
       r \<leftarrow> cbpf_run (Some early_return) (length early_return);
       if early_return_wrong r then Some ('''', True)
       else do {
         let longest = longest_program 9;
         r \<leftarrow> cbpf_run (Some longest) (length longest);
         if longest_totals_wrong longest r \<or>
            list_ex (longest_step_wrong longest r) [0..<length longest] \<or>
            list_ex (longest_cleanup_wrong longest r) [0..<CBPF_CELLS]
         then Some ('''', True)
         else Some (''execution_boundaries: passed; early return halts; maximum trace fits exactly'' @ NL,
                    False)
       }
     }"

subsection \<open>The object baseline and main\<close>

record plain_object =
  po_amount :: int
  po_refs :: int

text \<open>Both pointers are \<open>&object.value\<close>, so a read through either is the field.\<close>

definition conceptual_object_baseline :: "string \<times> bool" where
  "conceptual_object_baseline =
     (let object = \<lparr>po_amount = 42, po_refs = 1\<rparr>;
          object = object\<lparr>po_refs := po_refs object + 2\<rparr>;
          object = object\<lparr>po_refs := po_refs object - 1\<rparr>;
          stale = po_amount object
      in if po_amount object \<noteq> 42 \<or> po_refs object \<noteq> 2 then ('''', True)
         else
           let object = object\<lparr>po_refs := po_refs object - 1\<rparr>
           in (''conceptual_object_baseline: stale_A_read='' @ decimal_int stale @
               '' refs='' @ decimal_int (po_refs object) @ '' (plain host pointers; no CHERI)'' @ NL,
               stale \<noteq> 42 \<or> po_refs object \<noteq> 1))"

text \<open>The checks of \<open>main\<close> in order; none is skipped when an earlier one fails.\<close>

definition demo_examples :: "(string \<times> bool) option list" where
  "demo_examples =
     [example ''valid_A_B'' valid_ab (length valid_ab)
        CBPF_RETURNED CBPF_NO_TRAP 6 2 2 2 0 0 False,
      example ''release_A_use_B_stale_A'' stale_a_live_b (length stale_a_live_b)
        CBPF_TRAPPED CBPF_STALE 4 2 1 1 1 0 True,
      example ''double_release'' double_release (length double_release)
        CBPF_TRAPPED CBPF_STALE 3 1 0 1 0 0 True,
      example ''alias_spill'' alias_spill (length alias_spill)
        CBPF_TRAPPED CBPF_STALE 5 1 1 1 0 0 False,
      example ''null_acquisition'' null_branch (length null_branch)
        CBPF_RETURNED CBPF_NO_TRAP 3 0 0 0 0 7 False,
      example ''exhaustion_no_reuse'' exhaustion (length exhaustion)
        CBPF_TRAPPED CBPF_EXHAUSTED 4 2 0 2 0 0 False,
      example ''live_alias_cleanup'' live_cleanup (length live_cleanup)
        CBPF_RETURNED CBPF_NO_TRAP 3 1 0 0 1 9 False,
      Some conceptual_object_baseline,
      structural_controls,
      execution_boundaries]"

definition run_check :: "(string \<times> bool) option \<Rightarrow> string \<times> bool \<Rightarrow> (string \<times> bool) option" where
  "run_check check s =
     do { (text, bad) \<leftarrow> check; Some (fst s @ text, snd s \<or> bad) }"

definition demo_main :: "(string \<times> int) option" where
  "demo_main =
     do {
       (out, failed) \<leftarrow> for_each demo_examples run_check
         (''CBPF host reference semantics; tiny IR, not Linux eBPF/JIT or hardware isolation'' @ NL,
          False);
       Some (out @ (if failed then ''CBPF examples: FAILED'' else ''CBPF examples: passed'') @ NL,
             if failed then 1 else 0)
     }"

subsection \<open>Every check passes\<close>

lemma passing_checks:
  assumes "\<And>c. c \<in> set checks \<Longrightarrow> map_option snd c = Some False" and "\<not> snd s"
  shows "\<exists>out. for_each checks run_check s = Some (out, False)"
proof -
  have "\<exists>t. for_each checks run_check s = Some t \<and> \<not> snd t"
    using assms(2)
  proof (rule for_each_rule)
    fix c s assume "c \<in> set checks" and "\<not> snd (s :: string \<times> bool)"
    then show "\<exists>t. run_check c s = Some t \<and> \<not> snd t"
      using assms(1) [of c] by (auto simp: run_check_def)
  qed
  then show ?thesis by (metis (full_types) prod.collapse)
qed

lemma demo_checks_pass:
  "list_all (\<lambda>c. map_option snd c = Some False) demo_examples"
  by code_simp

text \<open>
  The example program of the reference machine succeeds: all its checks return, none
  of them fails, \<open>main\<close> returns 0 and its last line says so. The seven programs have the
  status, trap, program counter, counters and return value that \<open>main\<close> expects of them,
  malformed programs have no provider effects, and the longest program with two live
  acquisitions fills the event array exactly.
\<close>

theorem demo_main_passes:
  "\<exists>out. demo_main = Some (out @ ''CBPF examples: passed'' @ NL, 0)"
proof -
  have "\<exists>out. for_each demo_examples run_check
      (''CBPF host reference semantics; tiny IR, not Linux eBPF/JIT or hardware isolation'' @ NL, False) =
      Some (out, False)"
    using demo_checks_pass by (intro passing_checks) (auto simp: list_all_iff)
  then show ?thesis by (auto simp: demo_main_def)
qed

end
