(* ===== verification/Renaming.thy ===== *)
theory Renaming
  imports ReferenceProps
begin

text \<open>
  The reference machine does not observe the names of registers and spill slots: a
  program whose names are permuted has the same result, event by event. The
  demonstration of the gate runs every family of programs under all permutations; this is
  the fact that makes its expectations independent of them.
\<close>

subsection \<open>Permuted programs\<close>

definition rename_insn :: "(u32 \<Rightarrow> u32) \<Rightarrow> (u32 \<Rightarrow> u32) \<Rightarrow> cbpf_insn \<Rightarrow> cbpf_insn" where
  "rename_insn \<rho> \<sigma> x =
     (case x_op x of
        CBPF_COPY \<Rightarrow> x\<lparr>x_dst := \<rho> (x_dst x), x_src := \<rho> (x_src x)\<rparr>
      | CBPF_SPILL \<Rightarrow> x\<lparr>x_dst := \<sigma> (x_dst x), x_src := \<rho> (x_src x)\<rparr>
      | CBPF_RELOAD \<Rightarrow> x\<lparr>x_dst := \<rho> (x_dst x), x_src := \<sigma> (x_src x)\<rparr>
      | CBPF_RETURN \<Rightarrow> x
      | _ \<Rightarrow> x\<lparr>x_dst := \<rho> (x_dst x)\<rparr>)"

text \<open>A permutation of the first \<open>k\<close> names that keeps the others out of them.\<close>

definition permutes_names :: "nat \<Rightarrow> (u32 \<Rightarrow> u32) \<Rightarrow> bool" where
  "permutes_names k f \<longleftrightarrow>
     (\<forall>x. unat (f x) < k \<longleftrightarrow> unat x < k) \<and>
     (\<forall>x y. unat x < k \<longrightarrow> unat y < k \<longrightarrow> f x = f y \<longrightarrow> x = y)"

lemma permutes_namesD:
  assumes "permutes_names k f"
  shows "unat (f x) < k \<longleftrightarrow> unat x < k"
    and "unat x < k \<Longrightarrow> unat y < k \<Longrightarrow> unat (f x) = unat (f y) \<longleftrightarrow> x = y"
  using assms by (auto simp: permutes_names_def word_unat_eq_iff [symmetric])

text \<open>The permutation given by the table of new names.\<close>

definition name_of :: "u32 list \<Rightarrow> u32 \<Rightarrow> u32" where
  "name_of xs x = (if unat x < length xs then xs ! unat x else x)"

lemma permutes_name_of:
  assumes "length xs = k" and "distinct xs" and "\<forall>y \<in> set xs. unat y < k"
  shows "permutes_names k (name_of xs)"
  using assms nth_mem [of _ xs]
  by (auto simp: permutes_names_def name_of_def nth_eq_iff_index_eq word_unat_eq_iff [symmetric])

text \<open>The array \<open>ys\<close> holds at the new names what \<open>xs\<close> holds at the old ones.\<close>

definition renamed :: "(u32 \<Rightarrow> u32) \<Rightarrow> 'a list \<Rightarrow> 'a list \<Rightarrow> bool" where
  "renamed f xs ys \<longleftrightarrow> length ys = length xs \<and>
     (\<forall>x. unat x < length xs \<longrightarrow> ys ! unat (f x) = xs ! unat x)"

lemma renamed_nth: "renamed f xs ys \<Longrightarrow> unat x < length xs \<Longrightarrow> ys ! unat (f x) = xs ! unat x"
  by (simp add: renamed_def)

lemma renamed_update:
  assumes "renamed f xs ys" and "permutes_names (length xs) f" and "unat d < length xs"
  shows "renamed f (xs[unat d := v]) (ys[unat (f d) := v])"
  using assms permutes_namesD [OF assms(2)]
  by (auto simp: renamed_def nth_list_update word_unat_eq_iff [symmetric])

lemma renamed_replicate:
  assumes "permutes_names k f"
  shows "renamed f (replicate k v) (replicate k v)"
  using permutes_namesD(1) [OF assms] by (simp add: renamed_def)

definition renamed_machine :: "(u32 \<Rightarrow> u32) \<Rightarrow> (u32 \<Rightarrow> u32) \<Rightarrow> machine \<Rightarrow> machine \<Rightarrow> bool" where
  "renamed_machine \<rho> \<sigma> m m' \<longleftrightarrow>
     renamed \<rho> (m_regs m) (m_regs m') \<and> renamed \<sigma> (m_spills m) (m_spills m') \<and>
     m_live m' = m_live m \<and> m_pc m' = m_pc m \<and> m_res m' = m_res m"

definition renamed_outcome ::
    "(u32 \<Rightarrow> u32) \<Rightarrow> (u32 \<Rightarrow> u32) \<Rightarrow> machine + machine \<Rightarrow> machine + machine \<Rightarrow> bool" where
  "renamed_outcome \<rho> \<sigma> out out' \<longleftrightarrow>
     (case (out, out') of
        (Inl m, Inl m') \<Rightarrow> renamed_machine \<rho> \<sigma> m m'
      | (Inr m, Inr m') \<Rightarrow> renamed_machine \<rho> \<sigma> m m'
      | _ \<Rightarrow> False)"

subsection \<open>The validator\<close>

lemma rename_op [simp]:
  "x_op (rename_insn \<rho> \<sigma> x) = x_op x" "x_imm (rename_insn \<rho> \<sigma> x) = x_imm x"
  by (simp_all add: rename_insn_def split: cbpf_opcode.split)

lemma rename_valid:
  assumes "permutes_names CBPF_REGS \<rho>" and "permutes_names CBPF_SPILLS \<sigma>"
  shows "cbpf_insn_valid n i (rename_insn \<rho> \<sigma> x) = cbpf_insn_valid n i x"
  using permutes_namesD(1) [OF assms(1)] permutes_namesD(1) [OF assms(2)]
  by (cases "x_op x") (simp_all add: cbpf_insn_valid_def rename_insn_def linorder_not_le [symmetric])

lemma rename_validate_from:
  assumes "permutes_names CBPF_REGS \<rho>" and "permutes_names CBPF_SPILLS \<sigma>" and "n \<le> length p"
  shows "validate_from (map (rename_insn \<rho> \<sigma>) p) n i = validate_from p n i"
  using assms(3)
proof (induction p n i rule: validate_from.induct)
  case (1 p n i)
  then show ?case
    by (simp add: validate_from.simps [of _ n i] rename_valid [OF assms(1,2)])
qed

lemma rename_validate:
  assumes "permutes_names CBPF_REGS \<rho>" and "permutes_names CBPF_SPILLS \<sigma>" and "n \<le> length p"
  shows "cbpf_validate (Some (map (rename_insn \<rho> \<sigma>) p)) n = cbpf_validate (Some p) n"
proof (cases "n = 0")
  case False
  then have "map (rename_insn \<rho> \<sigma>) p ! (n - 1) = rename_insn \<rho> \<sigma> (p ! (n - 1))"
    using assms(3) by (intro nth_map) simp
  then show ?thesis
    using False rename_validate_from [OF assms] by (simp add: cbpf_validate_def)
qed (simp add: cbpf_validate_def)

subsection \<open>The run\<close>

lemma rename_step:
  assumes perm: "permutes_names CBPF_REGS \<rho>" "permutes_names CBPF_SPILLS \<sigma>"
    and len: "n \<le> length p" and inv: "loop_inv p n m" and rel: "renamed_machine \<rho> \<sigma> m m'"
  shows "renamed_outcome \<rho> \<sigma> (cbpf_step p m) (cbpf_step (map (rename_insn \<rho> \<sigma>) p) m')"
proof -
  let ?x = "p ! m_pc m"
  have valid: "cbpf_insn_valid n (m_pc m) ?x" and pc: "m_pc m < length p"
    using inv len by (auto simp: loop_inv_def cbpf_program_ok_def)
  have shape: "length (m_regs m) = CBPF_REGS" "length (m_spills m) = CBPF_SPILLS"
    using inv by (simp_all add: loop_inv_def machine_ok_def)
  have R: "renamed \<rho> (m_regs m) (m_regs m')" "renamed \<sigma> (m_spills m) (m_spills m')"
    "m_live m' = m_live m" "m_pc m' = m_pc m" "m_res m' = m_res m"
    using rel by (simp_all add: renamed_machine_def)
  note up = renamed_update [OF R(1), unfolded shape, OF perm(1)]
    renamed_update [OF R(2), unfolded shape, OF perm(2)]
  note at = renamed_nth [OF R(1), unfolded shape] renamed_nth [OF R(2), unfolded shape]
  have ops: "map (rename_insn \<rho> \<sigma>) p ! m_pc m = rename_insn \<rho> \<sigma> ?x" using pc by simp
  show ?thesis
    using valid R
    by (cases "x_op ?x")
      (simp_all add: cbpf_step_def ops rename_insn_def cbpf_insn_valid_def up at Let_def
        cbpf_next_def cbpf_goto_trap_def cbpf_issue_def cbpf_consume_def
        renamed_outcome_def renamed_machine_def not_le)
qed

lemma renamed_cleanup1:
  assumes "m_live m' = m_live m" and "m_res m' = m_res m"
  shows "m_live (cbpf_cleanup1 i m') = m_live (cbpf_cleanup1 i m)"
    and "m_res (cbpf_cleanup1 i m') = m_res (cbpf_cleanup1 i m)"
  using assms by (simp_all add: cbpf_cleanup1_def Let_def)

lemma renamed_finish:
  assumes "m_live m' = m_live m" and "m_res m' = m_res m"
  shows "m_res (cbpf_finish m') = m_res (cbpf_finish m)"
proof -
  have "m_res (fold cbpf_cleanup1 is m') = m_res (fold cbpf_cleanup1 is m)" for "is"
    using assms
  proof (induction "is" arbitrary: m m')
    case (Cons i js)
    show ?case using Cons.IH [OF renamed_cleanup1 [OF Cons.prems]] by simp
  qed simp
  then show ?thesis using assms by (simp add: cbpf_finish_def)
qed

lemma rename_loop:
  assumes perm: "permutes_names CBPF_REGS \<rho>" "permutes_names CBPF_SPILLS \<sigma>"
    and len: "n \<le> length p" and ok: "cbpf_program_ok p n"
  shows "\<exists>v u. c_loop (\<lambda>m. m_pc m < n) (cbpf_step (map (rename_insn \<rho> \<sigma>) p)) cbpf_start = Some v \<and>
    c_loop (\<lambda>m. m_pc m < n) (cbpf_step p) cbpf_start = Some u \<and> renamed_machine \<rho> \<sigma> u v"
proof -
  let ?q = "map (rename_insn \<rho> \<sigma>) p"
  have "\<exists>v. c_loop (\<lambda>m. m_pc m < n) (cbpf_step ?q) cbpf_start = Some v \<and>
    ((\<exists>u. c_loop (\<lambda>m. m_pc m < n) (cbpf_step p) cbpf_start = Some u \<and> renamed_machine \<rho> \<sigma> u v) \<or>
     (\<exists>u. loop_inv p n u \<and> m_pc u < n \<and> False))"
  proof (rule host_loop.lockstep [where A = "\<lambda>_ _. False"])
    show "loop_inv p n cbpf_start" using ok by (rule loop_inv_start)
    show "renamed_machine \<rho> \<sigma> cbpf_start cbpf_start"
      by (simp add: renamed_machine_def cbpf_start_def renamed_replicate perm)
    show "m_pc t < n \<longleftrightarrow> m_pc s < n" if "renamed_machine \<rho> \<sigma> s t" for s t
      using that by (simp add: renamed_machine_def)
  next
    fix s t v
    assume s: "loop_inv p n s" "renamed_machine \<rho> \<sigma> s t" and "cbpf_step ?q t = Inl v"
    with rename_step [OF perm len s]
    show "False \<or> (\<exists>u. cbpf_step p s = Inl u \<and> renamed_machine \<rho> \<sigma> u v)"
      by (cases "cbpf_step p s") (simp_all add: renamed_outcome_def)
  next
    fix s t v
    assume s: "loop_inv p n s" "renamed_machine \<rho> \<sigma> s t" and "cbpf_step ?q t = Inr v"
    with rename_step [OF perm len s]
    show "\<exists>u. cbpf_step p s = Inr u \<and> renamed_machine \<rho> \<sigma> u v"
      by (cases "cbpf_step p s") (simp_all add: renamed_outcome_def)
  qed
  then show ?thesis by blast
qed

lemma rename_run:
  assumes "permutes_names CBPF_REGS \<rho>" and "permutes_names CBPF_SPILLS \<sigma>" and "n \<le> length p"
  shows "cbpf_run (Some (map (rename_insn \<rho> \<sigma>) p)) n = cbpf_run (Some p) n"
proof (cases "cbpf_validate (Some p) n")
  case (Inl bad)
  then show ?thesis by (simp add: cbpf_run_def rename_validate [OF assms])
next
  case (Inr u)
  then have "cbpf_program_ok p n" by (simp add: cbpf_validate_Inr)
  from rename_loop [OF assms this] Inr show ?thesis
    by (auto simp: cbpf_run_def rename_validate [OF assms] renamed_machine_def intro: renamed_finish)
qed

text \<open>
  C22. The names of registers and spill slots are not observable: permuting them in a
  program, valid or not, changes neither the verdict of the validator nor anything in the
  result of the reference machine, its event trace included.
\<close>

theorem cbpf_run_renaming:
  assumes "permutes_names CBPF_REGS \<rho>" and "permutes_names CBPF_SPILLS \<sigma>" and "n \<le> length p"
  shows "cbpf_validate (Some (map (rename_insn \<rho> \<sigma>) p)) n = cbpf_validate (Some p) n \<and>
    cbpf_run (Some (map (rename_insn \<rho> \<sigma>) p)) n = cbpf_run (Some p) n"
  using rename_validate [OF assms] rename_run [OF assms] by blast

lemma cbpf_run_renaming_witness:
  "cbpf_run (Some (map (rename_insn (name_of [1, 2, 3, 0]) (name_of [1, 0])) stale_a_live_b)) 7 =
     cbpf_run (Some stale_a_live_b) 7 \<and>
   map (rename_insn (name_of [1, 2, 3, 0]) (name_of [1, 0])) stale_a_live_b \<noteq> stale_a_live_b"
proof -
  have "permutes_names CBPF_REGS (name_of [1, 2, 3, 0])" "permutes_names CBPF_SPILLS (name_of [1, 0])"
    by (rule permutes_name_of; simp add: layout_simps)+
  moreover have "7 \<le> length stale_a_live_b" by code_simp
  moreover have "map (rename_insn (name_of [1, 2, 3, 0]) (name_of [1, 0])) stale_a_live_b \<noteq> stale_a_live_b"
    by code_simp
  ultimately show ?thesis using cbpf_run_renaming by blast
qed

end
