(* ===== verification/GateDemo.thy ===== *)
theory GateDemo
  imports GateProps Demo Renaming
begin

text \<open>
  The demonstration of the trusted gate, \<open>src/gate_demo.c\<close>: the comparison of a gate run
  with the reference run and with a direct expectation, the corpus of ten program families
  under every permutation of registers and slots, the boundary programs, the baseline with
  a plain object pointer, and \<open>main\<close>. The platform \<open>P\<close> stands for the build, as in
  theory \<open>Gate\<close>.

  The static counters and what is written to \<open>stdout\<close> and \<open>stderr\<close> are the fields of
  \<open>gate_demo\<close>. A function that returns 0 for success returns \<^term>\<open>False\<close> for it, as in
  theory \<open>Demo\<close>.
\<close>

subsection \<open>State and comparisons\<close>

record expectation =
  ex_status :: cbpf_status
  ex_trap :: cbpf_trap
  ex_pc :: nat
  ex_acquired :: nat
  ex_reads :: nat
  ex_releases :: nat
  ex_cleanups :: nat
  ex_returned :: u64
  ex_events :: nat
  ex_explicit_mask :: u32
  ex_cleanup_mask :: u32

definition expect ::
    "cbpf_status \<Rightarrow> cbpf_trap \<Rightarrow> nat \<Rightarrow> nat \<Rightarrow> nat \<Rightarrow> nat \<Rightarrow> nat \<Rightarrow> u64 \<Rightarrow> nat \<Rightarrow> u32 \<Rightarrow> u32 \<Rightarrow>
     expectation" where
  "expect status trap pc acquired reads releases cleanups returned events emask cmask =
     \<lparr>ex_status = status, ex_trap = trap, ex_pc = pc, ex_acquired = acquired, ex_reads = reads,
      ex_releases = releases, ex_cleanups = cleanups, ex_returned = returned,
      ex_events = events, ex_explicit_mask = emask, ex_cleanup_mask = cmask\<rparr>"

record gate_demo =
  d_cases :: nat
  d_matched :: nat
  d_cell_bytes :: u64
  d_handle_bytes :: u64
  d_out :: string
  d_err :: string

definition d_print :: "string \<Rightarrow> gate_demo \<Rightarrow> gate_demo" where
  "d_print text d = d\<lparr>d_out := d_out d @ text\<rparr>"

definition mismatch :: "string \<Rightarrow> string \<Rightarrow> gate_demo \<Rightarrow> gate_demo \<times> bool" where
  "mismatch name field d =
     (d\<lparr>d_err := d_err d @ ''CBPF_GATE mismatch case='' @ name @ '' field='' @ field @ NL\<rparr>, False)"

text \<open>The first field whose comparison fails is reported.\<close>

fun compare_fields :: "string \<Rightarrow> (string \<times> bool) list \<Rightarrow> gate_demo \<Rightarrow> gate_demo \<times> bool" where
  "compare_fields name [] d = (d, True)"
| "compare_fields name ((field, same) # rest) d =
     (if \<not> same then mismatch name field d else compare_fields name rest d)"

definition same_event :: "cbpf_event \<Rightarrow> cbpf_event \<Rightarrow> (string \<times> bool) list" where
  "same_event a b =
     [(''events[i].kind'', e_kind a = e_kind b), (''events[i].op'', e_op a = e_op b),
      (''events[i].pc'', e_pc a = e_pc b), (''events[i].token'', e_token a = e_token b),
      (''events[i].object_refs'', e_object_refs a = e_object_refs b)]"

definition equal_result ::
    "string \<Rightarrow> cbpf_result \<Rightarrow> cbpf_result \<Rightarrow> gate_demo \<Rightarrow> gate_demo \<times> bool" where
  "equal_result name a b =
     compare_fields name
       ([(''status'', r_status a = r_status b), (''trap'', r_trap a = r_trap b),
         (''pc'', r_pc a = r_pc b), (''returned'', r_returned a = r_returned b),
         (''acquired'', r_acquired a = r_acquired b), (''reads'', r_reads a = r_reads b),
         (''explicit_releases'', r_explicit_releases a = r_explicit_releases b),
         (''cleanup_releases'', r_cleanup_releases a = r_cleanup_releases b),
         (''last_read'', r_last_read a = r_last_read b),
         (''object_refs'', r_object_refs a = r_object_refs b),
         (''event_count'', r_event_count a = r_event_count b)] @
        concat (map (\<lambda>i.
          [(''explicit_by_cell[i]'', r_explicit_by_cell a ! i = r_explicit_by_cell b ! i),
           (''cleanup_by_cell[i]'', r_cleanup_by_cell a ! i = r_cleanup_by_cell b ! i)])
          [0..<CBPF_CELLS]) @
        concat (map (\<lambda>i. same_event (r_events a ! i) (r_events b ! i)) [0..<CBPF_MAX_EVENTS]))"

definition direct_expectation :: "cbpf_result \<Rightarrow> expectation \<Rightarrow> bool" where
  "direct_expectation r e \<longleftrightarrow>
     \<not> (r_status r \<noteq> ex_status e \<or> r_trap r \<noteq> ex_trap e \<or> r_pc r \<noteq> ex_pc e \<or>
        r_acquired r \<noteq> ex_acquired e \<or> r_reads r \<noteq> ex_reads e \<or>
        r_explicit_releases r \<noteq> ex_releases e \<or> r_cleanup_releases r \<noteq> ex_cleanups e \<or>
        r_returned r \<noteq> ex_returned e \<or> r_event_count r \<noteq> ex_events e \<or>
        r_object_refs r \<noteq> 1 \<or> r_last_read r \<noteq> (if ex_reads e \<noteq> 0 then 42 else 0))"

definition direct_per_cell_effects :: "cbpf_result \<Rightarrow> expectation \<Rightarrow> bool" where
  "direct_per_cell_effects r e \<longleftrightarrow>
     \<not> list_ex (\<lambda>i.
          r_explicit_by_cell r ! i \<noteq> unat (drop_bit i (ex_explicit_mask e) AND 1) \<or>
          r_cleanup_by_cell r ! i \<noteq> unat (drop_bit i (ex_cleanup_mask e) AND 1)) [0..<CBPF_CELLS]"

definition expected_result ::
    "string \<Rightarrow> cbpf_result \<Rightarrow> expectation \<Rightarrow> gate_demo \<Rightarrow> gate_demo \<times> bool" where
  "expected_result name r e =
     compare_fields name
       [(''direct_expectation'', direct_expectation r e),
        (''direct_per_cell_effects'', direct_per_cell_effects r e)]"

definition attempts :: "cbpf_opcode \<Rightarrow> cbpf_result \<Rightarrow> nat" where
  "attempts op r =
     length (filter (\<lambda>e. e_kind e \<noteq> CBPF_CLEANUP \<and> e_op e = op) (take (r_event_count r) (r_events r)))"

definition expected_metrics ::
    "'v platform \<Rightarrow> string \<Rightarrow> cbpf_result \<Rightarrow> cbpf_gate_metrics \<Rightarrow> gate_demo \<Rightarrow> gate_demo \<times> bool" where
  "expected_metrics P name r m d0 =
     (let d = (if d_cell_bytes d0 = 0
               then d0\<lparr>d_cell_bytes := gm_cell_bytes m, d_handle_bytes := gm_handle_bytes m\<rparr>
               else d0)
      in if gm_acquisitions m \<noteq> attempts CBPF_ACQUIRE r \<or> gm_reads m \<noteq> attempts CBPF_READ r \<or>
            gm_releases m \<noteq> attempts CBPF_RELEASE r \<or> gm_cleanups m \<noteq> r_cleanup_releases r \<or>
            gm_purecap m \<noteq> is_purecap P \<or> gm_representation_errors m \<noteq> 0 \<or>
            gm_restricted_handles m \<noteq> (if is_purecap P then r_acquired r else 0) \<or>
            gm_tag_clears m \<noteq>
              (if is_purecap P then r_explicit_releases r + r_cleanup_releases r else 0) \<or>
            gm_cell_bytes m = 0 \<or> gm_cell_bytes m \<noteq> d_cell_bytes d \<or>
            gm_handle_bytes m \<noteq> pf_sizeof_handle P \<or> gm_handle_bytes m \<noteq> d_handle_bytes d
         then mismatch name ''gate_metrics'' d
         else (d, True))"

subsection \<open>The trace\<close>

definition insn_text :: "cbpf_insn \<Rightarrow> string" where
  "insn_text x =
     (let dst = decimal (unat (x_dst x)); src = decimal (unat (x_src x));
          imm = decimal_int (sint (x_imm x))
      in case x_op x of
        CBPF_ACQUIRE \<Rightarrow> ''r'' @ dst @ '' = acquire('' @ imm @ '')''
      | CBPF_COPY \<Rightarrow> ''r'' @ dst @ '' = r'' @ src
      | CBPF_SPILL \<Rightarrow> ''spill['' @ dst @ ''] = r'' @ src
      | CBPF_RELOAD \<Rightarrow> ''r'' @ dst @ '' = spill['' @ src @ '']''
      | CBPF_READ \<Rightarrow> cbpf_opcode_name (x_op x) @ ''(r'' @ dst @ '')''
      | CBPF_RELEASE \<Rightarrow> cbpf_opcode_name (x_op x) @ ''(r'' @ dst @ '')''
      | CBPF_BR_NULL \<Rightarrow> ''if r'' @ dst @ '' == NULL goto '' @ imm
      | CBPF_RETURN \<Rightarrow> ''return '' @ imm
      | CBPF_OTHER _ \<Rightarrow> ''invalid'')"

definition print_trace :: "cbpf_insn list \<Rightarrow> nat \<Rightarrow> cbpf_result \<Rightarrow> string" where
  "print_trace p n r =
     ''CBPF_GATE trace=stale_spill_after_B program_begin'' @ NL @
     concat (map (\<lambda>pc. ''  '' @ decimal pc @ '': '' @ insn_text (p ! pc) @ NL) [0..<n]) @
     ''CBPF_GATE trace=stale_spill_after_B effects_begin'' @ NL @
     concat (map event_line (take (r_event_count r) (r_events r))) @
     ''CBPF_GATE trace=stale_spill_after_B status='' @ cbpf_status_name (r_status r) @
     '' trap='' @ cbpf_trap_name (r_trap r) @ '' pc='' @ decimal (r_pc r) @
     '' reads='' @ decimal (r_reads r) @ '' explicit='' @ decimal (r_explicit_releases r) @
     '' cleanup='' @ decimal (r_cleanup_releases r) @
     '' refs='' @ decimal_int (r_object_refs r) @ NL"

subsection \<open>One case\<close>

text \<open>The value of either run function is the status field of its result.\<close>

definition check_case ::
    "'v platform \<Rightarrow> string \<Rightarrow> cbpf_insn list option \<Rightarrow> nat \<Rightarrow> expectation \<Rightarrow> bool \<Rightarrow> gate_demo \<Rightarrow>
     (gate_demo \<times> bool) option" where
  "check_case P name program n e traced d0 =
     do {
       reference \<leftarrow> cbpf_run program n;
       (gate, metrics) \<leftarrow> cbpf_gate_run P program n;
       let d = d0\<lparr>d_cases := d_cases d0 + 1\<rparr>;
       let (d, good1) = equal_result name reference gate d;
       let (d, good2) = expected_result name reference e d;
       let (d, good3) = expected_result name gate e d;
       let (d, good4) = (if r_event_count gate \<le> CBPF_MAX_EVENTS
                         then expected_metrics P name gate metrics d else (d, False));
       let good = (good1 \<and> good2 \<and> good3 \<and> good4);
       let d = (if traced \<and> good then d_print (print_trace (the program) n gate) d else d);
       if good then Some (d\<lparr>d_matched := d_matched d + 1\<rparr>, False)
       else Some (d\<lparr>d_err := d_err d @ ''CBPF_GATE failed_case='' @ decimal (d_cases d) @
                              '' name='' @ name @ NL\<rparr>, True)
     }"

subsection \<open>The corpus\<close>

datatype family =
  VALID_AB | STALE_COPY | STALE_SPILL | REPEATED_RELEASE | NULL_BRANCH
| CONSUMED_BRANCH | OVERWRITE_ALIAS | EXHAUSTION | NULL_READ | NULL_RELEASE

definition families :: "family list" where
  "families =
     [VALID_AB, STALE_COPY, STALE_SPILL, REPEATED_RELEASE, NULL_BRANCH,
      CONSUMED_BRANCH, OVERWRITE_ALIAS, EXHAUSTION, NULL_READ, NULL_RELEASE]"

definition family_names :: "string list" where
  "family_names =
     [''valid_A_B'', ''stale_copy_after_B'', ''stale_spill_after_B'', ''repeated_release'',
      ''null_acquisition_branch'', ''consumed_token_nonnull'', ''overwrite_last_alias'',
      ''exhaustion_cleanup'', ''null_read'', ''null_release'']"

text \<open>The program \<open>p\<close> holds the \<open>n\<close> instructions written to it.\<close>

definition build_case ::
    "family \<Rightarrow> u32 \<Rightarrow> u32 \<Rightarrow> u32 \<Rightarrow> u32 \<Rightarrow> u32 \<Rightarrow> cbpf_insn list \<times> expectation" where
  "build_case family a b c d slot =
     (let start =
        [insn CBPF_ACQUIRE a 0 1, insn CBPF_ACQUIRE b 0 1, insn CBPF_COPY c a 0,
         insn CBPF_SPILL slot a 0];
          stale = (\<lambda>x. (start @
        [insn CBPF_RELEASE a 0 0, insn CBPF_READ b 0 0, insn CBPF_RELOAD d slot 0, x,
         insn CBPF_RELEASE b 0 0, insn CBPF_RETURN 0 0 7],
        expect CBPF_TRAPPED CBPF_STALE 7 2 1 1 1 0 9 1 2));
          null_use = (\<lambda>x.
        ([insn CBPF_ACQUIRE b 0 1, insn CBPF_ACQUIRE a 0 0, insn CBPF_COPY c a 0,
          insn CBPF_SPILL slot c 0, insn CBPF_RELOAD d slot 0, x,
          insn CBPF_READ b 0 0, insn CBPF_RETURN 0 0 9],
         expect CBPF_TRAPPED CBPF_NULL 5 1 0 0 1 0 7 0 1))
      in case family of
        VALID_AB \<Rightarrow>
          (start @
           [insn CBPF_READ c 0 0, insn CBPF_READ b 0 0, insn CBPF_RELOAD d slot 0,
            insn CBPF_RELEASE d 0 0, insn CBPF_RELEASE b 0 0, insn CBPF_RETURN 0 0 7],
           expect CBPF_RETURNED CBPF_NO_TRAP 9 2 2 2 0 7 10 3 0)
      | STALE_COPY \<Rightarrow> stale (insn CBPF_READ c 0 0)
      | STALE_SPILL \<Rightarrow> stale (insn CBPF_READ d 0 0)
      | REPEATED_RELEASE \<Rightarrow> stale (insn CBPF_RELEASE d 0 0)
      | NULL_BRANCH \<Rightarrow>
          ([insn CBPF_ACQUIRE a 0 0, insn CBPF_COPY c a 0, insn CBPF_SPILL slot c 0,
            insn CBPF_RELOAD d slot 0, insn CBPF_BR_NULL d 0 7, insn CBPF_READ d 0 0,
            insn CBPF_RETURN 0 0 (- 7), insn CBPF_ACQUIRE b 0 1, insn CBPF_READ b 0 0,
            insn CBPF_RELEASE b 0 0, insn CBPF_RETURN 0 0 7],
           expect CBPF_RETURNED CBPF_NO_TRAP 10 1 1 1 0 7 9 1 0)
      | CONSUMED_BRANCH \<Rightarrow>
          ([insn CBPF_ACQUIRE a 0 1, insn CBPF_ACQUIRE b 0 1, insn CBPF_COPY c a 0,
            insn CBPF_SPILL slot c 0, insn CBPF_RELEASE a 0 0, insn CBPF_RELOAD d slot 0,
            insn CBPF_BR_NULL d 0 10, insn CBPF_READ b 0 0, insn CBPF_READ d 0 0,
            insn CBPF_RELEASE b 0 0, insn CBPF_RETURN 0 0 7],
           expect CBPF_TRAPPED CBPF_STALE 8 2 1 1 1 0 10 1 2)
      | OVERWRITE_ALIAS \<Rightarrow>
          ([insn CBPF_ACQUIRE a 0 1, insn CBPF_COPY c a 0, insn CBPF_SPILL slot c 0,
            insn CBPF_ACQUIRE b 0 1, insn CBPF_ACQUIRE a 0 0, insn CBPF_COPY c a 0,
            insn CBPF_SPILL slot a 0, insn CBPF_RELOAD d slot 0, insn CBPF_READ b 0 0,
            insn CBPF_RETURN 0 0 9],
           expect CBPF_RETURNED CBPF_NO_TRAP 9 2 1 0 2 9 12 0 3)
      | EXHAUSTION \<Rightarrow>
          ([insn CBPF_ACQUIRE a 0 1, insn CBPF_COPY c a 0, insn CBPF_SPILL slot c 0,
            insn CBPF_RELEASE a 0 0, insn CBPF_ACQUIRE b 0 1, insn CBPF_RELOAD d slot 0,
            insn CBPF_ACQUIRE d 0 1, insn CBPF_RETURN 0 0 9],
           expect CBPF_TRAPPED CBPF_EXHAUSTED 6 2 0 1 1 0 8 1 2)
      | NULL_READ \<Rightarrow> null_use (insn CBPF_READ d 0 0)
      | NULL_RELEASE \<Rightarrow> null_use (insn CBPF_RELEASE d 0 0))"

text \<open>The four-fold loop over the registers.\<close>

definition register_choices :: "(u32 \<times> u32 \<times> u32 \<times> u32) list" where
  "register_choices =
     (let regs = map of_nat [0..<CBPF_REGS]
      in concat (map (\<lambda>a. concat (map (\<lambda>b. concat (map (\<lambda>c. map (\<lambda>d. (a, b, c, d)) regs) regs)) regs)) regs))"

record corpus_state =
  k_demo :: gate_demo
  k_failed :: bool
  k_permutations :: nat
  k_family_failures :: "nat list"

definition corpus_case ::
    "'v platform \<Rightarrow> u32 \<times> u32 \<times> u32 \<times> u32 \<Rightarrow> nat \<times> nat \<Rightarrow> corpus_state \<Rightarrow> corpus_state option" where
  "corpus_case P regs slot_f k =
     (case (regs, slot_f) of ((a, b, c, d), (slot, f)) \<Rightarrow>
        case build_case (families ! f) a b c d (of_nat slot) of (p, e) \<Rightarrow>
          do {
            (demo, bad) \<leftarrow> check_case P (family_names ! f) (Some p) (length p) e
              (k_permutations k = 1 \<and> slot = 0 \<and> families ! f = STALE_SPILL) (k_demo k);
            Some (k\<lparr>k_demo := demo,
                    k_family_failures := (k_family_failures k)
                      [f := k_family_failures k ! f + (if bad then 1 else 0)],
                    k_failed := k_failed k \<or> bad\<rparr>)
          })"

definition corpus_permutation ::
    "'v platform \<Rightarrow> u32 \<times> u32 \<times> u32 \<times> u32 \<Rightarrow> corpus_state \<Rightarrow> corpus_state option" where
  "corpus_permutation P regs k =
     (case regs of (a, b, c, d) \<Rightarrow>
        if a = b \<or> a = c \<or> a = d \<or> b = c \<or> b = d \<or> c = d then Some k
        else for_each (concat (map (\<lambda>slot. map (Pair slot) [0..<length families]) [0..<CBPF_SPILLS]))
               (corpus_case P regs) (k\<lparr>k_permutations := k_permutations k + 1\<rparr>))"

definition corpus :: "'v platform \<Rightarrow> gate_demo \<Rightarrow> (gate_demo \<times> bool) option" where
  "corpus P d =
     do {
       k \<leftarrow> for_each register_choices (corpus_permutation P)
         \<lparr>k_demo = d, k_failed = False, k_permutations = 0,
          k_family_failures = replicate (length families) 0\<rparr>;
       let failed = (k_failed k \<or> k_permutations k \<noteq> 24);
       Some (d_print (concat (map (\<lambda>f.
               ''CBPF_GATE family='' @ family_names ! f @ '' cases=48 result='' @
               (if k_family_failures k ! f \<noteq> 0 then ''FAIL'' else ''PASS'') @ NL)
               [0..<length families])) (k_demo k), failed)
     }"

subsection \<open>Boundary programs\<close>

definition malformed :: "cbpf_insn list" where
  "malformed =
     [insn (CBPF_OTHER 99) 0 0 0, insn CBPF_ACQUIRE (of_nat CBPF_REGS) 0 1,
      insn CBPF_ACQUIRE 0 0 2, insn CBPF_COPY 0 (of_nat CBPF_REGS) 0,
      insn CBPF_SPILL (of_nat CBPF_SPILLS) 0 0, insn CBPF_RELOAD 0 (of_nat CBPF_SPILLS) 0,
      insn CBPF_READ (of_nat CBPF_REGS) 0 0, insn CBPF_BR_NULL 0 0 2, insn CBPF_BR_NULL 0 0 4]"

definition INT64_MIN :: u64 where "INT64_MIN = 2 ^ 63"

text \<open>
  The calls of \<open>check_case\<close> in order. \<open>junk\<close> is what the array \<open>longest\<close> holds before it
  is filled, when it is passed with a length the validator refuses.
\<close>

definition boundary_cases ::
    "cbpf_insn list \<Rightarrow> (string \<times> cbpf_insn list option \<times> nat \<times> expectation) list" where
  "boundary_cases junk =
     (let p = [insn CBPF_ACQUIRE 0 0 1, insn CBPF_RETURN 0 0 7, insn CBPF_READ 0 0 0,
               insn CBPF_RETURN 0 0 9];
          e = expect CBPF_INVALID CBPF_NO_TRAP 2 0 0 0 0 0 0 0 0
      in map (\<lambda>x. (''malformed_unreachable'', Some (p[2 := x]), length p, e)) malformed @
         [(''missing_final_return'', Some p, 3, e),
          (''empty_program'', Some p, 0, e\<lparr>ex_pc := 0\<rparr>),
          (''null_program'', None, 2, e\<lparr>ex_pc := 0\<rparr>),
          (''oversized_program'', Some junk, CBPF_MAX_INSNS + 1, e\<lparr>ex_pc := 0\<rparr>),
          (''full64_event66'', Some (longest_program INT64_MIN), length (longest_program INT64_MIN),
           expect CBPF_RETURNED CBPF_NO_TRAP 63 2 61 0 2 INT64_MIN 66 0 3)])"

definition boundary_case ::
    "'v platform \<Rightarrow> string \<times> cbpf_insn list option \<times> nat \<times> expectation \<Rightarrow> gate_demo \<times> bool \<Rightarrow>
     (gate_demo \<times> bool) option" where
  "boundary_case P c s =
     (case c of (name, program, n, e) \<Rightarrow>
        do {
          (d, bad) \<leftarrow> check_case P name program n e False (fst s);
          Some (d, snd s \<or> bad)
        })"

definition boundaries :: "'v platform \<Rightarrow> cbpf_insn list \<Rightarrow> gate_demo \<Rightarrow> (gate_demo \<times> bool) option" where
  "boundaries P junk d =
     do {
       (d, failed) \<leftarrow> for_each (boundary_cases junk) (boundary_case P) (d, False);
       Some (d_print (''CBPF_GATE boundaries=malformed_unreachable_full64_event66 result='' @
                      (if failed then ''FAIL'' else ''PASS'') @ NL) d, failed)
     }"

subsection \<open>The baseline and main\<close>

text \<open>
  \<open>live\<close> is the address of the local object. On the host both aliases are that address;
  in purecap they are its capability with exact bounds.
\<close>

definition sizeof_direct_object :: u64 where "sizeof_direct_object = 4"

definition direct_representation_ok :: "'v platform \<Rightarrow> 'v \<Rightarrow> bool" where
  "direct_representation_ok P live =
     (case pf_cheri P of
        None \<Rightarrow> True
      | Some C \<Rightarrow>
          (let object = cheri_bounds_set_exact C live sizeof_direct_object
           in cheri_tag_get C object \<and> cheri_length_get C object = sizeof_direct_object \<and>
              pf_sizeof_handle P = 16))"

definition direct_object_baseline :: "'v platform \<Rightarrow> 'v \<Rightarrow> gate_demo \<Rightarrow> gate_demo \<times> bool" where
  "direct_object_baseline P live d =
     (if \<not> direct_representation_ok P live
      then (d_print (''CBPF_GATE baseline=direct_object representation=FAIL result=FAIL'' @ NL) d, True)
      else
        let field = 42 :: int; refs = 1 :: int; effects = 0 :: nat;
            refs = refs + 2;
            refs = refs - 1; effects = effects + 1;
            a_field = field; b_field = field;
            good = (a_field = 42 \<and> b_field = 42 \<and> refs = 2);
            refs = refs - 1; effects = effects + 1;
            good = (good \<and> refs = 1 \<and> effects = 2)
        in (d_print (''CBPF_GATE baseline=direct_object live_object=1 released_A_read='' @
              decimal_int a_field @ '' live_B_read='' @ decimal_int b_field @
              '' refs='' @ decimal_int refs @ '' effects='' @ decimal effects @
              '' result='' @ (if good then ''PASS'' else ''FAIL'') @ NL) d, \<not> good))"

definition gate_demo_start :: gate_demo where
  "gate_demo_start =
     \<lparr>d_cases = 0, d_matched = 0, d_cell_bytes = 0, d_handle_bytes = 0, d_out = '''', d_err = ''''\<rparr>"

text \<open>\<open>main\<close> of the build that returns, without \<open>CBPF_GATE_GUEST\<close>: its value and the final state.\<close>

definition gate_demo_main ::
    "'v platform \<Rightarrow> 'v \<Rightarrow> cbpf_insn list \<Rightarrow> (gate_demo \<times> int) option" where
  "gate_demo_main P live junk =
     do {
       let d = d_print (''CBPF_GATE scope=validated_IR isolation=0 kfunc=0 jit=0'' @ NL @
                        ''CBPF_GATE backend='' @ (if is_purecap P then ''cheri'' else ''software'') @ NL)
                 gate_demo_start;
       (d, failed1) \<leftarrow> corpus P d;
       (d, failed2) \<leftarrow> boundaries P junk d;
       let (d, failed3) = direct_object_baseline P live d;
       let failed = (failed1 \<or> failed2 \<or> failed3 \<or> d_cases d \<noteq> 494 \<or> d_matched d \<noteq> d_cases d);
       let d = d_print (''CBPF_GATE representation=purecap_'' @ (if is_purecap P then ''1'' else ''0'') @
                 '' cell_bytes='' @ decimal (unat (d_cell_bytes d)) @
                 '' handle_bytes='' @ decimal (unat (d_handle_bytes d)) @ NL @
                 ''CBPF_GATE cases='' @ decimal (d_cases d) @ '' matched='' @ decimal (d_matched d) @ NL @
                 (if failed then ''CBPF_GATE result=FAIL'' else ''CBPF_GATE result=PASS'') @ NL) d;
       Some (d, if failed then 1 else 0)
     }"

end
