(* ===== verification/GateDemoProps.thy ===== *)
theory GateDemoProps
  imports GateDemo
begin

text \<open>
  The demonstration of the gate succeeds on every platform whose gate agrees with the
  reference machine: each of the 494 cases has the expected result. The corpus reduces by
  the renaming of registers and slots to one program per family.
\<close>

subsection \<open>One case\<close>

definition case_expected :: "cbpf_insn list option \<Rightarrow> nat \<Rightarrow> expectation \<Rightarrow> bool" where
  "case_expected program n e \<longleftrightarrow>
     (case cbpf_run program n of
        None \<Rightarrow> False
      | Some r \<Rightarrow> direct_expectation r e \<and> direct_per_cell_effects r e)"

text \<open>\<open>k\<close> cases were run, all of them matched, and nothing was reported.\<close>

definition demo_good :: "'v platform \<Rightarrow> nat \<Rightarrow> gate_demo \<Rightarrow> bool" where
  "demo_good P k d \<longleftrightarrow>
     d_cases d = k \<and> d_matched d = k \<and> d_err d = '''' \<and>
     (d_cell_bytes d = 0 \<or>
      d_cell_bytes d = pf_sizeof_cell P \<and> d_handle_bytes d = pf_sizeof_handle P)"

lemma demo_good_print: "demo_good P k (d_print text d) = demo_good P k d"
  by (simp add: demo_good_def d_print_def)

lemma attempts_events: "attempts op r = events_of op r"
  by (simp add: attempts_def events_of_def trace_def conj_commute)

lemma compare_all: "list_all snd fs \<Longrightarrow> compare_fields name fs d = (d, True)"
  by (induction fs) auto

lemma equal_result_same: "equal_result name r r d = (d, True)"
  by (simp add: equal_result_def compare_all list_all_iff same_event_def)

text \<open>What the demonstration needs of a build.\<close>

definition gate_agrees :: "'v platform \<Rightarrow> bool" where
  "gate_agrees P \<longleftrightarrow> pf_sizeof_cell P \<noteq> 0 \<and>
     (\<forall>program n. \<exists>r. cbpf_run program n = Some r \<and>
        cbpf_gate_run P program n = Some (r, metrics_of P r))"

lemma check_case_passes:
  assumes P: "gate_agrees P" and e: "case_expected program n e" and d: "demo_good P k d"
  shows "\<exists>t. check_case P name program n e traced d = Some (t, False) \<and> demo_good P (k + 1) t"
proof -
  obtain r where r: "cbpf_run program n = Some r"
    "cbpf_gate_run P program n = Some (r, metrics_of P r)"
    using P by (auto simp: gate_agrees_def)
  have ex: "expected_result name r e d' = (d', True)" for d'
    using e r(1) by (simp add: case_expected_def expected_result_def)
  let ?d1 = "d\<lparr>d_cases := Suc (d_cases d), d_cell_bytes := pf_sizeof_cell P,
                d_handle_bytes := pf_sizeof_handle P\<rparr>"
  have k: "k = d_cases d" using d by (simp add: demo_good_def)
  have met: "expected_metrics P name r (metrics_of P r) (d\<lparr>d_cases := Suc (d_cases d)\<rparr>) = (?d1, True)"
    using d P
    by (auto simp: expected_metrics_def demo_good_def attempts_events metrics_of_def
      gate_metrics_start_def Let_def gate_agrees_def)
  have "r_event_count r \<le> CBPF_MAX_EVENTS" using cbpf_run_event_room [of program n] r(1) by auto
  then show ?thesis
    using d r by (simp add: k check_case_def equal_result_same ex met demo_good_def d_print_def Let_def)
qed


subsection \<open>The corpus\<close>

lemma families_expected:
  "list_all (\<lambda>f. case build_case f 0 1 2 3 0 of (p, e) \<Rightarrow> case_expected (Some p) (length p) e) families"
  by code_simp

lemma rename_insn_simps:
  "rename_insn \<rho> \<sigma> (insn CBPF_ACQUIRE d s i) = insn CBPF_ACQUIRE (\<rho> d) s i"
  "rename_insn \<rho> \<sigma> (insn CBPF_COPY d s i) = insn CBPF_COPY (\<rho> d) (\<rho> s) i"
  "rename_insn \<rho> \<sigma> (insn CBPF_SPILL d s i) = insn CBPF_SPILL (\<sigma> d) (\<rho> s) i"
  "rename_insn \<rho> \<sigma> (insn CBPF_RELOAD d s i) = insn CBPF_RELOAD (\<rho> d) (\<sigma> s) i"
  "rename_insn \<rho> \<sigma> (insn CBPF_READ d s i) = insn CBPF_READ (\<rho> d) s i"
  "rename_insn \<rho> \<sigma> (insn CBPF_RELEASE d s i) = insn CBPF_RELEASE (\<rho> d) s i"
  "rename_insn \<rho> \<sigma> (insn CBPF_BR_NULL d s i) = insn CBPF_BR_NULL (\<rho> d) s i"
  "rename_insn \<rho> \<sigma> (insn CBPF_RETURN d s i) = insn CBPF_RETURN d s i"
  by (simp_all add: rename_insn_def insn_def)

lemma build_case_renamed:
  assumes "\<rho> 0 = a" and "\<rho> 1 = b" and "\<rho> 2 = c" and "\<rho> 3 = d" and "\<sigma> 0 = slot"
  shows "build_case f a b c d slot =
    map_prod (map (rename_insn \<rho> \<sigma>)) id (build_case f 0 1 2 3 0)"
  using assms by (cases f) (simp_all add: build_case_def rename_insn_simps Let_def)

lemma case_expected_renamed:
  assumes "permutes_names CBPF_REGS \<rho>" and "permutes_names CBPF_SPILLS \<sigma>"
    and "case_expected (Some p) (length p) e"
  shows "case_expected (Some (map (rename_insn \<rho> \<sigma>) p)) (length (map (rename_insn \<rho> \<sigma>) p)) e"
  using assms(3) rename_run [OF assms(1,2) le_refl, of p] by (simp add: case_expected_def)

lemma build_case_expected:
  assumes regs: "distinct [a, b, c, d]" "\<forall>x \<in> set [a, b, c, d]. unat x < CBPF_REGS"
    and slot: "slot = 0 \<or> slot = 1" and f: "f \<in> set families"
    and p: "build_case f a b c d slot = (p, e)"
  shows "case_expected (Some p) (length p) e"
proof -
  let ?\<rho> = "name_of [a, b, c, d]" and ?\<sigma> = "name_of [slot, 1 - slot]"
  obtain p0 e0 where 0: "build_case f 0 1 2 3 0 = (p0, e0)" by fastforce
  have "permutes_names CBPF_REGS ?\<rho>"
    using regs by (intro permutes_name_of) (simp_all add: layout_simps)
  moreover have "permutes_names CBPF_SPILLS ?\<sigma>"
    using slot by (intro permutes_name_of) (auto simp: layout_simps)
  moreover have "case_expected (Some p0) (length p0) e0"
    using families_expected f 0 by (auto simp: list_all_iff)
  ultimately have "case_expected (Some (map (rename_insn ?\<rho> ?\<sigma>) p0))
      (length (map (rename_insn ?\<rho> ?\<sigma>) p0)) e0"
    by (rule case_expected_renamed)
  moreover have "p = map (rename_insn ?\<rho> ?\<sigma>) p0" "e = e0"
    using build_case_renamed [of ?\<rho> a b c d ?\<sigma> slot f] p 0 by (simp_all add: name_of_def)
  ultimately show ?thesis by simp
qed

definition corpus_good :: "'v platform \<Rightarrow> nat \<Rightarrow> corpus_state \<Rightarrow> bool" where
  "corpus_good P k s \<longleftrightarrow> demo_good P k (k_demo s) \<and> \<not> k_failed s"

lemma corpus_case_passes:
  assumes P: "gate_agrees P" and regs: "distinct [a, b, c, d]" "\<forall>x \<in> set [a, b, c, d]. unat x < CBPF_REGS"
    and "slot < CBPF_SPILLS" "f < length families" and s: "corpus_good P k s"
  shows "\<exists>t. corpus_case P (a, b, c, d) (slot, f) s = Some t \<and> corpus_good P (k + 1) t \<and>
    k_permutations t = k_permutations s"
proof -
  obtain p e where p: "build_case (families ! f) a b c d (of_nat slot) = (p, e)" by fastforce
  have "slot = 0 \<or> slot = 1" using assms(4) by (auto simp: layout_simps)
  then have "case_expected (Some p) (length p) e"
    using assms(5) by (intro build_case_expected [OF regs _ _ p]) auto
  from check_case_passes [OF P this, of k "k_demo s" "family_names ! f"
      "k_permutations s = 1 \<and> slot = 0 \<and> families ! f = STALE_SPILL"]
  show ?thesis using s by (auto simp: corpus_case_def p corpus_good_def)
qed

lemma slot_family_count:
  "length (concat (map (\<lambda>slot. map (Pair slot) [0..<length families]) [0..<CBPF_SPILLS])) = 20"
  by (simp add: layout_simps families_def upt_rec)

lemma corpus_permutation_passes:
  assumes P: "gate_agrees P" and regs: "distinct [a, b, c, d]" "\<forall>x \<in> set [a, b, c, d]. unat x < CBPF_REGS"
    and s: "corpus_good P k s"
  shows "\<exists>t. corpus_permutation P (a, b, c, d) s = Some t \<and> corpus_good P (k + 20) t \<and>
    k_permutations t = k_permutations s + 1"
proof -
  let ?J = "\<lambda>k t. corpus_good P k t \<and> k_permutations t = k_permutations s + 1"
  have "\<exists>t. for_each (concat (map (\<lambda>slot. map (Pair slot) [0..<length families]) [0..<CBPF_SPILLS]))
      (corpus_case P (a, b, c, d)) (s\<lparr>k_permutations := k_permutations s + 1\<rparr>) = Some t \<and>
      ?J (k + 1 * 20) t"
    unfolding slot_family_count [symmetric]
  proof (rule for_each_count)
    show "?J k (s\<lparr>k_permutations := k_permutations s + 1\<rparr>)" using s by (simp add: corpus_good_def)
  next
    fix x k t
    assume "x \<in> set (concat (map (\<lambda>slot. map (Pair slot) [0..<length families]) [0..<CBPF_SPILLS]))"
      and t: "?J k t"
    then obtain slot f where "x = (slot, f)" "slot < CBPF_SPILLS" "f < length families" by auto
    then show "\<exists>u. corpus_case P (a, b, c, d) x t = Some u \<and> ?J (k + 1) u"
      using corpus_case_passes [OF P regs, of slot f k t] t by auto
  qed
  then show ?thesis using regs(1) by (simp add: corpus_permutation_def)
qed

fun different :: "u32 \<times> u32 \<times> u32 \<times> u32 \<Rightarrow> bool" where
  "different (a, b, c, d) = distinct [a, b, c, d]"

fun registers :: "u32 \<times> u32 \<times> u32 \<times> u32 \<Rightarrow> bool" where
  "registers (a, b, c, d) = (\<forall>x \<in> set [a, b, c, d]. unat x < CBPF_REGS)"

lemma corpus_skip:
  "\<not> distinct [a, b, c, d] \<Longrightarrow> corpus_permutation P (a, b, c, d) s = Some s"
  by (auto simp: corpus_permutation_def)

lemma register_choices_small:
  "list_all registers register_choices"
  by code_simp

lemma register_permutations:
  "length (filter different register_choices) = 24"
  by code_simp

lemma corpus_permutations_pass:
  assumes P: "gate_agrees P"
    and "list_all registers rs"
    and "corpus_good P k s"
  shows "\<exists>t. for_each rs (corpus_permutation P) s = Some t \<and>
    corpus_good P (k + 20 * length (filter different rs)) t \<and>
    k_permutations t = k_permutations s + length (filter different rs)"
  using assms(2,3)
proof (induction rs arbitrary: k s)
  case (Cons r rs)
  obtain a b c d where r: "r = (a, b, c, d)" by (cases r)
  show ?case
  proof (cases "different r")
    case False
    then have "corpus_permutation P r s = Some s" using corpus_skip [of a b c d P s] by (simp add: r)
    then show ?thesis using Cons False by (simp del: different.simps registers.simps)
  next
    case True
    have "registers r" using Cons.prems(1) by simp
    then obtain t where t: "corpus_permutation P r s = Some t" "corpus_good P (k + 20) t"
      "k_permutations t = k_permutations s + 1"
      using corpus_permutation_passes [OF P _ _ Cons.prems(2), of a b c d] True
      by (auto simp: r simp del: distinct.simps list.set)
    with Cons.IH [of "k + 20" t] Cons.prems(1) True show ?thesis
      by (simp add: add.assoc add.commute del: different.simps registers.simps)
  qed
qed simp

lemma corpus_passes:
  assumes P: "gate_agrees P" and d: "demo_good P 0 d"
  shows "\<exists>t. corpus P d = Some (t, False) \<and> demo_good P 480 t"
proof -
  have "corpus_good P 0 \<lparr>k_demo = d, k_failed = False, k_permutations = 0,
      k_family_failures = replicate (length families) 0\<rparr>"
    using d by (simp add: corpus_good_def)
  from corpus_permutations_pass [OF P register_choices_small this]
  show ?thesis
    by (auto simp: corpus_def register_permutations corpus_good_def demo_good_print)
qed

subsection \<open>The boundary programs\<close>

lemma oversized_expected:
  "case_expected (Some junk) (CBPF_MAX_INSNS + 1) e = case_expected (Some []) (CBPF_MAX_INSNS + 1) e"
  by (simp add: case_expected_def cbpf_run_def cbpf_validate_def)

fun boundary_expected :: "string \<times> cbpf_insn list option \<times> nat \<times> expectation \<Rightarrow> bool" where
  "boundary_expected (name, program, n, e) = case_expected program n e"

lemma boundary_start: "list_all boundary_expected (boundary_cases [])"
  by code_simp

lemma boundaries_expected: "list_all boundary_expected (boundary_cases junk)"
  using boundary_start
  by (simp only: boundary_cases_def Let_def list_all_append list.pred_inject boundary_expected.simps
      oversized_expected [of junk])

lemma boundary_count: "length (boundary_cases junk) = 14"
  by (simp add: boundary_cases_def malformed_def Let_def)

lemma boundaries_pass:
  assumes P: "gate_agrees P" and d: "demo_good P k d"
  shows "\<exists>t. boundaries P junk d = Some (t, False) \<and> demo_good P (k + 14) t"
proof -
  let ?J = "\<lambda>k s. demo_good P k (fst s) \<and> \<not> snd s"
  have "\<exists>t. for_each (boundary_cases junk) (boundary_case P) (d, False) = Some t \<and>
      ?J (k + 1 * length (boundary_cases junk)) t"
  proof (rule for_each_count)
    show "?J k (d, False)" using d by simp
  next
    fix c k s
    assume c: "c \<in> set (boundary_cases junk)" and s: "?J k (s :: gate_demo \<times> bool)"
    obtain name program n e where c': "c = (name, program, n, e)" by (cases c)
    then have "case_expected program n e"
      using boundaries_expected [of junk] c by (auto simp: list_all_iff)
    then show "\<exists>t. boundary_case P c s = Some t \<and> ?J (k + 1) t"
      using check_case_passes [OF P, of program n e k "fst s" name False] s
      by (auto simp: c' boundary_case_def)
  qed
  then show ?thesis
    by (auto simp: boundaries_def boundary_count demo_good_print)
qed

subsection \<open>The demonstration\<close>

lemma gate_demo_passes:
  assumes P: "gate_agrees P" and live: "direct_representation_ok P live"
  shows "\<exists>d out. gate_demo_main P live junk = Some (d, 0) \<and> d_cases d = 494 \<and> d_matched d = 494 \<and>
    d_err d = '''' \<and> d_out d = out @ ''CBPF_GATE result=PASS'' @ NL"
proof -
  let ?d0 = "d_print (''CBPF_GATE scope=validated_IR isolation=0 kfunc=0 jit=0'' @ NL @
      ''CBPF_GATE backend='' @ (if is_purecap P then ''cheri'' else ''software'') @ NL) gate_demo_start"
  have "demo_good P 0 ?d0"
    unfolding demo_good_print by (simp add: demo_good_def gate_demo_start_def)
  then obtain d1 where 1: "corpus P ?d0 = Some (d1, False)" "demo_good P 480 d1"
    using corpus_passes [OF P] by blast
  obtain d2 where 2: "boundaries P junk d1 = Some (d2, False)" "demo_good P 494 d2"
    using boundaries_pass [OF P 1(2)] by fastforce
  obtain d3 where 3: "direct_object_baseline P live d2 = (d3, False)" "demo_good P 494 d3"
    using live 2(2) by (simp add: direct_object_baseline_def demo_good_print)
  show ?thesis
    using 1(1) 2(1) 3 by (simp add: gate_demo_main_def demo_good_def d_print_def)
qed

lemma host_gate_agrees: "gate_agrees host_platform"
  using total_gate_run [OF host_gate.gate_platform_axioms] host_prepares
  by (simp add: gate_agrees_def host_platform_def)

text \<open>
  The demonstration of the gate succeeds in the host build: \<open>main\<close> returns 0 after 494
  cases that all match, ten program families under each of the 24 permutations of the
  registers and both slots and 14 boundary programs. In each, the gate's result equals the
  reference machine's in every field and event, both are the direct expectation, and the
  metrics count the attempts; nothing is reported on \<open>stderr\<close>. What the uninitialised
  array holds does not matter.
\<close>

theorem host_demo_passes:
  "\<exists>d out. gate_demo_main host_platform live junk = Some (d, 0) \<and>
     d_cases d = 494 \<and> d_matched d = 494 \<and> d_err d = '''' \<and>
     d_out d = out @ ''CBPF_GATE result=PASS'' @ NL"
  by (rule gate_demo_passes [OF host_gate_agrees])
    (simp add: direct_representation_ok_def host_platform_def)

text \<open>
  C23. The same in the purecap build, on any capability machine that keeps \<open>cheri_laws\<close>
  and can represent both cells and the live object with exact bounds.
\<close>

theorem purecap_demo_passes:
  assumes "purecap_platform C P" and "\<And>i. i < CBPF_CELLS \<Longrightarrow> prepare_view P (pf_cell P i) \<noteq> None"
    and "pf_sizeof_cell P \<noteq> 0" and "direct_representation_ok P live"
  shows "\<exists>d out. gate_demo_main P live junk = Some (d, 0) \<and>
     d_cases d = 494 \<and> d_matched d = 494 \<and> d_err d = '''' \<and>
     d_out d = out @ ''CBPF_GATE result=PASS'' @ NL"
proof (rule gate_demo_passes [OF _ assms(4)])
  show "gate_agrees P"
    using total_gate_run [OF purecap_gate_platform [OF assms(1)] assms(2)] assms(3)
    by (simp add: gate_agrees_def)
qed

lemma sample_cells_prepared:
  "i < CBPF_CELLS \<Longrightarrow> prepare_view (sample_platform 0) (pf_cell (sample_platform 0) i) \<noteq> None"
proof -
  have "list_all (\<lambda>i. prepare_view (sample_platform 0) (pf_cell (sample_platform 0) i) \<noteq> None) [0..<CBPF_CELLS]"
    by code_simp
  then show "i < CBPF_CELLS \<Longrightarrow> prepare_view (sample_platform 0) (pf_cell (sample_platform 0) i) \<noteq> None"
    by (simp add: list_all_iff del: not_None_eq)
qed

theorem purecap_demo_passes_witness:
  "\<exists>d. gate_demo_main (sample_platform 0) (sample_cap 0x200 4) [] = Some (d, 0) \<and> d_matched d = 494"
proof -
  have "pf_sizeof_cell (sample_platform 0) \<noteq> 0" by (simp add: sample_platform_def)
  moreover have "direct_representation_ok (sample_platform 0) (sample_cap 0x200 4)" by code_simp
  ultimately show ?thesis
    using purecap_demo_passes [OF sample_purecap sample_cells_prepared] by blast
qed

end
