(* ===== verification/Bridge.thy ===== *)
theory Bridge
  imports GateProps
begin

text \<open>
  The adapter of the conformance tests, \<open>src/tools/conformance_bridge.c\<close>: programs and
  results as flat arrays of 64-bit words. An array parameter is the list of its words. The
  functions return the number of words they report and the output array after the call;
  \<open>CBPF_CONFORMANCE_GATE\<close> selects the machine at build time.
\<close>

type_synonym words = "u64 list"

subsection \<open>The C integers of the enumerations\<close>

definition opcodes :: "cbpf_opcode list" where
  "opcodes = [CBPF_ACQUIRE, CBPF_COPY, CBPF_SPILL, CBPF_RELOAD, CBPF_READ, CBPF_RELEASE,
              CBPF_BR_NULL, CBPF_RETURN]"

definition CBPF_OPCODE_COUNT :: nat where "CBPF_OPCODE_COUNT = length opcodes"

definition UINT_MAX :: int where "UINT_MAX = 2 ^ 32 - 1"

fun opcode_code :: "cbpf_opcode \<Rightarrow> u64" where
  "opcode_code CBPF_ACQUIRE = 0"
| "opcode_code CBPF_COPY = 1"
| "opcode_code CBPF_SPILL = 2"
| "opcode_code CBPF_RELOAD = 3"
| "opcode_code CBPF_READ = 4"
| "opcode_code CBPF_RELEASE = 5"
| "opcode_code CBPF_BR_NULL = 6"
| "opcode_code CBPF_RETURN = 7"
| "opcode_code (CBPF_OTHER v) = ucast v"

fun status_code :: "cbpf_status \<Rightarrow> u64" where
  "status_code CBPF_RETURNED = 0"
| "status_code CBPF_TRAPPED = 1"
| "status_code CBPF_INVALID = 2"

fun trap_code :: "cbpf_trap \<Rightarrow> u64" where
  "trap_code CBPF_NO_TRAP = 0"
| "trap_code CBPF_NULL = 1"
| "trap_code CBPF_STALE = 2"
| "trap_code CBPF_EXHAUSTED = 3"

fun kind_code :: "cbpf_event_kind \<Rightarrow> u64" where
  "kind_code CBPF_STEP = 0"
| "kind_code CBPF_TRAP_EVENT = 1"
| "kind_code CBPF_CLEANUP = 2"

subsection \<open>The functions\<close>

text \<open>The array \<open>output\<close> after the words \<open>ws\<close> were stored from its start.\<close>

definition write_words :: "words \<Rightarrow> words \<Rightarrow> words" where
  "write_words output ws = ws @ drop (length ws) output"

definition conformance_info :: "bool \<Rightarrow> words" where
  "conformance_info gate =
     [of_nat CBPF_REGS, of_nat CBPF_SPILLS, of_nat CBPF_CELLS, of_nat CBPF_MAX_INSNS,
      of_nat CBPF_MAX_EVENTS] @
     map opcode_code opcodes @
     map status_code [CBPF_RETURNED, CBPF_TRAPPED, CBPF_INVALID] @
     map trap_code [CBPF_NO_TRAP, CBPF_NULL, CBPF_STALE, CBPF_EXHAUSTED] @
     map kind_code [CBPF_STEP, CBPF_TRAP_EVENT, CBPF_CLEANUP] @ [if gate then 1 else 0]"

definition cbpf_conformance_info :: "bool \<Rightarrow> words \<Rightarrow> nat \<Rightarrow> nat \<times> words" where
  "cbpf_conformance_info gate out capacity =
     (let n = length (conformance_info gate)
      in (n, if capacity \<ge> n then write_words out (conformance_info gate) else out))"

text \<open>The body of the input loop: the instruction, or the return value 0.\<close>

definition read_insn :: "words \<Rightarrow> nat \<Rightarrow> cbpf_insn option" where
  "read_insn input i =
     (let x = \<lambda>k. input ! (4 * i + k)
      in if sint (x 0) < 0 \<or> sint (x 0) \<ge> int CBPF_OPCODE_COUNT \<or>
            sint (x 1) < 0 \<or> sint (x 1) > UINT_MAX \<or>
            sint (x 2) < 0 \<or> sint (x 2) > UINT_MAX
         then None
         else Some \<lparr>x_op = opcodes ! unat (x 0), x_dst = ucast (x 1), x_src = ucast (x 2),
                    x_imm = x 3\<rparr>)"

definition event_words :: "cbpf_event \<Rightarrow> words" where
  "event_words e =
     [kind_code (e_kind e), opcode_code (e_op e), of_nat (e_pc e), of_nat (e_token e),
      of_int (e_object_refs e)]"

definition result_words :: "cbpf_result \<Rightarrow> words" where
  "result_words r =
     [status_code (r_status r), trap_code (r_trap r), of_nat (r_pc r), r_returned r,
      of_nat (r_acquired r), of_nat (r_reads r), of_nat (r_explicit_releases r),
      of_nat (r_cleanup_releases r), of_int (r_last_read r), of_int (r_object_refs r)] @
     map (\<lambda>i. of_nat (r_explicit_by_cell r ! i)) [0..<CBPF_CELLS] @
     map (\<lambda>i. of_nat (r_cleanup_by_cell r ! i)) [0..<CBPF_CELLS] @
     [of_nat (r_event_count r)] @
     concat (map (\<lambda>i. event_words (r_events r ! i)) [0..<r_event_count r])"

definition run_machine ::
    "'v platform \<Rightarrow> bool \<Rightarrow> cbpf_insn list \<Rightarrow> nat \<Rightarrow> cbpf_result option" where
  "run_machine P gate program count =
     (if gate then map_option fst (cbpf_gate_run P (Some program) count)
      else cbpf_run (Some program) count)"

text \<open>
  The local array \<open>program\<close> is the list of its first \<open>count\<close> entries, the only ones a run
  reads. The outer option is that of the run, which returns.
\<close>

definition cbpf_conformance_run ::
    "'v platform \<Rightarrow> bool \<Rightarrow> words \<Rightarrow> nat \<Rightarrow> words \<Rightarrow> nat \<Rightarrow> (nat \<times> words) option" where
  "cbpf_conformance_run P gate input count output capacity =
     (if count > CBPF_MAX_INSNS \<or> capacity < 11 + 2 * CBPF_CELLS + 5 * CBPF_MAX_EVENTS
      then Some (0, output)
      else case those (map (read_insn input) [0..<count]) of
        None \<Rightarrow> Some (0, output)
      | Some program \<Rightarrow>
          (case run_machine P gate program count of
             None \<Rightarrow> None
           | Some r \<Rightarrow>
               if r_event_count r > CBPF_MAX_EVENTS then Some (0, output)
               else Some (length (result_words r), write_words output (result_words r))))"

subsection \<open>The words of a program and of a result\<close>

text \<open>A program as the test harness writes it.\<close>

definition insn_words :: "cbpf_insn \<Rightarrow> words" where
  "insn_words x = [opcode_code (x_op x), ucast (x_dst x), ucast (x_src x), x_imm x]"

definition program_words :: "cbpf_insn list \<Rightarrow> words" where
  "program_words p = concat (map insn_words p)"

text \<open>How the harness reads a result back.\<close>

definition read_event :: "words \<Rightarrow> cbpf_event" where
  "read_event ws =
     \<lparr>e_kind = [CBPF_STEP, CBPF_TRAP_EVENT, CBPF_CLEANUP] ! unat (ws ! 0),
      e_op = opcodes ! unat (ws ! 1), e_pc = unat (ws ! 2), e_token = unat (ws ! 3),
      e_object_refs = sint (ws ! 4)\<rparr>"

fun read_events :: "nat \<Rightarrow> words \<Rightarrow> cbpf_event list" where
  "read_events 0 ws = []"
| "read_events (Suc n) ws = read_event (take 5 ws) # read_events n (drop 5 ws)"

definition read_result :: "words \<Rightarrow> cbpf_result" where
  "read_result ws =
     \<lparr>r_status = [CBPF_RETURNED, CBPF_TRAPPED, CBPF_INVALID] ! unat (ws ! 0),
      r_trap = [CBPF_NO_TRAP, CBPF_NULL, CBPF_STALE, CBPF_EXHAUSTED] ! unat (ws ! 1),
      r_pc = unat (ws ! 2), r_returned = ws ! 3, r_acquired = unat (ws ! 4),
      r_reads = unat (ws ! 5), r_explicit_releases = unat (ws ! 6),
      r_cleanup_releases = unat (ws ! 7), r_last_read = sint (ws ! 8),
      r_object_refs = sint (ws ! 9),
      r_explicit_by_cell = map unat (take CBPF_CELLS (drop 10 ws)),
      r_cleanup_by_cell = map unat (take CBPF_CELLS (drop (10 + CBPF_CELLS) ws)),
      r_event_count = unat (ws ! (10 + 2 * CBPF_CELLS)),
      r_events = read_events (unat (ws ! (10 + 2 * CBPF_CELLS))) (drop (11 + 2 * CBPF_CELLS) ws)\<rparr>"

subsection \<open>Reading a program back\<close>

definition named_op :: "cbpf_opcode \<Rightarrow> bool" where
  "named_op op \<longleftrightarrow> op \<in> set opcodes"

lemma opcode_code_nth: "named_op op \<Longrightarrow> unat (opcode_code op) < CBPF_OPCODE_COUNT"
  "named_op op \<Longrightarrow> opcodes ! unat (opcode_code op) = op"
  by (cases op; simp add: named_op_def opcodes_def CBPF_OPCODE_COUNT_def)+

lemma small_sint:
  fixes w :: u64
  assumes "unat w < 2 ^ 63"
  shows "sint w = int (unat w)"
proof -
  have "int (unat w) < int (2 ^ 63)" using assms by (simp only: of_nat_less_iff)
  then have "0 \<le> uint w" "uint w < 2 ^ 63" by simp_all
  moreover have "sint w = (uint w + 2 ^ 63) mod 2 ^ 64 - 2 ^ 63"
    by (simp add: sint_uint signed_take_bit_eq_take_bit_shift take_bit_eq_mod)
  moreover have "(uint w + 2 ^ 63) mod 2 ^ 64 = uint w + 2 ^ 63"
    using calculation by (intro mod_pos_pos_trivial) simp_all
  ultimately show ?thesis by simp
qed

lemma ucast_u32:
  fixes w :: u32
  shows "unat (ucast w :: u64) = unat w" and "ucast (ucast w :: u64) = w"
proof -
  show u: "unat (ucast w :: u64) = unat w"
    using unsigned_less [of w, where ?'a = nat]
    by (simp add: unsigned_ucast_eq take_bit_nat_eq_self)
  show "ucast (ucast w :: u64) = w"
    by (rule ucast_up_ucast_id) (simp add: is_up)
qed

lemma program_words_nth:
  "i < length p \<Longrightarrow> k < 4 \<Longrightarrow> program_words p ! (4 * i + k) = insn_words (p ! i) ! k"
proof (induction p arbitrary: i)
  case (Cons x p)
  have len: "length (insn_words x) = 4" by (simp add: insn_words_def)
  show ?case
  proof (cases i)
    case 0
    then show ?thesis using Cons.prems len by (simp add: program_words_def nth_append)
  next
    case (Suc j)
    then have "program_words (x # p) ! (4 * i + k) = program_words p ! (4 * j + k)"
      using len by (simp add: program_words_def nth_append)
    then show ?thesis using Cons Suc by simp
  qed
qed simp

lemma read_insn_words:
  assumes "i < length p" and "named_op (x_op (p ! i))"
  shows "read_insn (program_words p) i = Some (p ! i)"
proof -
  let ?x = "p ! i"
  have w: "program_words p ! (4 * i + 0) = opcode_code (x_op ?x)"
    "program_words p ! (4 * i + 1) = ucast (x_dst ?x)"
    "program_words p ! (4 * i + 2) = ucast (x_src ?x)"
    "program_words p ! (4 * i + 3) = x_imm ?x"
    using program_words_nth [OF assms(1)] by (simp_all only: insn_words_def) simp_all
  have op: "sint (opcode_code (x_op ?x)) = int (unat (opcode_code (x_op ?x)))"
    using opcode_code_nth(1) [OF assms(2)]
    by (intro small_sint) (simp add: CBPF_OPCODE_COUNT_def opcodes_def)
  have "uint (x_dst ?x) < 2 ^ 32" "uint (x_src ?x) < 2 ^ 32"
    using uint_lt2p [of "x_dst ?x"] uint_lt2p [of "x_src ?x"] by simp_all
  moreover have "unat (x_dst ?x) < 2 ^ 63" "unat (x_src ?x) < 2 ^ 63"
    using unsigned_less [of "x_dst ?x", where ?'a = nat] unsigned_less [of "x_src ?x", where ?'a = nat]
    by simp_all
  then have "sint (ucast (x_dst ?x) :: u64) = uint (x_dst ?x)"
    "sint (ucast (x_src ?x) :: u64) = uint (x_src ?x)"
    by (simp_all add: small_sint ucast_u32)
  moreover have "int (unat (opcode_code (x_op ?x))) < int CBPF_OPCODE_COUNT"
    using opcode_code_nth(1) [OF assms(2)] by (simp only: of_nat_less_iff)
  ultimately show ?thesis
    using opcode_code_nth(2) [OF assms(2)] op
    by (simp add: read_insn_def Let_def w [simplified] w(1) [unfolded add_0_right] UINT_MAX_def ucast_u32)
qed

lemma those_Some: "(\<And>x. x \<in> set xs \<Longrightarrow> f x = Some (g x)) \<Longrightarrow> those (map f xs) = Some (map g xs)"
  by (induction xs) auto

lemma read_program_words:
  assumes "\<forall>x \<in> set p. named_op (x_op x)"
  shows "those (map (read_insn (program_words p)) [0..<length p]) = Some p"
proof -
  have "those (map (read_insn (program_words p)) [0..<length p]) = Some (map (nth p) [0..<length p])"
    using assms by (intro those_Some read_insn_words) auto
  then show ?thesis by (simp add: map_nth)
qed

subsection \<open>Reading a result back\<close>

definition event_fits :: "cbpf_event \<Rightarrow> bool" where
  "event_fits e \<longleftrightarrow> named_op (e_op e) \<and> e_pc e < 2 ^ 63 \<and> e_token e < 2 ^ 63 \<and>
     0 \<le> e_object_refs e \<and> e_object_refs e < 2 ^ 63"

definition result_fits :: "cbpf_result \<Rightarrow> bool" where
  "result_fits r \<longleftrightarrow>
     list_all (\<lambda>k. k < 2 ^ 63)
       ([r_pc r, r_acquired r, r_reads r, r_explicit_releases r, r_cleanup_releases r,
         r_event_count r] @ r_explicit_by_cell r @ r_cleanup_by_cell r) \<and>
     0 \<le> r_last_read r \<and> r_last_read r < 2 ^ 63 \<and> 0 \<le> r_object_refs r \<and> r_object_refs r < 2 ^ 63 \<and>
     length (r_explicit_by_cell r) = CBPF_CELLS \<and> length (r_cleanup_by_cell r) = CBPF_CELLS \<and>
     r_event_count r \<le> length (r_events r) \<and>
     list_all event_fits (take (r_event_count r) (r_events r))"

lemma unat_word: "k < 2 ^ 63 \<Longrightarrow> unat (of_nat k :: u64) = k"
  by (simp add: unat_of_nat)

lemma sint_word:
  assumes "0 \<le> i" and "i < 2 ^ 63"
  shows "sint (of_int i :: u64) = i"
proof -
  have "unat (of_nat (nat i) :: u64) = nat i" using assms by (intro unat_word) (simp add: nat_less_iff)
  then have "sint (of_nat (nat i) :: u64) = int (nat i)"
    using assms by (subst small_sint) (simp_all add: nat_less_iff)
  then show ?thesis using assms(1) by simp
qed

lemma read_event_words: "event_fits e \<Longrightarrow> read_event (event_words e) = e"
  using opcode_code_nth(2) [of "e_op e"]
  by (cases "e_kind e")
    (simp_all add: read_event_def event_words_def event_fits_def unat_word sint_word)

lemma read_events_words:
  "list_all event_fits es \<Longrightarrow> read_events (length es) (concat (map event_words es) @ rest) = es"
proof (induction es)
  case (Cons e es)
  have len: "length (event_words e) = 5" by (simp add: event_words_def)
  have "concat (map event_words (e # es)) @ rest = event_words e @ concat (map event_words es) @ rest"
    by simp
  with Cons len show ?case
    by (simp add: read_event_words del: concat.simps list.map append_assoc)
qed simp

lemma trace_nth:
  "n \<le> length es \<Longrightarrow> map (\<lambda>i. f (es ! i)) [0..<n] = map f (take n es)"
  by (rule nth_equalityI) simp_all

lemma read_result_words:
  assumes "result_fits r"
  shows "read_result (result_words r @ rest) = r\<lparr>r_events := take (r_event_count r) (r_events r)\<rparr>"
proof -
  let ?es = "take (r_event_count r) (r_events r)"
  have cells: "[0..<2] = [0, 1 :: nat]" by code_simp
  have es: "concat (map (\<lambda>i. event_words (r_events r ! i)) [0..<r_event_count r]) =
      concat (map event_words ?es)" "length ?es = r_event_count r"
    using assms by (simp_all add: result_fits_def trace_nth)
  obtain a b where ab: "r_explicit_by_cell r = [a, b]"
    using assms two_cells [of "r_explicit_by_cell r"] by (auto simp: result_fits_def)
  obtain c d where cd: "r_cleanup_by_cell r = [c, d]"
    using assms two_cells [of "r_cleanup_by_cell r"] by (auto simp: result_fits_def)
  have "read_events (r_event_count r) (concat (map event_words ?es) @ rest) = ?es"
    using read_events_words [of ?es rest] es(2) assms by (simp add: result_fits_def)
  moreover have "[CBPF_RETURNED, CBPF_TRAPPED, CBPF_INVALID] ! unat (status_code (r_status r)) = r_status r"
    by (cases "r_status r") simp_all
  moreover have "[CBPF_NO_TRAP, CBPF_NULL, CBPF_STALE, CBPF_EXHAUSTED] ! unat (trap_code (r_trap r)) = r_trap r"
    by (cases "r_trap r") simp_all
  ultimately show ?thesis
    using assms
    by (simp add: read_result_def result_words_def es(1) ab cd layout_simps unat_word sint_word
        result_fits_def cells)
qed

lemma result_words_length:
  "length (result_words r) = 11 + 2 * CBPF_CELLS + 5 * r_event_count r"
  by (simp add: result_words_def event_words_def length_concat o_def sum_list_triv)

subsection \<open>Results of runs\<close>

lemma valid_named: "cbpf_insn_valid n i x \<Longrightarrow> named_op (x_op x)"
  by (cases "x_op x") (simp_all add: cbpf_insn_valid_def named_op_def opcodes_def)

lemma trace_named:
  assumes ok: "cbpf_program_ok p n" and r: "run_describes p n r" and e: "e \<in> set (trace r)"
  shows "named_op (e_op e) \<and> e_pc e < n"
proof -
  obtain ss t cs where tr: "trace r = ss @ t # cs" "steps_of p ss"
    "\<forall>e \<in> set ss. e_pc e < e_pc t" "last_event_ok p r t" "cleanup_events (r_pc r) cs"
    using r by (auto simp: run_describes_def run_trace_shape_def)
  have pc: "r_pc r < n" "e_pc t = r_pc r" using r tr(4) by (simp_all add: run_describes_def last_event_ok_def)
  have at: "named_op (x_op (p ! k))" if "k < n" for k
    using ok that valid_named by (auto simp: cbpf_program_ok_def)
  consider "e \<in> set ss" | "e = t" | "e \<in> set cs" using e tr(1) by auto
  then show ?thesis
  proof cases
    case 1
    then have "e_pc e < n" "e_op e = x_op (p ! e_pc e)"
      using tr(2,3) pc by (fastforce simp: steps_of_def)+
    then show ?thesis using at by simp
  next
    case 2
    then show ?thesis using at pc tr(4) by (simp add: last_event_ok_def)
  next
    case 3
    then show ?thesis using tr(5) pc(1) by (auto simp: cleanup_events_def named_op_def opcodes_def)
  qed
qed

lemma run_fits:
  assumes "n \<le> CBPF_MAX_INSNS"
  shows "\<exists>r. cbpf_run (Some p) n = Some r \<and> result_fits r \<and> r_event_count r \<le> CBPF_MAX_EVENTS"
proof (cases rule: cbpf_run_cases [of "Some p" n])
  case (invalid bad)
  have "bad < 2 ^ 63"
    using cbpf_validate_Inl [OF invalid(1)] invalid(1) assms
    by (cases "n = 0") (auto simp: cbpf_validate_def layout_simps)
  then show ?thesis
    using invalid(2) by (auto simp: refused_def result_fits_def zero_result_def layout_simps list_all_iff)
next
  case (valid q r)
  have r: "cbpf_run (Some p) n = Some r" "run_describes p n r" and ok: "cbpf_program_ok p n"
    using valid by auto
  have reads: "r_reads r \<le> CBPF_MAX_INSNS" using run_reads [of "Some p" n] r(1) by auto
  have events: "length (r_events r) = CBPF_MAX_EVENTS" "r_event_count r \<le> CBPF_MAX_EVENTS"
    using cbpf_run_event_room [of "Some p" n] r(1) by auto
  have rep: "replay own_init (trace r) = Some (result_own r)"
    using r(2) by (simp add: run_describes_def)
  have cells: "r_explicit_releases r + r_cleanup_releases r \<le> CBPF_CELLS"
    "r_explicit_releases r = sum_list (r_explicit_by_cell r)"
    "r_cleanup_releases r = sum_list (r_cleanup_by_cell r)"
    "length (r_explicit_by_cell r) = CBPF_CELLS" "length (r_cleanup_by_cell r) = CBPF_CELLS"
    using describes_totals [OF r(2)] r(2) by (simp_all add: run_describes_def)
  have by_cell: "k < 2 ^ 63" if "k \<in> set (r_explicit_by_cell r) \<or> k \<in> set (r_cleanup_by_cell r)" for k
    using that cells member_le_sum_list [of k "r_explicit_by_cell r"]
      member_le_sum_list [of k "r_cleanup_by_cell r"] by (auto simp: layout_simps)
  have "\<forall>e \<in> set (trace r). event_fits e"
    using trace_named [OF ok r(2)] replay_event_bounds [OF rep own_inv_init] assms
    by (fastforce simp: event_fits_def layout_simps)
  moreover have "r_last_read r = 0 \<or> r_last_read r = 42"
    using r(2) by (auto simp: run_describes_def read_value_ok_def)
  moreover have "r_pc r < n" using r(2) by (simp add: run_describes_def)
  ultimately have "result_fits r"
    using describes_totals [OF r(2)] cells events reads assms
    by (auto simp: result_fits_def list_all_iff trace_def layout_simps intro!: by_cell [simplified])
  then show ?thesis using r(1) events(2) by simp
qed

lemma run_machine_host: "run_machine host_platform gate p n = cbpf_run (Some p) n"
  using total_gate_run [OF host_gate.gate_platform_axioms, of "Some p" n] host_prepares
  by (auto simp: run_machine_def)

subsection \<open>Properties\<close>

definition conformance_capacity :: nat where
  "conformance_capacity = 11 + 2 * CBPF_CELLS + 5 * CBPF_MAX_EVENTS"

text \<open>
  C25. The adapter transports programs and results without loss, for both builds: given the
  words of a program and an output array of at least 345 words, it returns the number of
  words written, which fits the array and leaves the rest of it unchanged, and reading the
  words back yields the result of the reference machine on that program: every field and
  every recorded event.
\<close>

theorem conformance_roundtrip:
  assumes "length p \<le> CBPF_MAX_INSNS" and "\<forall>x \<in> set p. named_op (x_op x)"
    and "conformance_capacity \<le> length output"
  shows "\<exists>r used out. cbpf_run (Some p) (length p) = Some r \<and>
     cbpf_conformance_run host_platform gate (program_words p) (length p) output (length output) =
       Some (used, out) \<and>
     used \<le> length output \<and> length out = length output \<and> drop used out = drop used output \<and>
     read_result out = r\<lparr>r_events := take (r_event_count r) (r_events r)\<rparr>"
proof -
  obtain r where r: "cbpf_run (Some p) (length p) = Some r" "result_fits r"
    "r_event_count r \<le> CBPF_MAX_EVENTS"
    using run_fits [OF assms(1)] by blast
  let ?ws = "result_words r"
  have fits: "length ?ws \<le> length output"
    using assms(3) r(3) by (simp add: result_words_length conformance_capacity_def)
  have "cbpf_conformance_run host_platform gate (program_words p) (length p) output (length output) =
      Some (length ?ws, write_words output ?ws)"
    using assms r read_program_words [OF assms(2)]
    by (simp add: cbpf_conformance_run_def run_machine_host conformance_capacity_def)
  moreover have "read_result (write_words output ?ws) =
      r\<lparr>r_events := take (r_event_count r) (r_events r)\<rparr>"
    unfolding write_words_def by (rule read_result_words [OF r(2)])
  ultimately show ?thesis using r(1) fits by (auto simp: write_words_def)
qed

lemma conformance_roundtrip_witness:
  "\<exists>r used out. cbpf_run (Some stale_a_live_b) (length stale_a_live_b) = Some r \<and>
     cbpf_conformance_run host_platform True (program_words stale_a_live_b) (length stale_a_live_b)
       (replicate 400 7) (length (replicate 400 (7 :: u64))) = Some (used, out) \<and>
     read_result out = r\<lparr>r_events := take (r_event_count r) (r_events r)\<rparr>"
proof -
  have "length stale_a_live_b \<le> CBPF_MAX_INSNS" "\<forall>x \<in> set stale_a_live_b. named_op (x_op x)"
    by code_simp+
  moreover have "conformance_capacity \<le> length (replicate 400 (7 :: u64))"
    by (simp add: conformance_capacity_def layout_simps)
  ultimately show ?thesis using conformance_roundtrip by blast
qed

definition insn_words_ok :: "words \<Rightarrow> nat \<Rightarrow> bool" where
  "insn_words_ok input i \<longleftrightarrow>
     (let x = \<lambda>k. sint (input ! (4 * i + k))
      in 0 \<le> x 0 \<and> x 0 < 8 \<and> 0 \<le> x 1 \<and> x 1 < 2 ^ 32 \<and> 0 \<le> x 2 \<and> x 2 < 2 ^ 32)"

lemma read_insn_None: "read_insn input i = None \<longleftrightarrow> \<not> insn_words_ok input i"
  by (auto simp: read_insn_def insn_words_ok_def CBPF_OPCODE_COUNT_def opcodes_def UINT_MAX_def Let_def)

lemma those_None: "those xs = None \<longleftrightarrow> None \<in> set xs"
  by (induction xs) (auto split: option.splits)

text \<open>
  C24. The adapter refuses exactly what it cannot transport: it returns 0, with the output
  array untouched, if and only if there are more than 64 instructions, the array is shorter
  than 345 words, or some instruction's opcode or operands are out of the range of their C
  types. Otherwise at least 15 words are written.
\<close>

theorem conformance_refusal:
  "\<exists>used out. cbpf_conformance_run host_platform gate input n output capacity = Some (used, out) \<and>
     (used = 0 \<longleftrightarrow> n > CBPF_MAX_INSNS \<or> capacity < conformance_capacity \<or>
        \<not> (\<forall>i < n. insn_words_ok input i)) \<and>
     (used = 0 \<longrightarrow> out = output) \<and> (used \<noteq> 0 \<longrightarrow> 15 \<le> used \<and> used \<le> conformance_capacity)"
proof (cases "n > CBPF_MAX_INSNS \<or> capacity < conformance_capacity")
  case True
  then show ?thesis by (auto simp: cbpf_conformance_run_def conformance_capacity_def)
next
  case False
  show ?thesis
  proof (cases "those (map (read_insn input) [0..<n])")
    case None
    then have "\<exists>i < n. \<not> insn_words_ok input i"
      by (auto simp: those_None image_iff read_insn_None eq_commute [of None])
    then show ?thesis
      using False None by (auto simp: cbpf_conformance_run_def conformance_capacity_def)
  next
    case (Some p)
    then have "\<forall>i < n. insn_words_ok input i"
      using those_None [of "map (read_insn input) [0..<n]"]
      by (auto simp: image_iff read_insn_None eq_commute [of None])
    moreover obtain r where "cbpf_run (Some p) n = Some r" "r_event_count r \<le> CBPF_MAX_EVENTS"
      using run_fits [of n p] False by auto
    ultimately show ?thesis
      using False Some
      by (auto simp: cbpf_conformance_run_def conformance_capacity_def run_machine_host
          result_words_length layout_simps)
  qed
qed

lemma conformance_refusal_witness:
  "\<exists>used out. cbpf_conformance_run host_platform False [8, 0, 0, 0] 1 (replicate 400 7) 400 = Some (used, out) \<and>
     used = 0 \<and> out = replicate 400 7"
proof -
  have "\<not> insn_words_ok [8, 0, 0, 0] 0" by (simp add: insn_words_ok_def Let_def)
  then show ?thesis
    using conformance_refusal [of False "[8, 0, 0, 0]" 1 "replicate 400 7" 400] by auto
qed

end
