(* ===== verification/CheriProbe.thy ===== *)
theory CheriProbe
  imports Capability Text
begin

text \<open>
  The capability probe, \<open>src/cheri_demo.c\<close>: two acquisition cells that hold object
  capabilities, consumption by clearing the tag, and reads through stale aliases that must
  end a child process with a capability tag fault. The intrinsics are the record \<open>C\<close> of
  theory \<open>Capability\<close>, the addresses of the program's storage the record \<open>E\<close>, and the
  results of the system calls the record \<open>O\<close>. A load through a handle or an object is a
  capability load: it needs the tag, no seal, the load permission and bounds that hold the
  access, and a pointer comes with its tag only under the permission to load capabilities.

  \<open>Inl\<close> is the end of the process before \<open>main\<close> reaches its last line: a failed
  \<open>require\<close>, with its message in the output, or a fatal signal.
\<close>

definition CBPF_SEGV_CAPTAGERR :: int where "CBPF_SEGV_CAPTAGERR = 10"
definition SEGV_MAPERR :: int where "SEGV_MAPERR = 1"
definition SIGSEGV :: int where "SIGSEGV = 11"

subsection \<open>State\<close>

record 'c probe =
  pb_cells :: "'c list"
  pb_allocated :: nat
  pb_references :: int
  pb_effects :: int
  pb_live :: int
  pb_out :: string

record 'c probe_env =
  pe_cell :: "nat \<Rightarrow> 'c"
  pe_live :: 'c
  pe_sizeof_cell :: u64
  pe_sizeof_object :: u64
  pe_sizeof_pointer :: nat
  pe_fault_code :: "cap_fault \<Rightarrow> int"

definition pb_print :: "string \<Rightarrow> 'c probe \<Rightarrow> 'c probe" where
  "pb_print text s = s\<lparr>pb_out := pb_out s @ text @ NL\<rparr>"

definition require :: "bool \<Rightarrow> string \<Rightarrow> 'c probe \<Rightarrow> ('c probe \<Rightarrow> 'c probe + 'r) \<Rightarrow> 'c probe + 'r" where
  "require condition what s k =
     (if \<not> condition then Inl (pb_print (''CBPF CHERI PROBE FAIL '' @ what) s) else k s)"

subsection \<open>Cells\<close>

definition probe_view :: "'c cheri \<Rightarrow> 'c probe_env \<Rightarrow> nat \<Rightarrow> 'c" where
  "probe_view C E i =
     cheri_perms_clear C (cheri_bounds_set_exact C (pe_cell E i) (pe_sizeof_cell E))
       (CHERI_PERM_STORE C OR CHERI_PERM_STORE_CAP C OR CHERI_PERM_STORE_LOCAL_CAP C OR
        CHERI_PERM_EXECUTE C)"

definition probe_acquire ::
    "'c cheri \<Rightarrow> 'c probe_env \<Rightarrow> 'c \<Rightarrow> 'c probe \<Rightarrow> ('c \<Rightarrow> 'c probe \<Rightarrow> 'c probe + 'r) \<Rightarrow> 'c probe + 'r" where
  "probe_acquire C E object s k =
     require (pb_allocated s < 2) ''cell exhaustion'' s (\<lambda>s.
       let i = pb_allocated s;
           s = s\<lparr>pb_allocated := i + 1, pb_cells := (pb_cells s)[i := object],
                 pb_references := pb_references s + 1\<rparr>;
           public = probe_view C E i
       in require (cheri_tag_get C public) ''cell bounds'' s (k public))"

definition probe_consume :: "'c cheri \<Rightarrow> nat \<Rightarrow> 'c probe \<Rightarrow> bool \<times> 'c probe" where
  "probe_consume C index s =
     (let object = pb_cells s ! index
      in if \<not> cheri_tag_get C object then (False, s)
         else (True, s\<lparr>pb_cells := (pb_cells s)[index := cheri_tag_clear C object],
                       pb_references := pb_references s - 1,
                       pb_effects := pb_effects s + 1\<rparr>))"

text \<open>
  The loads of \<open>resolve_read\<close>: the pointer in the cell at the handle's address, and the value of
  the object. A load the architecture refuses faults with the code of its fault, one at an
  address that is none of the program's storage with the mapping code.
\<close>

definition load_object :: "'c cheri \<Rightarrow> 'c probe_env \<Rightarrow> 'c \<Rightarrow> 'c probe \<Rightarrow> int + 'c" where
  "load_object C E handle s =
     (case load_fault C handle (int (pe_sizeof_pointer E)) of
        Some fault \<Rightarrow> Inl (pe_fault_code E fault)
      | None \<Rightarrow>
          (case find (\<lambda>i. cheri_address_get C (pe_cell E i) = cheri_address_get C handle) [0..<2] of
             None \<Rightarrow> Inl SEGV_MAPERR
           | Some i \<Rightarrow> Inr (loaded_cap C handle (pb_cells s ! i))))"

definition load_field :: "'c cheri \<Rightarrow> 'c probe_env \<Rightarrow> 'c \<Rightarrow> 'c probe \<Rightarrow> int + int" where
  "load_field C E object s =
     (case load_fault C object (uint (pe_sizeof_object E)) of
        Some fault \<Rightarrow> Inl (pe_fault_code E fault)
      | None \<Rightarrow>
          if cheri_address_get C object \<noteq> cheri_address_get C (pe_live E) then Inl SEGV_MAPERR
          else Inr (pb_live s))"

definition resolve_read :: "'c cheri \<Rightarrow> 'c probe_env \<Rightarrow> 'c \<Rightarrow> 'c probe \<Rightarrow> int + int" where
  "resolve_read C E handle s =
     (case load_object C E handle s of Inl code \<Rightarrow> Inl code | Inr object \<Rightarrow> load_field C E object s)"

text \<open>An access of the parent process, which has no handler: a fault ends it.\<close>

definition accessed :: "int + 'a \<Rightarrow> 'c probe \<Rightarrow> ('a \<Rightarrow> 'c probe + 'r) \<Rightarrow> 'c probe + 'r" where
  "accessed access s k = (case access of Inl code \<Rightarrow> Inl s | Inr x \<Rightarrow> k x)"

subsection \<open>The faulting child\<close>

text \<open>
  What the system calls of one call of \<open>expect_stale_fault\<close> do. \<open>ps_write\<close> and
  \<open>ps_read\<close> are the byte counts, given how many bytes the other end wants or wrote.
\<close>

record probe_os =
  ps_pipe :: int
  ps_fork :: int
  ps_sigaction :: int
  ps_write :: "nat \<Rightarrow> int"
  ps_read :: "int \<Rightarrow> int"
  ps_waitpid :: "int \<Rightarrow> int"

definition sizeof_report :: nat where "sizeof_report = 8"

text \<open>The child: the report it wrote with its size, and its exit status.\<close>

definition stale_child ::
    "'c cheri \<Rightarrow> 'c probe_env \<Rightarrow> probe_os \<Rightarrow> 'c \<Rightarrow> 'c probe \<Rightarrow> (int \<times> int) option \<times> int" where
  "stale_child C E os handle s =
     (if ps_sigaction os \<noteq> 0 then (None, 3)
      else case resolve_read C E handle s of
        Inl code \<Rightarrow> (Some (SIGSEGV, code), if ps_write os sizeof_report = int sizeof_report then 0 else 2)
      | Inr v \<Rightarrow> (None, 4))"

definition stale_line :: "string \<Rightarrow> string" where
  "stale_line name = ''CBPF stale_'' @ name @ '' signal=11 code=10 terminal=1''"

definition expect_stale_fault ::
    "'c cheri \<Rightarrow> 'c probe_env \<Rightarrow> probe_os \<Rightarrow> 'c \<Rightarrow> string \<Rightarrow> 'c probe \<Rightarrow>
     ('c probe \<Rightarrow> 'c probe + 'r) \<Rightarrow> 'c probe + 'r" where
  "expect_stale_fault C E os handle name s k =
     require (ps_pipe os = 0) ''pipe'' s (\<lambda>s.
     require (ps_fork os \<ge> 0) ''fork'' s (\<lambda>s.
     case stale_child C E os handle s of (report, status) \<Rightarrow>
       let count = ps_read os (if report = None then 0 else ps_write os sizeof_report);
           received = (case report of None \<Rightarrow> (0, 0) | Some r \<Rightarrow> r)
       in require (ps_waitpid os (ps_fork os) = ps_fork os) ''waitpid'' s (\<lambda>s.
          require (count = int sizeof_report \<and> status = 0 \<and> fst received = SIGSEGV \<and>
                   snd received = CBPF_SEGV_CAPTAGERR)
            ''expected terminal capability-tag fault'' s (\<lambda>s.
          k (pb_print (stale_line name) s)))))"

subsection \<open>The probe\<close>

definition probe_start :: "'c cheri \<Rightarrow> 'c probe" where
  "probe_start C =
     \<lparr>pb_cells = [cheri_null C, cheri_null C], pb_allocated = 0, pb_references = 1,
      pb_effects = 0, pb_live = 42, pb_out = ''''\<rparr>"

text \<open>The lines after the acquisitions, up to the balanced release.\<close>

definition probe_checks ::
    "'c cheri \<Rightarrow> 'c probe_env \<Rightarrow> 'c \<Rightarrow> 'c \<Rightarrow> 'c \<Rightarrow> 'c probe \<Rightarrow> ('c probe \<Rightarrow> 'c probe + 'r) \<Rightarrow> 'c probe + 'r" where
  "probe_checks C E object a b s k =
     accessed (load_object C E a s) s (\<lambda>a_object.
     accessed (load_object C E b s) s (\<lambda>b_object.
     require (cheri_address_get C a \<noteq> cheri_address_get C b \<and>
              cheri_address_get C a_object = cheri_address_get C b_object) ''A/B identity'' s (\<lambda>s.
     accessed (resolve_read C E a s) s (\<lambda>a_read.
     accessed (resolve_read C E b s) s (\<lambda>b_read.
     require (a_read = 42 \<and> b_read = 42) ''valid reads'' s (\<lambda>s.
     case probe_consume C 0 s of (first, s) \<Rightarrow>
     case (if first then probe_consume C 0 s else (True, s)) of (second, s) \<Rightarrow>
     require (first \<and> \<not> second \<and> pb_references s = 2 \<and> pb_effects s = 1) ''consume once'' s (\<lambda>s.
     accessed (load_object C E a s) s (\<lambda>a_object.
     require (\<not> cheri_tag_get C a_object \<and>
              cheri_address_get C a_object = cheri_address_get C object \<and>
              cheri_address_get C a_object \<noteq> 0) ''nonzero untagged stale authority'' s (\<lambda>s.
     accessed (resolve_read C E b s) s (\<lambda>b_read.
     accessed (load_field C E object s) s (\<lambda>direct.
     require (b_read = 42 \<and> direct = 42) ''B/direct control'' s (\<lambda>s.
     k (pb_print ''CBPF surviving_B=42 direct_object=42''
       (pb_print ''CBPF consumed_A=1 duplicate_effect=0 references=2 stale_tag=0 cursor_preserved=1''
       (pb_print ''CBPF distinct_cells=1 same_object=1 valid_A=42 valid_B=42''
       (pb_print ''CBPF scope=purecap_C_architecture_probe isolation=0 kfunc=0 jit=0'' s))))))))))))))))"

text \<open>\<open>main\<close> up to the power-off: both aliases of A are the value \<open>a\<close>.\<close>

definition probe_main ::
    "'c cheri \<Rightarrow> 'c probe_env \<Rightarrow> probe_os \<Rightarrow> probe_os \<Rightarrow> 'c probe + 'c probe" where
  "probe_main C E os1 os2 =
     (let object = cheri_bounds_set_exact C (pe_live E) (pe_sizeof_object E)
      in require (pe_sizeof_pointer E = 16 \<and> cheri_tag_get C object \<and>
                  cheri_length_get C object = pe_sizeof_object E) ''purecap object authority''
           (probe_start C) (\<lambda>s.
         probe_acquire C E object s (\<lambda>a s.
         probe_acquire C E object s (\<lambda>b s.
         probe_checks C E object a b s (\<lambda>s.
         expect_stale_fault C E os1 a ''copy'' s (\<lambda>s.
         expect_stale_fault C E os2 a ''spill'' s (\<lambda>s.
         case probe_consume C 1 s of (taken, s) \<Rightarrow>
         require (taken \<and> pb_references s = 1 \<and> pb_effects s = 2) ''balanced release'' s (\<lambda>s.
         Inr (pb_print ''CBPF CHERI PROBE PASS''
           (pb_print ''CBPF final_references=1 effects=2 cells_allocated=2 cells_reused=0'' s))))))))))"

subsection \<open>What the probe observes\<close>

text \<open>
  The storage: distinct cells and an object, which the program's capabilities can load from and
  whose exact bounds can be made. The permissions to load are other bits than those that
  \<open>acquire\<close> clears, and a fault for a missing tag has the code of Morello's Linux.
\<close>

definition may_load :: "'c cheri \<Rightarrow> 'c \<Rightarrow> bool" where
  "may_load C c \<longleftrightarrow> cheri_perms_get C c AND CHERI_PERM_LOAD C = CHERI_PERM_LOAD C"

definition load_bits_apart :: "'c cheri \<Rightarrow> bool" where
  "load_bits_apart C \<longleftrightarrow>
     (let cleared = CHERI_PERM_STORE C OR CHERI_PERM_STORE_CAP C OR CHERI_PERM_STORE_LOCAL_CAP C OR
            CHERI_PERM_EXECUTE C
      in CHERI_PERM_LOAD C AND cleared = 0 \<and> CHERI_PERM_LOAD_CAP C AND cleared = 0)"

definition probe_ready :: "'c cheri \<Rightarrow> 'c probe_env \<Rightarrow> bool" where
  "probe_ready C E \<longleftrightarrow>
     cheri_laws C \<and> cheri_derives C \<and> load_bits_apart C \<and>
     pe_sizeof_pointer E = 16 \<and> pe_sizeof_cell E = 16 \<and>
     pe_fault_code E Tag_Fault = CBPF_SEGV_CAPTAGERR \<and>
     cheri_address_get C (pe_cell E 0) \<noteq> cheri_address_get C (pe_cell E 1) \<and>
     (\<forall>i < 2. may_load C (pe_cell E i) \<and>
        cheri_perms_get C (pe_cell E i) AND CHERI_PERM_LOAD_CAP C = CHERI_PERM_LOAD_CAP C \<and>
        cheri_tag_get C (cheri_bounds_set_exact C (pe_cell E i) (pe_sizeof_cell E))) \<and>
     may_load C (pe_live E) \<and> cheri_address_get C (pe_live E) \<noteq> 0 \<and>
     cheri_tag_get C (cheri_bounds_set_exact C (pe_live E) (pe_sizeof_object E))"

text \<open>The handles and the object, from these: what \<open>acquire\<close> leaves them.\<close>

lemma probe_view_loads:
  assumes "probe_ready C E" and "i < 2"
  shows "cheri_tag_get C (probe_view C E i)"
    and "cheri_address_get C (probe_view C E i) = cheri_address_get C (pe_cell E i)"
    and "load_fault C (probe_view C E i) 16 = None"
    and "loaded_cap C (probe_view C E i) c = c"
proof -
  let ?b = "cheri_bounds_set_exact C (pe_cell E i) (pe_sizeof_cell E)"
  let ?m = "CHERI_PERM_STORE C OR CHERI_PERM_STORE_CAP C OR CHERI_PERM_STORE_LOCAL_CAP C OR CHERI_PERM_EXECUTE C"
  have D: "cheri_derives C" "cheri_tag_get C ?b" "pe_sizeof_cell E = 16" and apart: "load_bits_apart C"
    and p: "cheri_perms_get C (pe_cell E i) AND CHERI_PERM_LOAD C = CHERI_PERM_LOAD C"
      "cheri_perms_get C (pe_cell E i) AND CHERI_PERM_LOAD_CAP C = CHERI_PERM_LOAD_CAP C"
    using assms by (auto simp: probe_ready_def may_load_def)
  note b = cheri_derivesD(1) [OF D(1), of "pe_cell E i" "pe_sizeof_cell E"] cheri_derivesD(2) [OF D(1,2)]
  note v = cheri_derivesD(3) [OF D(1) b(2) [THEN conjunct1], of ?m]
  have perms: "cheri_perms_get C (probe_view C E i) = cheri_perms_get C (pe_cell E i) AND NOT ?m"
    using b v by (simp add: probe_view_def)
  show "cheri_tag_get C (probe_view C E i)"
    "cheri_address_get C (probe_view C E i) = cheri_address_get C (pe_cell E i)"
    using b v D(2) by (simp_all add: probe_view_def)
  moreover have "\<not> cheri_is_sealed C (probe_view C E i)"
    "cheri_base_get C (probe_view C E i) = cheri_address_get C (pe_cell E i)"
    "cheri_length_get C (probe_view C E i) = 16"
    using b v D(3) by (simp_all add: probe_view_def)
  moreover have "cheri_perms_get C (probe_view C E i) AND CHERI_PERM_LOAD C = CHERI_PERM_LOAD C"
    "cheri_perms_get C (probe_view C E i) AND CHERI_PERM_LOAD_CAP C = CHERI_PERM_LOAD_CAP C"
    unfolding perms using apart
    by (auto simp only: load_bits_apart_def Let_def intro: cleared_perms [OF p(1)] cleared_perms [OF p(2)])
  ultimately show "load_fault C (probe_view C E i) 16 = None" "loaded_cap C (probe_view C E i) c = c"
    by (simp_all add: load_whole loaded_cap_def)
qed

lemma probe_object_loads:
  fixes C :: "'c cheri"
  assumes "probe_ready C E"
  defines "object \<equiv> cheri_bounds_set_exact C (pe_live E) (pe_sizeof_object E)"
  shows "cheri_tag_get C object" and "cheri_length_get C object = pe_sizeof_object E"
    and "cheri_address_get C object = cheri_address_get C (pe_live E)"
    and "load_fault C object (uint (pe_sizeof_object E)) = None"
proof -
  have D: "cheri_derives C" and t: "cheri_tag_get C object" and p: "may_load C (pe_live E)"
    using assms by (simp_all add: probe_ready_def)
  note b = cheri_derivesD(1) [OF D, of "pe_live E" "pe_sizeof_object E", folded object_def]
    cheri_derivesD(2) [OF D t [unfolded object_def], folded object_def]
  show "cheri_tag_get C object" "cheri_length_get C object = pe_sizeof_object E"
    "cheri_address_get C object = cheri_address_get C (pe_live E)" using t b by simp_all
  show "load_fault C object (uint (pe_sizeof_object E)) = None"
    using t b p by (intro load_whole) (simp_all add: may_load_def)
qed

definition os_works :: "probe_os \<Rightarrow> bool" where
  "os_works os \<longleftrightarrow> ps_pipe os = 0 \<and> ps_fork os > 0 \<and> ps_sigaction os = 0 \<and>
     (\<forall>n. ps_write os n = int n) \<and> (\<forall>n. ps_read os n = n) \<and> (\<forall>pid. ps_waitpid os pid = pid)"

text \<open>The state after the acquisitions, with the cells in \<open>consumed\<close> consumed.\<close>

definition probe_state :: "'c cheri \<Rightarrow> 'c probe_env \<Rightarrow> bool \<Rightarrow> bool \<Rightarrow> 'c probe \<Rightarrow> bool" where
  "probe_state C E a_live b_live s \<longleftrightarrow>
     (let object = cheri_bounds_set_exact C (pe_live E) (pe_sizeof_object E)
      in pb_cells s = [if a_live then object else cheri_tag_clear C object,
                       if b_live then object else cheri_tag_clear C object] \<and>
         pb_allocated s = 2 \<and> pb_live s = 42 \<and>
         pb_references s = 1 + (if a_live then 1 else 0) + (if b_live then 1 else 0) \<and>
         pb_effects s = 2 - (if a_live then 1 else 0) - (if b_live then 1 else 0))"

lemma probe_state_print [simp]:
  "probe_state C E x y (pb_print text s) = probe_state C E x y s"
  by (simp add: probe_state_def pb_print_def)

lemma probe_acquired:
  assumes "probe_ready C E"
  shows "probe_acquire C E object s k =
    (if pb_allocated s = 0 \<or> pb_allocated s = 1
     then k (probe_view C E (pb_allocated s))
       (s\<lparr>pb_allocated := pb_allocated s + 1, pb_cells := (pb_cells s)[pb_allocated s := object],
          pb_references := pb_references s + 1\<rparr>)
     else Inl (pb_print ''CBPF CHERI PROBE FAIL cell exhaustion'' s))"
  using probe_view_loads(1) [OF assms]
  by (auto simp: probe_acquire_def require_def Let_def less_2_cases_iff)

lemma probe_loads:
  assumes "probe_ready C E" and "probe_state C E x y s"
  shows "load_object C E (probe_view C E 0) s = Inr (pb_cells s ! 0)"
    and "load_object C E (probe_view C E (Suc 0)) s = Inr (pb_cells s ! Suc 0)"
    and "resolve_read C E (probe_view C E 0) s = (if x then Inr 42 else Inl CBPF_SEGV_CAPTAGERR)"
    and "resolve_read C E (probe_view C E (Suc 0)) s = (if y then Inr 42 else Inl CBPF_SEGV_CAPTAGERR)"
proof -
  have up: "[0..<2] = [0, Suc 0]" by (simp add: upt_rec)
  have laws: "cheri_laws C" using assms(1) by (simp add: probe_ready_def)
  show 1: "load_object C E (probe_view C E 0) s = Inr (pb_cells s ! 0)"
    and 2: "load_object C E (probe_view C E (Suc 0)) s = Inr (pb_cells s ! Suc 0)"
    using assms(1) probe_view_loads(2-4) [OF assms(1)]
    by (auto simp: load_object_def probe_ready_def up)
  show "resolve_read C E (probe_view C E 0) s = (if x then Inr 42 else Inl CBPF_SEGV_CAPTAGERR)"
    "resolve_read C E (probe_view C E (Suc 0)) s = (if y then Inr 42 else Inl CBPF_SEGV_CAPTAGERR)"
    using assms cheri_lawsD(2) [OF laws] probe_object_loads(3,4) [OF assms(1)]
    by (auto simp: resolve_read_def 1 2 load_field_def probe_state_def probe_ready_def load_untagged Let_def)
qed

lemma stale_fault:
  assumes "probe_ready C E" and "os_works os" and "probe_state C E False y s"
  shows "expect_stale_fault C E os (probe_view C E 0) name s k =
    k (pb_print (stale_line name) s)"
  using assms(2) probe_loads(3) [OF assms(1,3)]
  by (simp add: expect_stale_fault_def require_def stale_child_def os_works_def Let_def)

lemma probe_consumes:
  assumes "probe_ready C E" and "probe_state C E x y s"
  shows "probe_consume C 0 s = (x, if x then snd (probe_consume C 0 s) else s)"
    and "probe_state C E False y (snd (probe_consume C 0 s))"
    and "probe_consume C (Suc 0) s = (y, if y then snd (probe_consume C (Suc 0) s) else s)"
    and "probe_state C E x False (snd (probe_consume C (Suc 0) s))"
proof -
  have "\<not> cheri_tag_get C (cheri_tag_clear C c)" for c
    using assms(1) cheri_lawsD(2) [of C] by (simp add: probe_ready_def)
  then show "probe_consume C 0 s = (x, if x then snd (probe_consume C 0 s) else s)"
    "probe_state C E False y (snd (probe_consume C 0 s))"
    "probe_consume C (Suc 0) s = (y, if y then snd (probe_consume C (Suc 0) s) else s)"
    "probe_state C E x False (snd (probe_consume C (Suc 0) s))"
    using assms by (auto simp: probe_consume_def probe_state_def probe_ready_def Let_def)
qed

lemma probe_consumes_b:
  assumes "probe_ready C E" and "probe_state C E x True s"
  shows "\<exists>u. probe_consume C (Suc 0) s = (True, u) \<and> probe_state C E x False u"
  using probe_consumes(3,4) [OF assms] by (metis (full_types) prod.collapse)

lemma probe_checks_pass:
  assumes ready: "probe_ready C E" and s: "probe_state C E True True s"
    and object: "object = cheri_bounds_set_exact C (pe_live E) (pe_sizeof_object E)"
  shows "\<exists>t. probe_checks C E object (probe_view C E 0) (probe_view C E (Suc 0)) s k = k t \<and>
    probe_state C E False True t"
proof -
  obtain t where t: "probe_consume C 0 s = (True, t)" "probe_state C E False True t"
    using probe_consumes(1,2) [OF ready s] by (metis (full_types) prod.collapse)
  have again: "probe_consume C 0 t = (False, t)" using probe_consumes(1) [OF ready t(2)] by simp
  have laws: "cheri_laws C" using ready by (simp add: probe_ready_def)
  note loads = probe_loads [OF ready s] probe_loads [OF ready t(2)]
  have cells: "pb_cells s = [object, object]" "pb_cells t = [cheri_tag_clear C object, object]"
    "pb_references t = 2" "pb_effects t = 1" "pb_live t = 42"
    using s t(2) by (simp_all add: probe_state_def object Let_def)
  note obj = probe_object_loads [OF ready, folded object]
  have "load_field C E object t = Inr 42"
    using obj cells(5) by (simp add: load_field_def)
  moreover have "cheri_address_get C (probe_view C E 0) \<noteq> cheri_address_get C (probe_view C E (Suc 0))"
    using ready probe_view_loads(2) [OF ready] by (simp add: probe_ready_def)
  moreover have "cheri_address_get C object \<noteq> 0"
    using ready obj(3) by (simp add: probe_ready_def)
  ultimately show ?thesis
    using t(2) cheri_lawsD(2,3) [OF laws]
    by (simp add: probe_checks_def accessed_def require_def loads cells t(1) again)
      (rule exI, rule conjI, rule refl, simp)
qed

text \<open>
  C26. The capability probe passes on every machine that keeps the intrinsics' laws, can
  represent its storage and has working system calls: the handles that \<open>acquire\<close> restricts
  can still load their cell and the object behind it, both stale aliases of the consumed
  acquisition fault with the tag code and end the child, while the live acquisition stays
  usable, and at the end both are consumed exactly once with one reference left.
\<close>

theorem probe_passes:
  assumes "probe_ready C E" and "os_works os1" and "os_works os2"
  shows "\<exists>s out. probe_main C E os1 os2 = Inr s \<and> pb_references s = 1 \<and> pb_effects s = 2 \<and>
    pb_allocated s = 2 \<and> (\<forall>c \<in> set (pb_cells s). \<not> cheri_tag_get C c) \<and>
    pb_out s = out @ ''CBPF CHERI PROBE PASS'' @ NL"
proof -
  let ?object = "cheri_bounds_set_exact C (pe_live E) (pe_sizeof_object E)"
  let ?s2 = "(probe_start C)\<lparr>pb_allocated := 2, pb_cells := [?object, ?object], pb_references := 3\<rparr>"
  have laws: "cheri_laws C" using assms(1) by (simp add: probe_ready_def)
  have st: "probe_state C E True True ?s2"
    by (simp add: probe_state_def probe_start_def Let_def)
  define k where "k = (\<lambda>s. expect_stale_fault C E os1 (probe_view C E 0) ''copy'' s (\<lambda>s.
      expect_stale_fault C E os2 (probe_view C E 0) ''spill'' s (\<lambda>s.
      case probe_consume C 1 s of (taken, s) \<Rightarrow>
      require (taken \<and> pb_references s = 1 \<and> pb_effects s = 2) ''balanced release'' s (\<lambda>s.
      Inr (pb_print ''CBPF CHERI PROBE PASS''
        (pb_print ''CBPF final_references=1 effects=2 cells_allocated=2 cells_reused=0'' s))))))"
  obtain t where t: "probe_checks C E ?object (probe_view C E 0) (probe_view C E (Suc 0)) ?s2 k = k t"
    "probe_state C E False True t" using probe_checks_pass [OF assms(1) st refl, of k] by blast
  have main: "probe_main C E os1 os2 = k t"
    unfolding t(1) [symmetric] using assms(1) probe_object_loads(1,2) [OF assms(1)]
    by (simp add: probe_main_def k_def probe_acquired probe_start_def require_def Let_def)
      (simp add: probe_ready_def Let_def eval_nat_numeral)
  let ?t = "pb_print (stale_line ''spill'')
    (pb_print (stale_line ''copy'') t)"
  have t': "probe_state C E False True ?t" using t(2) by simp
  obtain u where u: "probe_consume C (Suc 0) ?t = (True, u)" "probe_state C E False False u"
    using probe_consumes_b [OF assms(1) t'] by blast
  have settled: "pb_references u = 1" "pb_effects u = 2"
    using u(2) by (simp_all add: probe_state_def Let_def)
  let ?v = "pb_print ''CBPF final_references=1 effects=2 cells_allocated=2 cells_reused=0'' u"
  have "k t = Inr (pb_print ''CBPF CHERI PROBE PASS'' ?v)"
    using t(2) u(1) settled
    by (simp add: k_def require_def stale_fault [OF assms(1,2) t(2)] stale_fault [OF assms(1,3)])
  moreover have "pb_out (pb_print ''CBPF CHERI PROBE PASS'' ?v) = pb_out ?v @ ''CBPF CHERI PROBE PASS'' @ NL"
    by (simp add: pb_print_def)
  moreover have "probe_state C E False False (pb_print ''CBPF CHERI PROBE PASS'' ?v)" using u(2) by simp
  then have "pb_references (pb_print ''CBPF CHERI PROBE PASS'' ?v) = 1"
    "pb_effects (pb_print ''CBPF CHERI PROBE PASS'' ?v) = 2"
    "pb_allocated (pb_print ''CBPF CHERI PROBE PASS'' ?v) = 2"
    "\<forall>c \<in> set (pb_cells (pb_print ''CBPF CHERI PROBE PASS'' ?v)). \<not> cheri_tag_get C c"
    using cheri_lawsD(2) [OF laws] by (simp_all add: probe_state_def Let_def)
  ultimately show ?thesis unfolding main by blast
qed

definition sample_probe_env :: "swcap probe_env" where
  "sample_probe_env =
     \<lparr>pe_cell = (\<lambda>i. \<lparr>sw_tag = True, sw_sealed = False, sw_address = 0x100 + 16 * of_nat i,
                      sw_base = 0x100, sw_length = 32, sw_perms = 0xff\<rparr>),
      pe_live = \<lparr>sw_tag = True, sw_sealed = False, sw_address = 0x80, sw_base = 0x80,
                 sw_length = 16, sw_perms = 0xff\<rparr>,
      pe_sizeof_cell = 16, pe_sizeof_object = 4, pe_sizeof_pointer = 16,
      pe_fault_code = (\<lambda>fault. case fault of Tag_Fault \<Rightarrow> 10 | Sealed_Fault \<Rightarrow> 11 | Bounds_Fault \<Rightarrow> 12
        | Permission_Fault \<Rightarrow> 13)\<rparr>"

definition sample_probe_os :: probe_os where
  "sample_probe_os =
     \<lparr>ps_pipe = 0, ps_fork = 2, ps_sigaction = 0, ps_write = int, ps_read = (\<lambda>n. n),
      ps_waitpid = (\<lambda>pid. pid)\<rparr>"

lemma sample_probe_ready: "probe_ready sample_cheri sample_probe_env"
proof -
  have "may_load sample_cheri (pe_cell sample_probe_env i) \<and>
      cheri_perms_get sample_cheri (pe_cell sample_probe_env i) AND CHERI_PERM_LOAD_CAP sample_cheri =
        CHERI_PERM_LOAD_CAP sample_cheri \<and>
      cheri_tag_get sample_cheri
        (cheri_bounds_set_exact sample_cheri (pe_cell sample_probe_env i) (pe_sizeof_cell sample_probe_env))"
    if "i < 2" for i
    using that
    by (auto simp: less_2_cases_iff may_load_def sample_cheri_def sample_probe_env_def sw_bounds_def)
  moreover have "may_load sample_cheri (pe_live sample_probe_env)" "load_bits_apart sample_cheri"
    "cheri_tag_get sample_cheri
      (cheri_bounds_set_exact sample_cheri (pe_live sample_probe_env) (pe_sizeof_object sample_probe_env))"
    by code_simp+
  ultimately show ?thesis
    using sample_cheri_laws sample_cheri_derives
    by (simp add: probe_ready_def)
      (simp add: sample_cheri_def sample_probe_env_def CBPF_SEGV_CAPTAGERR_def)
qed

theorem probe_passes_witness:
  "\<exists>s. probe_main sample_cheri sample_probe_env sample_probe_os sample_probe_os = Inr s \<and>
     pb_references s = 1 \<and> pb_effects s = 2"
proof -
  have "os_works sample_probe_os" by (simp add: os_works_def sample_probe_os_def)
  then show ?thesis using probe_passes [OF sample_probe_ready] by blast
qed

end
