(* ===== verification/JitLayout.thy ===== *)
theory JitLayout
  imports JitCode
begin

text \<open>
  The three generation passes agree: the layout pass records the positions the other two
  find again, the writing pass fills the image, and the checking pass reads back what was
  written. Compilation of an admitted program therefore succeeds once the encoders accept
  their operands, and the image is the templates of its instructions at their positions.
\<close>

subsection \<open>Well-behaved words\<close>

text \<open>What of the context a word may depend on, and the bounds that hold in every pass.\<close>

definition same_layout :: "compiler \<Rightarrow> compiler \<Rightarrow> bool" where
  "same_layout c d \<longleftrightarrow>
     c_index c = c_index d \<and> c_offset c = c_offset d \<and> c_restricted_exit c = c_restricted_exit d \<and>
     c_executive_exit c = c_executive_exit d \<and> c_executive_words c = c_executive_words d"

definition small :: "compiler \<Rightarrow> bool" where
  "small c \<longleftrightarrow>
     c_index c \<le> CBPF_MAX_WORDS \<and> c_restricted_exit c \<le> CBPF_MAX_WORDS \<and>
     c_executive_exit c \<le> CBPF_MAX_WORDS \<and> c_executive_words c \<le> CBPF_MAX_WORDS \<and>
     length (c_offset c) = JIT_MAX_INSNS + 1 \<and> (\<forall>n \<in> set (c_offset c). n \<le> CBPF_MAX_WORDS)"

text \<open>
  The documented domain of the encoders: they return the break word only for operands out
  of range; the offset of a 64-bit store is a multiple of 8 as well. The break word itself has
  bit 28 set, as \<open>0xd42...\<close> has.
\<close>

definition encoders_ok :: "'z code_env_scheme \<Rightarrow> bool" where
  "encoders_ok E \<longleftrightarrow>
     (let B = AARCH64_BREAK_FAULT E
      in bit B 28 \<and>
         (\<forall>r v s. r < 32 \<longrightarrow> v \<le> 0xffff \<longrightarrow> s \<in> {0, 16, 32, 48} \<longrightarrow>
            A64_MOVZ E 1 r v s \<noteq> B \<and> A64_MOVK E 1 r v s \<noteq> B) \<and>
         (\<forall>r q. r < 32 \<longrightarrow> q < 32 \<longrightarrow> A64_MOV E 1 r q \<noteq> B) \<and>
         (\<forall>r q b. r < 32 \<longrightarrow> q < 32 \<longrightarrow> b < 32 \<longrightarrow> A64_PUSH E r q b \<noteq> B \<and> A64_POP E r q b \<noteq> B) \<and>
         (\<forall>r q n. r < 32 \<longrightarrow> q < 32 \<longrightarrow> n < 4096 \<longrightarrow> A64_SUB_I E 1 r q n \<noteq> B \<and> A64_ADD_I E 1 r q n \<noteq> B) \<and>
         (\<forall>r q n. r < 32 \<longrightarrow> q < 32 \<longrightarrow> n < 4096 \<longrightarrow> n mod 8 = 0 \<longrightarrow> A64_STR64I E r q n \<noteq> B) \<and>
         (\<forall>r d. r < 32 \<longrightarrow> \<bar>d\<bar> < 2 ^ 20 \<longrightarrow> A64_ADR E r d \<noteq> B) \<and>
         (\<forall>r d. r < 32 \<longrightarrow> \<bar>d\<bar> < 2 ^ 18 \<longrightarrow> A64_CBZ E 1 r d \<noteq> B) \<and>
         (\<forall>d. \<bar>d\<bar> < 2 ^ 25 \<longrightarrow> A64_B E d \<noteq> B) \<and>
         (\<forall>r. r < 32 \<longrightarrow> A64_BLR E r \<noteq> B \<and> A64_RET E r \<noteq> B) \<and>
         (\<forall>r \<le> 30. A64_R E r < 32) \<and>
         A64_LR E < 32 \<and> A64_FP E < 32 \<and> A64_SP E < 32 \<and> A64_ZR E < 32 \<and>
         A64_NOP E \<noteq> B \<and> A64_BTI_JC E \<noteq> B \<and> A64_PACIASP E \<noteq> B \<and> A64_AUTIASP E \<noteq> B)"

lemma encoders_okD:
  assumes "encoders_ok E"
  shows "bit (AARCH64_BREAK_FAULT E) 28"
    and "r < 32 \<Longrightarrow> v \<le> 0xffff \<Longrightarrow> s \<in> {0, 16, 32, 48} \<Longrightarrow> A64_MOVZ E (Suc 0) r v s \<noteq> AARCH64_BREAK_FAULT E"
    and "r < 32 \<Longrightarrow> v \<le> 0xffff \<Longrightarrow> s \<in> {0, 16, 32, 48} \<Longrightarrow> A64_MOVK E (Suc 0) r v s \<noteq> AARCH64_BREAK_FAULT E"
    and "r < 32 \<Longrightarrow> q < 32 \<Longrightarrow> A64_MOV E (Suc 0) r q \<noteq> AARCH64_BREAK_FAULT E"
    and "r < 32 \<Longrightarrow> q < 32 \<Longrightarrow> b < 32 \<Longrightarrow> A64_PUSH E r q b \<noteq> AARCH64_BREAK_FAULT E"
    and "r < 32 \<Longrightarrow> q < 32 \<Longrightarrow> b < 32 \<Longrightarrow> A64_POP E r q b \<noteq> AARCH64_BREAK_FAULT E"
    and "r < 32 \<Longrightarrow> q < 32 \<Longrightarrow> n < 4096 \<Longrightarrow> A64_SUB_I E (Suc 0) r q n \<noteq> AARCH64_BREAK_FAULT E"
    and "r < 32 \<Longrightarrow> q < 32 \<Longrightarrow> n < 4096 \<Longrightarrow> A64_ADD_I E (Suc 0) r q n \<noteq> AARCH64_BREAK_FAULT E"
    and "r < 32 \<Longrightarrow> q < 32 \<Longrightarrow> n < 4096 \<Longrightarrow> n mod 8 = 0 \<Longrightarrow> A64_STR64I E r q n \<noteq> AARCH64_BREAK_FAULT E"
    and "r < 32 \<Longrightarrow> \<bar>d\<bar> < 2 ^ 20 \<Longrightarrow> A64_ADR E r d \<noteq> AARCH64_BREAK_FAULT E"
    and "r < 32 \<Longrightarrow> \<bar>d\<bar> < 2 ^ 18 \<Longrightarrow> A64_CBZ E (Suc 0) r d \<noteq> AARCH64_BREAK_FAULT E"
    and "\<bar>d\<bar> < 2 ^ 25 \<Longrightarrow> A64_B E d \<noteq> AARCH64_BREAK_FAULT E"
    and "r < 32 \<Longrightarrow> A64_BLR E r \<noteq> AARCH64_BREAK_FAULT E"
    and "r < 32 \<Longrightarrow> A64_RET E r \<noteq> AARCH64_BREAK_FAULT E"
    and "k \<le> 30 \<Longrightarrow> A64_R E k < 32"
    and "A64_LR E < 32" and "A64_FP E < 32" and "A64_SP E < 32" and "A64_ZR E < 32"
    and "A64_NOP E \<noteq> AARCH64_BREAK_FAULT E" and "A64_BTI_JC E \<noteq> AARCH64_BREAK_FAULT E"
    and "A64_PACIASP E \<noteq> AARCH64_BREAK_FAULT E" and "A64_AUTIASP E \<noteq> AARCH64_BREAK_FAULT E"
  using assms by (simp_all add: encoders_ok_def Let_def) (elim disjE; simp)+

definition safe_word :: "'z code_env_scheme \<Rightarrow> (compiler \<Rightarrow> u32) \<Rightarrow> bool" where
  "safe_word E f \<longleftrightarrow>
     (\<forall>c. small c \<longrightarrow> f c \<noteq> AARCH64_BREAK_FAULT E) \<and> (\<forall>c d. same_layout c d \<longrightarrow> f c = f d)"

lemma safe_const: "v \<noteq> AARCH64_BREAK_FAULT E \<Longrightarrow> safe_word E (\<lambda>c. v)"
  by (simp add: safe_word_def)

lemma no_break: "bit (AARCH64_BREAK_FAULT E) 28 \<Longrightarrow> \<not> bit v 28 \<Longrightarrow> v \<noteq> AARCH64_BREAK_FAULT E"
  by auto

lemma reg_bit: "r < 32 \<Longrightarrow> 5 \<le> n \<Longrightarrow> \<not> bit (of_nat r :: u32) n"
proof -
  assume r: "r < 32" and n: "5 \<le> n"
  have "(2::nat) ^ 5 \<le> 2 ^ n" using n by (rule power_increasing) simp
  then have "r < 2 ^ n" using r by simp
  then have "\<not> bit r n" by (simp add: bit_iff_odd)
  then show ?thesis by (simp add: bit_of_nat_iff)
qed

lemma mask16: "(v :: u64) AND 0xffff \<le> 0xffff"
  by (rule word_and_le1)

lemma immediate_safe:
  "encoders_ok E \<Longrightarrow> r < 32 \<Longrightarrow> list_all (safe_word E) (immediate E r v)"
  using encoders_okD(2,3) [OF _ _ mask16, of E r 0] encoders_okD(3) [OF _ _ mask16, of E r]
  by (simp add: immediate_def safe_const)

lemma clear_safe: "encoders_ok E \<Longrightarrow> list_all (safe_word E) (clear_registers E b)"
  by (simp add: clear_registers_def list_all_iff safe_const encoders_okD)

lemma displacement: "small c \<Longrightarrow> n \<le> CBPF_MAX_WORDS \<Longrightarrow> \<bar>int n - int (c_index c)\<bar> < 2 ^ 12"
  by (auto simp: small_def CBPF_MAX_WORDS_def)

lemma executive_words_fit:
  assumes "encoders_ok E" and "small c" and "r < 32"
  shows "A64_MOVZ E (Suc 0) r (of_nat (c_executive_words c * 4)) 0 \<noteq> AARCH64_BREAK_FAULT E"
proof -
  have "c_executive_words c \<le> 1024" using assms(2) by (simp add: small_def CBPF_MAX_WORDS_def)
  moreover have "unat (of_nat (c_executive_words c * 4) :: u64) \<le> c_executive_words c * 4"
    unfolding unat_of_nat by (rule mod_less_eq_dividend)
  ultimately have "(of_nat (c_executive_words c * 4) :: u64) \<le> 0xffff"
    unfolding word_le_nat_alt by simp
  then show ?thesis using encoders_okD(2) [OF assms(1,3)] by simp
qed

lemma safe_operand:
  assumes "encoders_ok E"
  shows "r < 32 \<Longrightarrow> safe_word E (\<lambda>c. A64_MOVZ E (Suc 0) r (of_nat (c_executive_words c) * 4) 0)"
    and "r < 32 \<Longrightarrow> safe_word E (\<lambda>c. A64_ADR E r ((int (c_executive_exit c) - int (c_index c)) * 4))"
    and "safe_word E (\<lambda>c. A64_B E (int (c_executive_exit c) - int (c_index c)))"
    and "safe_word E (\<lambda>c. A64_B E (int (c_restricted_exit c) - int (c_index c)))"
    and "r < 32 \<Longrightarrow> t < JIT_MAX_INSNS + 1 \<Longrightarrow>
      safe_word E (\<lambda>c. A64_CBZ E (Suc 0) r (int (c_offset c ! t) - int (c_index c)))"
proof -
  note D = encoders_okD [OF assms]
  note dp = displacement
  have ex: "small c \<Longrightarrow> c_executive_exit c \<le> CBPF_MAX_WORDS" "small c \<Longrightarrow> c_restricted_exit c \<le> CBPF_MAX_WORDS"
    "small c \<Longrightarrow> t < JIT_MAX_INSNS + 1 \<Longrightarrow> c_offset c ! t \<le> CBPF_MAX_WORDS" for c t
    by (simp_all add: small_def)
  have le: "x < 2 ^ 12 \<Longrightarrow> x < 2 ^ 18" "x < 2 ^ 12 \<Longrightarrow> x < 2 ^ 25" "\<bar>y\<bar> < 2 ^ 12 \<Longrightarrow> \<bar>y * 4\<bar> < 2 ^ 20" for x y :: int
    by simp_all
  show "r < 32 \<Longrightarrow> safe_word E (\<lambda>c. A64_MOVZ E (Suc 0) r (of_nat (c_executive_words c) * 4) 0)"
    using executive_words_fit [OF assms] by (simp add: safe_word_def same_layout_def)
  show "r < 32 \<Longrightarrow> safe_word E (\<lambda>c. A64_ADR E r ((int (c_executive_exit c) - int (c_index c)) * 4))"
    unfolding safe_word_def same_layout_def using D(10) le(3) [OF dp [OF _ ex(1)]] by auto
  show "safe_word E (\<lambda>c. A64_B E (int (c_executive_exit c) - int (c_index c)))"
    unfolding safe_word_def same_layout_def using D(12) le(2) [OF dp [OF _ ex(1)]] by auto
  show "safe_word E (\<lambda>c. A64_B E (int (c_restricted_exit c) - int (c_index c)))"
    unfolding safe_word_def same_layout_def using D(12) le(2) [OF dp [OF _ ex(2)]] by auto
  show "r < 32 \<Longrightarrow> t < JIT_MAX_INSNS + 1 \<Longrightarrow>
      safe_word E (\<lambda>c. A64_CBZ E (Suc 0) r (int (c_offset c ! t) - int (c_index c)))"
    unfolding safe_word_def same_layout_def using D(11) le(1) [OF dp [OF _ ex(3)]] by auto
qed

lemma prologue_safe: "encoders_ok E \<Longrightarrow> list_all (safe_word E) (prologue E p)"
  unfolding prologue_def
  by (simp add: immediate_safe clear_safe safe_const safe_operand safe_operand(2) [simplified] encoders_okD)

lemma cap_safe:
  assumes "encoders_ok E" and "\<not> bit v 28"
  shows "safe_word E (\<lambda>c. v)"
  using safe_const no_break [OF encoders_okD(1) [OF assms(1)] assms(2)] by blast

lemma cap_bits:
  "\<not> bit CAP_MOV 28" "\<not> bit CAP_STR 28" "\<not> bit CAP_LDR 28" "\<not> bit CAP_BLRS 28" "\<not> bit CAP_RET_CLR 28"
  "\<not> bit CAP_LDR_C16_SP 28" "\<not> bit CAP_RETR_C16 28" "\<not> bit CAP_GCTAG 28"
  by (simp_all add: CAP_MOV_def CAP_STR_def CAP_LDR_def CAP_BLRS_def CAP_RET_CLR_def CAP_LDR_C16_SP_def
      CAP_RETR_C16_def CAP_GCTAG_def bit_simps)

lemma tail_safe: "encoders_ok E \<Longrightarrow> list_all (safe_word E) (epilogue_tail E)"
  unfolding epilogue_tail_def
  by (simp add: clear_safe safe_const encoders_okD cap_safe cap_bits bit_simps)

text \<open>What admission guarantees of an instruction's operands.\<close>

definition encodable :: "nat \<Rightarrow> nat \<Rightarrow> bpf_insn \<Rightarrow> bool" where
  "encodable len pc i \<longleftrightarrow>
     i_code i \<in> {BPF_ALU64_MOV_X, BPF_ALU64_MOV_K, BPF_STX_MEM_DW, BPF_LDX_MEM_DW, BPF_JMP_JEQ_K,
                 BPF_JMP_CALL, BPF_JMP_EXIT} \<and>
     (i_code i \<in> {BPF_ALU64_MOV_X, BPF_ALU64_MOV_K, BPF_LDX_MEM_DW, BPF_JMP_JEQ_K} \<longrightarrow> unat (i_dst i) \<le> 9) \<and>
     (i_code i \<in> {BPF_ALU64_MOV_X, BPF_STX_MEM_DW} \<longrightarrow> unat (i_src i) \<le> 9) \<and>
     (i_code i = BPF_JMP_JEQ_K \<longrightarrow> 0 < sint (i_off i) \<and> nat (int pc + 1 + sint (i_off i)) < len)"

lemma admit_insn_encodable:
  assumes "admit_insn E len pc i f acq = Inr t"
  shows "encodable len pc i"
proof -
  have n: "nat (1 + (int pc + sint (i_off i))) = Suc (pc + nat (sint (i_off i)))" if "0 < sint (i_off i)"
    using that by linarith
  show ?thesis
    using assms by (auto simp: admit_insn_def encodable_def Let_def n add.assoc split: if_splits)
qed

lemma admitted_encodable:
  assumes "admit E insnsi = Inr a" and "length insnsi \<le> JIT_MAX_INSNS" and "pc < length insnsi"
  shows "encodable (length insnsi) pc (insnsi ! pc)"
proof -
  have "node_ok E insnsi a pc TYPE(nat)" using admit_facts(1) [OF assms(1,2)] assms(3) by blast
  then show ?thesis using admit_insn_encodable by (auto simp: node_ok_def)
qed

lemma native_reg_bound: "unat r \<le> 9 \<Longrightarrow> native_reg r < 32"
proof -
  assume r: "unat r \<le> 9"
  have "\<forall>x \<in> set native_regs. x < 32" by (simp add: native_regs_def)
  moreover have "native_reg r \<in> set native_regs"
    using r unfolding native_reg_def by (intro nth_mem) (simp add: native_regs_def)
  ultimately show ?thesis by blast
qed

definition template_words :: "'z code_env_scheme \<Rightarrow> nat \<Rightarrow> bpf_insn \<Rightarrow> u8 \<Rightarrow> (compiler \<Rightarrow> u32) list" where
  "template_words E pc i operation = the (template E pc i operation)"

lemma template_safe:
  assumes ok: "encoders_ok E" and enc: "encodable len pc i" and len: "len \<le> JIT_MAX_INSNS"
    and pc: "pc < len"
  shows "template E pc i op = Some (template_words E pc i op)"
    and "list_all (safe_word E) (template_words E pc i op)"
    and "1 \<le> length (template_words E pc i op)" and "length (template_words E pc i op) \<le> 5"
proof -
  note D = encoders_okD [OF ok]
  have pcv: "(of_nat pc :: u64) \<le> 0xffff" and opv: "(ucast op :: u64) \<le> 0xffff"
  proof -
    have "unat (of_nat pc :: u64) \<le> pc" unfolding unat_of_nat by (rule mod_less_eq_dividend)
    then show "(of_nat pc :: u64) \<le> 0xffff"
      unfolding word_le_nat_alt using pc len by (simp add: JIT_MAX_INSNS_def)
    have "unat op < 2 ^ LENGTH(8)" by (rule unsigned_less)
    then have "unat op < 256" by simp
    moreover have "unat (ucast op :: u64) \<le> unat op"
      using take_bit_nat_less_eq_self [of 64 "unat op"] by (simp add: unsigned_ucast_eq)
    ultimately show "(ucast op :: u64) \<le> 0xffff" unfolding word_le_nat_alt by simp
  qed
  have reg: "safe_word E (\<lambda>c. v OR push_bit 5 (of_nat r) OR of_nat q)"
    if "\<not> bit v 28" "r < 32" "q < 32" for v :: u32 and r q
    using that reg_bit [of r 23] reg_bit [of q 28] by (intro cap_safe [OF ok]) (simp add: bit_simps)
  have spill: "safe_word E (\<lambda>c. v OR push_bit 5 31 OR of_nat q)" if "\<not> bit v 28" "q < 32" for v :: u32 and q
    using reg [OF that(1), of 31 q] that(2) by simp
  have pads: "safe_word E (\<lambda>c. CAP_MOV OR push_bit 5 30 OR 13)" "safe_word E (\<lambda>c. CAP_BLRS OR push_bit 5 17)"
    "safe_word E (\<lambda>c. CAP_MOV OR push_bit 5 0 OR 7)"
    by (intro cap_safe [OF ok], simp add: bit_simps cap_bits)+
  show "template E pc i op = Some (template_words E pc i op)"
    "1 \<le> length (template_words E pc i op)" "length (template_words E pc i op) \<le> 5"
    using enc by (auto simp: encodable_def template_def template_words_def immediate_def)
  show "list_all (safe_word E) (template_words E pc i op)"
  proof (cases "i_code i = BPF_JMP_JEQ_K")
    case True
    then show ?thesis
      using enc len native_reg_bound
      by (simp add: template_words_def template_def encodable_def safe_operand(5) [OF ok])
  next
    case False
    then show ?thesis
      using enc native_reg_bound reg spill pads
      by (auto simp: template_words_def template_def encodable_def cap_bits immediate_safe [OF ok]
          safe_operand(4) [OF ok] safe_const D pcv opv)
  qed
qed

subsection \<open>The words of a program and their positions\<close>

definition body_words :: "'z code_env_scheme \<Rightarrow> bpf_insn list \<Rightarrow> u8 list \<Rightarrow> nat \<Rightarrow> (compiler \<Rightarrow> u32) list" where
  "body_words E insnsi ops n = concat (map (\<lambda>pc. template_words E pc (insnsi ! pc) (ops ! pc)) [0..<n])"

definition code_words :: "'z code_env_scheme \<Rightarrow> u64 \<Rightarrow> bpf_insn list \<Rightarrow> u8 list \<Rightarrow> (compiler \<Rightarrow> u32) list" where
  "code_words E prog insnsi ops =
     prologue E prog @ body_words E insnsi ops (length insnsi) @ [\<lambda>c. CAP_RET_CLR] @ epilogue_tail E"

definition position :: "'z code_env_scheme \<Rightarrow> u64 \<Rightarrow> bpf_insn list \<Rightarrow> u8 list \<Rightarrow> nat \<Rightarrow> nat" where
  "position E prog insnsi ops pc = length (prologue E prog) + length (body_words E insnsi ops pc)"

lemma body_words_Suc:
  "body_words E insnsi ops (Suc pc) =
     body_words E insnsi ops pc @ template_words E pc (insnsi ! pc) (ops ! pc)"
  by (simp add: body_words_def)

lemma body_words_split:
  "pc < n \<Longrightarrow> body_words E insnsi ops n =
     body_words E insnsi ops pc @ template_words E pc (insnsi ! pc) (ops ! pc) @
     concat (map (\<lambda>pc. template_words E pc (insnsi ! pc) (ops ! pc)) [Suc pc..<n])"
proof -
  assume "pc < n"
  then have "[0..<n] = [0..<pc] @ pc # [Suc pc..<n]"
    using upt_add_eq_append [of 0 pc "n - pc"] upt_conv_Cons [of pc n] by simp
  then show ?thesis by (simp add: body_words_def)
qed

lemma position_Suc:
  "position E prog insnsi ops (Suc pc) =
     position E prog insnsi ops pc + length (template_words E pc (insnsi ! pc) (ops ! pc))"
  by (simp add: position_def body_words_Suc)

subsection \<open>Emission in a pass\<close>

lemma emit_simps [simp]:
  "emit E [] c = c" "emit E (f # fs) c = emit E fs (word E c (f c))"
  by (simp_all add: emit_def)

lemma emit_append: "emit E (fs @ gs) c = emit E gs (emit E fs c)"
  by (simp add: emit_def)

lemma emit_layout:
  assumes "c_image c = None" and "list_all (safe_word E) fs" and "small c"
    and "c_index c + length fs \<le> CBPF_MAX_WORDS"
  shows "emit E fs c = c\<lparr>c_index := c_index c + length fs\<rparr>"
  using assms
proof (induction fs arbitrary: c)
  case (Cons f fs)
  have f: "f c \<noteq> AARCH64_BREAK_FAULT E" using Cons.prems(2,3) by (simp add: safe_word_def)
  then have w: "word E c (f c) = c\<lparr>c_index := c_index c + 1\<rparr>"
    using Cons.prems(1,4) by (simp add: word_def)
  have "small (c\<lparr>c_index := c_index c + 1\<rparr>)" using Cons.prems(3,4) by (simp add: small_def)
  then show ?case using Cons.IH [of "c\<lparr>c_index := c_index c + 1\<rparr>"] Cons.prems w by simp
qed simp

text \<open>
  A later pass is a chain of states, one per position, that the words of the program lead
  through.
\<close>

definition chain :: "'z code_env_scheme \<Rightarrow> (compiler \<Rightarrow> u32) list \<Rightarrow> (nat \<Rightarrow> compiler) \<Rightarrow> bool" where
  "chain E ws St \<longleftrightarrow> (\<forall>k < length ws. word E (St k) ((ws ! k) (St k)) = St (k + 1))"

lemma emit_chain:
  assumes "chain E ws St" and "ws = pre @ fs @ post"
  shows "emit E fs (St (length pre)) = St (length pre + length fs)"
  using assms(2)
proof (induction fs arbitrary: pre)
  case (Cons f fs)
  have "word E (St (length pre)) (f (St (length pre))) = St (length pre + 1)"
    using assms(1) Cons.prems unfolding chain_def by (auto simp: nth_append dest: spec [of _ "length pre"])
  then show ?case using Cons.IH [of "pre @ [f]"] Cons.prems by simp
qed simp

definition written :: "(compiler \<Rightarrow> u32) list \<Rightarrow> compiler \<Rightarrow> u32 list" where
  "written ws c = map (\<lambda>k. (ws ! k) (c\<lparr>c_index := k\<rparr>)) [0..<length ws]"

lemma written_length [simp]: "length (written ws c) = length ws"
  by (simp add: written_def)

lemma safe_nth: "list_all (safe_word E) ws \<Longrightarrow> k < length ws \<Longrightarrow> safe_word E (ws ! k)"
  by (simp add: list_all_length)

lemma written_same:
  assumes "list_all (safe_word E) ws" and "k < length ws" and "same_layout d (c\<lparr>c_index := k\<rparr>)"
  shows "(ws ! k) d = written ws c ! k"
proof -
  have "(ws ! k) d = (ws ! k) (c\<lparr>c_index := k\<rparr>)"
    using safe_nth [OF assms(1,2)] assms(3) unfolding safe_word_def by blast
  then show ?thesis using assms(2) by (simp add: written_def)
qed

lemma write_chain:
  assumes safe: "list_all (safe_word E) ws" and len: "length ws = c_words c" "c_words c \<le> CBPF_MAX_WORDS"
    and fill: "length fill = length ws" and small: "small (c\<lparr>c_index := 0\<rparr>)" and "\<not> c_check c"
  shows "chain E ws (\<lambda>k. c\<lparr>c_index := k, c_image := Some (take k (written ws c) @ drop k fill)\<rparr>)"
  unfolding chain_def
proof (intro allI impI)
  fix k assume k: "k < length ws"
  let ?d = "c\<lparr>c_index := k, c_image := Some (take k (written ws c) @ drop k fill)\<rparr>"
  have v: "(ws ! k) ?d = written ws c ! k"
    by (rule written_same [OF safe k]) (simp add: same_layout_def)
  have "small ?d" using small k len by (simp add: small_def)
  then have nb: "written ws c ! k \<noteq> AARCH64_BREAK_FAULT E"
    using safe_nth [OF safe k] v unfolding safe_word_def by metis
  have "drop k fill = fill ! k # drop (Suc k) fill" using k fill by (simp add: Cons_nth_drop_Suc)
  then have upd: "(take k (written ws c) @ drop k fill)[k := written ws c ! k] =
      take (Suc k) (written ws c) @ drop (Suc k) fill"
    using k by (simp add: list_update_append take_Suc_conv_app_nth)
  show "word E ?d ((ws ! k) ?d) =
      c\<lparr>c_index := k + 1, c_image := Some (take (k + 1) (written ws c) @ drop (k + 1) fill)\<rparr>"
    unfolding v using k len nb assms(6) by (simp add: word_def upd)
qed

lemma check_chain:
  assumes safe: "list_all (safe_word E) ws" and len: "length ws = c_words c" "c_words c \<le> CBPF_MAX_WORDS"
    and small: "small (c\<lparr>c_index := 0\<rparr>)" and img: "c_image c = Some (written ws c)" and "c_check c"
  shows "chain E ws (\<lambda>k. c\<lparr>c_index := k\<rparr>)"
  unfolding chain_def
proof (intro allI impI)
  fix k assume k: "k < length ws"
  let ?d = "c\<lparr>c_index := k\<rparr>"
  have v: "(ws ! k) ?d = written ws c ! k"
    by (rule written_same [OF safe k]) (simp add: same_layout_def)
  have "small ?d" using small k len by (simp add: small_def)
  then have nb: "written ws c ! k \<noteq> AARCH64_BREAK_FAULT E"
    using safe_nth [OF safe k] v unfolding safe_word_def by metis
  show "word E ?d ((ws ! k) ?d) = c\<lparr>c_index := k + 1\<rparr>"
    unfolding v using k len nb assms(6) img by (simp add: word_def)
qed

subsection \<open>The passes\<close>

text \<open>The states of a later pass: at their positions, over the recorded layout.\<close>

definition laid_out :: "'z code_env_scheme \<Rightarrow> u64 \<Rightarrow> bpf_insn list \<Rightarrow> u8 list \<Rightarrow> compiler \<Rightarrow> bool" where
  "laid_out E prog insnsi ops c \<longleftrightarrow>
     c_prog c = prog \<and> c_insnsi c = insnsi \<and> c_operation c = ops \<and> c_image c \<noteq> None \<and>
     c_restricted_exit c = position E prog insnsi ops (length insnsi) \<and>
     c_executive_exit c = position E prog insnsi ops (length insnsi) + 1 \<and>
     c_executive_words c = length (epilogue_tail E) \<and>
     (\<forall>pc \<le> length insnsi. c_offset c ! pc = position E prog insnsi ops pc)"

lemma generate_chain:
  assumes ch: "chain E (code_words E prog insnsi ops) St"
    and st: "\<And>k. laid_out E prog insnsi ops (St k)" "\<And>k. c_index (St k) = k"
    and tp: "\<And>pc. pc < length insnsi \<Longrightarrow>
      template E pc (insnsi ! pc) (ops ! pc) = Some (template_words E pc (insnsi ! pc) (ops ! pc))"
    and start: "c\<lparr>c_index := 0\<rparr> = St 0"
  shows "generate E c = St (length (code_words E prog insnsi ops))"
proof -
  let ?P = "prologue E prog" and ?B = "body_words E insnsi ops" and ?n = "length insnsi"
  let ?pos = "position E prog insnsi ops" and ?T = "epilogue_tail E"
  have sel: "c_prog (St k) = prog" "c_insnsi (St k) = insnsi" "c_operation (St k) = ops"
    "c_image (St k) \<noteq> None" "c_restricted_exit (St k) = ?pos ?n" "c_executive_exit (St k) = ?pos ?n + 1"
    "c_executive_words (St k) = length ?T" "pc \<le> ?n \<Longrightarrow> c_offset (St k) ! pc = ?pos pc" for k pc
    using st(1) [of k] by (simp_all add: laid_out_def)
  have "c_prog c = prog" using sel(1) [of 0] start by (metis compiler.select_convs(1) compiler.update_convs(6) compiler.surjective)
  then have pro: "emit E (prologue E (c_prog c)) (c\<lparr>c_index := 0\<rparr>) = St (?pos 0)"
    using emit_chain [OF ch, of "[]" ?P] start by (simp add: code_words_def position_def body_words_def)
  have step: "body_step E pc (St (?pos pc)) = St (?pos (pc + 1))" if "pc < ?n" for pc
  proof -
    have rec: "record_offset pc (St (?pos pc)) = St (?pos pc)"
      using sel(4,8) st(2) that by (simp add: record_offset_def del: not_None_eq)
    have "code_words E prog insnsi ops = (?P @ ?B pc) @ template_words E pc (insnsi ! pc) (ops ! pc) @
        (concat (map (\<lambda>pc. template_words E pc (insnsi ! pc) (ops ! pc)) [Suc pc..<?n]) @ [\<lambda>c. CAP_RET_CLR] @ ?T)"
      using body_words_split [OF that, of E insnsi ops] by (simp add: code_words_def)
    from emit_chain [OF ch this] show ?thesis
      using rec sel(2,3) tp [OF that] by (simp add: body_step_def position_def body_words_Suc add.assoc)
  qed
  have "fold (body_step E) [0..<m] (St (?pos 0)) = St (?pos m)" if "m \<le> ?n" for m
    using that
  proof (induction m)
    case (Suc m)
    then show ?case using step [of m] by simp
  qed simp
  then have bod: "body E (St (?pos 0)) = St (?pos ?n)"
    using sel(2,4,8) st(2) by (simp add: body_def record_offset_def del: not_None_eq)
  have "code_words E prog insnsi ops = (?P @ ?B ?n) @ [\<lambda>c. CAP_RET_CLR] @ ?T" by (simp add: code_words_def)
  from emit_chain [OF ch this] have ret: "emit E [\<lambda>c. CAP_RET_CLR] (St (?pos ?n)) = St (?pos ?n + 1)"
    by (simp add: position_def)
  have "code_words E prog insnsi ops = (?P @ ?B ?n @ [\<lambda>c. CAP_RET_CLR]) @ ?T @ []" by (simp add: code_words_def)
  from emit_chain [OF ch this] have tail: "emit E ?T (St (?pos ?n + 1)) = St (?pos ?n + 1 + length ?T)"
    by (simp add: position_def)
  have "epilogue E (St (?pos ?n)) = St (?pos ?n + 1 + length ?T)"
    unfolding epilogue_def Let_def using ret tail sel(4-7) st(2) by (simp del: not_None_eq)
  moreover have "length (code_words E prog insnsi ops) = ?pos ?n + 1 + length ?T"
    by (simp add: code_words_def position_def)
  ultimately show ?thesis by (simp add: generate_def pro bod)
qed

text \<open>The layout pass.\<close>

definition layout_of :: "'z code_env_scheme \<Rightarrow> u64 \<Rightarrow> bpf_insn list \<Rightarrow> u8 list \<Rightarrow> nat \<Rightarrow> nat list \<Rightarrow> nat list" where
  "layout_of E prog insnsi ops m offsets = map (position E prog insnsi ops) [0..<m] @ drop m offsets"

lemma layout_of_Suc:
  assumes "m < length offsets"
  shows "(layout_of E prog insnsi ops m offsets)[m := position E prog insnsi ops m] =
    layout_of E prog insnsi ops (Suc m) offsets"
proof -
  have "drop m offsets = offsets ! m # drop (Suc m) offsets" using assms by (simp add: Cons_nth_drop_Suc)
  then show ?thesis by (simp add: layout_of_def list_update_append)
qed

lemma position_mono: "m \<le> n \<Longrightarrow> position E prog insnsi ops m \<le> position E prog insnsi ops n"
proof (induction n)
  case (Suc n)
  then show ?case by (cases "m = Suc n") (simp_all add: position_Suc)
qed simp

lemma small_layout:
  assumes "small c" and "m \<le> n" and "n \<le> length (c_offset c)" and "position E prog insnsi ops n \<le> CBPF_MAX_WORDS"
    and "k \<le> CBPF_MAX_WORDS"
  shows "small (c\<lparr>c_index := k, c_offset := layout_of E prog insnsi ops m (c_offset c)\<rparr>)"
proof -
  have "position E prog insnsi ops x \<le> CBPF_MAX_WORDS" if "x < m" for x
    using position_mono [of x n E prog insnsi ops] assms(2,4) that by simp
  then show ?thesis
    using assms by (auto simp: small_def layout_of_def dest: in_set_dropD)
qed

lemma generate_layout:
  assumes ok: "encoders_ok E" and img: "c_image c = None" and small: "small (c\<lparr>c_index := 0\<rparr>)"
    and n: "length (c_insnsi c) \<le> JIT_MAX_INSNS"
    and tp: "\<And>pc. pc < length (c_insnsi c) \<Longrightarrow>
      template E pc (c_insnsi c ! pc) (c_operation c ! pc) =
        Some (template_words E pc (c_insnsi c ! pc) (c_operation c ! pc)) \<and>
      list_all (safe_word E) (template_words E pc (c_insnsi c ! pc) (c_operation c ! pc))"
    and fits: "length (code_words E (c_prog c) (c_insnsi c) (c_operation c)) \<le> CBPF_MAX_WORDS"
  shows "generate E c = c\<lparr>c_index := length (code_words E (c_prog c) (c_insnsi c) (c_operation c)),
    c_offset := layout_of E (c_prog c) (c_insnsi c) (c_operation c) (length (c_insnsi c) + 1) (c_offset c),
    c_restricted_exit := position E (c_prog c) (c_insnsi c) (c_operation c) (length (c_insnsi c)),
    c_executive_exit := position E (c_prog c) (c_insnsi c) (c_operation c) (length (c_insnsi c)) + 1,
    c_executive_words := length (epilogue_tail E)\<rparr>"
proof -
  let ?n = "length (c_insnsi c)" and ?T = "epilogue_tail E"
  let ?pos = "position E (c_prog c) (c_insnsi c) (c_operation c)"
  let ?lay = "\<lambda>m. layout_of E (c_prog c) (c_insnsi c) (c_operation c) m (c_offset c)"
  let ?S = "\<lambda>m. c\<lparr>c_index := ?pos m, c_offset := ?lay m\<rparr>"
  have total: "length (code_words E (c_prog c) (c_insnsi c) (c_operation c)) = ?pos ?n + 1 + length ?T"
    by (simp add: code_words_def position_def)
  have pm: "?pos m \<le> CBPF_MAX_WORDS" if "m \<le> ?n" for m
    using position_mono [OF that, of E "c_prog c" "c_insnsi c" "c_operation c"] fits total by simp
  have lo: "length (c_offset c) = JIT_MAX_INSNS + 1" using small by (simp add: small_def)
  have sm: "small (c\<lparr>c_index := k, c_offset := ?lay m\<rparr>)" if "m \<le> ?n" "k \<le> CBPF_MAX_WORDS" for m k
    using small_layout [OF small, of m ?n E "c_prog c" "c_insnsi c" "c_operation c" k] that pm [of ?n] n lo by simp
  have pro: "emit E (prologue E (c_prog c)) (c\<lparr>c_index := 0\<rparr>) = ?S 0"
    using emit_layout [OF _ prologue_safe [OF ok] small] img pm [of 0]
    by (simp add: position_def body_words_def layout_of_def)
  have step: "body_step E m (?S m) = ?S (m + 1)" if m: "m < ?n" for m
  proof -
    have rec: "record_offset m (?S m) = c\<lparr>c_index := ?pos m, c_offset := ?lay (Suc m)\<rparr>"
      using img layout_of_Suc [of m "c_offset c" E "c_prog c" "c_insnsi c" "c_operation c"] m n lo by (simp add: record_offset_def)
    have nx: "?pos (Suc m) = ?pos m + length (template_words E m (c_insnsi c ! m) (c_operation c ! m))"
      by (rule position_Suc)
    have "emit E (template_words E m (c_insnsi c ! m) (c_operation c ! m))
        (c\<lparr>c_index := ?pos m, c_offset := ?lay (Suc m)\<rparr>) = ?S (Suc m)"
      using emit_layout [OF _ conjunct2 [OF tp [OF m]] sm [of "Suc m" "?pos m"]] img m pm [of m] pm [of "Suc m"] nx
      by simp
    then show ?thesis using rec tp [OF m] by (simp add: body_step_def)
  qed
  have "fold (body_step E) [0..<m] (?S 0) = ?S m" if "m \<le> ?n" for m
    using that
  proof (induction m)
    case (Suc m)
    then show ?case using step [of m] by simp
  qed simp
  then have bod: "body E (?S 0) = c\<lparr>c_index := ?pos ?n, c_offset := ?lay (?n + 1)\<rparr>"
    using img layout_of_Suc [of ?n "c_offset c" E "c_prog c" "c_insnsi c" "c_operation c"] n lo by (simp add: body_def record_offset_def)
  have lo_less: "?n < length (c_offset c)" using lo n by simp
  let ?B = "c\<lparr>c_index := ?pos ?n, c_offset := ?lay (?n + 1), c_restricted_exit := ?pos ?n\<rparr>"
  let ?R = "?B\<lparr>c_index := ?pos ?n + 1, c_executive_exit := ?pos ?n + 1\<rparr>"
  have le: "?pos ?n + 1 + length ?T \<le> CBPF_MAX_WORDS" using fits total by simp
  have sB: "small ?B" and sR: "small ?R"
  proof -
    have "small (c\<lparr>c_index := k, c_offset := ?lay (?n + 1)\<rparr>)" if "k \<le> CBPF_MAX_WORDS" for k
    proof -
      have "small (c\<lparr>c_index := k, c_offset := ?lay (Suc ?n)\<rparr>)"
        unfolding layout_of_Suc [of ?n "c_offset c", symmetric, OF lo_less]
        using sm [OF le_refl that] pm [OF le_refl] by (auto simp: small_def dest!: set_update_subset_insert [THEN subsetD])
      then show ?thesis by simp
    qed
    then show "small ?B" "small ?R" using le by (simp_all add: small_def)
  qed
  have ret: "emit E [\<lambda>c. CAP_RET_CLR] ?B = ?B\<lparr>c_index := ?pos ?n + 1\<rparr>"
    using emit_layout [OF _ _ sB, of E "[\<lambda>c. CAP_RET_CLR]"] img le cap_safe [OF ok cap_bits(5)] by simp
  have tail: "emit E ?T ?R = ?R\<lparr>c_index := ?pos ?n + 1 + length ?T\<rparr>"
    using emit_layout [OF _ tail_safe [OF ok] sR] img le by simp
  have "epilogue E (c\<lparr>c_index := ?pos ?n, c_offset := ?lay (?n + 1)\<rparr>) =
      ?R\<lparr>c_index := ?pos ?n + 1 + length ?T, c_executive_words := length ?T\<rparr>"
    unfolding epilogue_def Let_def using ret tail img by simp
  then show ?thesis by (simp add: generate_def pro bod total)
qed

subsection \<open>Compilation\<close>

lemma prologue_length: "length (prologue E prog) \<le> 58"
  by (simp add: prologue_def immediate_def clear_registers_def upt_rec)

lemma tail_length: "1 \<le> length (epilogue_tail E)" "length (epilogue_tail E) \<le> 47"
  by (simp_all add: epilogue_tail_def clear_registers_def upt_rec)

lemma body_length:
  assumes "encoders_ok E" and "length insnsi \<le> JIT_MAX_INSNS"
    and "\<And>pc. pc < length insnsi \<Longrightarrow> encodable (length insnsi) pc (insnsi ! pc)" and "n \<le> length insnsi"
  shows "n \<le> length (body_words E insnsi ops n) \<and> length (body_words E insnsi ops n) \<le> 5 * n"
  using assms(4)
proof (induction n)
  case (Suc n)
  then show ?case
    using template_safe(3,4) [OF assms(1) assms(3) assms(2), of n "ops ! n"]
    by (simp add: body_words_Suc)
qed (simp add: body_words_def)

lemma body_safe:
  assumes "encoders_ok E" and "length insnsi \<le> JIT_MAX_INSNS"
    and "\<And>pc. pc < length insnsi \<Longrightarrow> encodable (length insnsi) pc (insnsi ! pc)" and "n \<le> length insnsi"
  shows "list_all (safe_word E) (body_words E insnsi ops n)"
  using assms(4)
proof (induction n)
  case (Suc n)
  then show ?case
    using template_safe(2) [OF assms(1) assms(3) assms(2), of n "ops ! n"] by (simp add: body_words_Suc)
qed (simp add: body_words_def)

lemma native_code_safe:
  assumes ok: "encoders_ok E" and adm: "admit E (pg_insnsi prog) = Inr a"
    and n: "length (pg_insnsi prog) \<le> JIT_MAX_INSNS"
  shows "list_all (safe_word E) (code_words E (pg_address prog) (pg_insnsi prog) (a_operation a))"
    and "length (code_words E (pg_address prog) (pg_insnsi prog) (a_operation a)) \<le> 426"
proof -
  note enc = admitted_encodable [OF adm n]
  show "list_all (safe_word E) (code_words E (pg_address prog) (pg_insnsi prog) (a_operation a))"
    using prologue_safe [OF ok] body_safe [OF ok n enc le_refl] tail_safe [OF ok] cap_safe [OF ok cap_bits(5)]
    by (simp add: code_words_def)
  show "length (code_words E (pg_address prog) (pg_insnsi prog) (a_operation a)) \<le> 426"
    using body_length [OF ok n enc le_refl, of "a_operation a"] n prologue_length [of E "pg_address prog"]
      tail_length [of E]
    by (simp add: code_words_def JIT_MAX_INSNS_def)
qed

text \<open>The context after the layout pass, for an admitted program.\<close>

definition laid_context :: "'z code_env_scheme \<Rightarrow> bpf_prog \<Rightarrow> u8 list \<Rightarrow> compiler" where
  "laid_context E prog ops =
     (let pos = position E (pg_address prog) (pg_insnsi prog) ops;
          n = length (pg_insnsi prog);
          total = length (code_words E (pg_address prog) (pg_insnsi prog) ops)
      in (new_compiler prog ops)
           \<lparr>c_index := total, c_words := total,
            c_offset := layout_of E (pg_address prog) (pg_insnsi prog) ops (n + 1) (replicate (JIT_MAX_INSNS + 1) 0),
            c_restricted_exit := pos n, c_executive_exit := pos n + 1,
            c_executive_words := length (epilogue_tail E)\<rparr>)"

definition native_code :: "'z code_env_scheme \<Rightarrow> bpf_prog \<Rightarrow> u8 list \<Rightarrow> u32 list" where
  "native_code E prog ops =
     written (code_words E (pg_address prog) (pg_insnsi prog) ops) (laid_context E prog ops)"

lemma laid_context_sel:
  "c_prog (laid_context E prog ops) = pg_address prog" "c_insnsi (laid_context E prog ops) = pg_insnsi prog"
  "c_operation (laid_context E prog ops) = ops" "c_check (laid_context E prog ops) = False"
  "c_failed (laid_context E prog ops) = False"
  "c_index (laid_context E prog ops) = length (code_words E (pg_address prog) (pg_insnsi prog) ops)"
  "c_words (laid_context E prog ops) = length (code_words E (pg_address prog) (pg_insnsi prog) ops)"
  "c_restricted_exit (laid_context E prog ops) =
     position E (pg_address prog) (pg_insnsi prog) ops (length (pg_insnsi prog))"
  "c_executive_exit (laid_context E prog ops) =
     position E (pg_address prog) (pg_insnsi prog) ops (length (pg_insnsi prog)) + 1"
  "c_executive_words (laid_context E prog ops) = length (epilogue_tail E)"
  "pc \<le> length (pg_insnsi prog) \<Longrightarrow>
     c_offset (laid_context E prog ops) ! pc = position E (pg_address prog) (pg_insnsi prog) ops pc"
  by (simp_all add: laid_context_def Let_def new_compiler_def layout_of_def nth_append del: upt_Suc)

lemma laid_context_small:
  assumes "length (pg_insnsi prog) \<le> JIT_MAX_INSNS"
    and "length (code_words E (pg_address prog) (pg_insnsi prog) ops) \<le> CBPF_MAX_WORDS" and "k \<le> CBPF_MAX_WORDS"
  shows "small (laid_context E prog ops\<lparr>c_index := k\<rparr>)"
proof -
  let ?pos = "position E (pg_address prog) (pg_insnsi prog) ops"
  have le: "?pos (length (pg_insnsi prog)) + 1 + length (epilogue_tail E) \<le> CBPF_MAX_WORDS"
    using assms(2) by (simp add: code_words_def position_def)
  have "?pos pc \<le> CBPF_MAX_WORDS" if "pc \<le> length (pg_insnsi prog)" for pc
    using position_mono [OF that, of E "pg_address prog" "pg_insnsi prog" ops] le by simp
  then show ?thesis
    using le assms(1,3)
    by (auto simp: small_def laid_context_def Let_def new_compiler_def layout_of_def less_Suc_eq_le simp del: upt_Suc)
qed

text \<open>
  The second pass over the laid-out context writes the native code, the third finds it as it
  would write it.
\<close>

lemma passes_write:
  assumes ok: "encoders_ok E" and adm: "admit E (pg_insnsi p) = Inr a" and n: "length (pg_insnsi p) \<le> JIT_MAX_INSNS"
    and tp: "\<And>pc. pc < length (pg_insnsi p) \<Longrightarrow>
      template E pc (pg_insnsi p ! pc) (a_operation a ! pc) =
        Some (template_words E pc (pg_insnsi p ! pc) (a_operation a ! pc)) \<and>
      list_all (safe_word E) (template_words E pc (pg_insnsi p ! pc) (a_operation a ! pc))"
    and fits: "length (code_words E (pg_address p) (pg_insnsi p) (a_operation a)) \<le> CBPF_MAX_WORDS"
  defines "L \<equiv> laid_context E p (a_operation a)" and "W \<equiv> native_code E p (a_operation a)"
    and "fill \<equiv> fill_hole E (length (code_words E (pg_address p) (pg_insnsi p) (a_operation a)) * 4)"
  shows "generate E (L\<lparr>c_image := Some fill\<rparr>) = L\<lparr>c_image := Some W\<rparr>"
    and "generate E (L\<lparr>c_image := Some W, c_check := True\<rparr>) = L\<lparr>c_image := Some W, c_check := True\<rparr>"
proof -
  let ?ws = "code_words E (pg_address p) (pg_insnsi p) (a_operation a)"
  let ?t = "length ?ws" and ?St = "\<lambda>k. L\<lparr>c_index := k, c_image := Some (take k W @ drop k fill)\<rparr>"
  note safe = native_code_safe(1) [OF ok adm n]
  have len: "length fill = ?t" by (simp add: fill_def fill_hole_def)
  note sel = laid_context_sel [where E = E and prog = p and ops = "a_operation a", folded L_def]
  have smL: "small (L\<lparr>c_index := k\<rparr>)" if "k \<le> CBPF_MAX_WORDS" for k
    unfolding L_def by (rule laid_context_small [OF n fits that])
  have chw: "chain E ?ws ?St"
    unfolding W_def native_code_def L_def [symmetric]
    by (rule write_chain [OF safe]) (use sel fits len smL in simp_all)
  have "generate E (L\<lparr>c_image := Some fill\<rparr>) = ?St ?t"
    by (rule generate_chain [OF chw]) (use tp sel in \<open>simp_all add: laid_out_def\<close>)
  then show "generate E (L\<lparr>c_image := Some fill\<rparr>) = L\<lparr>c_image := Some W\<rparr>"
    using len sel(6) by (simp add: W_def native_code_def)
  let ?C = "L\<lparr>c_image := Some W, c_check := True\<rparr>"
  have same: "written ?ws ?C = W"
  proof (rule nth_equalityI)
    show "length (written ?ws ?C) = length W" by (simp add: W_def native_code_def)
    fix k assume "k < length (written ?ws ?C)"
    then have k: "k < ?t" by simp
    have "(?ws ! k) (?C\<lparr>c_index := k\<rparr>) = written ?ws L ! k"
      by (rule written_same [OF safe k]) (simp add: same_layout_def)
    then show "written ?ws ?C ! k = W ! k" using k by (simp add: written_def W_def native_code_def L_def)
  qed
  have "chain E ?ws (\<lambda>k. ?C\<lparr>c_index := k\<rparr>)"
    by (rule check_chain [OF safe]) (use sel fits smL [of 0] same in \<open>simp_all add: small_def\<close>)
  then have "generate E ?C = ?C\<lparr>c_index := ?t\<rparr>"
    by (rule generate_chain) (use tp sel in \<open>simp_all add: laid_out_def\<close>)
  then show "generate E ?C = ?C" using sel(6) by simp
qed

lemma line_info:
  assumes n: "length (pg_insnsi p) \<le> JIT_MAX_INSNS" and lo: "length (c_offset (laid_context E p ops)) = JIT_MAX_INSNS + 1"
  shows "drop 1 (map (\<lambda>n. n * 4) (take (length (pg_insnsi p) + 1) (c_offset (laid_context E p ops)))) =
    map (\<lambda>pc. position E (pg_address p) (pg_insnsi p) ops (pc + 1) * 4) [0..<length (pg_insnsi p)]"
    (is "?drop = ?positions")
proof (rule nth_equalityI)
  show "length ?drop = length ?positions" using lo n by simp
  fix k assume "k < length ?drop"
  then have "k < length (pg_insnsi p)" using lo n by simp
  then show "?drop ! k = ?positions ! k"
    using laid_context_sel(11) [of "Suc k" p E ops] lo n by simp
qed

lemma compile_accepts:
  fixes prog :: bpf_prog
  defines "p \<equiv> prog\<lparr>pg_cbpf_gate := True\<rparr>"
  assumes sup: "jit_supported p" and mem: "je_kzalloc E" "\<And>n. je_binary_alloc E n"
    and ok: "encoders_ok E" and adm: "admit E (pg_insnsi p) = Inr a"
  defines "pos \<equiv> position E (pg_address p) (pg_insnsi p) (a_operation a)"
  shows "cbpf_jit_compile E prog =
      (0, p\<lparr>pg_bpf_func := Some (native_code E p (a_operation a)),
            pg_jited_len := length (native_code E p (a_operation a)) * 4, pg_jited := True,
            pg_linfo := map (\<lambda>pc. pos (pc + 1) * 4) [0..<length (pg_insnsi p)]\<rparr>)"
    and "length (native_code E p (a_operation a)) \<le> 426"
proof -
  let ?is = "pg_insnsi p" and ?ops = "a_operation a" and ?ad = "pg_address p"
  let ?n = "length ?is" and ?ws = "code_words E ?ad ?is ?ops" and ?L = "laid_context E p ?ops"
  have n: "?n \<le> JIT_MAX_INSNS" using sup by (simp add: jit_supported_def)
  have total: "length ?ws \<le> 426" "1 \<le> length ?ws"
    using native_code_safe(2) [OF ok adm n] by (simp_all add: code_words_def)
  then have fits: "length ?ws \<le> CBPF_MAX_WORDS" by (simp add: CBPF_MAX_WORDS_def)
  have tp: "template E pc (?is ! pc) (?ops ! pc) = Some (template_words E pc (?is ! pc) (?ops ! pc)) \<and>
      list_all (safe_word E) (template_words E pc (?is ! pc) (?ops ! pc))" if "pc < ?n" for pc
    using template_safe(1,2) [OF ok admitted_encodable [OF adm n that] n that] by blast
  have sm0: "small (new_compiler p ?ops\<lparr>c_index := 0\<rparr>)"
    by (simp add: small_def new_compiler_def CBPF_MAX_WORDS_def)
  define c1 where "c1 = generate E (new_compiler p ?ops)"
  have nc: "c_image (new_compiler p ?ops) = None" "c_insnsi (new_compiler p ?ops) = ?is"
    "c_operation (new_compiler p ?ops) = ?ops" "c_prog (new_compiler p ?ops) = ?ad"
    "c_offset (new_compiler p ?ops) = replicate (JIT_MAX_INSNS + 1) 0"
    by (simp_all add: new_compiler_def)
  have lay: "c1\<lparr>c_words := c_index c1\<rparr> = ?L" "c_failed ?L = False" "c_words ?L = length ?ws"
    unfolding c1_def using generate_layout [OF ok nc(1) sm0, unfolded nc, OF n tp fits]
    by (simp_all add: laid_context_def Let_def new_compiler_def)
  note sel = laid_context_sel [where E = E and prog = p and ops = ?ops]
  have "small (?L\<lparr>c_index := 0\<rparr>)" by (rule laid_context_small [OF n fits]) simp
  then have lin: "drop 1 (map (\<lambda>n. n * 4) (take (?n + 1) (c_offset ?L))) = map (\<lambda>pc. pos (pc + 1) * 4) [0..<?n]"
    unfolding pos_def by (intro line_info n) (simp add: small_def)
  show "length (native_code E p ?ops) \<le> 426" using total(1) by (simp add: native_code_def)
  have "?ws \<noteq> []" using total(2) by auto
  then show "cbpf_jit_compile E prog = (0, p\<lparr>pg_bpf_func := Some (native_code E p (a_operation a)),
      pg_jited_len := length (native_code E p (a_operation a)) * 4, pg_jited := True,
      pg_linfo := map (\<lambda>pc. pos (pc + 1) * 4) [0..<length (pg_insnsi p)]\<rparr>)"
    unfolding cbpf_jit_compile_def Let_def p_def [symmetric]
    using sup mem adm lay passes_write [OF ok adm n tp fits] sel lin
    by (simp add: c1_def [symmetric] native_code_def)
qed

subsection \<open>What the image holds\<close>

text \<open>The words of an instruction, from the positions \<open>loc\<close> of all instructions and of the exit.\<close>

definition instruction_words ::
    "'z code_env_scheme \<Rightarrow> (nat \<Rightarrow> nat) \<Rightarrow> nat \<Rightarrow> nat \<Rightarrow> bpf_insn \<Rightarrow> u32 list" where
  "instruction_words E loc n pc i =
     (if i_code i = BPF_ALU64_MOV_X then
        [CAP_MOV OR push_bit 5 (of_nat (native_reg (i_src i))) OR of_nat (native_reg (i_dst i))]
      else if i_code i = BPF_ALU64_MOV_K then
        A64_MOVZ E 1 (native_reg (i_dst i)) (scast (i_imm i) AND 0xffff) 0 #
        map (\<lambda>s. A64_MOVK E 1 (native_reg (i_dst i)) (drop_bit s (scast (i_imm i)) AND 0xffff) s) [16, 32, 48]
      else if i_code i = BPF_STX_MEM_DW then [CAP_STR OR push_bit 5 31 OR of_nat (native_reg (i_src i))]
      else if i_code i = BPF_LDX_MEM_DW then [CAP_LDR OR push_bit 5 31 OR of_nat (native_reg (i_dst i))]
      else if i_code i = BPF_JMP_JEQ_K then
        [A64_CBZ E 1 (native_reg (i_dst i)) (int (loc (pc + 1 + nat (sint (i_off i)))) - int (loc pc))]
      else if i_code i = BPF_JMP_CALL then
        [A64_MOVZ E 1 (A64_R E 4) (ucast (call_operation E i)) 0, A64_MOVZ E 1 (A64_R E 5) (of_nat pc) 0,
         CAP_MOV OR push_bit 5 30 OR 13, CAP_BLRS OR push_bit 5 17, CAP_MOV OR push_bit 5 0 OR 7]
      else [A64_B E (int (loc n) - int (loc pc))])"

lemma drop_take_eq:
  assumes "n + length ys \<le> length xs" and "\<And>j. j < length ys \<Longrightarrow> xs ! (n + j) = ys ! j"
  shows "take (length ys) (drop n xs) = ys"
proof (rule nth_equalityI)
  show "length (take (length ys) (drop n xs)) = length ys" using assms(1) by simp
  fix i assume "i < length (take (length ys) (drop n xs))"
  then have "i < length ys" by simp
  then show "take (length ys) (drop n xs) ! i = ys ! i" using assms by simp
qed

lemma code_words_nth:
  assumes "pc < length insnsi" and "j < length (template_words E pc (insnsi ! pc) (ops ! pc))"
  shows "code_words E prog insnsi ops ! (position E prog insnsi ops pc + j) =
      template_words E pc (insnsi ! pc) (ops ! pc) ! j"
    and "position E prog insnsi ops pc + j < position E prog insnsi ops (length insnsi)"
proof -
  let ?T = "template_words E pc (insnsi ! pc) (ops ! pc)"
  note sp = body_words_split [OF assms(1), of E insnsi ops]
  show "code_words E prog insnsi ops ! (position E prog insnsi ops pc + j) = ?T ! j"
    using assms(2) by (simp add: code_words_def position_def sp nth_append add.assoc)
  show "position E prog insnsi ops pc + j < position E prog insnsi ops (length insnsi)"
    using assms(2) by (simp add: position_def sp)
qed

lemma admitted_operation:
  assumes adm: "admit E insnsi = Inr a" and n: "length insnsi \<le> JIT_MAX_INSNS" and pc: "pc < length insnsi"
    and "i_code (insnsi ! pc) = BPF_JMP_CALL"
  shows "a_operation a ! pc = call_operation E (insnsi ! pc)"
proof -
  have "node_ok E insnsi a pc TYPE(nat)" using admit_facts(1) [OF adm n] pc by blast
  then obtain t f acq where t: "admit_insn E (length insnsi) pc (insnsi ! pc) f acq = Inr t"
    "a_operation a ! pc = t_operation t"
    by (auto simp: node_ok_def)
  have "admit_call E (insnsi ! pc) f acq = Inr t" using t(1) assms(4) by (simp add: admit_insn_def Let_def)
  then show ?thesis using t(2) by (auto simp: admit_call_def Let_def split: if_splits)
qed

lemma native_code_block:
  fixes prog :: bpf_prog
  assumes ok: "encoders_ok E" and adm: "admit E (pg_insnsi prog) = Inr a"
    and n: "length (pg_insnsi prog) \<le> JIT_MAX_INSNS" and pc: "pc < length (pg_insnsi prog)"
  defines "loc \<equiv> position E (pg_address prog) (pg_insnsi prog) (a_operation a)"
  defines "iw \<equiv> instruction_words E loc (length (pg_insnsi prog)) pc (pg_insnsi prog ! pc)"
  shows "take (length iw) (drop (loc pc) (native_code E prog (a_operation a))) = iw"
    and "loc (pc + 1) = loc pc + length iw" and "iw \<noteq> []"
proof -
  let ?is = "pg_insnsi prog" and ?ops = "a_operation a"
  let ?i = "?is ! pc" and ?L = "laid_context E prog (a_operation a)"
  let ?T = "template_words E pc ?i (?ops ! pc)"
  have enc: "encodable (length ?is) pc ?i" by (rule admitted_encodable [OF adm n pc])
  note sel = laid_context_sel [where E = E and prog = prog and ops = ?ops]
  have op: "i_code ?i = BPF_JMP_CALL \<Longrightarrow> ?ops ! pc = call_operation E ?i"
    by (rule admitted_operation [OF adm n pc])
  have eval: "map (\<lambda>j. (?T ! j) (?L\<lparr>c_index := loc pc + j\<rparr>)) [0..<length ?T] = iw"
  proof (cases "i_code ?i = BPF_JMP_JEQ_K")
    case True
    then have off: "0 < sint (i_off ?i)" "nat (int pc + 1 + sint (i_off ?i)) < length ?is"
      using enc by (auto simp: encodable_def)
    then have tgt: "nat (int pc + 1 + sint (i_off ?i)) = pc + 1 + nat (sint (i_off ?i))" by linarith
    have T: "?T = [\<lambda>c. A64_CBZ E 1 (native_reg (i_dst ?i))
        (int (c_offset c ! nat (int pc + 1 + sint (i_off ?i))) - int (c_index c))]"
      using True by (simp add: template_words_def template_def)
    have "c_offset ?L ! (pc + 1 + nat (sint (i_off ?i))) = loc (pc + 1 + nat (sint (i_off ?i)))"
      unfolding loc_def by (rule sel(11)) (use off tgt in simp)
    then show ?thesis
      unfolding T tgt using True by (simp add: iw_def instruction_words_def)
  next
    case False
    then show ?thesis
      using enc op sel(8)
      by (auto simp: encodable_def iw_def instruction_words_def template_words_def template_def
          immediate_def upt_rec loc_def)
  qed
  have len: "length iw = length ?T" using eval [symmetric] by simp
  show "loc (pc + 1) = loc pc + length iw" unfolding loc_def len by (simp add: position_Suc)
  show "iw \<noteq> []" using template_safe(3) [OF ok enc n pc, of "?ops ! pc"] len by auto
  have tot: "loc (length ?is) \<le> length (native_code E prog ?ops)"
    by (simp add: native_code_def code_words_def loc_def position_def)
  show "take (length iw) (drop (loc pc) (native_code E prog (a_operation a))) = iw"
  proof (rule drop_take_eq)
    have "loc (pc + 1) \<le> loc (length ?is)" unfolding loc_def using pc by (intro position_mono) simp
    then show "loc pc + length iw \<le> length (native_code E prog ?ops)"
      using tot len by (simp add: loc_def position_Suc)
    fix j assume "j < length iw"
    then have j: "j < length ?T" using len by simp
    have "native_code E prog ?ops ! (loc pc + j) = (?T ! j) (?L\<lparr>c_index := loc pc + j\<rparr>)"
      using code_words_nth [OF pc j, of "pg_address prog"] tot
      by (simp add: native_code_def written_def loc_def)
    also have "\<dots> = iw ! j" unfolding eval [symmetric] using j by simp
    finally show "native_code E prog ?ops ! (loc pc + j) = iw ! j" .
  qed
qed

lemma native_code_no_break:
  assumes "encoders_ok E" and "admit E (pg_insnsi prog) = Inr a" and "length (pg_insnsi prog) \<le> JIT_MAX_INSNS"
  shows "AARCH64_BREAK_FAULT E \<notin> set (native_code E prog (a_operation a))"
proof
  let ?ws = "code_words E (pg_address prog) (pg_insnsi prog) (a_operation a)"
  let ?L = "laid_context E prog (a_operation a)"
  note safe = native_code_safe [OF assms]
  have fits: "length ?ws \<le> CBPF_MAX_WORDS" using safe(2) by (simp add: CBPF_MAX_WORDS_def)
  assume "AARCH64_BREAK_FAULT E \<in> set (native_code E prog (a_operation a))"
  then obtain k where k: "k < length ?ws" "(?ws ! k) (?L\<lparr>c_index := k\<rparr>) = AARCH64_BREAK_FAULT E"
    by (auto simp: native_code_def written_def)
  have "small (?L\<lparr>c_index := k\<rparr>)"
    by (rule laid_context_small [OF assms(3) fits]) (use k fits in simp)
  then show False using safe_nth [OF safe(1) k(1)] k(2) unfolding safe_word_def by blast
qed

lemma native_code_exit:
  "native_code E prog ops ! position E (pg_address prog) (pg_insnsi prog) ops (length (pg_insnsi prog)) = CAP_RET_CLR"
  by (simp add: native_code_def written_def code_words_def position_def nth_append)

end
