(* ===== verification/JitCodeTheorems.thy ===== *)
theory JitCodeTheorems
  imports JitLayout JitGuest
begin

text \<open>The properties of code generation.\<close>

text \<open>
  C20. Compilation of an admitted program succeeds when memory is available and the encoders
  accept operands in their documented range. The image has at most 426 words, none of them
  the break word. Each instruction's words stand at its position; positions are those
  reported to the kernel's line table; a NULL test branches to its target's position, an
  exit to the one exit word, and a gate call carries its operation and index.
\<close>

theorem compile_image:
  fixes prog :: bpf_prog
  defines "p \<equiv> prog\<lparr>pg_cbpf_gate := True\<rparr>"
  assumes "jit_supported p" and "je_kzalloc E" and "\<And>n. je_binary_alloc E n" and "encoders_ok E"
    and "admit E (pg_insnsi prog) = Inr a"
  shows "\<exists>code loc. cbpf_jit_compile E prog =
      (0, p\<lparr>pg_bpf_func := Some code, pg_jited_len := length code * 4, pg_jited := True,
            pg_linfo := map (\<lambda>pc. loc (pc + 1) * 4) [0..<length (pg_insnsi p)]\<rparr>) \<and>
    length code \<le> 426 \<and> AARCH64_BREAK_FAULT E \<notin> set code \<and>
    (\<forall>pc < length (pg_insnsi p).
       let ws = instruction_words E loc (length (pg_insnsi p)) pc (pg_insnsi p ! pc)
       in ws \<noteq> [] \<and> loc (pc + 1) = loc pc + length ws \<and> take (length ws) (drop (loc pc) code) = ws) \<and>
    code ! loc (length (pg_insnsi p)) = CAP_RET_CLR"
proof -
  let ?ops = "a_operation a"
  let ?code = "native_code E p ?ops" and ?loc = "position E (pg_address p) (pg_insnsi p) ?ops"
  have adm: "admit E (pg_insnsi p) = Inr a" using assms(6) by (simp add: p_def)
  have n: "length (pg_insnsi p) \<le> JIT_MAX_INSNS" using assms(2) by (simp add: jit_supported_def)
  note acc = compile_accepts [of prog E a, folded p_def, OF assms(2-5) adm]
  note blk = native_code_block [OF assms(5) adm n]
  have "\<forall>pc < length (pg_insnsi p).
       let ws = instruction_words E ?loc (length (pg_insnsi p)) pc (pg_insnsi p ! pc)
       in ws \<noteq> [] \<and> ?loc (pc + 1) = ?loc pc + length ws \<and> take (length ws) (drop (?loc pc) ?code) = ws"
    unfolding Let_def using blk by blast
  then show ?thesis
    using acc native_code_no_break [OF assms(5) adm n] native_code_exit [of E p ?ops] by blast
qed

text \<open>Encoders that accept every operand but the misaligned offset of a store, for the examples.\<close>

definition sample_code_env :: code_env where
  "sample_code_env =
     \<lparr>je_func_addr = je_func_addr sample_env, je_acquire = je_acquire sample_env,
      je_read = je_read sample_env, je_release = je_release sample_env,
      A64_MOVZ = (\<lambda>_ r v s. of_nat r), A64_MOVK = (\<lambda>_ r v s. of_nat r), A64_MOV = (\<lambda>_ r q. of_nat r),
      A64_PUSH = (\<lambda>r q b. of_nat r), A64_POP = (\<lambda>r q b. of_nat r), A64_SUB_I = (\<lambda>_ r q n. of_nat r),
      A64_ADD_I = (\<lambda>_ r q n. of_nat r), A64_STR64I = (\<lambda>r q n. if n mod 8 = 0 then of_nat r else 0xd4202000), A64_ADR = (\<lambda>r d. of_nat r),
      A64_CBZ = (\<lambda>_ r d. of_nat r), A64_B = (\<lambda>d. 1), A64_BLR = of_nat, A64_RET = of_nat,
      A64_R = (\<lambda>n. n), A64_LR = 30, A64_FP = 29, A64_SP = 31, A64_ZR = 31, A64_NOP = 2,
      A64_BTI_JC = 3, A64_PACIASP = 4, A64_AUTIASP = 5, AARCH64_BREAK_FAULT = 0xd4202000,
      je_bti = True, je_ptr_auth = True, je_enter = 0xffff000, je_kzalloc = True,
      je_binary_alloc = (\<lambda>n. True)\<rparr>"

lemma sample_encoders: "encoders_ok sample_code_env"
proof -
  have "of_nat r \<noteq> (0xd4202000 :: u32)" if "r < 32" for r
    using no_break [of sample_code_env "of_nat r"] reg_bit [OF that, of 28]
    by (simp add: sample_code_env_def bit_simps)
  then show ?thesis by (simp add: encoders_ok_def sample_code_env_def bit_simps)
qed

definition sample_prog :: bpf_prog where
  "sample_prog =
     \<lparr>pg_address = 0x9000, pg_insnsi = guest_program sample_ids, pg_jit_requested = True,
      pg_blinding = False, pg_sched_cls = True, pg_is_func = False, pg_func_cnt = 0,
      pg_func_info_cnt = 0, pg_used_map_cnt = 0, pg_cbpf_gate = False, pg_bpf_func = None,
      pg_jited_len = 0, pg_jited = False, pg_linfo = []\<rparr>"

lemma sample_admits: "\<exists>a. admit sample_code_env (pg_insnsi sample_prog) = Inr a"
proof -
  have "resolves sample_ids sample_code_env"
    by (simp add: resolves_def sample_ids_def sample_code_env_def sample_env_def call_operation_def CALL_def INSN_def)
  from guest_runs(2) [OF this, of 0] show ?thesis by (simp add: guest_case_def sample_prog_def)
qed

lemma sample_supported: "jit_supported (sample_prog\<lparr>pg_cbpf_gate := True\<rparr>)"
  by (simp add: jit_supported_def sample_prog_def guest_program_def JIT_MAX_INSNS_def)

theorem compile_image_witness:
  "fst (cbpf_jit_compile sample_code_env sample_prog) = 0 \<and>
   pg_jited (snd (cbpf_jit_compile sample_code_env sample_prog))"
proof -
  obtain a where "admit sample_code_env (pg_insnsi sample_prog) = Inr a" using sample_admits by blast
  moreover have "je_kzalloc sample_code_env" "\<And>n. je_binary_alloc sample_code_env n"
    by (simp_all add: sample_code_env_def)
  ultimately show ?thesis
    using compile_image [OF sample_supported _ _ sample_encoders, of a] by force
qed

text \<open>Generation never resizes the image, and errors of admission are two.\<close>

definition image_frame :: "compiler \<Rightarrow> nat option \<times> nat" where
  "image_frame c = (map_option length (c_image c), c_words c)"

lemma fail_frame: "image_frame (fail c) = image_frame c"
  by (simp add: image_frame_def fail_def)

lemma word_frame: "image_frame (word E c w) = image_frame c"
  by (auto simp: image_frame_def word_def fail_def Let_def split: option.splits)

lemma emit_frame: "image_frame (emit E fs c) = image_frame c"
  by (induction fs arbitrary: c) (simp_all add: word_frame)

lemma offset_frame: "image_frame (record_offset pc c) = image_frame c"
  by (simp add: record_offset_def fail_frame) (simp add: image_frame_def)

lemma body_frame: "image_frame (body E c) = image_frame c"
proof -
  have "image_frame (body_step E pc c) = image_frame c" for pc c
    by (simp add: body_step_def Let_def emit_frame fail_frame offset_frame split: option.split)
  then have "image_frame (fold (body_step E) pcs c) = image_frame c" for pcs
    by (induction pcs arbitrary: c) simp_all
  then show ?thesis by (simp add: body_def offset_frame)
qed

lemma epilogue_frame: "image_frame (epilogue E c) = image_frame c"
proof -
  have upd: "image_frame (c\<lparr>c_restricted_exit := n\<rparr>) = image_frame c"
    "image_frame (c\<lparr>c_executive_exit := n\<rparr>) = image_frame c"
    "image_frame (c\<lparr>c_executive_words := n\<rparr>) = image_frame c" for c n
    by (simp_all add: image_frame_def)
  show ?thesis by (simp add: epilogue_def Let_def emit_frame fail_frame upd if_distrib [of image_frame] del: emit_simps)
qed

lemma generate_frame: "image_frame (generate E c) = image_frame c"
  by (simp add: generate_def epilogue_frame body_frame emit_frame) (simp add: image_frame_def)

lemma admit_insn_error: "admit_insn E len pc i f acq = Inl e \<Longrightarrow> e \<in> {- EINVAL, - EOPNOTSUPP}"
  by (auto simp: admit_insn_def admit_call_def Let_def split: if_splits)

lemma admit_from_error: "admit_from E insnsi pc a = Inl e \<Longrightarrow> e \<in> {- EINVAL, - EOPNOTSUPP}"
proof (induction E insnsi pc a rule: admit_from.induct)
  case (1 E insnsi pc a)
  show ?case
  proof (cases "pc < length insnsi")
    case True
    show ?thesis
    proof (cases "admit_step E insnsi pc a")
      case (Inl d)
      then have "e = d" using "1.prems" True by (simp add: admit_from.simps [of E insnsi pc])
      then show ?thesis
        using Inl
        by (auto simp: admit_step_def Let_def split: if_splits sum.splits dest: admit_insn_error)
    next
      case (Inr b)
      then show ?thesis using "1.IH" [OF True Inr] "1.prems" True by (simp add: admit_from.simps [of E insnsi pc])
    qed
  qed (use "1.prems" in \<open>simp add: admit_from.simps [of E insnsi pc]\<close>)
qed

lemma admit_error: "admit E insnsi = Inl e \<Longrightarrow> e \<in> {- EINVAL, - EOPNOTSUPP}"
  by (auto simp: admit_def split: sum.splits if_splits dest: admit_from_error)

lemma compile_supported:
  assumes sup: "jit_supported prog" "je_kzalloc E" and adm: "admit E (pg_insnsi prog) = Inr a"
  obtains c where "image_frame c = (Some (c_words c), c_words c)"
    "cbpf_jit_compile E prog \<in> {(- EINVAL, prog\<lparr>pg_cbpf_gate := True\<rparr>), (- ENOMEM, prog\<lparr>pg_cbpf_gate := True\<rparr>)} \<or>
     c_words c \<noteq> 0 \<and> cbpf_jit_compile E prog = (0, prog\<lparr>pg_cbpf_gate := True, pg_bpf_func := c_image c,
       pg_jited_len := c_words c * 4, pg_jited := True,
       pg_linfo := drop 1 (map (\<lambda>n. n * 4) (take (length (pg_insnsi prog) + 1) (c_offset c)))\<rparr>)"
proof -
  let ?p = "prog\<lparr>pg_cbpf_gate := True\<rparr>"
  have sup': "jit_supported ?p = jit_supported prog" by (simp add: jit_supported_def)
  define c0 where "c0 = generate E (new_compiler ?p (a_operation a))"
  define c1 where "c1 = c0\<lparr>c_words := c_index c0\<rparr>"
  define c2 where "c2 = generate E (c1\<lparr>c_image := Some (fill_hole E (c_words c1 * 4))\<rparr>)"
  define c3 where "c3 = generate E (c2\<lparr>c_check := True\<rparr>)"
  have res: "cbpf_jit_compile E prog =
      (if c_failed c1 \<or> c_words c1 = 0 then (- EINVAL, ?p)
       else if \<not> je_binary_alloc E (c_words c1 * 4) then (- ENOMEM, ?p)
       else if c_failed c3 \<or> c_index c3 \<noteq> c_words c3 then (- EINVAL, ?p)
       else (0, ?p\<lparr>pg_bpf_func := c_image c3, pg_jited_len := c_words c3 * 4, pg_jited := True,
         pg_linfo := drop 1 (map (\<lambda>n. n * 4) (take (length (pg_insnsi ?p) + 1) (c_offset c3)))\<rparr>))"
    unfolding cbpf_jit_compile_def Let_def c3_def c2_def c1_def c0_def using sup sup' adm by simp
  have "image_frame c3 = (Some (c_words c1), c_words c1)"
    unfolding c3_def c2_def using generate_frame [of E]
    by (simp add: image_frame_def fill_hole_def)
  then have "image_frame c3 = (Some (c_words c3), c_words c3)" "c_words c3 = c_words c1"
    by (simp_all add: image_frame_def)
  then show thesis using res by (intro that [of c3]) auto
qed

lemma compile_cases:
  assumes "cbpf_jit_compile E prog = (error, p)"
  obtains (rejected) "error \<in> {- EINVAL, - ENOMEM, - EOPNOTSUPP}" "p = prog\<lparr>pg_cbpf_gate := True\<rparr>"
    | (accepted) a c where "error = 0" "jit_supported prog" "admit E (pg_insnsi prog) = Inr a"
        "image_frame c = (Some (c_words c), c_words c)" "c_words c \<noteq> 0"
        "p = prog\<lparr>pg_cbpf_gate := True, pg_bpf_func := c_image c, pg_jited_len := c_words c * 4, pg_jited := True,
          pg_linfo := drop 1 (map (\<lambda>n. n * 4) (take (length (pg_insnsi prog) + 1) (c_offset c)))\<rparr>"
proof (cases "jit_supported prog \<and> je_kzalloc E")
  case False
  have "jit_supported (prog\<lparr>pg_cbpf_gate := True\<rparr>) = jit_supported prog" by (simp add: jit_supported_def)
  then show ?thesis using assms False rejected by (auto simp: cbpf_jit_compile_def Let_def)
next
  case True
  then have sup: "jit_supported (prog\<lparr>pg_cbpf_gate := True\<rparr>)" by (simp add: jit_supported_def)
  show ?thesis
  proof (cases "admit E (pg_insnsi prog)")
    case (Inl e)
    then show ?thesis
      using assms sup True rejected admit_error [OF Inl] by (auto simp: cbpf_jit_compile_def Let_def)
  next
    case (Inr a)
    obtain c where c: "image_frame c = (Some (c_words c), c_words c)"
      "cbpf_jit_compile E prog \<in> {(- EINVAL, prog\<lparr>pg_cbpf_gate := True\<rparr>), (- ENOMEM, prog\<lparr>pg_cbpf_gate := True\<rparr>)} \<or>
       c_words c \<noteq> 0 \<and> cbpf_jit_compile E prog = (0, prog\<lparr>pg_cbpf_gate := True, pg_bpf_func := c_image c,
         pg_jited_len := c_words c * 4, pg_jited := True,
         pg_linfo := drop 1 (map (\<lambda>n. n * 4) (take (length (pg_insnsi prog) + 1) (c_offset c)))\<rparr>)"
      using compile_supported [OF _ _ Inr] True by metis
    then show ?thesis using assms True Inr accepted [of a c] rejected by auto
  qed
qed

text \<open>
  C21. A program that is not accepted, for whatever reason, comes back without native code and
  marked as using the gates, so that it is never interpreted instead; an accepted one is
  supported, admitted, and holds exactly the words it reports. The mark is final: the
  compiler recognises the program from then on.
\<close>

theorem compile_verdict:
  assumes "cbpf_jit_compile E prog = (error, p)"
  shows "error \<in> {0, - EINVAL, - ENOMEM, - EOPNOTSUPP} \<and> pg_cbpf_gate p \<and>
    cbpf_jit_match E (pg_insnsi p) (pg_cbpf_gate p) = (True, True) \<and>
    (error \<noteq> 0 \<longrightarrow> p = prog\<lparr>pg_cbpf_gate := True\<rparr>) \<and>
    (error = 0 \<longrightarrow> jit_supported prog \<and> (\<exists>a. admit E (pg_insnsi prog) = Inr a) \<and>
       (\<exists>code. pg_bpf_func p = Some code \<and> code \<noteq> [] \<and> pg_jited p \<and> pg_jited_len p = length code * 4))"
proof -
  have neg: "- EINVAL \<noteq> 0" "- ENOMEM \<noteq> 0" "- EOPNOTSUPP \<noteq> 0"
    by (simp_all add: EINVAL_def ENOMEM_def EOPNOTSUPP_def)
  have match: "cbpf_jit_match E insnsi True = (True, True)" for insnsi
    by (simp add: cbpf_jit_match_def)
  from assms show ?thesis
  proof (cases rule: compile_cases)
    case rejected
    then show ?thesis using neg match by auto
  next
    case (accepted a c)
    then obtain code where "c_image c = Some code" "length code = c_words c"
      by (auto simp: image_frame_def)
    then show ?thesis using accepted match by auto
  qed
qed

theorem compile_verdict_witness:
  "cbpf_jit_compile sample_code_env (sample_prog\<lparr>pg_is_func := True\<rparr>) =
     (- EOPNOTSUPP, sample_prog\<lparr>pg_is_func := True, pg_cbpf_gate := True\<rparr>)"
proof -
  let ?q = "sample_prog\<lparr>pg_is_func := True\<rparr>"
  obtain e p where r: "cbpf_jit_compile sample_code_env ?q = (e, p)" by fastforce
  have e: "e = - EOPNOTSUPP"
    using r by (auto simp: cbpf_jit_compile_def Let_def jit_supported_def split: if_splits)
  then have "e \<noteq> 0" by (simp add: EOPNOTSUPP_def)
  with compile_verdict [OF r] have "p = ?q\<lparr>pg_cbpf_gate := True\<rparr>" by blast
  then show ?thesis using r e by simp
qed

end
