(* ===== verification/Spec2Isabelle.thy ===== *)
theory Spec2Isabelle
  imports Retained Liveness Exceptions OrdinaryCalls GateTotal SpatialSystem Integration KfuncProps GateDemoProps Bridge CheriProbe KernelTheorems JitTheorems JitCodeTheorems
begin

text \<open>
  cBPF studies two interface grants of eBPF programs on CHERI/Morello: the bytes of one map
  value (the spatial study) and a single consumable right per acquisition of a reference (the
  ownership study). This development models the C code of both studies and proves what makes
  it correct. A path below is relative to the root of the repository.

  \<^bold>\<open>The ownership study.\<close> The idea is the same at every level: an acquisition
  creates a right, aliases of it may be copied and spilled freely, a release consumes it once,
  and whatever is left is consumed by a terminal cleanup. Theory \<open>Ownership\<close> states this
  protocol on its own: its state (\<open>own\<close>), its step relation (\<open>own_step\<close>) with an executable form,
  its invariant, and its interfaces. \<open>acquisition_store\<close> is a store of cells that implements
  the protocol's cleanup; \<open>observer\<close> is a log whose lines are protocol steps, from which "no
  use after the consuming line" follows; \<open>acquisition_observer\<close> adds the lines that issue, from
  which "each of them is followed by the one that consumes" follows when nothing is live at the
  end. Each level provides them; \<open>Liveness\<close> has the consequences for the gates.

  \<^item> \<open>src/cbpf.h\<close>, \<open>src/cbpf.c\<close> (reference machine): theory \<open>Reference\<close> has the validator, the
    interpreter and the cleanup, one definition per function or label; \<open>ReferenceCorrect\<close> its
    invariant, \<open>ReferenceTrace\<close> the event trace and the progress of the loop, \<open>ReferenceProps\<close>
    the properties. \<open>Renaming\<close> shows that register and slot names do not matter.
  \<^item> \<open>src/gate.h\<close>, \<open>src/gate.c\<close> (trusted gate): theory \<open>Gate\<close>, over a \<open>platform\<close> that is the host or
    a capability machine. \<open>GateCorrect\<close> relates its loop to the reference machine inside the
    interface \<open>gate_platform\<close>, which \<open>GateProps\<close> discharges for the host and for every purecap
    platform; \<open>GateTotal\<close> shows that it returns on any platform at all.
  \<^item> \<open>src/demo.c\<close>, \<open>src/gate_demo.c\<close>, \<open>src/cheri_demo.c\<close> and \<open>tools/conformance_bridge.c\<close>: theories
    \<open>Demo\<close>, \<open>GateDemo\<close> with \<open>GateDemoProps\<close>, \<open>CheriProbe\<close> and \<open>Bridge\<close>. The programs run to
    their successful end; the probe's loads are capability loads, which need tag, permission and
    bounds; the adapter transports programs and results without loss and refuses exactly the rest.
  \<^item> \<open>linux/ownership/cbpf_runtime.c\<close> (kernel gates): theory \<open>KernelGate\<close> has the gate, the
    restricted entry and the invocation, \<open>KernelChecks\<close> the boot checks. Native code is a tree
    of calls (\<open>native\<close>), so the properties in \<open>KernelTheorems\<close> hold for whatever code runs.
    \<open>KernelCorrect\<close> and \<open>KernelProps\<close> hold the invariant and the protocol's log. \<open>OrdinaryCalls\<close>
    has the bodies of the kfuncs, on which an admitted program acquires nothing.
  \<^item> \<open>linux/ownership/platform.patch\<close>: theory \<open>Exceptions\<close>, the save areas that keep the restricted
    registers over exceptions, on a processor with several tasks and nested exceptions, where
    handlers and debuggers may store into the frames.
  \<^item> \<open>linux/ownership/cbpf_jit.c\<close> (compiler): \<open>Jit\<close> has the admission pass, \<open>JitCode\<close> the three
    generation passes and the compilation. \<open>JitAdmit\<close> gives the admitted instructions a
    meaning in which misuse is stuck and shows that no admitted program is; \<open>JitLayout\<close> and
    \<open>JitCodeTheorems\<close> are about the image. \<open>JitProgram\<close>, \<open>JitRun\<close>, \<open>BpfLift\<close>, \<open>JitRefine\<close> and
    \<open>JitGuest\<close> execute programs over a \<open>gate_runtime\<close> (abstract gates, the kernel's or the
    module's) and refine one by the other (\<open>gate_refinement\<close>); \<open>JitTheorems\<close> has the results.
  \<^item> \<open>linux/ownership/integration.patch\<close>: theory \<open>Integration\<close>, the branches that send matching
    programs to this compiler and confine them to test runs.
  \<^item> \<open>linux/ownership/guest.c\<close>: \<open>OwnGuest\<close> and \<open>OwnGuestProps\<close>, the loader of seven fixtures on a
    kernel with these gates and this compiler (locale \<open>ownership_kernel\<close>). \<open>Retained\<close> has its first
    version and the earlier initialisations of the gates, from \<open>evidence/current\<close>.
  \<^item> \<open>linux/kfunc/cbpf_kfunc.c\<close> and \<open>guest.c\<close>: \<open>Kfunc\<close> is the module with its accounting,
    \<open>KfuncRun\<close> runs programs over it, \<open>KfuncPrograms\<close> the loader's program builder,
    \<open>KfuncGuest\<close> the loader. \<open>KfuncKernel\<close> is the interface of a kernel that behaves as
    documented, \<open>KfuncChecks\<close> and \<open>KfuncProps\<close> the checks and the properties. The shared object's
    reference count is the kernel's \<open>refcount_t\<close>, which saturates: it is exact as long as fewer
    than 2^31 - 1 acquisitions were ever live at once, and never zero.

  \<^bold>\<open>The spatial study.\<close> A lookup grants the bytes of one value, not its stride and not
  the allocation.

  \<^item> \<open>linux/spatial/array-authority.patch\<close>: theory \<open>ArrayAuthority\<close> has the creation of a
    map, plain, per-CPU or mappable, with the root that is kept, the lookup that narrows it,
    the gateway before it and the end of the map;
    \<open>ArrayProps\<close> shows containment for everything derived from a result, and the life of a map.
    \<open>ValueAuthority\<close> places the values in memory and has the accesses that a lookup's result
    permits, no more and no fewer than the bytes of its value.
  \<^item> \<open>linux/spatial/native-guest.c\<close>: \<open>SpatialProgram\<close> has its program with a meaning on map values
    that have an extent, \<open>SpatialGuest\<close> the control in its stages, \<open>SpatialJournal\<close> its run with a
    journal of its system calls, \<open>SpatialProps\<close> what it does on
    a kernel as documented (locale \<open>spatial_kernel\<close>) and on every kernel.
    \<open>ArraySample\<close> is a small machine with one array, and \<open>SpatialSystem\<close> a kernel with that
    array, on which the guest passes.

  \<^bold>\<open>Conventions.\<close> Structures are records, enumerations datatypes, integers words of
  their width; counters whose bounds are proved are naturals. A fallible function returns an
  option or a sum with the error on the left. Loops are \<open>c_loop\<close> of theory \<open>Prelude\<close>, whose
  value \<open>None\<close> is a loop that does not end; that the loops end is proved through its interface
  \<open>bounded_loop\<close>. What is not code of the repository is an argument: capability intrinsics
  (\<open>cheri\<close>, theory \<open>Capability\<close>), allocators, the encoders of the compiler, and system calls.
  Their documented behaviour is a named predicate or a locale, and a sample of each carries
  the witnesses. The loaders are operations of a state monad (theory \<open>GuestOps\<close>) on the
  kernel's state, the verifier's log and the output, which is modelled to the character. A test
  run is a call with its attributes, the packet and the repeat count included. What the verifier
  says of a rejected program is assumed as the logs under \<open>evidence/current\<close> record it.

  \<^bold>\<open>Bounds and fuel.\<close> A program of the reference machine has at most 64 instructions and
  jumps forward only, so its trace has at most 66 events. An execution of an admitted program,
  or of the spatial one, is given as many steps as the program has instructions, which is
  enough as branches go forward; running out would be visible as a stuck execution, and
  is proved not to occur. An admitted program has at most 426 words of native code.

  \<^bold>\<open>Not modelled.\<close> Inline assembly and the machine code it stands for: entering and leaving
  the restricted state is what the registers are afterwards. The instruction encoders, the control
  bits \<open>linux/ownership/platform.patch\<close> sets at boot, and the kernel
  functions the patches extend, beyond what they show. The inherited compiler of programs with map accesses, which
  is not in the repository. Log lines of the compiler and of the spatial observation patch.
  Registration of the module's functions with the verifier, whose decisions are arguments of
  the loaders. The guest build of the gate demonstration, which powers off instead of
  returning. Speculation and other processors: an invocation runs with bottom halves disabled on
  one, and an interrupt of it touches the registers \<open>Exceptions\<close> is about, not the gates' state.
  Under \<open>evidence\<close> and \<open>output\<close>: copies of these sources, two earlier spatial guests, which differ in
  the size of the value and in text, and the receipts of recorded runs. The shell and Python tools and
  the texts.
\<close>

end
